(* ===== verification/Ordered_Containers.thy ===== *)
theory Ordered_Containers
  imports Rust_Prelude
begin

text \<open>
  Rust's ordered containers. A \<open>BTreeMap\<close> is an association list in strictly increasing
  key order, so iteration, equality and length are those of the list; a \<open>BinaryHeap\<close> of
  \<open>Reverse\<close> entries is the sorted list of its entries, so peeking and popping take the
  least. The laws the components rely on are stated as two locales and interpreted here on
  these operations.
\<close>

section \<open>BTreeMap\<close>

type_synonym ('k, 'v) btree = "('k \<times> 'v) list"

fun bt_insert :: "'k::linorder \<Rightarrow> 'v \<Rightarrow> ('k, 'v) btree \<Rightarrow> ('k, 'v) btree" where
  "bt_insert k v [] = [(k, v)]"
| "bt_insert k v ((a, b) # m) =
     (if k < a then (k, v) # (a, b) # m
      else if k = a then (k, v) # m
      else (a, b) # bt_insert k v m)"

definition bt_get :: "('k, 'v) btree \<Rightarrow> 'k \<Rightarrow> 'v option" where
  "bt_get m k = map_of m k"

definition bt_remove :: "'k \<Rightarrow> ('k, 'v) btree \<Rightarrow> ('k, 'v) btree" where
  "bt_remove k m = filter (\<lambda>e. fst e \<noteq> k) m"

definition bt_retain :: "('k \<Rightarrow> bool) \<Rightarrow> ('k, 'v) btree \<Rightarrow> ('k, 'v) btree" where
  "bt_retain p m = filter (\<lambda>e. p (fst e)) m"

definition bt_keys :: "('k, 'v) btree \<Rightarrow> 'k list" where
  "bt_keys m = map fst m"

definition bt_contains_key :: "('k, 'v) btree \<Rightarrow> 'k \<Rightarrow> bool" where
  "bt_contains_key m k = (bt_get m k \<noteq> None)"

definition bt_of_list :: "('k::linorder \<times> 'v) list \<Rightarrow> ('k, 'v) btree" where
  "bt_of_list kvs = fold (\<lambda>(k, v) m. bt_insert k v m) kvs []"

definition bt_wf :: "('k::linorder, 'v) btree \<Rightarrow> bool" where
  "bt_wf m \<longleftrightarrow> sorted_wrt (<) (map fst m)"

text \<open>The contract of a finite map, as the components use it.\<close>

locale finite_map =
  fixes empty :: 'm
    and ins :: "'k \<Rightarrow> 'v \<Rightarrow> 'm \<Rightarrow> 'm"
    and del :: "'k \<Rightarrow> 'm \<Rightarrow> 'm"
    and look :: "'m \<Rightarrow> 'k \<Rightarrow> 'v option"
    and wf :: "'m \<Rightarrow> bool"
  assumes wf_empty: "wf empty"
    and wf_ins: "wf m \<Longrightarrow> wf (ins k v m)"
    and wf_del: "wf m \<Longrightarrow> wf (del k m)"
    and look_empty: "look empty k = None"
    and look_ins: "wf m \<Longrightarrow> look (ins k v m) l = (if l = k then Some v else look m l)"
    and look_del: "wf m \<Longrightarrow> look (del k m) l = (if l = k then None else look m l)"
begin

lemma dom_ins: "wf m \<Longrightarrow> dom (look (ins k v m)) = insert k (dom (look m))"
  by (auto simp: look_ins dom_def)

lemma dom_del: "wf m \<Longrightarrow> dom (look (del k m)) = dom (look m) - {k}"
  by (auto simp: look_del dom_def)

lemma wf_fold_ins: "wf m \<Longrightarrow> wf (fold (\<lambda>(k, v) m. ins k v m) kvs m)"
  by (induction kvs arbitrary: m) (auto intro: wf_ins)

lemma look_fold_ins:
  "wf m \<Longrightarrow> distinct (map fst kvs) \<Longrightarrow>
   look (fold (\<lambda>(k, v) m. ins k v m) kvs m) l =
     (case map_of kvs l of Some v \<Rightarrow> Some v | None \<Rightarrow> look m l)"
proof (induction kvs arbitrary: m)
  case (Cons kv kvs)
  obtain k v where kv: "kv = (k, v)" by (cases kv)
  have "wf (ins k v m)" using Cons.prems(1) by (rule wf_ins)
  then have "look (fold (\<lambda>(k, v) m. ins k v m) kvs (ins k v m)) l =
      (case map_of kvs l of Some v \<Rightarrow> Some v | None \<Rightarrow> look (ins k v m) l)"
    using Cons.IH Cons.prems by (simp add: kv)
  moreover have "map_of kvs k = None"
    using Cons.prems(2) by (simp add: kv map_of_eq_None_iff)
  ultimately show ?case using Cons.prems(1)
    by (cases "l = k") (simp_all add: kv look_ins split: option.split)
qed simp

lemma dom_fold_ins:
  "wf m \<Longrightarrow> dom (look (fold (\<lambda>(k, v) m. ins k v m) kvs m)) = fst ` set kvs \<union> dom (look m)"
proof (induction kvs arbitrary: m)
  case (Cons kv kvs)
  obtain k v where kv: "kv = (k, v)" by (cases kv)
  show ?case using Cons.IH [OF wf_ins [OF Cons.prems]] Cons.prems by (simp add: kv dom_ins)
qed simp

end

lemma bt_insert_keys: "fst ` set (bt_insert k v m) = insert k (fst ` set m)"
  by (induction k v m rule: bt_insert.induct) auto

lemma bt_insert_wf: "bt_wf m \<Longrightarrow> bt_wf (bt_insert k v m)"
proof (induction k v m rule: bt_insert.induct)
  case (2 k v a b m)
  then show ?case
    using bt_insert_keys [of k v m] by (auto simp: bt_wf_def intro: less_trans)
qed (simp add: bt_wf_def)

lemma bt_get_insert: "bt_get (bt_insert k v m) l = (if l = k then Some v else bt_get m l)"
  by (induction k v m rule: bt_insert.induct) (auto simp: bt_get_def)

lemma bt_filter_wf: "bt_wf m \<Longrightarrow> bt_wf (filter p m)"
  by (induction m) (auto simp: bt_wf_def)

lemma bt_get_remove: "bt_get (bt_remove k m) l = (if l = k then None else bt_get m l)"
  by (induction m) (auto simp: bt_get_def bt_remove_def)

lemma bt_get_retain: "bt_get (bt_retain p m) l = (if p l then bt_get m l else None)"
  by (induction m) (auto simp: bt_get_def bt_retain_def)

lemma bt_retain_wf: "bt_wf m \<Longrightarrow> bt_wf (bt_retain p m)"
  by (simp add: bt_retain_def bt_filter_wf)

lemma bt_remove_wf: "bt_wf m \<Longrightarrow> bt_wf (bt_remove k m)"
  by (simp add: bt_remove_def bt_filter_wf)

interpretation bt: finite_map "[]" bt_insert bt_remove bt_get bt_wf
  by unfold_locales (simp_all add: bt_insert_wf bt_remove_wf bt_get_insert bt_get_remove,
      simp_all add: bt_wf_def bt_get_def)

lemmas bt_get_simps [simp] = bt_get_insert bt_get_remove bt_get_retain
lemmas bt_wf_intros [intro] = bt.wf_ins bt.wf_del bt_retain_wf

lemma bt_wf_Nil [simp]: "bt_wf []"
  by (simp add: bt_wf_def)

lemma bt_get_Nil [simp]: "bt_get [] = Map.empty"
  by (simp add: bt_get_def [abs_def])

lemma bt_wf_distinct: "bt_wf m \<Longrightarrow> distinct (map fst m)"
  by (auto simp: bt_wf_def strict_sorted_iff)

lemma bt_of_list_wf [simp]: "bt_wf (bt_of_list kvs)"
  unfolding bt_of_list_def by (rule bt.wf_fold_ins) simp

lemma bt_of_list_get:
  "distinct (map fst kvs) \<Longrightarrow> bt_get (bt_of_list kvs) k = map_of kvs k"
  unfolding bt_of_list_def by (subst bt.look_fold_ins) (auto split: option.splits)

lemma bt_get_iff: "bt_wf m \<Longrightarrow> bt_get m k = Some v \<longleftrightarrow> (k, v) \<in> set m"
  by (simp add: bt_get_def bt_wf_distinct)

lemma bt_keys_dom: "set (bt_keys m) = dom (bt_get m)"
  by (simp add: bt_keys_def bt_get_def [abs_def] dom_map_of_conv_image_fst)

lemma bt_keys_get: "k \<in> set (bt_keys m) \<longleftrightarrow> bt_get m k \<noteq> None"
  by (auto simp: bt_keys_dom)

lemma bt_dom_eqI:
  "(\<And>k. bt_get m k = None \<longleftrightarrow> bt_get n k = None) \<Longrightarrow> dom (bt_get m) = dom (bt_get n)"
  by (auto simp: dom_def)

lemma bt_dom_eqD: "dom (bt_get m) = dom (bt_get n) \<Longrightarrow> bt_get m k = None \<longleftrightarrow> bt_get n k = None"
  by (metis domIff)

lemma bt_get_None: "bt_get m k = None \<longleftrightarrow> k \<notin> fst ` set m"
  by (simp add: bt_get_def map_of_eq_None_iff)

lemma bt_of_list_keys: "dom (bt_get (bt_of_list kvs)) = fst ` set kvs"
  unfolding bt_of_list_def by (subst bt.dom_fold_ins) auto

text \<open>Two well-formed trees with the same lookups are the same tree.\<close>

lemma bt_eqI:
  assumes "bt_wf m" "bt_wf n" "\<And>k. bt_get m k = bt_get n k"
  shows "m = n"
proof -
  have "set m = set n"
    using assms(3) bt_get_iff [OF assms(1)] bt_get_iff [OF assms(2)] by auto
  moreover have "sorted_wrt (\<lambda>x y. fst x < fst y) m" "sorted_wrt (\<lambda>x y. fst x < fst y) n"
    using assms(1,2) by (simp_all add: bt_wf_def sorted_wrt_map)
  ultimately show ?thesis
  proof (induction m arbitrary: n)
    case Nil
    then show ?case by simp
  next
    case (Cons x m)
    then obtain y n' where n: "n = y # n'" by (cases n) auto
    have "x = y"
      using Cons.prems unfolding n by (metis list.set_intros(1) order_less_asym set_ConsD
          sorted_wrt.simps(2))
    moreover have "x \<notin> set m" "y \<notin> set n'"
      using Cons.prems unfolding n by auto
    ultimately have "set m = set n'" using Cons.prems(1) unfolding n by auto
    then have "m = n'" using Cons.IH Cons.prems unfolding n by auto
    with \<open>x = y\<close> show ?case unfolding n by simp
  qed
qed

lemma bt_insert_fresh_filter:
  "bt_wf m \<Longrightarrow> bt_get m k = None \<Longrightarrow>
   length (filter p (bt_insert k v m)) = length (filter p m) + (if p (k, v) then 1 else 0)"
  by (induction k v m rule: bt_insert.induct) (auto simp: bt_get_def bt_wf_def split: if_splits)

lemma bt_insert_fresh_length:
  "bt_wf m \<Longrightarrow> bt_get m k = None \<Longrightarrow> length (bt_insert k v m) = Suc (length m)"
  using bt_insert_fresh_filter [of m k "\<lambda>_. True" v] by simp

section \<open>BinaryHeap of Reverse entries\<close>

type_synonym 'a heap = "'a list"

definition heap_push :: "'a::linorder \<Rightarrow> 'a heap \<Rightarrow> 'a heap" where
  "heap_push x h = insort x h"

fun heap_peek :: "'a heap \<Rightarrow> 'a option" where
  "heap_peek [] = None"
| "heap_peek (x # h) = Some x"

fun heap_pop :: "'a heap \<Rightarrow> ('a \<times> 'a heap) option" where
  "heap_pop [] = None"
| "heap_pop (x # h) = Some (x, h)"

definition heap_of_list :: "'a::linorder list \<Rightarrow> 'a heap" where
  "heap_of_list xs = fold heap_push xs []"

definition heap_retain :: "('a \<Rightarrow> bool) \<Rightarrow> 'a heap \<Rightarrow> 'a heap" where
  "heap_retain p h = filter p h"

text \<open>
  The contract of a min-heap over its entries: what is pushed is in it, and what is popped is a
  least entry and is no longer counted.
\<close>

locale min_heap =
  fixes empty :: 'h
    and push :: "'a::linorder \<Rightarrow> 'h \<Rightarrow> 'h"
    and pop :: "'h \<Rightarrow> ('a \<times> 'h) option"
    and entries :: "'h \<Rightarrow> 'a list"
    and ok :: "'h \<Rightarrow> bool"
  assumes ok_empty: "ok empty"
    and ok_push: "ok h \<Longrightarrow> ok (push x h)"
    and ok_pop: "ok h \<Longrightarrow> pop h = Some (x, h') \<Longrightarrow> ok h'"
    and entries_empty: "entries empty = []"
    and count_push: "ok h \<Longrightarrow>
      count_list (entries (push x h)) y = count_list (entries h) y + (if y = x then 1 else 0)"
    and count_pop: "ok h \<Longrightarrow> pop h = Some (x, h') \<Longrightarrow>
      count_list (entries h) y = count_list (entries h') y + (if y = x then 1 else 0)"
    and pop_least: "ok h \<Longrightarrow> pop h = Some (x, h') \<Longrightarrow> y \<in> set (entries h) \<Longrightarrow> x \<le> y"
    and pop_none: "ok h \<Longrightarrow> pop h = None \<longleftrightarrow> entries h = []"
begin

lemma set_push: "ok h \<Longrightarrow> set (entries (push x h)) = insert x (set (entries h))"
proof -
  assume h: "ok h"
  have "y \<in> set (entries (push x h)) \<longleftrightarrow> y = x \<or> y \<in> set (entries h)" for y
    using count_push [OF h, of x y] by (metis add_cancel_right_right add_is_0 count_list_0_iff
        zero_neq_one)
  then show ?thesis by auto
qed

lemma pop_member: "ok h \<Longrightarrow> pop h = Some (x, h') \<Longrightarrow> x \<in> set (entries h)"
  using count_pop [of h x h' x] by (metis add_gr_0 count_list_0_iff less_numeral_extra(1) not_gr0)

lemma ok_fold_push: "ok h \<Longrightarrow> ok (fold push xs h)"
  by (induction xs arbitrary: h) (auto intro: ok_push)

lemma count_fold_push:
  "ok h \<Longrightarrow> count_list (entries (fold push xs h)) y = count_list (entries h) y + count_list xs y"
  by (induction xs arbitrary: h) (auto simp: ok_push count_push)

lemma set_fold_push: "ok h \<Longrightarrow> set (entries (fold push xs h)) = set xs \<union> set (entries h)"
  by (induction xs arbitrary: h) (auto simp: ok_push set_push)

end

lemma count_list_insort: "count_list (insort x h) y = count_list h y + (if y = x then 1 else 0)"
  by (induction h) auto

interpretation heap: min_heap "[]" heap_push heap_pop "\<lambda>h. h" sorted
proof
  fix h :: "'a heap" and x y :: 'a and h'
  assume h: "sorted h"
  show "sorted (heap_push x h)" using h by (simp add: heap_push_def sorted_insort)
  show "count_list (heap_push x h) y = count_list h y + (if y = x then 1 else 0)"
    by (simp add: heap_push_def count_list_insort)
  show "heap_pop h = None \<longleftrightarrow> h = []" by (cases h) auto
  assume pop: "heap_pop h = Some (x, h')"
  then show "sorted h'" using h by (cases h) auto
  from pop show "count_list h y = count_list h' y + (if y = x then 1 else 0)"
    by (cases h) auto
  assume "y \<in> set h"
  with h pop show "x \<le> y" by (cases h) auto
qed auto

lemma heap_retain_sorted [intro]: "sorted h \<Longrightarrow> sorted (heap_retain p h)"
  unfolding heap_retain_def by (induction h) auto

lemma heap_of_list_sorted [simp]: "sorted (heap_of_list xs)"
  unfolding heap_of_list_def by (rule heap.ok_fold_push) simp

text \<open>How often a predicate holds in a heap; the counting form of the contract.\<close>

lemma length_filter_insort:
  "length (filter p (insort x h)) = length (filter p h) + (if p x then 1 else 0)"
  by (induction h) auto

lemma length_filter_push [simp]:
  "length (filter p (heap_push x h)) = length (filter p h) + (if p x then 1 else 0)"
  by (simp add: heap_push_def length_filter_insort)

lemma length_filter_fold_push:
  "length (filter p (fold heap_push xs h)) = length (filter p h) + length (filter p xs)"
  by (induction xs arbitrary: h) auto

lemma length_filter_of_list [simp]:
  "length (filter p (heap_of_list xs)) = length (filter p xs)"
  by (simp add: heap_of_list_def length_filter_fold_push)

lemma set_heap_push [simp]: "set (heap_push x h) = insert x (set h)"
  by (simp add: heap_push_def set_insort_key)

lemma set_heap_of_list [simp]: "set (heap_of_list xs) = set xs"
proof -
  have "set (fold heap_push xs h) = set xs \<union> set h" for h :: "'a list"
    by (induction xs arbitrary: h) auto
  then show ?thesis by (simp add: heap_of_list_def)
qed

end
