(* ===== verification/Probe_Protocol.thy ===== *)
theory Probe_Protocol
  imports Ordered_Containers
begin

text \<open>
  The wire protocol between the controller and a cell's prober
  (\<open>proofstorm-prober/src/lib.rs\<close>): targets, batches, observations, and the validation
  a batch passes before any network operation.
\<close>

definition PROTOCOL_VERSION :: u32 where
  "PROTOCOL_VERSION = 2"

definition MAX_BATCH_TARGETS :: nat where
  "MAX_BATCH_TARGETS = 32"

definition MAX_BATCHES_PER_WORKER :: nat where
  "MAX_BATCHES_PER_WORKER = 4"

definition MAX_WORKER_CHECKS :: nat where
  "MAX_WORKER_CHECKS = MAX_BATCHES_PER_WORKER * MAX_BATCH_TARGETS"

record target =
  component :: string
  rollout_digest :: string
  port :: u16
  http_path :: "string option"

record request =
  rq_protocol_version :: u32
  rq_instance_key :: string
  rq_revision_digest :: string
  rq_batch_id :: string
  rq_keep_alive :: bool
  rq_targets :: "target list"

datatype probe_outcome =
    Reachable | ConnectionRefused | DnsFailed | TimedOut | HttpError | TransportError | Busy

record observation =
  ob_component :: string
  ob_rollout_digest :: string
  ob_outcome :: probe_outcome
  ob_elapsed_micros :: u64
  ob_age_millis :: u64
  ob_http_status :: "u16 option"

datatype response =
    Complete (rs_protocol_version: u32) (rs_instance_key: string) (rs_revision_digest: string)
      (rs_batch_id: string) (rs_observations: "observation list")
  | Rejected (rs_code: string)

definition dns_label :: "string \<Rightarrow> bool" where
  "dns_label value \<longleftrightarrow>
     value \<noteq> [] \<and> length value \<le> 63
     \<and> list_all (\<lambda>b. is_ascii_lowercase b \<or> is_ascii_digit b \<or> b = CHR ''-'') value
     \<and> \<not> starts_with value (CHR ''-'') \<and> \<not> ends_with value (CHR ''-'')"

definition bad_http_path :: "string \<Rightarrow> bool" where
  "bad_http_path path \<longleftrightarrow>
     \<not> starts_with path (CHR ''/'') \<or> length path > 2048 \<or> list_ex is_ascii_control path"

definition bad_target :: "target \<Rightarrow> bool" where
  "bad_target t \<longleftrightarrow>
     \<not> dns_label (component t) \<or> port t = 0
     \<or> rollout_digest t = [] \<or> length (rollout_digest t) > 128
     \<or> (case http_path t of None \<Rightarrow> False | Some path \<Rightarrow> bad_http_path path)"

text \<open>The loop over the targets, with the set of components already seen.\<close>

fun validate_targets :: "string list \<Rightarrow> target list \<Rightarrow> unit coded" where
  "validate_targets ids [] = Inr ()"
| "validate_targets ids (t # ts) =
     (if bad_target t \<or> component t \<in> set ids then Inl ''invalid_probe_target''
      else validate_targets (component t # ids) ts)"

definition validate :: "request \<Rightarrow> string \<Rightarrow> unit coded" where
  "validate r instance_key =
     (if rq_protocol_version r \<noteq> PROTOCOL_VERSION then Inl ''protocol_version_mismatch''
      else if rq_instance_key r \<noteq> instance_key then Inl ''instance_mismatch''
      else if rq_batch_id r = [] \<or> length (rq_batch_id r) > 128
        \<or> rq_revision_digest r = [] \<or> length (rq_revision_digest r) > 128
      then Inl ''invalid_batch_identity''
      else if rq_targets r = [] \<or> length (rq_targets r) > MAX_BATCH_TARGETS
      then Inl ''invalid_batch_size''
      else validate_targets [] (rq_targets r))"

lemmas protocol_constants = PROTOCOL_VERSION_def MAX_BATCH_TARGETS_def
  MAX_BATCHES_PER_WORKER_def MAX_WORKER_CHECKS_def

section \<open>What validation establishes\<close>

lemma validate_targets_iff:
  "validate_targets ids ts = Inr () \<longleftrightarrow>
     (\<forall>t \<in> set ts. \<not> bad_target t) \<and> distinct (map component ts)
     \<and> set ids \<inter> component ` set ts = {}"
  by (induction ids ts rule: validate_targets.induct) auto

lemma validate_targets_error:
  "validate_targets ids ts = Inl e \<Longrightarrow> e = ''invalid_probe_target''"
  by (induction ids ts rule: validate_targets.induct) (auto split: if_splits)

lemma validate_iff:
  "validate r key = Inr () \<longleftrightarrow>
     rq_protocol_version r = PROTOCOL_VERSION \<and> rq_instance_key r = key
     \<and> rq_batch_id r \<noteq> [] \<and> length (rq_batch_id r) \<le> 128
     \<and> rq_revision_digest r \<noteq> [] \<and> length (rq_revision_digest r) \<le> 128
     \<and> rq_targets r \<noteq> [] \<and> length (rq_targets r) \<le> MAX_BATCH_TARGETS
     \<and> (\<forall>t \<in> set (rq_targets r). \<not> bad_target t)
     \<and> distinct (map component (rq_targets r))"
  by (auto simp: validate_def validate_targets_iff)

lemma validate_targetD:
  assumes "validate r key = Inr ()" "t \<in> set (rq_targets r)"
  shows "dns_label (component t)" and "port t \<noteq> 0"
    and "http_path t = Some p \<Longrightarrow> starts_with p (CHR ''/'') \<and> \<not> list_ex is_ascii_control p"
  using assms by (auto simp: validate_iff bad_target_def bad_http_path_def)

lemma dns_label_not_empty [dest]: "dns_label s \<Longrightarrow> s \<noteq> []"
  by (simp add: dns_label_def)

end
