(* ===== verification/Probe_Scheduler.thy ===== *)
theory Probe_Scheduler
  imports Probe_Protocol
begin

text \<open>
  The scheduler of probe batches (\<open>proofstorm-prober/src/scheduler.rs\<close>): its state, and
  one definition per operation. A \<open>None\<close> returned early by \<open>?\<close> and a failed index
  are kept apart: the first is a result, the second is a panic.
\<close>

definition MAX_INFLIGHT_BATCHES :: nat where
  "MAX_INFLIGHT_BATCHES = 8"

definition CHECK_INTERVAL_MILLIS :: u64 where
  "CHECK_INTERVAL_MILLIS = 5000"

definition OBSERVATION_TTL_MILLIS :: u64 where
  "OBSERVATION_TTL_MILLIS = 30000"

record identity =
  instance_key :: string
  incarnation :: string
  revision_digest :: string
  worker_uid :: string

record scheduled_target =
  probe :: target
  runtime_digest :: string

record job =
  job_identity :: identity
  job_request :: request
  started_at_millis :: u64
  job_id :: u64
  job_generation :: u64
  job_target_generations :: "(string, u64) btree"

record cached_observation =
  cached :: observation
  cached_runtime_digest :: string
  observed_at_millis :: u64

definition is_fresh :: "cached_observation \<Rightarrow> u64 \<Rightarrow> bool" where
  "is_fresh o' now_millis \<longleftrightarrow>
     now_millis \<ge> observed_at_millis o'
     \<and> now_millis - observed_at_millis o' < OBSERVATION_TTL_MILLIS"

record cell =
  identity_of :: identity
  generation :: u64
  targets :: "(string, scheduled_target) btree"
  target_generations :: "(string, u64) btree"
  due :: "(u64 \<times> string) heap"
  cell_observations :: "(string, cached_observation) btree"

record scheduler =
  cells :: "(string, cell) btree"
  order :: "string list"
  inflight :: "(u64, string) btree"
  sequence :: u64

definition default_scheduler :: scheduler where
  "default_scheduler = \<lparr>cells = [], order = [], inflight = [], sequence = 0\<rparr>"

section \<open>register\<close>

definition bad_identity :: "identity \<Rightarrow> bool" where
  "bad_identity i \<longleftrightarrow>
     \<not> dns_label (instance_key i)
     \<or> list_ex (\<lambda>value. value = [] \<or> length value > 128)
         [incarnation i, revision_digest i, worker_uid i]"

text \<open>The inner \<open>any\<close> of one chunk: the ids it inserts, or the rejection.\<close>

fun insert_ids :: "string list \<Rightarrow> scheduled_target list \<Rightarrow> string list option" where
  "insert_ids ids [] = Some ids"
| "insert_ids ids (t # ts) =
     (if component (probe t) \<in> set ids \<or> runtime_digest t = [] \<or> length (runtime_digest t) > 128
      then None
      else insert_ids (component (probe t) # ids) ts)"

definition validation_request :: "identity \<Rightarrow> scheduled_target list \<Rightarrow> request" where
  "validation_request i chunk =
     \<lparr>rq_protocol_version = PROTOCOL_VERSION, rq_instance_key = instance_key i,
      rq_revision_digest = revision_digest i, rq_batch_id = ''validation'',
      rq_keep_alive = False, rq_targets = map probe chunk\<rparr>"

fun check_chunks :: "identity \<Rightarrow> string list \<Rightarrow> scheduled_target list list \<Rightarrow> unit coded" where
  "check_chunks i ids [] = Inr ()"
| "check_chunks i ids (chunk # rest) =
     (case validate (validation_request i chunk) (instance_key i) of
        Inl e \<Rightarrow> Inl e
      | Inr _ \<Rightarrow>
          (case insert_ids ids chunk of
             None \<Rightarrow> Inl ''duplicate_probe_target''
           | Some ids' \<Rightarrow> check_chunks i ids' rest))"

definition target_map :: "scheduled_target list \<Rightarrow> (string, scheduled_target) btree" where
  "target_map ts = bt_of_list (map (\<lambda>t. (component (probe t), t)) ts)"

text \<open>The keys whose target is new, gone or different, in key order.\<close>

definition changed_keys ::
  "(string, scheduled_target) btree \<Rightarrow> (string, scheduled_target) btree \<Rightarrow> string list" where
  "changed_keys old new =
     sort (remdups (filter (\<lambda>k. bt_get old k \<noteq> bt_get new k) (bt_keys old @ bt_keys new)))"

definition update_targets :: "(string, scheduled_target) btree \<Rightarrow> u64 \<Rightarrow> u64 \<Rightarrow> cell \<Rightarrow> cell" where
  "update_targets new seq now_millis c =
     (let changed = changed_keys (targets c) new;
          added = filter (bt_contains_key new) changed
      in c\<lparr>cell_observations := bt_retain (\<lambda>k. k \<notin> set changed) (cell_observations c),
           due := fold (\<lambda>k. heap_push (now_millis, k)) added
                    (heap_retain (\<lambda>e. snd e \<notin> set changed) (due c)),
           target_generations := fold (\<lambda>k. bt_insert k seq) added
                    (bt_retain (\<lambda>k. k \<notin> set changed) (target_generations c)),
           targets := new\<rparr>)"

definition new_cell :: "identity \<Rightarrow> (string, scheduled_target) btree \<Rightarrow> u64 \<Rightarrow> u64 \<Rightarrow> cell" where
  "new_cell i ts seq now_millis =
     \<lparr>identity_of = i, generation = seq, targets = ts,
      target_generations = bt_of_list (map (\<lambda>k. (k, seq)) (bt_keys ts)),
      due = heap_of_list (map (\<lambda>k. (now_millis, k)) (bt_keys ts)),
      cell_observations = []\<rparr>"

definition register ::
  "scheduler \<Rightarrow> identity \<Rightarrow> scheduled_target list \<Rightarrow> u64 \<Rightarrow> scheduler \<times> bool coded" where
  "register s i ts now_millis =
     (if bad_identity i then (s, Inl ''invalid_probe_identity'')
      else case check_chunks i [] (chunks MAX_BATCH_TARGETS ts) of
        Inl e \<Rightarrow> (s, Inl e)
      | Inr _ \<Rightarrow>
        (let new = target_map ts; key = instance_key i in
         if (case bt_get (cells s) key of
               None \<Rightarrow> False | Some c \<Rightarrow> identity_of c = i \<and> targets c = new)
         then (s, Inr False)
         else case checked_add (sequence s) 1 of
           None \<Rightarrow> (s, Inl ''probe_identity_exhausted'')
         | Some seq \<Rightarrow>
           (let s' = s\<lparr>sequence := seq,
                       order := order s @ (if bt_contains_key (cells s) key then [] else [key])\<rparr>
            in case bt_get (cells s) key of
                 Some c \<Rightarrow>
                   (if identity_of c = i
                    then (s'\<lparr>cells := bt_insert key (update_targets new seq now_millis c) (cells s)\<rparr>,
                          Inr True)
                    else (s'\<lparr>cells := bt_insert key (new_cell i new seq now_millis) (cells s)\<rparr>,
                          Inr True))
               | None \<Rightarrow> (s'\<lparr>cells := bt_insert key (new_cell i new seq now_millis) (cells s)\<rparr>,
                          Inr True))))"

definition remove :: "scheduler \<Rightarrow> string \<Rightarrow> scheduler" where
  "remove s key = s\<lparr>cells := bt_remove key (cells s), order := filter (\<lambda>k. k \<noteq> key) (order s)\<rparr>"

definition job_is_current :: "scheduler \<Rightarrow> job \<Rightarrow> bool" where
  "job_is_current s j =
     (case bt_get (cells s) (instance_key (job_identity j)) of
        None \<Rightarrow> False
      | Some c \<Rightarrow> generation c = job_generation j
          \<and> list_ex (\<lambda>(key, g). bt_get (target_generations c) key = Some g)
              (job_target_generations j))"

section \<open>dispatch\<close>

text \<open>
  The inner loop: pop due entries while there is room in the batch. The result keeps the heap as
  the loop left it, and \<open>None\<close> for the early return on a component that has no target.
\<close>

fun collect_due ::
  "nat \<Rightarrow> u64 \<Rightarrow> (string, scheduled_target) btree \<Rightarrow> (u64 \<times> string) heap \<Rightarrow>
   (u64 \<times> string) heap \<times> target list option" where
  "collect_due 0 now_millis ts h = (h, Some [])"
| "collect_due (Suc room) now_millis ts h =
     (case heap_pop h of
        None \<Rightarrow> (h, Some [])
      | Some ((at, name), h') \<Rightarrow>
          (if at \<le> now_millis
           then (case bt_get ts name of
                   None \<Rightarrow> (h', None)
                 | Some t \<Rightarrow>
                     (case collect_due room now_millis ts h' of
                        (h'', rest) \<Rightarrow> (h'', map_option (Cons (probe t)) rest)))
           else (h, Some [])))"

text \<open>\<open>cell.target_generations[..]\<close> for every target of the batch: a missing one panics.\<close>

definition batch_generations :: "cell \<Rightarrow> target list \<Rightarrow> (string, u64) btree option" where
  "batch_generations c ts =
     map_option bt_of_list
       (all_some (map (\<lambda>t. map_option (Pair (component t))
                             (bt_get (target_generations c) (component t))) ts))"

definition make_job :: "cell \<Rightarrow> string \<Rightarrow> target list \<Rightarrow> (string, u64) btree \<Rightarrow> u64 \<Rightarrow> u64 \<Rightarrow> job" where
  "make_job c key ts gens nid now_millis =
     \<lparr>job_identity = identity_of c,
      job_request =
        \<lparr>rq_protocol_version = PROTOCOL_VERSION, rq_instance_key = key,
         rq_revision_digest = revision_digest (identity_of c), rq_batch_id = decimal (unat nid),
         rq_keep_alive = False, rq_targets = ts\<rparr>,
      started_at_millis = now_millis, job_id = nid, job_generation = generation c,
      job_target_generations = gens\<rparr>"

definition worker_load :: "scheduler \<Rightarrow> string \<Rightarrow> nat" where
  "worker_load s key = length (filter (\<lambda>e. snd e = key) (inflight s))"

text \<open>The turns of the fair queue: at most one pass over the cells.\<close>

fun dispatch_turns :: "nat \<Rightarrow> u64 \<Rightarrow> u64 \<Rightarrow> scheduler \<Rightarrow> scheduler \<times> job option call" where
  "dispatch_turns 0 nid now_millis s = (s, Returned None)"
| "dispatch_turns (Suc n) nid now_millis s =
     (case order s of
        [] \<Rightarrow> (s, Returned None)
      | key # rest \<Rightarrow>
        (let s1 = s\<lparr>order := rest @ [key]\<rparr> in
         if worker_load s1 key \<ge> MAX_BATCHES_PER_WORKER
         then dispatch_turns n nid now_millis s1
         else case bt_get (cells s1) key of
           None \<Rightarrow> (s1, Returned None)
         | Some c \<Rightarrow>
           (case collect_due MAX_BATCH_TARGETS now_millis (targets c) (due c) of
              (h, picked) \<Rightarrow>
                (let s2 = s1\<lparr>cells := bt_insert key (c\<lparr>due := h\<rparr>) (cells s1)\<rparr> in
                 case picked of
                   None \<Rightarrow> (s2, Returned None)
                 | Some ts \<Rightarrow>
                   (if ts = [] then dispatch_turns n nid now_millis s2
                    else let s3 = s2\<lparr>sequence := nid, inflight := bt_insert nid key (inflight s2)\<rparr> in
                      case batch_generations c ts of
                        None \<Rightarrow> (s3, Panicked)
                      | Some gens \<Rightarrow> (s3, Returned (Some (make_job c key ts gens nid now_millis))))))))"

definition dispatch :: "scheduler \<Rightarrow> u64 \<Rightarrow> scheduler \<times> job option call" where
  "dispatch s now_millis =
     (if length (inflight s) \<ge> MAX_INFLIGHT_BATCHES then (s, Returned None)
      else case checked_add (sequence s) 1 of
        None \<Rightarrow> (s, Returned None)
      | Some nid \<Rightarrow> dispatch_turns (length (order s)) nid now_millis s)"

section \<open>complete\<close>

fun check_observations :: "target list \<Rightarrow> string list \<Rightarrow> observation list \<Rightarrow> bool" where
  "check_observations ts seen [] = True"
| "check_observations ts seen (ob # obs) =
     (if ob_component ob \<in> set seen
       \<or> \<not> list_ex (\<lambda>t. component t = ob_component ob \<and> rollout_digest t = ob_rollout_digest ob) ts
      then False
      else check_observations ts (ob_component ob # seen) obs)"

definition validate_response :: "job \<Rightarrow> response \<Rightarrow> observation list option" where
  "validate_response j r =
     (case r of
        Rejected _ \<Rightarrow> None
      | Complete version key digest batch obs \<Rightarrow>
          (if version \<noteq> PROTOCOL_VERSION
              \<or> key \<noteq> instance_key (job_identity j)
              \<or> digest \<noteq> revision_digest (job_identity j)
              \<or> batch \<noteq> rq_batch_id (job_request j)
              \<or> length obs \<noteq> length (rq_targets (job_request j))
           then None
           else if check_observations (rq_targets (job_request j)) [] obs then Some obs
           else None))"

definition jitter :: "string \<Rightarrow> u64" where
  "jitter name = foldl (\<lambda>hash b. hash * 31 + of_char b) 0 name mod 501"

definition next_due :: "u64 \<Rightarrow> string \<Rightarrow> u64" where
  "next_due now_millis name = saturating_add now_millis (CHECK_INTERVAL_MILLIS + jitter name)"

definition reschedule :: "u64 \<Rightarrow> target \<Rightarrow> cell \<Rightarrow> cell" where
  "reschedule now_millis t c =
     c\<lparr>cell_observations := bt_remove (component t) (cell_observations c),
       due := heap_push (next_due now_millis (component t), component t) (due c)\<rparr>"

text \<open>Caching the accepted observations: \<open>cell.targets[..]\<close> panics on a missing target.\<close>

fun store_observations :: "u64 \<Rightarrow> observation list \<Rightarrow> cell \<Rightarrow> cell call" where
  "store_observations started [] c = Returned c"
| "store_observations started (ob # obs) c =
     (case bt_get (targets c) (ob_component ob) of
        None \<Rightarrow> Panicked
      | Some t \<Rightarrow>
          store_observations started obs
            (c\<lparr>cell_observations :=
                 bt_insert (ob_component ob)
                   \<lparr>cached = ob, cached_runtime_digest = runtime_digest t,
                    observed_at_millis = started\<rparr>
                   (cell_observations c)\<rparr>))"

definition current_keys :: "job \<Rightarrow> cell \<Rightarrow> string list" where
  "current_keys j c =
     map fst (filter (\<lambda>(key, g). bt_get (target_generations c) key = Some g)
                (job_target_generations j))"

definition complete :: "scheduler \<Rightarrow> job \<Rightarrow> response option \<Rightarrow> u64 \<Rightarrow> scheduler \<times> bool call" where
  "complete s j resp now_millis =
     (if bt_get (inflight s) (job_id j) = None then (s, Returned False)
      else let s1 = s\<lparr>inflight := bt_remove (job_id j) (inflight s)\<rparr>;
               key = instance_key (job_identity j) in
        if \<not> job_is_current s1 j then (s1, Returned False)
        else case bt_get (cells s1) key of
          None \<Rightarrow> (s1, Returned False)
        | Some c \<Rightarrow>
          (let accepted = Option.bind resp (validate_response j);
               current = current_keys j c;
               c1 = fold (reschedule now_millis)
                      (filter (\<lambda>t. component t \<in> set current) (rq_targets (job_request j))) c
           in case accepted of
                None \<Rightarrow> (s1\<lparr>cells := bt_insert key c1 (cells s1)\<rparr>, Returned True)
              | Some obs \<Rightarrow>
                (case store_observations (started_at_millis j)
                        (filter (\<lambda>ob. ob_component ob \<in> set current) obs) c1 of
                   Panicked \<Rightarrow> (s1, Panicked)
                 | Returned c2 \<Rightarrow> (s1\<lparr>cells := bt_insert key c2 (cells s1)\<rparr>, Returned True))))"

definition observations :: "scheduler \<Rightarrow> identity \<Rightarrow> u64 \<Rightarrow> (string, cached_observation) btree" where
  "observations s i now_millis =
     (case bt_get (cells s) (instance_key i) of
        None \<Rightarrow> []
      | Some c \<Rightarrow>
          (if identity_of c = i
           then filter (\<lambda>(name, ob). is_fresh ob now_millis) (cell_observations c)
           else []))"

definition inflight_batches :: "scheduler \<Rightarrow> nat" where
  "inflight_batches s = length (inflight s)"

lemmas scheduler_constants = MAX_INFLIGHT_BATCHES_def CHECK_INTERVAL_MILLIS_def
  OBSERVATION_TTL_MILLIS_def

end
