(* ===== verification/Probe_Invariants.thy ===== *)
theory Probe_Invariants
  imports Probe_Scheduler
begin

text \<open>
  The invariant of the scheduler together with the jobs its owner still holds, and that every
  operation keeps it. The heart of it is the cell_custody count: a target of a cell is either due
  once, or in exactly one outstanding job of its current generation.
\<close>

section \<open>The invariant\<close>

definition due_count :: "string \<Rightarrow> (u64 \<times> string) heap \<Rightarrow> nat" where
  "due_count n h = length (filter (\<lambda>e. snd e = n) h)"

text \<open>Job \<open>j\<close> carries the current generation of target \<open>n\<close> of cell \<open>c\<close>.\<close>

definition carries :: "string \<Rightarrow> cell \<Rightarrow> string \<Rightarrow> job \<Rightarrow> bool" where
  "carries k c n j \<longleftrightarrow>
     instance_key (job_identity j) = k \<and> job_generation j = generation c
     \<and> bt_get (target_generations c) n \<noteq> None
     \<and> bt_get (job_target_generations j) n = bt_get (target_generations c) n"

definition held_count :: "string \<Rightarrow> cell \<Rightarrow> string \<Rightarrow> job list \<Rightarrow> nat" where
  "held_count k c n js = length (filter (carries k c n) js)"

definition valid_targets :: "(string, scheduled_target) btree \<Rightarrow> bool" where
  "valid_targets ts \<longleftrightarrow>
     bt_wf ts \<and> (\<forall>n t. bt_get ts n = Some t \<longrightarrow> component (probe t) = n \<and> \<not> bad_target (probe t))"

definition valid_observations :: "cell \<Rightarrow> bool" where
  "valid_observations c \<longleftrightarrow>
     bt_wf (cell_observations c)
     \<and> (\<forall>n ob. bt_get (cell_observations c) n = Some ob \<longrightarrow>
          (\<exists>t. bt_get (targets c) n = Some t \<and> ob_component (cached ob) = n
             \<and> cached_runtime_digest ob = runtime_digest t
             \<and> ob_rollout_digest (cached ob) = rollout_digest (probe t)))"

lemma valid_observationsD:
  "valid_observations c \<Longrightarrow> bt_get (cell_observations c) n = Some ob \<Longrightarrow>
   \<exists>t. bt_get (targets c) n = Some t \<and> ob_component (cached ob) = n
     \<and> cached_runtime_digest ob = runtime_digest t
     \<and> ob_rollout_digest (cached ob) = rollout_digest (probe t)"
  by (simp add: valid_observations_def)

definition cell_inv :: "u64 \<Rightarrow> string \<Rightarrow> cell \<Rightarrow> bool" where
  "cell_inv seq k c \<longleftrightarrow>
     instance_key (identity_of c) = k \<and> \<not> bad_identity (identity_of c)
     \<and> valid_targets (targets c) \<and> valid_observations c
     \<and> bt_wf (target_generations c) \<and> sorted (due c)
     \<and> dom (bt_get (target_generations c)) = dom (bt_get (targets c))
     \<and> (\<forall>n g. bt_get (target_generations c) n = Some g \<longrightarrow> g \<le> seq)
     \<and> generation c \<le> seq
     \<and> snd ` set (due c) \<subseteq> dom (bt_get (targets c))"

definition job_inv :: "u64 \<Rightarrow> job \<Rightarrow> bool" where
  "job_inv seq j \<longleftrightarrow>
     validate (job_request j) (instance_key (job_identity j)) = Inr ()
     \<and> rq_revision_digest (job_request j) = revision_digest (job_identity j)
     \<and> dom (bt_get (job_target_generations j)) = component ` set (rq_targets (job_request j))
     \<and> bt_wf (job_target_generations j)
     \<and> (\<forall>n g. bt_get (job_target_generations j) n = Some g \<longrightarrow> g \<le> seq)
     \<and> job_generation j \<le> seq \<and> job_id j \<le> seq"

text \<open>What ties a cell to the outstanding jobs.\<close>

definition cell_custody :: "string \<Rightarrow> cell \<Rightarrow> job list \<Rightarrow> bool" where
  "cell_custody k c js \<longleftrightarrow>
     (\<forall>n \<in> dom (bt_get (targets c)). due_count n (due c) + held_count k c n js = 1)
     \<and> (\<forall>j \<in> set js. \<forall>t \<in> set (rq_targets (job_request j)).
          carries k c (component t) j \<longrightarrow>
            map_option probe (bt_get (targets c) (component t)) = Some t)"

definition jobs_inv :: "scheduler \<Rightarrow> job list \<Rightarrow> bool" where
  "jobs_inv s js \<longleftrightarrow>
     distinct (map job_id js) \<and> length (inflight s) = length js
     \<and> (\<forall>j \<in> set js. job_inv (sequence s) j
          \<and> bt_get (inflight s) (job_id j) = Some (instance_key (job_identity j)))"

definition queue_inv :: "scheduler \<Rightarrow> bool" where
  "queue_inv s \<longleftrightarrow>
     bt_wf (cells s) \<and> bt_wf (inflight s)
     \<and> distinct (order s) \<and> set (order s) = dom (bt_get (cells s))
     \<and> length (inflight s) \<le> MAX_INFLIGHT_BATCHES
     \<and> (\<forall>k. worker_load s k \<le> MAX_BATCHES_PER_WORKER)
     \<and> (\<forall>i \<in> dom (bt_get (inflight s)). i \<le> sequence s)"

lemma queue_invI:
  "bt_wf (cells s) \<Longrightarrow> bt_wf (inflight s) \<Longrightarrow> distinct (order s) \<Longrightarrow>
   set (order s) = dom (bt_get (cells s)) \<Longrightarrow> length (inflight s) \<le> MAX_INFLIGHT_BATCHES \<Longrightarrow>
   (\<And>k. worker_load s k \<le> MAX_BATCHES_PER_WORKER) \<Longrightarrow>
   (\<And>i. i \<in> dom (bt_get (inflight s)) \<Longrightarrow> i \<le> sequence s) \<Longrightarrow> queue_inv s"
  by (simp add: queue_inv_def)

lemma queue_invD:
  assumes "queue_inv s"
  shows "bt_wf (cells s)" "bt_wf (inflight s)" "distinct (order s)"
    "set (order s) = dom (bt_get (cells s))" "length (inflight s) \<le> MAX_INFLIGHT_BATCHES"
    "worker_load s k \<le> MAX_BATCHES_PER_WORKER"
    "i \<in> dom (bt_get (inflight s)) \<Longrightarrow> i \<le> sequence s"
  using assms by (simp_all add: queue_inv_def)

definition sched_inv :: "scheduler \<Rightarrow> job list \<Rightarrow> bool" where
  "sched_inv s js \<longleftrightarrow>
     queue_inv s \<and> jobs_inv s js
     \<and> (\<forall>k c. bt_get (cells s) k = Some c \<longrightarrow> cell_inv (sequence s) k c \<and> cell_custody k c js)"

lemma sched_inv_cellD:
  "sched_inv s js \<Longrightarrow> bt_get (cells s) k = Some c \<Longrightarrow> cell_inv (sequence s) k c \<and> cell_custody k c js"
  by (simp add: sched_inv_def)

lemma sched_inv_default: "sched_inv default_scheduler []"
  by (simp add: sched_inv_def queue_inv_def jobs_inv_def default_scheduler_def worker_load_def)

lemma cell_inv_mono: "cell_inv q k c \<Longrightarrow> q \<le> q' \<Longrightarrow> cell_inv q' k c"
  unfolding cell_inv_def by (meson order.trans)

lemma job_inv_mono: "job_inv q j \<Longrightarrow> q \<le> q' \<Longrightarrow> job_inv q' j"
  unfolding job_inv_def by (meson order.trans)

text \<open>A generation newer than every job's is carried by none of them.\<close>

lemma held_count_fresh:
  assumes "\<And>j. j \<in> set js \<Longrightarrow> job_inv q j" "q < seq" "bt_get (target_generations c) n = Some seq"
  shows "held_count k c n js = 0"
  using assms unfolding held_count_def length_filter_0_iff carries_def job_inv_def
  by (metis option.distinct(1) leD)

lemma held_count_new_cell:
  assumes "\<And>j. j \<in> set js \<Longrightarrow> job_inv q j" "q < generation c"
  shows "j \<in> set js \<Longrightarrow> \<not> carries k c m j" and "held_count k c n js = 0"
proof -
  have no: "\<not> carries k c m j" if "j \<in> set js" for m j
    using assms(1) [OF that] assms(2) by (auto simp: carries_def job_inv_def)
  then show "j \<in> set js \<Longrightarrow> \<not> carries k c m j" .
  show "held_count k c n js = 0"
    using no by (simp add: held_count_def length_filter_0_iff)
qed

section \<open>register\<close>

lemma insert_ids_Some:
  "insert_ids ids ts = Some ids' \<Longrightarrow>
     set ids' = set ids \<union> (\<lambda>t. component (probe t)) ` set ts
     \<and> distinct (map (\<lambda>t. component (probe t)) ts)
     \<and> set ids \<inter> (\<lambda>t. component (probe t)) ` set ts = {}"
  by (induction ids ts rule: insert_ids.induct) (auto split: if_splits)

lemma check_chunks_ok:
  "check_chunks i ids cs = Inr () \<Longrightarrow>
     distinct (map (\<lambda>t. component (probe t)) (concat cs))
     \<and> set ids \<inter> (\<lambda>t. component (probe t)) ` set (concat cs) = {}
     \<and> (\<forall>t \<in> set (concat cs). \<not> bad_target (probe t))"
proof (induction i ids cs rule: check_chunks.induct)
  case (2 i ids chunk rest)
  then obtain ids' where v: "validate (validation_request i chunk) (instance_key i) = Inr ()"
    and ids: "insert_ids ids chunk = Some ids'" and rest: "check_chunks i ids' rest = Inr ()"
    by (auto split: sum.splits option.splits)
  from "2.IH" [OF v ids rest] insert_ids_Some [OF ids] v show ?case
    by (auto simp: validate_iff validation_request_def)
qed simp

lemma target_map_get:
  assumes "distinct (map (\<lambda>t. component (probe t)) ts)"
  shows "bt_get (target_map ts) n = Some t \<longleftrightarrow> t \<in> set ts \<and> component (probe t) = n"
proof -
  have d: "distinct (map fst (map (\<lambda>t. (component (probe t), t)) ts))"
    using assms by (simp add: comp_def)
  show ?thesis
    unfolding target_map_def bt_of_list_get [OF d] map_of_eq_Some_iff [OF d] by auto
qed

lemma accepted_targets_valid:
  assumes "check_chunks i [] (chunks MAX_BATCH_TARGETS ts) = Inr ()"
  shows "valid_targets (target_map ts)"
proof -
  from check_chunks_ok [OF assms]
  have d: "distinct (map (\<lambda>t. component (probe t)) ts)" and ok: "\<forall>t \<in> set ts. \<not> bad_target (probe t)"
    by (simp_all add: concat_chunks)
  show ?thesis
    using ok by (auto simp: valid_targets_def target_map_get [OF d]) (simp add: target_map_def)
qed

lemma due_count_simps [simp]:
  "due_count n [] = 0"
  "due_count n (heap_push e h) = due_count n h + (if snd e = n then 1 else 0)"
  by (simp_all add: due_count_def)

lemma due_count_heap_of_list:
  "due_count n (heap_of_list (map (\<lambda>k. (now, k)) ks)) = count_list ks n"
proof -
  have "length (filter (\<lambda>e. snd e = n) (map (\<lambda>k. (now, k)) ks)) = count_list ks n"
    by (induction ks) auto
  then show ?thesis by (simp add: due_count_def)
qed

lemma due_count_fold_push:
  "due_count n (fold (\<lambda>k. heap_push (now, k)) ks h) = due_count n h + count_list ks n"
  by (induction ks arbitrary: h) (auto simp: due_count_def)

lemma due_count_retain:
  "due_count n (heap_retain (\<lambda>e. p (snd e)) h) = (if p n then due_count n h else 0)"
  by (induction h) (auto simp: due_count_def heap_retain_def)

lemma due_count_zero: "n \<notin> snd ` set h \<Longrightarrow> due_count n h = 0"
  by (auto simp: due_count_def filter_empty_conv)

lemma count_list_distinct: "distinct ks \<Longrightarrow> count_list ks n = (if n \<in> set ks then 1 else 0)"
  by (induction ks) auto

lemma bt_keys_distinct: "bt_wf m \<Longrightarrow> distinct (bt_keys m)"
  by (simp add: bt_keys_def bt_wf_distinct)

lemma new_cell_inv:
  assumes "\<not> bad_identity i" "valid_targets ts"
  shows "cell_inv seq (instance_key i) (new_cell i ts seq now)"
proof -
  have "map fst (map (\<lambda>k. (k, seq)) (bt_keys ts)) = bt_keys ts"
    by (simp add: comp_def)
  then have get: "bt_get (bt_of_list (map (\<lambda>k. (k, seq)) (bt_keys ts))) n =
      (if n \<in> dom (bt_get ts) then Some seq else None)" for n
    using assms(2) bt_keys_distinct [of ts]
    by (subst bt_of_list_get)
      (auto simp: valid_targets_def map_of_map_restrict restrict_map_def bt_keys_dom)
  show ?thesis
    using assms
    by (auto simp: cell_inv_def new_cell_def valid_observations_def get dom_def
        bt_keys_dom split: if_splits)
qed

lemma new_cell_custody:
  assumes "\<And>j. j \<in> set js \<Longrightarrow> job_inv q j" "q < seq" "valid_targets ts"
  shows "cell_custody k (new_cell i ts seq now) js"
proof -
  have g: "q < generation (new_cell i ts seq now)" using assms(2) by (simp add: new_cell_def)
  have "due_count n (due (new_cell i ts seq now)) = 1" if "n \<in> dom (bt_get ts)" for n
    using that assms(3) bt_keys_distinct [of ts]
    by (simp add: new_cell_def due_count_heap_of_list count_list_distinct bt_keys_dom
        valid_targets_def)
  moreover have "held_count k (new_cell i ts seq now) n js = 0" for n
    by (rule held_count_new_cell(2) [OF assms(1) g])
  moreover have "\<not> carries k (new_cell i ts seq now) n j" if "j \<in> set js" for n j
    using assms(1) g that by (rule held_count_new_cell(1))
  moreover have "targets (new_cell i ts seq now) = ts" by (simp add: new_cell_def)
  ultimately show ?thesis by (simp add: cell_custody_def)
qed

lemma changed_keys_iff:
  "k \<in> set (changed_keys old new) \<longleftrightarrow> bt_get old k \<noteq> bt_get new k"
  by (auto simp: changed_keys_def bt_keys_get)

lemma changed_keys_distinct: "distinct (changed_keys old new)"
  by (simp add: changed_keys_def)

lemma bt_get_fold_insert_const:
  "bt_get (fold (\<lambda>k. bt_insert k v) ks m) n = (if n \<in> set ks then Some v else bt_get m n)"
  by (induction ks arbitrary: m) auto

lemma bt_wf_fold_insert_const: "bt_wf m \<Longrightarrow> bt_wf (fold (\<lambda>k. bt_insert k v) ks m)"
  by (induction ks arbitrary: m) auto

lemma sorted_fold_push: "sorted h \<Longrightarrow> sorted (fold (\<lambda>k. heap_push (now, k)) ks h)"
  by (induction ks arbitrary: h) (auto intro: heap.ok_push)

lemma set_fold_push_key: "set (fold (\<lambda>k. heap_push (now, k)) ks h) = Pair now ` set ks \<union> set h"
  by (induction ks arbitrary: h) auto

lemma update_targets_get:
  "bt_get (target_generations (update_targets new seq now c)) n =
     (if bt_get (targets c) n = bt_get new n then bt_get (target_generations c) n
      else if bt_get new n = None then None else Some seq)"
  by (auto simp: update_targets_def Let_def bt_get_fold_insert_const changed_keys_iff
      bt_contains_key_def)

lemma update_targets_fields:
  "identity_of (update_targets new seq now c) = identity_of c"
  "generation (update_targets new seq now c) = generation c"
  "targets (update_targets new seq now c) = new"
  "bt_get (cell_observations (update_targets new seq now c)) n =
     (if bt_get (targets c) n = bt_get new n then bt_get (cell_observations c) n else None)"
  by (simp_all add: update_targets_def Let_def changed_keys_iff)

lemma update_targets_due_count:
  "due_count n (due (update_targets new seq now c)) =
     (if bt_get (targets c) n = bt_get new n then due_count n (due c)
      else if bt_get new n = None then 0 else 1)"
proof -
  have "due_count n (heap_retain (\<lambda>e. snd e \<notin> set (changed_keys (targets c) new)) (due c)) =
      (if bt_get (targets c) n = bt_get new n then due_count n (due c) else 0)"
    by (subst due_count_retain) (simp add: changed_keys_iff)
  moreover have "count_list (filter (bt_contains_key new) (changed_keys (targets c) new)) n =
      (if bt_get (targets c) n \<noteq> bt_get new n \<and> bt_get new n \<noteq> None then 1 else 0)"
    by (subst count_list_distinct)
      (auto simp: changed_keys_distinct changed_keys_iff bt_contains_key_def)
  ultimately show ?thesis
    by (auto simp: update_targets_def Let_def due_count_fold_push)
qed

lemma update_targets_inv:
  assumes inv: "cell_inv q k c" and q: "q < seq" and new: "valid_targets new"
  shows "cell_inv seq k (update_targets new seq now c)"
proof -
  let ?c = "update_targets new seq now c"
  have dom: "bt_get (target_generations c) n = None \<longleftrightarrow> bt_get (targets c) n = None" for n
    using inv by (intro bt_dom_eqD) (simp add: cell_inv_def)
  have d: "dom (bt_get (target_generations ?c)) = dom (bt_get new)"
    by (rule bt_dom_eqI) (simp add: update_targets_get dom)
  have g: "g \<le> seq" if "bt_get (target_generations ?c) n = Some g" for n g
    using that inv q unfolding cell_inv_def update_targets_get
    by (metis (no_types, opaque_lifting) option.sel option.distinct(1) order.refl order.trans
        less_imp_le)
  have "\<exists>t. bt_get new n = Some t \<and> ob_component (cached ob) = n
      \<and> cached_runtime_digest ob = runtime_digest t
      \<and> ob_rollout_digest (cached ob) = rollout_digest (probe t)"
    if "bt_get (cell_observations ?c) n = Some ob" for n ob
  proof -
    from that have eq: "bt_get (targets c) n = bt_get new n"
      and "bt_get (cell_observations c) n = Some ob"
      by (auto simp: update_targets_fields split: if_splits)
    moreover have "valid_observations c" using inv by (simp add: cell_inv_def)
    ultimately show ?thesis using valid_observationsD [of c n ob] by simp
  qed
  moreover have "bt_wf (cell_observations ?c)"
    using inv by (auto simp: cell_inv_def valid_observations_def update_targets_def Let_def)
  ultimately have obs: "valid_observations ?c"
    by (simp add: valid_observations_def update_targets_fields)
  have due: "snd ` set (due ?c) \<subseteq> dom (bt_get new)"
    using inv
    by (auto simp: cell_inv_def update_targets_def Let_def set_fold_push_key heap_retain_def
        bt_contains_key_def changed_keys_iff)
  have "sorted (due ?c)" and "bt_wf (target_generations ?c)"
    using inv by (auto simp: cell_inv_def update_targets_def Let_def
        intro!: sorted_fold_push bt_wf_fold_insert_const)
  then show ?thesis
    using inv q new d g obs due unfolding cell_inv_def update_targets_fields by auto
qed

lemma update_targets_carries:
  assumes "\<And>j. j \<in> set js \<Longrightarrow> job_inv q j" "q < seq" "j \<in> set js"
    and "dom (bt_get (target_generations c)) = dom (bt_get (targets c))"
  shows "carries k (update_targets new seq now c) n j \<longleftrightarrow>
     bt_get (targets c) n = bt_get new n \<and> carries k c n j"
proof -
  have "bt_get (job_target_generations j) n \<noteq> Some seq"
    using assms(1) [OF assms(3)] assms(2) unfolding job_inv_def by fastforce
  then show ?thesis
    by (auto simp: carries_def update_targets_get update_targets_fields)
qed

lemma update_targets_custody:
  assumes inv: "cell_inv q k c" and cust: "cell_custody k c js" and q: "q < seq"
    and js: "\<And>j. j \<in> set js \<Longrightarrow> job_inv q j"
  shows "cell_custody k (update_targets new seq now c) js"
proof -
  let ?c = "update_targets new seq now c"
  have dom: "dom (bt_get (target_generations c)) = dom (bt_get (targets c))"
    using inv by (simp add: cell_inv_def)
  have car: "carries k ?c n j \<longleftrightarrow> bt_get (targets c) n = bt_get new n \<and> carries k c n j"
    if "j \<in> set js" for n j
    by (rule update_targets_carries [OF js q that dom])
  have held: "held_count k ?c n js =
      (if bt_get (targets c) n = bt_get new n then held_count k c n js else 0)" for n
    unfolding held_count_def by (auto simp: car intro!: arg_cong [where f = length] filter_cong)
  have "due_count n (due ?c) + held_count k ?c n js = 1" if "n \<in> dom (bt_get new)" for n
  proof (cases "bt_get (targets c) n = bt_get new n")
    case True
    then have "n \<in> dom (bt_get (targets c))" using that by auto
    then show ?thesis using cust True
      by (simp add: cell_custody_def update_targets_due_count held)
  next
    case False
    then show ?thesis using that by (auto simp: update_targets_due_count held)
  qed
  moreover have "map_option probe (bt_get new (component t)) = Some t"
    if "j \<in> set js" "t \<in> set (rq_targets (job_request j))" "carries k ?c (component t) j" for j t
  proof -
    from that car [OF that(1)] have eq: "bt_get (targets c) (component t) = bt_get new (component t)"
      and "carries k c (component t) j" by simp_all
    then show ?thesis using cust that(1,2) unfolding cell_custody_def eq [symmetric] by blast
  qed
  ultimately show ?thesis
    unfolding cell_custody_def update_targets_fields by blast
qed

text \<open>Storing a cell under its key keeps the invariant of the whole scheduler.\<close>

lemma sched_inv_put_cell:
  assumes inv: "sched_inv s js" and le: "sequence s \<le> seq"
    and c: "cell_inv seq k c" "cell_custody k c js"
    and ord: "ord = order s @ (if bt_contains_key (cells s) k then [] else [k])"
  shows "sched_inv (s\<lparr>sequence := seq, order := ord, cells := bt_insert k c (cells s)\<rparr>) js"
proof -
  have q: "queue_inv s" using inv by (simp add: sched_inv_def)
  have "i \<le> seq" if "i \<in> dom (bt_get (inflight s))" for i
    using q le that by (auto simp: queue_inv_def intro: order.trans [OF _ le])
  moreover have "distinct ord" and "set ord = dom (bt_get (bt_insert k c (cells s)))"
    using q by (auto simp: queue_inv_def ord bt.dom_ins bt_contains_key_def)
  ultimately have "queue_inv (s\<lparr>sequence := seq, order := ord, cells := bt_insert k c (cells s)\<rparr>)"
    using queue_invD [OF q] by (intro queue_invI) (auto simp: worker_load_def)
  moreover have "jobs_inv (s\<lparr>sequence := seq, order := ord, cells := bt_insert k c (cells s)\<rparr>) js"
    using inv job_inv_mono [OF _ le] by (simp add: sched_inv_def jobs_inv_def)
  moreover have "cell_inv seq k' c' \<and> cell_custody k' c' js"
    if "bt_get (bt_insert k c (cells s)) k' = Some c'" for k' c'
    using that c sched_inv_cellD [OF inv, of k' c'] cell_inv_mono [OF _ le]
    by (auto split: if_splits)
  ultimately show ?thesis by (simp add: sched_inv_def)
qed

text \<open>What \<open>register\<close> does when it neither rejects nor finds the same registration.\<close>

lemma register_cases:
  assumes "register s i ts now = (s', r)"
  obtains (unchanged) "s' = s" "r \<noteq> Inr True"
  | (stored) seq c' where "\<not> bad_identity i" "r = Inr True"
      "check_chunks i [] (chunks MAX_BATCH_TARGETS ts) = Inr ()"
      "checked_add (sequence s) 1 = Some seq"
      "c' = (case bt_get (cells s) (instance_key i) of
               Some c \<Rightarrow> (if identity_of c = i then update_targets (target_map ts) seq now c
                          else new_cell i (target_map ts) seq now)
             | None \<Rightarrow> new_cell i (target_map ts) seq now)"
      "s' = s\<lparr>sequence := seq,
              order := order s @ (if bt_contains_key (cells s) (instance_key i) then []
                                  else [instance_key i]),
              cells := bt_insert (instance_key i) c' (cells s)\<rparr>"
proof (cases "bad_identity i")
  case True
  with assms show ?thesis by (intro unchanged) (auto simp: register_def)
next
  case nb: False
  let ?chk = "check_chunks i [] (chunks MAX_BATCH_TARGETS ts)"
  let ?known = "case bt_get (cells s) (instance_key i) of
    None \<Rightarrow> False | Some c \<Rightarrow> identity_of c = i \<and> targets c = target_map ts"
  show ?thesis
  proof (cases ?chk)
    case (Inl e)
    with nb assms show ?thesis by (intro unchanged) (auto simp: register_def)
  next
    case (Inr u)
    then have chk: "?chk = Inr ()" by simp
    show ?thesis
    proof (cases "?known \<or> checked_add (sequence s) 1 = None")
      case True
      then show ?thesis using assms nb chk
        by (intro unchanged; cases ?known) (auto simp: register_def Let_def)
    next
      case False
      then obtain seq where seq: "checked_add (sequence s) 1 = Some seq" and "\<not> ?known" by auto
      then show ?thesis using assms
        by (intro stored [OF nb _ chk seq refl])
          (auto simp: register_def Let_def nb chk split: option.splits if_splits)
    qed
  qed
qed

lemma register_inv [preserved]:
  assumes inv: "sched_inv s js" and reg: "register s i ts now = (s', r)"
  shows "sched_inv s' js"
  using reg
proof (cases rule: register_cases)
  case unchanged
  then show ?thesis using inv by simp
next
  case (stored seq c')
  let ?k = "instance_key i"
  have lt: "sequence s < seq" by (rule checked_add_one_greater) (fact stored(4))
  have new: "valid_targets (target_map ts)" by (rule accepted_targets_valid) (fact stored(3))
  have js: "\<And>j. j \<in> set js \<Longrightarrow> job_inv (sequence s) j"
    using inv by (simp add: sched_inv_def jobs_inv_def)
  note fresh = new_cell_inv [OF stored(1) new] new_cell_custody [OF js lt new]
  have "cell_inv seq ?k c' \<and> cell_custody ?k c' js"
  proof (cases "bt_get (cells s) ?k")
    case None
    then show ?thesis using fresh by (simp add: stored(5))
  next
    case (Some c)
    note old = sched_inv_cellD [OF inv Some]
    show ?thesis
      using fresh Some old update_targets_inv [OF _ lt new]
        update_targets_custody [OF _ _ lt js]
      by (simp add: stored(5))
  qed
  then show ?thesis
    using sched_inv_put_cell [OF inv] lt by (simp add: stored(6))
qed

section \<open>remove\<close>

lemma remove_inv [preserved]:
  assumes "sched_inv s js"
  shows "sched_inv (remove s k) js"
proof -
  have "queue_inv (remove s k)" "jobs_inv (remove s k) js"
    using assms
    by (auto simp: sched_inv_def queue_inv_def jobs_inv_def remove_def worker_load_def bt.dom_del)
  then show ?thesis
    using assms by (auto simp: sched_inv_def remove_def split: if_splits)
qed

section \<open>dispatch\<close>

lemma collect_due_spec:
  "collect_due room now ts h = (h', picked) \<Longrightarrow> snd ` set h \<subseteq> dom (bt_get ts) \<Longrightarrow>
   \<exists>m bs. picked = Some (map probe bs) \<and> h' = drop m h \<and> length bs = m \<and> m \<le> room
     \<and> m \<le> length h
     \<and> map (\<lambda>e. bt_get ts (snd e)) (take m h) = map Some bs
     \<and> (\<forall>e \<in> set (take m h). fst e \<le> now)
     \<and> (m = room \<or> m = length h \<or> now < fst (h ! m))"
proof (induction room now ts h arbitrary: h' picked rule: collect_due.induct)
  case (1 now ts h)
  then show ?case by auto
next
  case (2 room now ts h)
  show ?case
  proof (cases h)
    case Nil
    with 2 show ?thesis by auto
  next
    case (Cons e rest)
    obtain at name where e: "e = (at, name)" by (cases e)
    show ?thesis
    proof (cases "at \<le> now")
      case False
      with 2 show ?thesis by (auto simp: Cons e intro!: exI [of _ 0])
    next
      case True
      from "2.prems" obtain t where t: "bt_get ts name = Some t" by (auto simp: Cons e)
      obtain h'' picked'' where rec: "collect_due room now ts rest = (h'', picked'')"
        by (cases "collect_due room now ts rest")
      have "snd ` set rest \<subseteq> dom (bt_get ts)" using "2.prems" by (simp add: Cons)
      with "2.IH" [OF _ _ _ True t rec] obtain m bs where
        ih: "picked'' = Some (map probe bs)" "h'' = drop m rest" "length bs = m" "m \<le> room"
          "m \<le> length rest" "map (\<lambda>e. bt_get ts (snd e)) (take m rest) = map Some bs"
          "\<forall>e \<in> set (take m rest). fst e \<le> now"
          "m = room \<or> m = length rest \<or> now < fst (rest ! m)"
        by (auto simp: Cons e)
      have "picked = Some (map probe (t # bs))" "h' = drop (Suc m) h"
        using "2.prems" True t rec ih(1,2) by (auto simp: Cons e)
      then show ?thesis using ih t True
        by (intro exI [of _ "Suc m"] exI [of _ "t # bs"]) (auto simp: Cons e)
    qed
  qed
qed

text \<open>The facts a turn of the queue relies on.\<close>

definition turn_ok :: "scheduler \<Rightarrow> bool" where
  "turn_ok s \<longleftrightarrow>
     bt_wf (cells s) \<and> set (order s) \<subseteq> dom (bt_get (cells s))
     \<and> (\<forall>k c. bt_get (cells s) k = Some c \<longrightarrow>
          sorted (due c) \<and> snd ` set (due c) \<subseteq> dom (bt_get (targets c))
          \<and> valid_targets (targets c)
          \<and> dom (bt_get (target_generations c)) = dom (bt_get (targets c)))"

lemma turn_ok_inv: "sched_inv s js \<Longrightarrow> turn_ok s"
  by (simp add: turn_ok_def sched_inv_def queue_inv_def cell_inv_def)

lemma turn_ok_order: "turn_ok s \<Longrightarrow> set ks = set (order s) \<Longrightarrow> turn_ok (s\<lparr>order := ks\<rparr>)"
  by (simp add: turn_ok_def)

text \<open>A cell that may be given a batch now: capacity left on its worker and something due.\<close>

definition eligible :: "scheduler \<Rightarrow> u64 \<Rightarrow> string \<Rightarrow> bool" where
  "eligible s now k \<longleftrightarrow>
     worker_load s k < MAX_BATCHES_PER_WORKER
     \<and> (case bt_get (cells s) k of None \<Rightarrow> False | Some c \<Rightarrow> list_ex (\<lambda>e. fst e \<le> now) (due c))"

lemma worker_load_order [simp]: "worker_load (s\<lparr>order := ks\<rparr>) k = worker_load s k"
  by (simp add: worker_load_def)

lemma eligible_order [simp]: "eligible (s\<lparr>order := ks\<rparr>) now k = eligible s now k"
  by (simp add: eligible_def)

lemma bt_insert_same: "bt_wf m \<Longrightarrow> bt_get m k = Some v \<Longrightarrow> bt_insert k v m = m"
  by (rule bt_eqI) auto

lemma skip_turn:
  assumes ok: "turn_ok s" and ord: "order s = k # ks" and ne: "\<not> eligible s now k"
  shows "dispatch_turns (Suc n) nid now s = dispatch_turns n nid now (s\<lparr>order := ks @ [k]\<rparr>)"
proof (cases "worker_load s k \<ge> MAX_BATCHES_PER_WORKER")
  case True
  then show ?thesis by (simp add: ord Let_def)
next
  case False
  from ok ord obtain c where c: "bt_get (cells s) k = Some c" by (auto simp: turn_ok_def)
  with ne False have nd: "\<forall>e \<in> set (due c). \<not> fst e \<le> now"
    by (auto simp: eligible_def list_ex_iff)
  obtain h picked where cd: "collect_due MAX_BATCH_TARGETS now (targets c) (due c) = (h, picked)"
    by (cases "collect_due MAX_BATCH_TARGETS now (targets c) (due c)")
  have "snd ` set (due c) \<subseteq> dom (bt_get (targets c))" using ok c by (simp add: turn_ok_def)
  from collect_due_spec [OF cd this] obtain m bs where m: "picked = Some (map probe bs)"
    "h = drop m (due c)" "length bs = m" "m \<le> MAX_BATCH_TARGETS" "m \<le> length (due c)"
    "map (\<lambda>e. bt_get (targets c) (snd e)) (take m (due c)) = map Some bs"
    "\<forall>e \<in> set (take m (due c)). fst e \<le> now"
    "m = MAX_BATCH_TARGETS \<or> m = length (due c) \<or> now < fst (due c ! m)"
    by blast
  have "m = 0"
  proof (rule ccontr)
    assume "m \<noteq> 0"
    with m(5) have "due c ! 0 \<in> set (take m (due c))" by (cases "due c"; cases m) auto
    with m(7) nd show False by (meson in_set_takeD)
  qed
  with m have "picked = Some []" "h = due c" by auto
  with cd c False ok show ?thesis
    by (simp add: ord Let_def bt_insert_same turn_ok_def del: collect_due.simps)
qed

lemma skip_turns:
  assumes "turn_ok s" "order s = pre @ rest" "\<forall>k \<in> set pre. \<not> eligible s now k"
  shows "dispatch_turns (length pre + n) nid now s = dispatch_turns n nid now (s\<lparr>order := rest @ pre\<rparr>)"
  using assms
proof (induction pre arbitrary: s rest)
  case Nil
  then have "s\<lparr>order := rest @ []\<rparr> = s" by simp
  then show ?case by simp
next
  case (Cons k pre)
  have "dispatch_turns (Suc (length pre + n)) nid now s
      = dispatch_turns (length pre + n) nid now (s\<lparr>order := (pre @ rest) @ [k]\<rparr>)"
    using Cons.prems by (intro skip_turn) auto
  also have "\<dots> = dispatch_turns n nid now (s\<lparr>order := (pre @ rest) @ [k]\<rparr>\<lparr>order := (rest @ [k]) @ pre\<rparr>)"
    using Cons.prems by (intro Cons.IH turn_ok_order) auto
  finally show ?case by simp
qed

text \<open>The state and the job after a batch of \<open>m\<close> entries was taken from cell \<open>c\<close>.\<close>

definition issue_batch :: "scheduler \<Rightarrow> string \<Rightarrow> string list \<Rightarrow> cell \<Rightarrow> nat \<Rightarrow> u64 \<Rightarrow> scheduler" where
  "issue_batch s k ks c m nid =
     s\<lparr>order := ks, cells := bt_insert k (c\<lparr>due := drop m (due c)\<rparr>) (cells s),
       sequence := nid, inflight := bt_insert nid k (inflight s)\<rparr>"

definition batch_of :: "cell \<Rightarrow> u64 \<Rightarrow> nat \<Rightarrow> target list \<Rightarrow> (string, u64) btree \<Rightarrow> bool" where
  "batch_of c now m ts gens \<longleftrightarrow>
     0 < m \<and> m \<le> MAX_BATCH_TARGETS \<and> m \<le> length (due c)
     \<and> (\<forall>e \<in> set (take m (due c)). fst e \<le> now)
     \<and> map component ts = map snd (take m (due c))
     \<and> (\<forall>t \<in> set ts. map_option probe (bt_get (targets c) (component t)) = Some t)
     \<and> (m = MAX_BATCH_TARGETS \<or> m = length (due c) \<or> now < fst (due c ! m))
     \<and> batch_generations c ts = Some gens"

lemma take_turn:
  assumes ok: "turn_ok s" and ord: "order s = k # ks" and el: "eligible s now k"
  obtains c m ts gens where "bt_get (cells s) k = Some c" "batch_of c now m ts gens"
    "dispatch_turns (Suc n) nid now s =
       (issue_batch s k (ks @ [k]) c m nid, Returned (Some (make_job c k ts gens nid now)))"
proof -
  from ok ord obtain c where c: "bt_get (cells s) k = Some c" by (auto simp: turn_ok_def)
  have load: "\<not> worker_load s k \<ge> MAX_BATCHES_PER_WORKER" using el by (simp add: eligible_def)
  obtain h picked where cd: "collect_due MAX_BATCH_TARGETS now (targets c) (due c) = (h, picked)"
    by (cases "collect_due MAX_BATCH_TARGETS now (targets c) (due c)")
  have "snd ` set (due c) \<subseteq> dom (bt_get (targets c))" using ok c by (simp add: turn_ok_def)
  from collect_due_spec [OF cd this] obtain m bs where m: "picked = Some (map probe bs)"
    "h = drop m (due c)" "length bs = m" "m \<le> MAX_BATCH_TARGETS" "m \<le> length (due c)"
    "map (\<lambda>e. bt_get (targets c) (snd e)) (take m (due c)) = map Some bs"
    "\<forall>e \<in> set (take m (due c)). fst e \<le> now"
    "m = MAX_BATCH_TARGETS \<or> m = length (due c) \<or> now < fst (due c ! m)"
    by blast
  have vt: "valid_targets (targets c)" and sorted: "sorted (due c)"
    and dom: "dom (bt_get (target_generations c)) = dom (bt_get (targets c))"
    using ok c by (simp_all add: turn_ok_def)
  have nth: "bt_get (targets c) (snd (due c ! i)) = Some (bs ! i)" if "i < m" for i
    using arg_cong [OF m(6), of "\<lambda>xs. xs ! i"] that m(3,5) by simp
  have comp: "map component (map probe bs) = map snd (take m (due c))"
  proof (rule nth_equalityI)
    show "length (map component (map probe bs)) = length (map snd (take m (due c)))"
      using m(3,5) by simp
    fix i assume "i < length (map component (map probe bs))"
    then have i: "i < m" using m(3) by simp
    then show "map component (map probe bs) ! i = map snd (take m (due c)) ! i"
      using nth [OF i] vt m(3,5) unfolding valid_targets_def by simp
  qed
  have got: "map_option probe (bt_get (targets c) (component t)) = Some t"
    if "t \<in> set (map probe bs)" for t
  proof -
    from that m(3) obtain i where i: "i < m" "t = probe (bs ! i)"
      by (auto simp: in_set_conv_nth)
    then show ?thesis using nth [OF i(1)] vt unfolding valid_targets_def by simp
  qed
  have "0 < m"
  proof (rule ccontr)
    assume "\<not> 0 < m"
    moreover from el c obtain e where e: "e \<in> set (due c)" "fst e \<le> now"
      by (auto simp: eligible_def list_ex_iff)
    ultimately have "now < fst (due c ! 0)" using m(8) by (auto simp: MAX_BATCH_TARGETS_def)
    moreover have "due c ! 0 \<le> e" using e(1) sorted by (cases "due c") auto
    then have "fst (due c ! 0) \<le> fst e" by (auto simp: less_eq_prod_def)
    ultimately show False using e(2) by (meson leD order.trans)
  qed
  have "\<exists>ys. all_some (map (\<lambda>t. map_option (Pair (component t))
      (bt_get (target_generations c) (component t))) (map probe bs)) = Some ys"
  proof (rule all_some_defined)
    fix t assume "t \<in> set (map probe bs)"
    from got [OF this] have "bt_get (targets c) (component t) \<noteq> None" by auto
    then show "map_option (Pair (component t)) (bt_get (target_generations c) (component t)) \<noteq> None"
      using bt_dom_eqD [OF dom] by simp
  qed
  then obtain gens where gens: "batch_generations c (map probe bs) = Some gens"
    by (auto simp: batch_generations_def)
  have "map probe bs \<noteq> []" using \<open>0 < m\<close> m(3) by auto
  then have "dispatch_turns (Suc n) nid now s =
      (issue_batch s k (ks @ [k]) c m nid,
       Returned (Some (make_job c k (map probe bs) gens nid now)))"
    using cd m(1,2) c load gens
    by (simp add: ord Let_def issue_batch_def del: collect_due.simps)
  moreover have "batch_of c now m (map probe bs) gens"
    using \<open>0 < m\<close> m comp got gens by (simp add: batch_of_def)
  ultimately show ?thesis using that c by blast
qed

text \<open>One call of \<open>dispatch_turns\<close> over the whole queue, and so one call of \<open>dispatch\<close>.\<close>

lemma dispatch_turns_idle:
  assumes "turn_ok s" "\<forall>k \<in> set (order s). \<not> eligible s now k"
  shows "dispatch_turns (length (order s)) nid now s = (s, Returned None)"
  using skip_turns [of s "order s" "[]" now 0 nid] assms by simp

lemma dispatch_turns_issue:
  assumes ok: "turn_ok s" and ord: "order s = pre @ k # post"
    and pre: "\<forall>k \<in> set pre. \<not> eligible s now k" and el: "eligible s now k"
  obtains c m ts gens where "bt_get (cells s) k = Some c" "batch_of c now m ts gens"
    "dispatch_turns (length (order s)) nid now s =
       (issue_batch s k (post @ pre @ [k]) c m nid, Returned (Some (make_job c k ts gens nid now)))"
proof -
  let ?s = "s\<lparr>order := (k # post) @ pre\<rparr>"
  have "dispatch_turns (length (order s)) nid now s = dispatch_turns (Suc (length post)) nid now ?s"
    using skip_turns [OF ok ord pre, of "Suc (length post)" nid] by (simp add: ord)
  moreover have "turn_ok ?s" using ok by (rule turn_ok_order) (auto simp: ord)
  then obtain c m ts gens where "bt_get (cells ?s) k = Some c" "batch_of c now m ts gens"
    "dispatch_turns (Suc (length post)) nid now ?s =
       (issue_batch ?s k ((post @ pre) @ [k]) c m nid, Returned (Some (make_job c k ts gens nid now)))"
    using el by (rule_tac take_turn [of ?s k "post @ pre" now "length post" nid]) simp_all
  ultimately show ?thesis using that by (simp add: issue_batch_def)
qed

lemma dispatch_cases:
  assumes inv: "sched_inv s js"
  obtains (idle) "dispatch s now = (s, Returned None)"
      "length (inflight s) \<ge> MAX_INFLIGHT_BATCHES \<or> checked_add (sequence s) 1 = None
       \<or> (\<forall>k \<in> set (order s). \<not> eligible s now k)"
  | (issued) pre k post c m ts gens nid where
      "length (inflight s) < MAX_INFLIGHT_BATCHES" "checked_add (sequence s) 1 = Some nid"
      "order s = pre @ k # post" "\<forall>k \<in> set pre. \<not> eligible s now k" "eligible s now k"
      "bt_get (cells s) k = Some c" "batch_of c now m ts gens"
      "dispatch s now =
         (issue_batch s k (post @ pre @ [k]) c m nid, Returned (Some (make_job c k ts gens nid now)))"
proof -
  have ok: "turn_ok s" using inv by (rule turn_ok_inv)
  consider "length (inflight s) \<ge> MAX_INFLIGHT_BATCHES \<or> checked_add (sequence s) 1 = None"
    | nid where "length (inflight s) < MAX_INFLIGHT_BATCHES" "checked_add (sequence s) 1 = Some nid"
    by fastforce
  then show ?thesis
  proof cases
    case 1
    then show ?thesis by (intro idle) (auto simp: dispatch_def)
  next
    case (2 nid)
    show ?thesis
    proof (cases "\<exists>k \<in> set (order s). eligible s now k")
      case False
      then show ?thesis using 2 dispatch_turns_idle [OF ok]
        by (intro idle) (auto simp: dispatch_def)
    next
      case True
      then obtain pre k post where split: "order s = pre @ k # post" "eligible s now k"
        "\<forall>k \<in> set pre. \<not> eligible s now k"
        using split_list_first_prop [OF True] by blast
      from dispatch_turns_issue [OF ok split(1,3,2), of nid] obtain c m ts gens where
        turn: "bt_get (cells s) k = Some c" "batch_of c now m ts gens"
          "dispatch_turns (length (order s)) nid now s =
             (issue_batch s k (post @ pre @ [k]) c m nid,
              Returned (Some (make_job c k ts gens nid now)))"
        by blast
      then have "dispatch s now =
          (issue_batch s k (post @ pre @ [k]) c m nid, Returned (Some (make_job c k ts gens nid now)))"
        using 2 by (simp add: dispatch_def)
      then show ?thesis by (rule issued [OF 2 split(1,3,2) turn(1,2)])
    qed
  qed
qed

section \<open>An issued batch keeps the invariant\<close>

lemma due_count_list: "due_count n h = count_list (map snd h) n"
  by (induction h) (auto simp: due_count_def)

lemma distinct_if_count_le1: "(\<And>x. count_list xs x \<le> 1) \<Longrightarrow> distinct xs"
proof (induction xs)
  case (Cons x xs)
  have "count_list xs y \<le> 1" for y using Cons.prems [of y] by (auto split: if_splits)
  moreover have "count_list xs x = 0" using Cons.prems [of x] by simp
  ultimately show ?case using Cons.IH by (simp add: count_list_0_iff)
qed simp

lemma batch_distinct:
  assumes inv: "cell_inv q k c" and cust: "cell_custody k c js" and b: "batch_of c now m ts gens"
  shows "distinct (map component ts)"
    and "due_count n (drop m (due c)) + count_list (map component ts) n = due_count n (due c)"
    and "component ` set ts \<subseteq> dom (bt_get (targets c))"
proof -
  have comp: "map component ts = map snd (take m (due c))"
    using b by (simp add: batch_of_def)
  have sum: "due_count n (drop m (due c)) + count_list (map component ts) n = due_count n (due c)" for n
    unfolding comp due_count_list
    by (metis add.commute append_take_drop_id count_list_append map_append)
  show "due_count n (drop m (due c)) + count_list (map component ts) n = due_count n (due c)"
    by (rule sum)
  show sub: "component ` set ts \<subseteq> dom (bt_get (targets c))"
    using b by (auto simp: batch_of_def)
  have "count_list (map component ts) n \<le> 1" for n
  proof (cases "n \<in> component ` set ts")
    case True
    with sub have "n \<in> dom (bt_get (targets c))" by blast
    with cust have "due_count n (due c) + held_count k c n js = 1" by (simp add: cell_custody_def)
    then show ?thesis using sum [of n] by linarith
  next
    case False
    then show ?thesis by (simp add: count_list_0_iff)
  qed
  then show "distinct (map component ts)" by (rule distinct_if_count_le1)
qed

lemma all_found:
  "map (\<lambda>t. map_option (Pair (g t)) (f (g t))) ts = map Some kgs \<Longrightarrow>
   map fst kgs = map g ts \<and> (\<forall>kg \<in> set kgs. f (fst kg) = Some (snd kg))"
proof (induction ts arbitrary: kgs)
  case (Cons t ts)
  then obtain kg kgs' where kgs: "kgs = kg # kgs'" by (cases kgs) auto
  with Cons.prems have "map_option (Pair (g t)) (f (g t)) = Some kg" by simp
  then have "fst kg = g t" "f (g t) = Some (snd kg)" by (auto simp: map_option_case split: option.splits)
  with Cons.IH [of kgs'] Cons.prems show ?case by (simp add: kgs)
qed simp

lemma batch_generations_get:
  assumes "batch_generations c ts = Some gens" "distinct (map component ts)"
  shows "bt_wf gens"
    and "bt_get gens n = (if n \<in> component ` set ts then bt_get (target_generations c) n else None)"
    and "n \<in> component ` set ts \<Longrightarrow> bt_get (target_generations c) n \<noteq> None"
proof -
  from assms(1) obtain kgs where gens: "gens = bt_of_list kgs" and
    "all_some (map (\<lambda>t. map_option (Pair (component t))
       (bt_get (target_generations c) (component t))) ts) = Some kgs"
    by (auto simp: batch_generations_def)
  then have eq: "map (\<lambda>t. map_option (Pair (component t))
       (bt_get (target_generations c) (component t))) ts = map Some kgs"
    by (simp add: all_some_map_iff)
  show "bt_wf gens" by (simp add: gens)
  have keys: "map fst kgs = map component ts"
    and vals: "\<forall>kg \<in> set kgs. bt_get (target_generations c) (fst kg) = Some (snd kg)"
    using all_found [OF eq] by simp_all
  have get: "bt_get gens n = map_of kgs n"
    by (simp add: gens bt_of_list_get keys assms(2))
  have "set (map fst kgs) = component ` set ts" by (simp add: keys)
  then have mem: "n \<in> component ` set ts \<longleftrightarrow> n \<in> fst ` set kgs" by simp
  show "bt_get gens n = (if n \<in> component ` set ts then bt_get (target_generations c) n else None)"
  proof (cases "map_of kgs n")
    case None
    then show ?thesis by (simp add: get mem map_of_eq_None_iff)
  next
    case (Some g)
    then have "(n, g) \<in> set kgs" by (rule map_of_SomeD)
    then show ?thesis using vals Some by (force simp: get mem)
  qed
  show "n \<in> component ` set ts \<Longrightarrow> bt_get (target_generations c) n \<noteq> None"
    using vals by (auto simp: mem)
qed

lemma make_job_carries:
  assumes inv: "cell_inv q k c" and gens: "batch_generations c ts = Some gens"
    and d: "distinct (map component ts)"
  shows "carries k' c' n (make_job c k ts gens nid now) \<longleftrightarrow>
    k' = k \<and> generation c = generation c' \<and> n \<in> component ` set ts
    \<and> bt_get (target_generations c) n = bt_get (target_generations c') n"
proof -
  have "instance_key (identity_of c) = k" using inv by (simp add: cell_inv_def)
  then show ?thesis
    using batch_generations_get(2,3) [OF gens d, of n]
    by (auto simp: carries_def make_job_def)
qed

lemma make_job_inv:
  assumes inv: "cell_inv q k c" and b: "batch_of c now m ts gens"
    and d: "distinct (map component ts)" and q: "q < nid"
  shows "job_inv nid (make_job c k ts gens nid now)"
proof -
  let ?j = "make_job c k ts gens nid now"
  have gens: "batch_generations c ts = Some gens" using b by (simp add: batch_of_def)
  note get = batch_generations_get [OF gens d]
  have key: "instance_key (identity_of c) = k" and id: "\<not> bad_identity (identity_of c)"
    and vt: "valid_targets (targets c)" using inv by (simp_all add: cell_inv_def)
  have "length ts = m"
    using b by (auto simp: batch_of_def dest: map_eq_imp_length_eq)
  then have len: "ts \<noteq> []" "length ts \<le> MAX_BATCH_TARGETS" using b by (auto simp: batch_of_def)
  have good: "\<not> bad_target t" if "t \<in> set ts" for t
  proof -
    from b that have "map_option probe (bt_get (targets c) (component t)) = Some t"
      by (simp add: batch_of_def)
    then obtain st where "bt_get (targets c) (component t) = Some st" "probe st = t" by auto
    then show ?thesis using vt by (auto simp: valid_targets_def)
  qed
  have "validate (job_request ?j) k = Inr ()"
    using id len good d decimal_u64_length [of nid]
    by (auto simp: validate_iff make_job_def decimal_nonempty bad_identity_def)
  moreover have "dom (bt_get gens) = component ` set ts"
    using get(2,3) by (auto simp: dom_def)
  moreover have "g \<le> nid" if "bt_get gens n = Some g" for n g
  proof -
    from that get(2) [of n] have "bt_get (target_generations c) n = Some g"
      by (simp split: if_splits)
    then have "g \<le> q" using inv by (simp add: cell_inv_def)
    then show ?thesis using q by simp
  qed
  moreover have "generation c \<le> nid" using inv q by (auto simp: cell_inv_def)
  ultimately show ?thesis using get(1) key by (simp add: job_inv_def make_job_def)
qed

lemma issue_custody:
  assumes inv: "cell_inv q k c" and cust: "cell_custody k c js" and b: "batch_of c now m ts gens"
  shows "cell_custody k (c\<lparr>due := drop m (due c)\<rparr>) (make_job c k ts gens nid now # js)"
proof -
  let ?j = "make_job c k ts gens nid now" and ?c = "c\<lparr>due := drop m (due c)\<rparr>"
  note d = batch_distinct [OF inv cust b]
  have gens: "batch_generations c ts = Some gens" using b by (simp add: batch_of_def)
  have same: "carries k ?c = carries k c" by (simp add: carries_def fun_eq_iff)
  have new: "carries k c n ?j \<longleftrightarrow> n \<in> component ` set ts" for n
    by (simp add: make_job_carries [OF inv gens d(1)])
  have "due_count n (due ?c) + held_count k ?c n (?j # js) = 1" if "n \<in> dom (bt_get (targets c))" for n
  proof -
    have "held_count k ?c n (?j # js) = held_count k c n js + count_list (map component ts) n"
      using count_list_distinct [OF d(1), of n] by (simp add: held_count_def same new)
    moreover have "due_count n (due c) + held_count k c n js = 1"
      using cust that by (simp add: cell_custody_def)
    ultimately show ?thesis using d(2) [of n] by simp
  qed
  moreover have "rq_targets (job_request ?j) = ts" by (simp add: make_job_def)
  ultimately show ?thesis
    using cust b by (simp add: cell_custody_def same batch_of_def)
qed

lemma custody_other_key:
  assumes "cell_custody k' c' js" "instance_key (job_identity j) \<noteq> k'"
  shows "cell_custody k' c' (j # js)"
  using assms by (simp add: cell_custody_def held_count_def carries_def)

lemma worker_load_insert:
  "bt_wf (inflight s) \<Longrightarrow> bt_get (inflight s) nid = None \<Longrightarrow>
   worker_load (s\<lparr>inflight := bt_insert nid k (inflight s)\<rparr>) k' =
     worker_load s k' + (if k' = k then 1 else 0)"
  by (auto simp: worker_load_def bt_insert_fresh_filter)

lemma issue_inv [preserved]:
  assumes inv: "sched_inv s js" and room: "length (inflight s) < MAX_INFLIGHT_BATCHES"
    and nid: "checked_add (sequence s) 1 = Some nid"
    and ord: "order s = pre @ k # post" and el: "eligible s now k"
    and c: "bt_get (cells s) k = Some c" and b: "batch_of c now m ts gens"
  shows "sched_inv (issue_batch s k (post @ pre @ [k]) c m nid) (make_job c k ts gens nid now # js)"
proof -
  let ?s = "issue_batch s k (post @ pre @ [k]) c m nid" and ?j = "make_job c k ts gens nid now"
  have lt: "sequence s < nid" using nid by (rule checked_add_one_greater)
  have q: "queue_inv s" and js: "jobs_inv s js" using inv by (simp_all add: sched_inv_def)
  note ci = sched_inv_cellD [OF inv c]
  note d = batch_distinct [OF conjunct1 [OF ci] conjunct2 [OF ci] b]
  have key: "instance_key (job_identity ?j) = k"
    using ci by (simp add: make_job_def cell_inv_def)
  have fresh: "bt_get (inflight s) nid = None"
    using queue_invD(7) [OF q, of nid] lt by (metis domI leD not_None_eq)
  have load: "worker_load ?s k' = worker_load s k' + (if k' = k then 1 else 0)" for k'
    using worker_load_insert [OF queue_invD(2) [OF q] fresh]
    by (simp add: issue_batch_def worker_load_def)
  have "queue_inv ?s"
  proof (rule queue_invI)
    show "worker_load ?s k' \<le> MAX_BATCHES_PER_WORKER" for k'
      using queue_invD(6) [OF q, of k'] el by (simp add: load eligible_def)
    show "i \<le> sequence ?s" if "i \<in> dom (bt_get (inflight ?s))" for i
    proof (cases "i = nid")
      case False
      with that have "i \<in> dom (bt_get (inflight s))"
        by (simp add: issue_batch_def bt.dom_ins queue_invD(2) [OF q])
      then have "i \<le> sequence s" by (rule queue_invD(7) [OF q])
      with lt show ?thesis by (simp add: issue_batch_def)
    qed (simp add: issue_batch_def)
    show "length (inflight ?s) \<le> MAX_INFLIGHT_BATCHES"
      using room fresh by (simp add: issue_batch_def bt_insert_fresh_length queue_invD(2) [OF q])
    show "set (order ?s) = dom (bt_get (cells ?s))"
      using queue_invD(4) [OF q] queue_invD(1) [OF q] c
      by (auto simp: issue_batch_def ord bt.dom_ins)
    show "distinct (order ?s)" using queue_invD(3) [OF q] by (auto simp: issue_batch_def ord)
  qed (use queue_invD(1,2) [OF q] in \<open>auto simp: issue_batch_def\<close>)
  moreover have "jobs_inv ?s (?j # js)"
  proof -
    have new: "job_inv nid ?j" using make_job_inv ci b d(1) lt by blast
    have old: "job_inv nid j \<and> job_id j \<noteq> nid" if "j \<in> set js" for j
    proof -
      have "job_inv (sequence s) j" using js that by (simp add: jobs_inv_def)
      then have "job_inv nid j" and "job_id j \<le> sequence s"
        using job_inv_mono [OF _ less_imp_le [OF lt]] by (simp_all add: job_inv_def)
      then show ?thesis using lt by auto
    qed
    have id: "job_id ?j = nid" by (simp add: make_job_def)
    have fields: "sequence ?s = nid" "inflight ?s = bt_insert nid k (inflight s)"
      by (simp_all add: issue_batch_def)
    have "nid \<notin> job_id ` set js" using old by blast
    then have "distinct (map job_id (?j # js))" using js by (simp add: jobs_inv_def id)
    moreover have "length (inflight ?s) = length (?j # js)"
      using js fresh by (simp add: fields bt_insert_fresh_length queue_invD(2) [OF q] jobs_inv_def)
    moreover have "bt_get (inflight ?s) (job_id j) = Some (instance_key (job_identity j))"
      if "j \<in> set js" for j
      using js old [OF that] that by (simp add: fields jobs_inv_def)
    moreover have "bt_get (inflight ?s) (job_id ?j) = Some (instance_key (job_identity ?j))"
      by (simp add: fields id key)
    ultimately show ?thesis
      using new old unfolding jobs_inv_def by (simp add: fields)
  qed
  moreover have "cell_inv nid k' c' \<and> cell_custody k' c' (?j # js)"
    if "bt_get (cells ?s) k' = Some c'" for k' c'
  proof (cases "k' = k")
    case True
    have "snd ` set (drop m (due c)) \<subseteq> snd ` set (due c)" by (auto dest: in_set_dropD)
    then have "snd ` set (drop m (due c)) \<subseteq> dom (bt_get (targets c))"
      by (rule order.trans) (use ci in \<open>simp add: cell_inv_def\<close>)
    then have "cell_inv (sequence s) k (c\<lparr>due := drop m (due c)\<rparr>)"
      using ci by (simp add: cell_inv_def valid_observations_def sorted_wrt_drop)
    moreover have "c' = c\<lparr>due := drop m (due c)\<rparr>" using that True by (simp add: issue_batch_def)
    ultimately show ?thesis
      using True ci issue_custody [OF _ _ b] cell_inv_mono lt by (blast intro: less_imp_le)
  next
    case False
    then have "bt_get (cells s) k' = Some c'" using that by (simp add: issue_batch_def)
    from sched_inv_cellD [OF inv this] show ?thesis
      using custody_other_key False key cell_inv_mono lt by (metis less_imp_le)
  qed
  ultimately show ?thesis by (simp add: sched_inv_def) (simp add: issue_batch_def)
qed

section \<open>complete\<close>

text \<open>Freeing the slot of a job, and forgetting the job, keeps the shared part.\<close>

lemma bt_remove_length:
  "bt_wf m \<Longrightarrow> bt_get m k \<noteq> None \<Longrightarrow> Suc (length (bt_remove k m)) = length m"
proof (induction m)
  case (Cons e m)
  show ?case
  proof (cases "fst e = k")
    case True
    then have "bt_remove k m = m"
      using Cons.prems(1) by (auto simp: bt_remove_def bt_wf_def filter_id_conv)
    then show ?thesis using True by (simp add: bt_remove_def)
  next
    case False
    have "bt_wf m" using Cons.prems(1) by (simp add: bt_wf_def)
    moreover have "bt_get m k \<noteq> None" using Cons.prems(2) False by (cases e) (simp add: bt_get_def)
    ultimately show ?thesis using Cons.IH False by (simp add: bt_remove_def)
  qed
qed simp

lemma worker_load_remove: "worker_load (s\<lparr>inflight := bt_remove i (inflight s)\<rparr>) k \<le> worker_load s k"
  unfolding worker_load_def bt_remove_def by (induction "inflight s") (auto intro: le_SucI
      simp: length_filter_conv_card intro!: card_mono)

lemma free_slot_jobs:
  assumes js: "jobs_inv s js" and wf: "bt_wf (inflight s)" and j: "j \<in> set js"
  shows "jobs_inv (s\<lparr>inflight := bt_remove (job_id j) (inflight s)\<rparr>) (remove1 j js)"
proof -
  have d: "distinct (map job_id js)" using js by (simp add: jobs_inv_def)
  then have "distinct js" by (simp add: distinct_map)
  then have set: "set (remove1 j js) = set js - {j}" by (rule set_remove1_eq)
  have "job_id j' \<noteq> job_id j" if "j' \<in> set (remove1 j js)" for j'
    using d j that by (auto simp: set distinct_map dest: inj_onD)
  moreover have "distinct (map job_id (remove1 j js))"
    using d set by (auto simp: distinct_map intro: inj_on_subset)
  moreover have "Suc (length (bt_remove (job_id j) (inflight s))) = length (inflight s)"
    using js j by (intro bt_remove_length [OF wf]) (auto simp: jobs_inv_def)
  then have "length (bt_remove (job_id j) (inflight s)) = length (remove1 j js)"
    using js j by (simp add: jobs_inv_def length_remove1)
  ultimately show ?thesis using js by (simp add: jobs_inv_def set)
qed

lemma free_slot_queue:
  assumes q: "queue_inv s" and js: "jobs_inv s js" and j: "j \<in> set js"
  shows "queue_inv (s\<lparr>inflight := bt_remove (job_id j) (inflight s)\<rparr>)"
proof (rule queue_invI)
  let ?s = "s\<lparr>inflight := bt_remove (job_id j) (inflight s)\<rparr>"
  show "worker_load ?s k \<le> MAX_BATCHES_PER_WORKER" for k
    using worker_load_remove queue_invD(6) [OF q] by (rule order.trans)
  have "length (bt_remove (job_id j) (inflight s)) \<le> length (inflight s)"
    by (simp add: bt_remove_def)
  then show "length (inflight ?s) \<le> MAX_INFLIGHT_BATCHES"
    using queue_invD(5) [OF q] by simp
  show "i \<le> sequence ?s" if "i \<in> dom (bt_get (inflight ?s))" for i
    using that queue_invD(7) [OF q, of i] by (simp add: bt.dom_del queue_invD(2) [OF q])
qed (use queue_invD [OF q] in \<open>auto simp: bt.wf_del\<close>)

lemma held_count_remove1:
  "j \<in> set js \<Longrightarrow>
   held_count k c n (remove1 j js) + (if carries k c n j then 1 else 0) = held_count k c n js"
  unfolding held_count_def by (rule filter_count_remove1)

lemma custody_drop_idle:
  assumes "cell_custody k c js" "j \<in> set js" "\<And>n. \<not> carries k c n j"
  shows "cell_custody k c (remove1 j js)"
  using assms held_count_remove1 [OF assms(2), of k c]
  by (auto simp: cell_custody_def dest: in_set_remove1 [THEN iffD1, rotated] notin_set_remove1)

lemma current_keys_carries:
  assumes "bt_wf (job_target_generations j)" "generation c = job_generation j"
    "instance_key (job_identity j) = k"
  shows "n \<in> set (current_keys j c) \<longleftrightarrow> carries k c n j"
proof -
  have "n \<in> set (current_keys j c) \<longleftrightarrow>
      (\<exists>g. (n, g) \<in> set (job_target_generations j) \<and> bt_get (target_generations c) n = Some g)"
    by (force simp: current_keys_def)
  then show ?thesis
    using assms(2,3) by (auto simp: carries_def bt_get_iff [OF assms(1), symmetric])
qed

lemma not_current_carries:
  assumes "\<not> job_is_current s j" "bt_get (cells s) k = Some c" "bt_wf (job_target_generations j)"
  shows "\<not> carries k c n j"
  using assms by (auto simp: job_is_current_def carries_def list_ex_iff bt_get_iff)

lemma reschedule_fold_fields [simp]:
  "identity_of (fold (reschedule now) ts c) = identity_of c"
  "generation (fold (reschedule now) ts c) = generation c"
  "targets (fold (reschedule now) ts c) = targets c"
  "target_generations (fold (reschedule now) ts c) = target_generations c"
  by (induction ts arbitrary: c) (simp_all add: reschedule_def)

lemma reschedule_fold_due:
  "due_count n (due (fold (reschedule now) ts c)) = due_count n (due c) + count_list (map component ts) n"
  "snd ` set (due (fold (reschedule now) ts c)) = component ` set ts \<union> snd ` set (due c)"
  "sorted (due c) \<Longrightarrow> sorted (due (fold (reschedule now) ts c))"
  by (induction ts arbitrary: c) (auto simp: reschedule_def heap.ok_push)

lemma reschedule_fold_obs:
  "bt_get (cell_observations (fold (reschedule now) ts c)) n =
     (if n \<in> component ` set ts then None else bt_get (cell_observations c) n)"
  "bt_wf (cell_observations c) \<Longrightarrow> bt_wf (cell_observations (fold (reschedule now) ts c))"
  by (induction ts arbitrary: c) (auto simp: reschedule_def bt.wf_del)

lemma reschedule_fold_valid:
  assumes "valid_observations c"
  shows "valid_observations (fold (reschedule now) ts c)"
  using assms by (auto simp: valid_observations_def reschedule_fold_obs split: if_splits)

lemma store_observations_ok:
  assumes "valid_observations c"
    and "\<And>ob. ob \<in> set obs \<Longrightarrow> \<exists>t. bt_get (targets c) (ob_component ob) = Some t
           \<and> ob_rollout_digest ob = rollout_digest (probe t)"
  shows "\<exists>o'. store_observations st obs c = Returned (c\<lparr>cell_observations := o'\<rparr>)
           \<and> valid_observations (c\<lparr>cell_observations := o'\<rparr>)"
  using assms
proof (induction obs arbitrary: c)
  case Nil
  then show ?case by (intro exI [of _ "cell_observations c"]) simp
next
  case (Cons ob obs)
  from Cons.prems(2) [of ob] obtain t where t: "bt_get (targets c) (ob_component ob) = Some t"
    "ob_rollout_digest ob = rollout_digest (probe t)" by auto
  let ?c = "c\<lparr>cell_observations := bt_insert (ob_component ob)
     \<lparr>cached = ob, cached_runtime_digest = runtime_digest t, observed_at_millis = st\<rparr>
     (cell_observations c)\<rparr>"
  have "valid_observations ?c"
    using Cons.prems(1) t by (auto simp: valid_observations_def)
  then obtain o' where "store_observations st obs ?c = Returned (?c\<lparr>cell_observations := o'\<rparr>)"
    "valid_observations (?c\<lparr>cell_observations := o'\<rparr>)"
    using Cons.IH [of ?c] Cons.prems(2) by auto
  then show ?case using t by auto
qed

lemma check_observations_iff:
  "check_observations ts seen obs \<longleftrightarrow>
     distinct (map ob_component obs) \<and> set seen \<inter> ob_component ` set obs = {}
     \<and> (\<forall>ob \<in> set obs. \<exists>t \<in> set ts. component t = ob_component ob
                           \<and> rollout_digest t = ob_rollout_digest ob)"
  by (induction ts seen obs rule: check_observations.induct) (auto simp: list_ex_iff)

lemma validate_response_matches:
  assumes "validate_response j r = Some obs" "ob \<in> set obs"
  shows "\<exists>t \<in> set (rq_targets (job_request j)). component t = ob_component ob
           \<and> rollout_digest t = ob_rollout_digest ob"
  using assms by (auto simp: validate_response_def check_observations_iff
      split: response.splits if_splits)

text \<open>The cell after a current job came back, before and after its observations are cached.\<close>

lemma complete_current:
  assumes inv: "cell_inv q k c" and cust: "cell_custody k c js" and j: "j \<in> set js"
    and ji: "job_inv q j" and cur: "generation c = job_generation j" "instance_key (job_identity j) = k"
    and ts: "ts = filter (\<lambda>t. component t \<in> set (current_keys j c)) (rq_targets (job_request j))"
    and c1: "c1 = fold (reschedule now) ts c"
  shows "cell_inv q k c1" and "cell_custody k c1 (remove1 j js)"
proof -
  have keys: "n \<in> set (current_keys j c) \<longleftrightarrow> carries k c n j" for n
    using ji cur by (intro current_keys_carries) (auto simp: job_inv_def)
  have comps: "component ` set ts = {n. carries k c n j}"
  proof -
    have "n \<in> component ` set (rq_targets (job_request j))" if "carries k c n j" for n
      using that ji by (auto simp: job_inv_def carries_def dom_def)
    then show ?thesis by (auto simp: keys ts)
  qed
  have d: "distinct (map component ts)"
    using ji by (auto simp: ts job_inv_def validate_iff intro: distinct_map_filter)
  have sub: "{n. carries k c n j} \<subseteq> dom (bt_get (targets c))"
    using inv by (auto simp: carries_def cell_inv_def dom_def)
  have same: "carries k c1 = carries k c" by (simp add: carries_def fun_eq_iff c1)
  show "cell_inv q k c1"
    using inv sub reschedule_fold_valid [of c now ts]
    by (simp add: cell_inv_def c1 reschedule_fold_due comps)
  have "due_count n (due c1) + held_count k c1 n (remove1 j js) = 1"
    if "n \<in> dom (bt_get (targets c))" for n
  proof -
    have "count_list (map component ts) n = (if carries k c n j then 1 else 0)"
      using comps by (subst count_list_distinct [OF d]) auto
    moreover have "due_count n (due c) + held_count k c n js = 1"
      using cust that by (simp add: cell_custody_def)
    moreover have "held_count k c1 n (remove1 j js) = held_count k c n (remove1 j js)"
      by (simp add: held_count_def same)
    ultimately show ?thesis
      using held_count_remove1 [OF j, of k c n] by (simp add: c1 reschedule_fold_due)
  qed
  moreover have "map_option probe (bt_get (targets c) (component t)) = Some t"
    if "j' \<in> set (remove1 j js)" "t \<in> set (rq_targets (job_request j'))"
      "carries k c (component t) j'" for j' t
    using cust that set_remove1_subset [of j js] unfolding cell_custody_def by blast
  moreover have "targets c1 = targets c" by (simp add: c1)
  ultimately show "cell_custody k c1 (remove1 j js)"
    unfolding cell_custody_def same by (simp only: mem_Collect_eq) blast
qed

text \<open>Returning a job the owner holds: no panic, and the invariant holds without the job.\<close>

lemma complete_inv [preserved]:
  assumes inv: "sched_inv s js" and j: "j \<in> set js"
  obtains s' b where "complete s j resp now = (s', Returned b)" "sched_inv s' (remove1 j js)"
proof -
  let ?s = "s\<lparr>inflight := bt_remove (job_id j) (inflight s)\<rparr>" and ?k = "instance_key (job_identity j)"
  have q: "queue_inv s" and js: "jobs_inv s js" using inv by (simp_all add: sched_inv_def)
  have ji: "job_inv (sequence s) j" and slot: "bt_get (inflight s) (job_id j) = Some ?k"
    using js j by (auto simp: jobs_inv_def)
  have wf: "bt_wf (job_target_generations j)" using ji by (simp add: job_inv_def)
  note shared = free_slot_queue [OF q js j] free_slot_jobs [OF js queue_invD(2) [OF q] j]
  have others: "cell_inv (sequence s) k c \<and> cell_custody k c (remove1 j js)"
    if "bt_get (cells s) k = Some c" "\<not> job_is_current ?s j \<or> k \<noteq> ?k" for k c
  proof -
    have "\<not> carries k c n j" for n
      using that not_current_carries [of ?s j k c n] wf by (auto simp: carries_def)
    then show ?thesis using sched_inv_cellD [OF inv that(1)] custody_drop_idle j by blast
  qed
  show ?thesis
  proof (cases "job_is_current ?s j")
    case False
    then have "sched_inv ?s (remove1 j js)" using shared others by (simp add: sched_inv_def)
    with False slot show ?thesis by (intro that) (auto simp: complete_def Let_def)
  next
    case True
    then obtain c where c: "bt_get (cells s) ?k = Some c" and gen: "generation c = job_generation j"
      by (auto simp: job_is_current_def split: option.splits)
    note ci = sched_inv_cellD [OF inv c]
    define ts where "ts = filter (\<lambda>t. component t \<in> set (current_keys j c)) (rq_targets (job_request j))"
    define c1 where "c1 = fold (reschedule now) ts c"
    have c1: "cell_inv (sequence s) ?k c1" "cell_custody ?k c1 (remove1 j js)"
      using complete_current [OF conjunct1 [OF ci] conjunct2 [OF ci] j ji gen refl ts_def c1_def]
      by simp_all
    have fin: "sched_inv (?s\<lparr>cells := bt_insert ?k c2 (cells s)\<rparr>) (remove1 j js)"
      if "cell_inv (sequence s) ?k c2" "cell_custody ?k c2 (remove1 j js)" for c2
    proof -
      have "queue_inv (?s\<lparr>cells := bt_insert ?k c2 (cells s)\<rparr>)"
        using shared(1) c queue_invD(1) [OF q]
        by (auto simp: queue_inv_def bt.dom_ins worker_load_def)
      moreover have "jobs_inv (?s\<lparr>cells := bt_insert ?k c2 (cells s)\<rparr>) (remove1 j js)"
        using shared(2) by (simp add: jobs_inv_def)
      ultimately show ?thesis using others that by (simp add: sched_inv_def)
    qed
    show ?thesis
    proof (cases "Option.bind resp (validate_response j)")
      case None
      then have "complete s j resp now = (?s\<lparr>cells := bt_insert ?k c1 (cells s)\<rparr>, Returned True)"
        using True slot c by (simp add: complete_def Let_def c1_def ts_def)
      then show ?thesis by (rule that [OF _ fin [OF c1]])
    next
      case (Some obs)
      let ?obs = "filter (\<lambda>ob. ob_component ob \<in> set (current_keys j c)) obs"
      have "\<exists>t. bt_get (targets c1) (ob_component ob) = Some t
          \<and> ob_rollout_digest ob = rollout_digest (probe t)" if ob: "ob \<in> set ?obs" for ob
      proof -
        from Some obtain r where "validate_response j r = Some obs" by (cases resp) auto
        with ob obtain t where t: "t \<in> set (rq_targets (job_request j))"
          "component t = ob_component ob" "rollout_digest t = ob_rollout_digest ob"
          using validate_response_matches by fastforce
        have "carries ?k c (component t) j"
          using ob t(2) current_keys_carries [OF wf gen refl] by simp
        then have "map_option probe (bt_get (targets c) (component t)) = Some t"
          using ci j t(1) by (auto simp: cell_custody_def)
        then show ?thesis using t(2,3) by (auto simp: c1_def)
      qed
      then obtain o' where st: "store_observations (started_at_millis j) ?obs c1
            = Returned (c1\<lparr>cell_observations := o'\<rparr>)"
        and valid: "valid_observations (c1\<lparr>cell_observations := o'\<rparr>)"
        using store_observations_ok [of c1 ?obs "started_at_millis j"] c1(1)
        by (auto simp: cell_inv_def)
      have "cell_inv (sequence s) ?k (c1\<lparr>cell_observations := o'\<rparr>)"
        using c1(1) valid by (simp add: cell_inv_def)
      moreover have "cell_custody ?k (c1\<lparr>cell_observations := o'\<rparr>) (remove1 j js)"
      proof -
        have "carries ?k (c1\<lparr>cell_observations := o'\<rparr>) = carries ?k c1"
          by (simp add: carries_def fun_eq_iff)
        then show ?thesis using c1(2) by (simp add: cell_custody_def held_count_def)
      qed
      moreover have "complete s j resp now =
          (?s\<lparr>cells := bt_insert ?k (c1\<lparr>cell_observations := o'\<rparr>) (cells s)\<rparr>, Returned True)"
        using True slot c Some st by (simp add: complete_def Let_def c1_def ts_def)
      ultimately show ?thesis using that fin by blast
    qed
  qed
qed

end
