(* ===== verification/Probe_Worker.thy ===== *)
theory Probe_Worker
  imports Probe_Scheduler "HOL-Library.Multiset"
begin

text \<open>
  The worker that runs one cell's batches (\<open>proofstorm-prober/src/worker.rs\<close>). DNS, TCP,
  HTTP and the clocks are the environment: they are the fields of \<open>network\<close>, and the
  semaphore is the number of free permits. What the worker decides from their answers is
  defined here.
\<close>

datatype connect_result = Connected | Refused | ConnectTimedOut | ConnectFailed

text \<open>
  \<open>arrival\<close> is the order in which \<open>buffer_unordered\<close> yields the finished checks;
  \<open>http_exchange\<close> gives the response status, or nothing when any step of the exchange fails;
  \<open>deadline_passed\<close> says that a check did not finish within \<open>CHECK_TIMEOUT_MILLIS\<close>.
\<close>

record network =
  lookup_ip :: "string \<Rightarrow> nat list option"
  connect :: "nat \<Rightarrow> u16 \<Rightarrow> connect_result"
  http_exchange :: "nat \<Rightarrow> string \<Rightarrow> u16 \<Rightarrow> string \<Rightarrow> u16 option"
  deadline_passed :: "target \<Rightarrow> bool"
  elapsed_of :: "target \<Rightarrow> nat"
  age_of :: "target \<Rightarrow> nat"
  parses_as_uri :: "string \<Rightarrow> bool"
  arrival :: "target list \<Rightarrow> target list"

definition bounded_u64 :: "nat \<Rightarrow> u64" where
  "bounded_u64 v = (if int v < 2 ^ 64 then of_nat v else - 1)"

section \<open>Start-up\<close>

definition worker_namespace :: "string \<Rightarrow> string" where
  "worker_namespace key = ''proofstorm-'' @ key"

fun trim_end_dots :: "string \<Rightarrow> string" where
  "trim_end_dots s = rev (dropWhile (\<lambda>c. c = CHR ''.'') (rev s))"

definition service_suffix_of :: "string \<Rightarrow> string \<Rightarrow> string list \<Rightarrow> string option" where
  "service_suffix_of key namespace search =
     (if \<not> dns_label key \<or> \<not> dns_label namespace \<or> namespace \<noteq> worker_namespace key then None
      else map_option trim_end_dots
             (List.find (\<lambda>name. take (length (namespace @ ''.svc.'')) name = namespace @ ''.svc.'')
                search))"

section \<open>One check\<close>

definition check_http :: "network \<Rightarrow> nat \<Rightarrow> string \<Rightarrow> u16 \<Rightarrow> string \<Rightarrow> probe_outcome \<times> u16 option" where
  "check_http net ip host p path =
     (case http_exchange net ip host p path of
        None \<Rightarrow> (TransportError, None)
      | Some status \<Rightarrow>
          ((if 200 \<le> status \<and> status < 300 then Reachable else HttpError), Some status))"

text \<open>The loop over the addresses: the first that connects decides.\<close>

fun check_addresses ::
  "network \<Rightarrow> string \<Rightarrow> u16 \<Rightarrow> string option \<Rightarrow> probe_outcome \<Rightarrow> nat list \<Rightarrow>
   probe_outcome \<times> u16 option" where
  "check_addresses net host p path outcome [] = (outcome, None)"
| "check_addresses net host p path outcome (ip # ips) =
     (case connect net ip p of
        Connected \<Rightarrow>
          (case path of Some q \<Rightarrow> check_http net ip host p q | None \<Rightarrow> (Reachable, None))
      | Refused \<Rightarrow> check_addresses net host p path ConnectionRefused ips
      | ConnectTimedOut \<Rightarrow> check_addresses net host p path TimedOut ips
      | ConnectFailed \<Rightarrow> check_addresses net host p path TransportError ips)"

definition check :: "network \<Rightarrow> string \<Rightarrow> u16 \<Rightarrow> string option \<Rightarrow> probe_outcome \<times> u16 option" where
  "check net host p path =
     (case lookup_ip net host of
        None \<Rightarrow> (DnsFailed, None)
      | Some ips \<Rightarrow> check_addresses net host p path DnsFailed ips)"

definition host_of :: "string \<Rightarrow> target \<Rightarrow> string" where
  "host_of suffix t = component t @ ''.'' @ suffix @ ''.''"

definition observe :: "network \<Rightarrow> string \<Rightarrow> target \<Rightarrow> observation" where
  "observe net suffix t =
     (let result = (if deadline_passed net t then (TimedOut, None)
                    else check net (host_of suffix t) (port t) (http_path t))
      in \<lparr>ob_component = component t, ob_rollout_digest = rollout_digest t,
          ob_outcome = fst result, ob_elapsed_micros = bounded_u64 (elapsed_of net t),
          ob_age_millis = bounded_u64 (age_of net t), ob_http_status = snd result\<rparr>)"

section \<open>One batch\<close>

definition bad_uri :: "network \<Rightarrow> target \<Rightarrow> bool" where
  "bad_uri net t \<longleftrightarrow> (case http_path t of None \<Rightarrow> False | Some path \<Rightarrow> \<not> parses_as_uri net path)"

definition evaluate :: "network \<Rightarrow> string \<Rightarrow> string \<Rightarrow> nat \<Rightarrow> request \<Rightarrow> response" where
  "evaluate net key suffix permits r =
     (case validate r key of
        Inl code \<Rightarrow> Rejected code
      | Inr _ \<Rightarrow>
          (if list_ex (bad_uri net) (rq_targets r) then Rejected ''invalid_probe_target''
           else if 2 ^ 32 \<le> int (length (rq_targets r)) then Rejected ''invalid_batch_size''
           else if permits < length (rq_targets r) then Rejected ''worker_busy''
           else Complete PROTOCOL_VERSION (rq_instance_key r) (rq_revision_digest r) (rq_batch_id r)
                  (sort_key ob_component (map (observe net suffix) (arrival net (rq_targets r))))))"

section \<open>What a batch's answer holds\<close>

lemma observe_fields [simp]:
  "ob_component (observe net suffix t) = component t"
  "ob_rollout_digest (observe net suffix t) = rollout_digest t"
  by (simp_all add: observe_def Let_def)

lemma evaluate_complete:
  assumes "validate r key = Inr ()" "\<forall>t \<in> set (rq_targets r). \<not> bad_uri net t"
    "length (rq_targets r) \<le> permits"
  shows "evaluate net key suffix permits r =
     Complete PROTOCOL_VERSION (rq_instance_key r) (rq_revision_digest r) (rq_batch_id r)
       (sort_key ob_component (map (observe net suffix) (arrival net (rq_targets r))))"
proof -
  have "int (length (rq_targets r)) < 2 ^ 32"
    using assms(1) by (auto simp: validate_iff MAX_BATCH_TARGETS_def)
  then show ?thesis using assms by (simp add: evaluate_def list_ex_iff)
qed

text \<open>The two refusals of a valid batch.\<close>

lemma evaluate_refused:
  assumes "validate r key = Inr ()"
  shows "list_ex (bad_uri net) (rq_targets r) \<Longrightarrow>
      evaluate net key suffix permits r = Rejected ''invalid_probe_target''"
    and "\<not> list_ex (bad_uri net) (rq_targets r) \<Longrightarrow> permits < length (rq_targets r) \<Longrightarrow>
      evaluate net key suffix permits r = Rejected ''worker_busy''"
proof -
  have "int (length (rq_targets r)) < 2 ^ 32"
    using assms by (auto simp: validate_iff MAX_BATCH_TARGETS_def)
  then show "list_ex (bad_uri net) (rq_targets r) \<Longrightarrow>
      evaluate net key suffix permits r = Rejected ''invalid_probe_target''"
    and "\<not> list_ex (bad_uri net) (rq_targets r) \<Longrightarrow> permits < length (rq_targets r) \<Longrightarrow>
      evaluate net key suffix permits r = Rejected ''worker_busy''"
    by (auto simp: evaluate_def assms)
qed

text \<open>The answer does not depend on the order in which the checks finish.\<close>

lemma sort_key_unique:
  assumes "mset xs = mset ys" "inj_on f (set xs)"
  shows "sort_key f xs = sort_key f ys"
  using assms by (intro sort_key_inj_key_eq) auto

lemma evaluate_order_independent:
  assumes "validate r key = Inr ()" "mset (arrival net (rq_targets r)) = mset (rq_targets r)"
  shows "sort_key ob_component (map (observe net suffix) (arrival net (rq_targets r)))
       = sort_key ob_component (map (observe net suffix) (rq_targets r))"
proof (rule sort_key_unique)
  have "distinct (map component (rq_targets r))" using assms(1) by (simp add: validate_iff)
  then have "inj_on component (set (rq_targets r))" by (simp add: distinct_map)
  moreover have "set (arrival net (rq_targets r)) = set (rq_targets r)"
    using assms(2) by (rule mset_eq_setD)
  ultimately show "inj_on ob_component (set (map (observe net suffix) (arrival net (rq_targets r))))"
    by (auto simp: inj_on_def)
qed (simp add: assms(2))

end
