(* ===== verification/Probe_Properties.thy ===== *)
theory Probe_Properties
  imports Probe_Invariants Probe_Worker
begin

text \<open>
  The scheduler and its owner as one state machine, and the properties of the prober: no panic
  and exactly-once cell_custody in every reachable state, the capacity bounds, fairness and progress
  of \<open>dispatch\<close>, isolation of late and stale results, and the agreement between the batches
  the scheduler makes and the worker that runs them.
\<close>

section \<open>The machine\<close>

text \<open>
  The owner holds the jobs it was given and returns each exactly once, as the contract of
  \<open>Scheduler\<close> says. Time is whatever the caller passes.
\<close>

inductive sched_step :: "scheduler \<times> job list \<Rightarrow> scheduler \<times> job list \<Rightarrow> bool" where
  register_step: "register s i ts now = (s', r) \<Longrightarrow> sched_step (s, js) (s', js)"
| remove_step: "sched_step (s, js) (remove s k, js)"
| idle_step: "dispatch s now = (s', Returned None) \<Longrightarrow> sched_step (s, js) (s', js)"
| dispatch_step: "dispatch s now = (s', Returned (Some j)) \<Longrightarrow> sched_step (s, js) (s', j # js)"
| complete_step: "j \<in> set js \<Longrightarrow> complete s j resp now = (s', Returned b) \<Longrightarrow>
    sched_step (s, js) (s', remove1 j js)"

inductive_cases sched_stepE: "sched_step (s, js) (s', js')"

inductive sched_reachable :: "scheduler \<times> job list \<Rightarrow> bool" where
  start: "sched_reachable (default_scheduler, [])"
| step: "sched_reachable x \<Longrightarrow> sched_step x y \<Longrightarrow> sched_reachable y"

lemma dispatch_inv:
  assumes "sched_inv s js" "dispatch s now = (s', r)"
  obtains "r = Returned None" "s' = s" | j where "r = Returned (Some j)" "sched_inv s' (j # js)"
  using assms(1)
proof (cases rule: dispatch_cases [where now = now])
  case idle
  then show ?thesis using that(1) assms(2) by simp
next
  case (issued pre k post c m ts gens nid)
  then show ?thesis
    using that(2) assms(2) issue_inv [OF assms(1) issued(1,2,3,5,6,7)] by simp
qed

lemma sched_step_inv: "sched_step (s, js) (s', js') \<Longrightarrow> sched_inv s js \<Longrightarrow> sched_inv s' js'"
proof (erule sched_stepE)
  fix j resp now b
  assume "sched_inv s js" "j \<in> set js" "complete s j resp now = (s', Returned b)" "js' = remove1 j js"
  then show "sched_inv s' js'"
    by (metis complete_inv prod.inject)
qed (auto intro: register_inv remove_inv elim: dispatch_inv)

lemma sched_reachable_inv: "sched_reachable (s, js) \<Longrightarrow> sched_inv s js"
proof (induction "(s, js)" arbitrary: s js rule: sched_reachable.induct)
  case start
  then show ?case using sched_inv_default by simp
next
  case (step x)
  obtain s' js' where x: "x = (s', js')" by (cases x)
  then show ?case using step.hyps(2,3) sched_step_inv by blast
qed

lemmas sched_reachable_register = sched_reachable.step [OF _ sched_step.register_step]
lemmas sched_reachable_dispatch = sched_reachable.step [OF _ sched_step.dispatch_step]

section \<open>A concrete run, for the witnesses\<close>

definition example_identity :: "string \<Rightarrow> identity" where
  "example_identity key = \<lparr>instance_key = key, incarnation = ''cell-uid'',
     revision_digest = ''revision'', worker_uid = ''worker-uid''\<rparr>"

definition example_target :: "string \<Rightarrow> scheduled_target" where
  "example_target name =
     \<lparr>probe = \<lparr>component = name, rollout_digest = ''rollout'', port = 80, http_path = None\<rparr>,
      runtime_digest = ''runtime''\<rparr>"

definition example_registered :: scheduler where
  "example_registered =
     fst (register default_scheduler (example_identity ''cell'')
            [example_target ''node-a'', example_target ''node-b''] 0)"

definition example_dispatched :: scheduler where
  "example_dispatched = fst (dispatch example_registered 0)"

definition example_job :: job where
  "example_job = (case snd (dispatch example_registered 0) of
     Returned (Some j) \<Rightarrow> j | _ \<Rightarrow> undefined)"

definition example_network :: network where
  "example_network = \<lparr>lookup_ip = (\<lambda>_. Some [1]), connect = (\<lambda>_ _. Connected),
     http_exchange = (\<lambda>_ _ _ _. Some 200), deadline_passed = (\<lambda>_. False),
     elapsed_of = (\<lambda>_. 12), age_of = (\<lambda>_. 0), parses_as_uri = (\<lambda>_. True), arrival = rev\<rparr>"

lemma example_register:
  "register default_scheduler (example_identity ''cell'')
     [example_target ''node-a'', example_target ''node-b''] 0 = (example_registered, Inr True)"
  by code_simp

lemma example_dispatch:
  "dispatch example_registered 0 = (example_dispatched, Returned (Some example_job))"
  by code_simp

lemma example_registered_reachable: "sched_reachable (example_registered, [])"
  by (rule sched_reachable_register [OF sched_reachable.start example_register])

lemma example_reachable: "sched_reachable (example_dispatched, [example_job])"
  by (rule sched_reachable_dispatch [OF example_registered_reachable example_dispatch])

lemma example_cell:
  "bt_get (cells example_dispatched) ''cell'' =
     Some (new_cell (example_identity ''cell'')
       (target_map [example_target ''node-a'', example_target ''node-b'']) 1 0\<lparr>due := []\<rparr>)"
  by code_simp

section \<open>Safety of the scheduler\<close>

text \<open>
  C1: no operation of the scheduler panics. In every state the owner can reach, \<open>dispatch\<close>
  returns, and so does \<open>complete\<close> for every job the owner holds, whatever the response and the
  clock: the two indexing expressions of the code (\<open>target_generations[..]\<close>,
  \<open>targets[..]\<close>) never miss.
\<close>

theorem scheduler_never_panics:
  assumes "sched_reachable (s, js)"
  shows "snd (dispatch s now) \<noteq> Panicked
    \<and> (\<forall>j \<in> set js. snd (complete s j resp now) \<noteq> Panicked)"
proof -
  note inv = sched_reachable_inv [OF assms]
  have "snd (dispatch s now) \<noteq> Panicked"
    by (cases rule: dispatch_cases [OF inv, where now = now]) simp_all
  moreover have "snd (complete s j resp now) \<noteq> Panicked" if "j \<in> set js" for j
    by (rule complete_inv [OF inv that, of resp now]) simp
  ultimately show ?thesis by simp
qed

theorem scheduler_never_panics_witness:
  "snd (dispatch example_dispatched 7) \<noteq> Panicked
   \<and> snd (complete example_dispatched example_job None 7) \<noteq> Panicked"
  using scheduler_never_panics [OF example_reachable, of 7 None] by simp

text \<open>
  C2: exactly-once cell_custody. In every reachable state each target of each registered cell is in
  exactly one place: it has one entry in the cell's due heap, or exactly one outstanding job
  carries its current generation. So no target is ever dropped from checking, and none is
  checked twice at a time.
\<close>

theorem target_custody:
  assumes "sched_reachable (s, js)" "bt_get (cells s) k = Some c" "bt_get (targets c) n = Some t"
  shows "due_count n (due c) + held_count k c n js = 1"
  using sched_inv_cellD [OF sched_reachable_inv [OF assms(1)] assms(2)] assms(3)
  by (auto simp: cell_custody_def)

theorem target_custody_witness:
  "held_count ''cell'' (new_cell (example_identity ''cell'')
       (target_map [example_target ''node-a'', example_target ''node-b'']) 1 0\<lparr>due := []\<rparr>)
     ''node-b'' [example_job] = 1"
proof -
  have "bt_get (targets (new_cell (example_identity ''cell'')
       (target_map [example_target ''node-a'', example_target ''node-b'']) 1 0\<lparr>due := []\<rparr>)) ''node-b''
     = Some (example_target ''node-b'')"
    by code_simp
  from target_custody [OF example_reachable example_cell this] show ?thesis by simp
qed

text \<open>
  the capacity bounds. In every reachable state at most \<open>MAX_INFLIGHT_BATCHES\<close> batches are
  in flight, at most \<open>MAX_BATCHES_PER_WORKER\<close> of them on one worker, every slot belongs to
  exactly one outstanding job, and a job of \<open>n\<close> targets asks for no more than the worker's
  \<open>MAX_WORKER_CHECKS\<close> permits allow for all its batches together.
\<close>

theorem capacity_bounds:
  assumes "sched_reachable (s, js)"
  shows "inflight_batches s = length js \<and> length js \<le> 8 \<and> worker_load s k \<le> 4
    \<and> (\<forall>j \<in> set js.
         MAX_BATCHES_PER_WORKER * length (rq_targets (job_request j)) \<le> MAX_WORKER_CHECKS)"
proof -
  note inv = sched_reachable_inv [OF assms]
  then have q: "queue_inv s" and js: "jobs_inv s js" by (simp_all add: sched_inv_def)
  have len: "inflight_batches s = length js" using js by (simp add: inflight_batches_def jobs_inv_def)
  moreover have "length js \<le> 8"
    using len queue_invD(5) [OF q] by (simp add: inflight_batches_def MAX_INFLIGHT_BATCHES_def)
  moreover have "worker_load s k \<le> 4"
    using queue_invD(6) [OF q, of k] by (simp add: MAX_BATCHES_PER_WORKER_def)
  moreover have "MAX_BATCHES_PER_WORKER * length (rq_targets (job_request j)) \<le> MAX_WORKER_CHECKS"
    if "j \<in> set js" for j
    using js that by (auto simp: jobs_inv_def job_inv_def validate_iff MAX_WORKER_CHECKS_def)
  ultimately show ?thesis by simp
qed

theorem capacity_bounds_witness:
  "inflight_batches example_dispatched = 1
   \<and> MAX_BATCHES_PER_WORKER * length (rq_targets (job_request example_job)) \<le> MAX_WORKER_CHECKS"
  using capacity_bounds [OF example_reachable] by simp

text \<open>
  C3: provenance of what is served. In every reachable state an observation the scheduler hands
  out for an identity is younger than the time to live, belongs to the cell registered under
  exactly that identity, names a target that is still registered, and was taken for that target's
  current runtime and rollout.
\<close>

theorem observations_current:
  assumes "sched_reachable (s, js)" "(n, ob) \<in> set (observations s i now)"
  shows "\<exists>c t. bt_get (cells s) (instance_key i) = Some c \<and> identity_of c = i
      \<and> bt_get (targets c) n = Some t \<and> ob_component (cached ob) = n
      \<and> cached_runtime_digest ob = runtime_digest t
      \<and> ob_rollout_digest (cached ob) = rollout_digest (probe t)
      \<and> observed_at_millis ob \<le> now \<and> now - observed_at_millis ob < 30000"
proof -
  from assms(2) obtain c where c: "bt_get (cells s) (instance_key i) = Some c" "identity_of c = i"
    "(n, ob) \<in> set (cell_observations c)" "is_fresh ob now"
    by (auto simp: observations_def split: option.splits if_splits) (metis option.sel)
  have valid: "valid_observations c"
    using sched_inv_cellD [OF sched_reachable_inv [OF assms(1)] c(1)] by (simp add: cell_inv_def)
  then have "bt_get (cell_observations c) n = Some ob"
    using c(3) by (simp add: bt_get_iff valid_observations_def)
  from valid_observationsD [OF valid this] c show ?thesis
    by (auto simp: is_fresh_def OBSERVATION_TTL_MILLIS_def)
qed

definition example_answer :: response where
  "example_answer = evaluate example_network ''cell'' ''proofstorm-cell.svc.local'' 128
     (job_request example_job)"

definition example_completed :: scheduler where
  "example_completed = fst (complete example_dispatched example_job (Some example_answer) 5)"

lemma example_complete:
  "complete example_dispatched example_job (Some example_answer) 5
     = (example_completed, Returned True)"
  by code_simp

lemma example_completed_reachable: "sched_reachable (example_completed, [])"
  using sched_reachable.step [OF example_reachable
      sched_step.complete_step [OF _ example_complete]] by simp

theorem observations_current_witness:
  "\<exists>c t. bt_get (cells example_completed) ''cell'' = Some c
      \<and> identity_of c = example_identity ''cell''
      \<and> bt_get (targets c) ''node-b'' = Some t \<and> (20 :: u64) - 0 < 30000"
proof -
  have "\<exists>ob \<in> set (observations example_completed (example_identity ''cell'') 20).
      fst ob = ''node-b''"
    by code_simp
  then obtain ob where
    "(''node-b'', ob) \<in> set (observations example_completed (example_identity ''cell'') 20)"
    by auto
  from observations_current [OF example_completed_reachable this] show ?thesis
    by (auto simp: example_identity_def)
qed

section \<open>Fairness and progress of dispatch\<close>

text \<open>
  progress and queue discipline of \<open>dispatch\<close>. In a reachable state with a free global slot,
  if \<open>k\<close> is the first cell of the queue that has worker capacity and something due, then
  \<open>dispatch\<close> returns a non-empty batch for \<open>k\<close>, and the queue afterwards has the cells behind
  \<open>k\<close> first, then those that were passed over, then \<open>k\<close> itself.
\<close>

theorem dispatch_serves_first_eligible:
  assumes "sched_reachable (s, js)" "length js < MAX_INFLIGHT_BATCHES"
    and "checked_add (sequence s) 1 = Some nid"
    and "order s = pre @ k # post" "\<forall>x \<in> set pre. \<not> eligible s now x" "eligible s now k"
  shows "\<exists>s' j. dispatch s now = (s', Returned (Some j)) \<and> order s' = post @ pre @ [k]
    \<and> instance_key (job_identity j) = k \<and> rq_targets (job_request j) \<noteq> []"
proof -
  note inv = sched_reachable_inv [OF assms(1)]
  obtain c m ts gens where c: "bt_get (cells s) k = Some c" and b: "batch_of c now m ts gens"
    and turn: "dispatch_turns (length (order s)) nid now s =
       (issue_batch s k (post @ pre @ [k]) c m nid, Returned (Some (make_job c k ts gens nid now)))"
    by (rule dispatch_turns_issue [OF turn_ok_inv [OF inv] assms(4-6)])
  have "length (inflight s) < MAX_INFLIGHT_BATCHES"
    using inv assms(2) by (simp add: sched_inv_def jobs_inv_def)
  with turn have "dispatch s now =
      (issue_batch s k (post @ pre @ [k]) c m nid, Returned (Some (make_job c k ts gens nid now)))"
    using assms(3) by (simp add: dispatch_def)
  moreover have "ts \<noteq> []" using b by (auto simp: batch_of_def)
  moreover have "instance_key (identity_of c) = k"
    using sched_inv_cellD [OF inv c] by (simp add: cell_inv_def)
  ultimately show ?thesis by (simp add: issue_batch_def make_job_def)
qed

theorem dispatch_serves_first_eligible_witness:
  "\<exists>s' j. dispatch example_registered 0 = (s', Returned (Some j)) \<and> order s' = [''cell'']
    \<and> instance_key (job_identity j) = ''cell'' \<and> rq_targets (job_request j) \<noteq> []"
proof -
  have "checked_add (sequence example_registered) 1 = Some 2" "order example_registered = [''cell'']"
    "eligible example_registered 0 ''cell''"
    by code_simp+
  then show ?thesis
    using dispatch_serves_first_eligible [OF example_registered_reachable, of 2 "[]" "''cell''" "[]" 0]
    by (simp add: MAX_INFLIGHT_BATCHES_def)
qed

definition queue_position :: "scheduler \<Rightarrow> string \<Rightarrow> nat" where
  "queue_position s k = length (takeWhile (\<lambda>x. x \<noteq> k) (order s))"

text \<open>
  no starvation. While a cell has worker capacity and something due, every \<open>dispatch\<close> that
  finds a free slot either serves it or brings it strictly closer to the front of the queue: a
  cell waits for at most as many batches as there are cells before it, however large the others
  are.
\<close>

theorem dispatch_no_starvation:
  assumes "sched_reachable (s, js)" "length js < MAX_INFLIGHT_BATCHES"
    and "checked_add (sequence s) 1 \<noteq> None" "eligible s now k"
  shows "\<exists>s' j. dispatch s now = (s', Returned (Some j))
    \<and> (instance_key (job_identity j) = k \<or> queue_position s' k < queue_position s k)"
proof -
  note inv = sched_reachable_inv [OF assms(1)]
  then have q: "queue_inv s" by (simp add: sched_inv_def)
  have k: "k \<in> set (order s)"
    using assms(4) queue_invD(4) [OF q] by (auto simp: eligible_def split: option.splits)
  from inv show ?thesis
  proof (cases rule: dispatch_cases [where now = now])
    case idle
    then show ?thesis using assms(2-4) k inv by (auto simp: sched_inv_def jobs_inv_def)
  next
    case (issued pre k' post c m ts gens nid)
    have key: "instance_key (identity_of c) = k'"
      using sched_inv_cellD [OF inv issued(6)] by (simp add: cell_inv_def)
    show ?thesis
    proof (cases "k' = k")
      case True
      then show ?thesis using issued(8) key by (simp add: make_job_def)
    next
      case False
      have "k \<notin> set pre" using issued(4) assms(4) by auto
      moreover from this have "k \<in> set post" using k False issued(3) by simp
      ultimately have "queue_position (issue_batch s k' (post @ pre @ [k']) c m nid) k < queue_position s k"
        using False by (auto simp: queue_position_def issue_batch_def issued(3) takeWhile_append)
      then show ?thesis using issued(8) by simp
    qed
  qed
qed

theorem dispatch_no_starvation_witness:
  "\<exists>s' j. dispatch example_registered 0 = (s', Returned (Some j))
    \<and> (instance_key (job_identity j) = ''cell''
       \<or> queue_position s' ''cell'' < queue_position example_registered ''cell'')"
proof (rule dispatch_no_starvation [OF example_registered_reachable])
  show "checked_add (sequence example_registered) 1 \<noteq> None" by code_simp
  show "eligible example_registered 0 ''cell''" by code_simp
qed (simp add: MAX_INFLIGHT_BATCHES_def)

text \<open>
  what a batch holds. A dispatched job takes the \<open>m\<close> earliest entries of its cell's due
  heap, all of them due; it stops short of a full batch only when nothing that is left is due;
  and exactly those entries leave the heap.
\<close>

theorem dispatch_takes_earliest:
  assumes "sched_reachable (s, js)" "dispatch s now = (s', Returned (Some j))"
  shows "\<exists>c m. bt_get (cells s) (instance_key (job_identity j)) = Some c \<and> sorted (due c)
    \<and> 0 < m \<and> m \<le> 32
    \<and> map component (rq_targets (job_request j)) = map snd (take m (due c))
    \<and> list_all (\<lambda>e. fst e \<le> now) (take m (due c))
    \<and> (m = 32 \<or> list_all (\<lambda>e. now < fst e) (drop m (due c)))
    \<and> bt_get (cells s') (instance_key (job_identity j)) = Some (c\<lparr>due := drop m (due c)\<rparr>)"
proof -
  note inv = sched_reachable_inv [OF assms(1)]
  from inv show ?thesis
  proof (cases rule: dispatch_cases [where now = now])
    case idle
    then show ?thesis using assms(2) by simp
  next
    case (issued pre k post c m ts gens nid)
    have key: "instance_key (identity_of c) = k" and sorted: "sorted (due c)"
      using sched_inv_cellD [OF inv issued(6)] by (simp_all add: cell_inv_def)
    have "list_all (\<lambda>e. now < fst e) (drop m (due c))"
      if "m \<noteq> 32"
    proof (cases "m = length (due c)")
      case False
      then have m: "m < length (due c)" and lt: "now < fst (due c ! m)"
        using issued(7) that by (auto simp: batch_of_def MAX_BATCH_TARGETS_def)
      have "now < fst (due c ! i)" if "m \<le> i" "i < length (due c)" for i
      proof -
        have "due c ! m \<le> due c ! i" using sorted that by (simp add: sorted_nth_mono)
        then have "fst (due c ! m) \<le> fst (due c ! i)" by (auto simp: less_eq_prod_def)
        with lt show ?thesis by (rule order.strict_trans2)
      qed
      then show ?thesis by (auto simp: list_all_length)
    qed simp
    then show ?thesis
      using issued assms(2) key sorted
      by (intro exI [of _ c] exI [of _ m])
        (auto simp: make_job_def issue_batch_def batch_of_def MAX_BATCH_TARGETS_def list_all_iff)
  qed
qed

theorem dispatch_takes_earliest_witness:
  "\<exists>c m. bt_get (cells example_registered) ''cell'' = Some c
    \<and> map component (rq_targets (job_request example_job)) = map snd (take m (due c))"
proof -
  have "instance_key (job_identity example_job) = ''cell''" by code_simp
  then show ?thesis
    using dispatch_takes_earliest [OF example_registered_reachable example_dispatch] by auto
qed

section \<open>Results that come back late or twice\<close>

lemma bt_remove_absent: "bt_get m k = None \<Longrightarrow> bt_remove k m = m"
  by (force simp: bt_remove_def bt_get_None filter_id_conv)

text \<open>
  each job completes at most once. After any completion of a job, completing it again with
  any response returns \<open>false\<close> and changes nothing.
\<close>

theorem complete_at_most_once:
  assumes "complete s j resp now = (s', r)"
  shows "complete s' j resp' now' = (s', Returned False)"
proof -
  have "bt_get (inflight s') (job_id j) = None"
    using assms
    by (auto simp: complete_def Let_def split: if_splits option.splits call.splits)
  then show ?thesis by (simp add: complete_def)
qed

theorem complete_at_most_once_witness:
  "complete example_completed example_job (Some example_answer) 9
     = (example_completed, Returned False)"
  by (rule complete_at_most_once [OF example_complete])

text \<open>
  C4: a replaced cell is isolated from its past. Once a cell is registered under a new identity
  (a new worker, a new revision), no job that was outstanding before is current, completing one
  only gives its slot back, and the new identity starts with no observations; the old identity is
  answered with nothing.
\<close>

theorem replaced_cell_isolated:
  assumes reach: "sched_reachable (s, js)" and reg: "register s i ts now = (s', Inr True)"
    and old: "bt_get (cells s) (instance_key i) = Some c" and diff: "identity_of c \<noteq> i"
    and j: "j \<in> set js" and key: "instance_key (job_identity j) = instance_key i"
  shows "\<not> job_is_current s' j
    \<and> complete s' j resp t = (s'\<lparr>inflight := bt_remove (job_id j) (inflight s')\<rparr>, Returned False)
    \<and> observations s' i t = [] \<and> observations s' (identity_of c) t = []"
proof -
  note inv = sched_reachable_inv [OF reach]
  from reg obtain seq where seq: "checked_add (sequence s) 1 = Some seq"
    and s': "s' = s\<lparr>sequence := seq,
              order := order s @ (if bt_contains_key (cells s) (instance_key i) then []
                                  else [instance_key i]),
              cells := bt_insert (instance_key i) (new_cell i (target_map ts) seq now) (cells s)\<rparr>"
    by (cases rule: register_cases) (use old diff in auto)
  have "job_inv (sequence s) j" using inv j by (simp add: sched_inv_def jobs_inv_def)
  then have "job_generation j < seq"
    using checked_add_one_greater [OF seq] by (auto simp: job_inv_def)
  then have nc: "\<not> job_is_current s' j"
    by (auto simp: job_is_current_def key s' new_cell_def)
  have held: "bt_get (inflight s') (job_id j) \<noteq> None"
    using inv j by (auto simp: s' sched_inv_def jobs_inv_def)
  have "job_is_current (s'\<lparr>inflight := x\<rparr>) j = job_is_current s' j" for x
    by (simp add: job_is_current_def)
  then have "complete s' j resp t =
      (s'\<lparr>inflight := bt_remove (job_id j) (inflight s')\<rparr>, Returned False)"
    using nc held by (cases "bt_get (inflight s') (job_id j)") (simp_all add: complete_def Let_def)
  moreover have "instance_key (identity_of c) = instance_key i"
    using sched_inv_cellD [OF inv old] by (simp add: cell_inv_def)
  ultimately show ?thesis
    using nc diff by (simp add: observations_def s' new_cell_def)
qed

definition example_replacement :: identity where
  "example_replacement = example_identity ''cell''\<lparr>worker_uid := ''new-worker''\<rparr>"

theorem replaced_cell_isolated_witness:
  "observations (fst (register example_dispatched example_replacement [example_target ''node-a''] 3))
     example_replacement 4 = []"
proof -
  have reg: "register example_dispatched example_replacement [example_target ''node-a''] 3 =
     (fst (register example_dispatched example_replacement [example_target ''node-a''] 3), Inr True)"
    by code_simp
  have c: "bt_get (cells example_dispatched) (instance_key example_replacement) =
     Some (new_cell (example_identity ''cell'')
       (target_map [example_target ''node-a'', example_target ''node-b'']) 1 0\<lparr>due := []\<rparr>)"
    by code_simp
  have key: "instance_key (job_identity example_job) = instance_key example_replacement"
    by code_simp
  show ?thesis
    using replaced_cell_isolated [OF example_reachable reg c _ _ key]
    by (simp add: new_cell_def example_identity_def example_replacement_def)
qed

text \<open>
  registration is all or nothing, and idempotent. A rejected registration, and one that
  changes nothing, leave the scheduler as it was; an accepted one stores exactly the given
  identity and targets, and registering the same again at any time is a no-op.
\<close>

theorem register_atomic:
  assumes "register s i ts now = (s', r)"
  shows "(r = Inr True
       \<and> map_option (\<lambda>c. (identity_of c, targets c)) (bt_get (cells s') (instance_key i))
           = Some (i, target_map ts)
       \<and> register s' i ts now' = (s', Inr False))
     \<or> (r \<noteq> Inr True \<and> s' = s)"
  using assms
proof (cases rule: register_cases)
  case unchanged
  then show ?thesis by simp
next
  case (stored seq c')
  have "identity_of c' = i \<and> targets c' = target_map ts"
    by (auto simp: stored(5) new_cell_def update_targets_fields split: option.splits)
  then show ?thesis using stored(1-3) by (simp add: stored(6) register_def Let_def)
qed

theorem register_atomic_witness:
  "register example_registered (example_identity ''cell'')
     [example_target ''node-a'', example_target ''node-b''] 99 = (example_registered, Inr False)"
  using register_atomic [OF example_register] by simp

text \<open>
  a target update disturbs only the targets it changes. Registering the same identity with
  new targets keeps, for every unchanged target, its generation, its cached observation and its
  place in the heap; a changed or added target loses its observation, gets a generation no
  outstanding job carries, and is due exactly once; a dropped one is gone.
\<close>

theorem target_update_isolated:
  assumes reach: "sched_reachable (s, js)" and reg: "register s i ts now = (s', Inr True)"
    and old: "bt_get (cells s) (instance_key i) = Some c" and same: "identity_of c = i"
  shows "\<exists>c'. bt_get (cells s') (instance_key i) = Some c' \<and> generation c' = generation c
    \<and> (if bt_get (targets c) n = bt_get (target_map ts) n
       then bt_get (target_generations c') n = bt_get (target_generations c) n
         \<and> bt_get (cell_observations c') n = bt_get (cell_observations c) n
         \<and> due_count n (due c') = due_count n (due c)
         \<and> held_count (instance_key i) c' n js = held_count (instance_key i) c n js
       else bt_get (cell_observations c') n = None
         \<and> held_count (instance_key i) c' n js = 0
         \<and> due_count n (due c') = (if bt_get (target_map ts) n = None then 0 else 1))"
proof -
  note inv = sched_reachable_inv [OF reach]
  from reg obtain seq where seq: "checked_add (sequence s) 1 = Some seq"
    and c': "bt_get (cells s') (instance_key i) = Some (update_targets (target_map ts) seq now c)"
    by (cases rule: register_cases) (use old same in auto)
  let ?c = "update_targets (target_map ts) seq now c"
  have dom: "dom (bt_get (target_generations c)) = dom (bt_get (targets c))"
    using sched_inv_cellD [OF inv old] by (simp add: cell_inv_def)
  have js: "\<And>j. j \<in> set js \<Longrightarrow> job_inv (sequence s) j"
    using inv by (simp add: sched_inv_def jobs_inv_def)
  have "carries (instance_key i) ?c n j \<longleftrightarrow>
      bt_get (targets c) n = bt_get (target_map ts) n \<and> carries (instance_key i) c n j"
    if "j \<in> set js" for j
    using js checked_add_one_greater [OF seq] that dom by (rule update_targets_carries)
  then have "held_count (instance_key i) ?c n js =
      (if bt_get (targets c) n = bt_get (target_map ts) n
       then held_count (instance_key i) c n js else 0)"
    unfolding held_count_def by (auto intro!: arg_cong [where f = length] filter_cong)
  then show ?thesis
    using c' by (simp add: update_targets_fields update_targets_get update_targets_due_count)
qed

theorem target_update_isolated_witness:
  "\<exists>c'. bt_get (cells (fst (register example_dispatched (example_identity ''cell'')
            [example_target ''node-a''] 3))) ''cell'' = Some c'
     \<and> held_count ''cell'' c' ''node-b'' [example_job] = 0"
proof -
  have reg: "register example_dispatched (example_identity ''cell'') [example_target ''node-a''] 3 =
     (fst (register example_dispatched (example_identity ''cell'') [example_target ''node-a''] 3),
      Inr True)"
    by code_simp
  have key: "instance_key (example_identity ''cell'') = ''cell''" by (simp add: example_identity_def)
  have diff: "bt_get (targets (new_cell (example_identity ''cell'')
       (target_map [example_target ''node-a'', example_target ''node-b'']) 1 0\<lparr>due := []\<rparr>)) ''node-b''
     \<noteq> bt_get (target_map [example_target ''node-a'']) ''node-b''"
    by code_simp
  show ?thesis
    using target_update_isolated [OF example_reachable reg, unfolded key, OF example_cell, of "''node-b''"]
      diff
    by (auto simp: new_cell_def)
qed

section \<open>Scheduler and worker agree\<close>

text \<open>
  C5: end to end. Whatever the network is and however the concurrent checks finish, the worker's
  answer to an outstanding batch of a reachable scheduler is one of three. A batch with a path
  that parses as no URI is refused with \<open>invalid_probe_target\<close> (and with nothing else), a batch
  that needs more permits than are free with \<open>worker_busy\<close>, and the scheduler reads no observation
  from a refusal. Every other batch is answered with one observation per target, sorted by
  component, and the scheduler accepts exactly these observations. No other refusal occurs.
\<close>

theorem worker_answer_accepted:
  assumes "sched_reachable (s, js)" "j \<in> set js"
    and "mset (arrival net (rq_targets (job_request j))) = mset (rq_targets (job_request j))"
  shows "let ts = rq_targets (job_request j);
      answer = evaluate net (instance_key (job_identity j)) suffix permits (job_request j);
      obs = sort_key ob_component (map (observe net suffix) ts) in
    (if list_ex (bad_uri net) ts
     then answer = Rejected ''invalid_probe_target'' \<and> validate_response j answer = None
     else if permits < length ts
     then answer = Rejected ''worker_busy'' \<and> validate_response j answer = None
     else validate_response j answer = Some obs
       \<and> mset obs = mset (map (observe net suffix) ts)
       \<and> mset (map ob_component obs) = mset (map component ts))"
proof -
  let ?ts = "rq_targets (job_request j)" and ?k = "instance_key (job_identity j)"
  let ?obs = "sort_key ob_component (map (observe net suffix) ?ts)"
  have ji: "job_inv (sequence s) j"
    using sched_reachable_inv [OF assms(1)] assms(2) by (simp add: sched_inv_def jobs_inv_def)
  then have v: "validate (job_request j) ?k = Inr ()" by (simp add: job_inv_def)
  have comps: "mset (map ob_component ?obs) = mset (map component ?ts)"
    by (simp add: image_mset.compositionality comp_def)
  have "distinct (map component ?ts)" using v by (simp add: validate_iff)
  then have "distinct (map ob_component ?obs)"
    using mset_eq_imp_distinct_iff [OF comps] by simp
  then have obs: "check_observations ?ts [] ?obs"
    by (auto simp: check_observations_iff)
  have "validate_response j (evaluate net ?k suffix permits (job_request j)) = Some ?obs"
    if "\<not> list_ex (bad_uri net) ?ts" "\<not> permits < length ?ts"
    using evaluate_complete [where net = net and permits = permits and suffix = suffix, OF v] that
      evaluate_order_independent [where suffix = suffix, OF v assms(3)] ji obs
    by (simp add: job_inv_def validate_iff validate_response_def list_ex_iff)
  then show ?thesis
    using evaluate_refused [where net = net and permits = permits and suffix = suffix, OF v] comps
    by (auto simp: Let_def validate_response_def)
qed

theorem worker_answer_accepted_witness:
  "validate_response example_job
      (evaluate example_network ''cell'' ''proofstorm-cell.svc.local'' 128 (job_request example_job))
      = Some (sort_key ob_component
          (map (observe example_network ''proofstorm-cell.svc.local'') (rq_targets (job_request example_job))))
   \<and> evaluate example_network ''cell'' ''proofstorm-cell.svc.local'' 1 (job_request example_job)
      = Rejected ''worker_busy''"
proof -
  have key: "instance_key (job_identity example_job) = ''cell''" by code_simp
  have uri: "\<not> list_ex (bad_uri example_network) (rq_targets (job_request example_job))"
    by code_simp
  have len: "length (rq_targets (job_request example_job)) = 2" by code_simp
  show ?thesis
    using worker_answer_accepted [where net = example_network and permits = 128
        and suffix = "''proofstorm-cell.svc.local''", OF example_reachable, of example_job]
      worker_answer_accepted [where net = example_network and permits = 1
        and suffix = "''proofstorm-cell.svc.local''", OF example_reachable, of example_job]
    by (simp add: key uri len Let_def) (simp add: example_network_def)
qed

text \<open>
  the worker's answer is deterministic. For a valid batch it does not depend on the order in
  which the concurrent checks finish.
\<close>

theorem worker_answer_deterministic:
  assumes "validate r key = Inr ()"
    and "mset (arrival net (rq_targets r)) = mset (rq_targets r)" "mset (a (rq_targets r)) = mset (rq_targets r)"
  shows "evaluate (net\<lparr>arrival := a\<rparr>) key suffix permits r = evaluate net key suffix permits r"
proof -
  have "observe (net\<lparr>arrival := a\<rparr>) suffix t = observe net suffix t" for t
  proof -
    have "check_addresses (net\<lparr>arrival := a\<rparr>) h p q oc ips = check_addresses net h p q oc ips"
      for h p q oc ips
      by (induction ips arbitrary: oc)
        (simp_all add: check_http_def split: connect_result.split option.split)
    then show ?thesis by (simp add: observe_def check_def Let_def cong: option.case_cong)
  qed
  then have "observe (net\<lparr>arrival := a\<rparr>) suffix = observe net suffix" by (rule ext)
  moreover have "bad_uri (net\<lparr>arrival := a\<rparr>) = bad_uri net" by (auto simp: bad_uri_def fun_eq_iff split: option.split)
  ultimately show ?thesis
    using evaluate_order_independent [where suffix = suffix, OF assms(1,2)]
      evaluate_order_independent [where suffix = suffix and net = "net\<lparr>arrival := a\<rparr>", OF assms(1)]
      assms(3)
    by (simp add: evaluate_def assms(1))
qed

theorem worker_answer_deterministic_witness:
  "evaluate (example_network\<lparr>arrival := (\<lambda>ts. ts)\<rparr>) ''cell'' ''suffix'' 128 (job_request example_job)
     = evaluate example_network ''cell'' ''suffix'' 128 (job_request example_job)"
proof (rule worker_answer_deterministic)
  show "validate (job_request example_job) ''cell'' = Inr ()" by code_simp
qed (simp_all add: example_network_def)

end
