(* ===== verification/Transfer_Vault.thy ===== *)
theory Transfer_Vault
  imports Ordered_Containers
begin

text \<open>
  The private transfer vault of one cell (\<open>proofstorm-transfer/src/lib.rs\<close>): data, the storage
  primitives the operations share, and every operation.

  The SQLite database is the state: its \<open>identity\<close> row is the fields \<open>vlt_closed\<close>,
  \<open>vlt_workspace\<close>, \<open>vlt_cell\<close>; the table \<open>transfers\<close> is the list \<open>vlt_rows\<close> in the order of
  its integer key, the order an unordered \<open>SELECT\<close> scans it in; the table \<open>payloads\<close> is
  \<open>vlt_payloads\<close>, blobs by integer key. An immediate transaction that ends in an error is
  rolled back, which is \<open>in_tx\<close>. A failing disk is not modelled: a statement fails only for
  the reason the code or the schema gives it.

  JSON texts that are only compared (\<open>source_json\<close>, \<open>destination_json\<close>, \<open>request_json\<close>) are
  the tuples they encode; metadata is the record it encodes. SHA-256, the random bytes and the
  clock are not under \<open>src/\<close>: they are the arguments \<open>sha\<close>, \<open>random\<close> and the readings
  \<open>n\<close>, \<open>n'\<close> of type \<open>u64 option\<close> (\<open>None\<close> for a clock before the epoch).
\<close>

section \<open>Data\<close>

datatype transfer_error =
  Storage | Invalid | Access | Capacity | Conflict | Phase | CaptureFailed | Integrity | Delivery

type_synonym 'a vresult = "transfer_error + 'a"

record grant =
  gr_workspace :: string
  gr_cell :: string
  gr_principal :: string
  gr_wallet :: string
  gr_authority :: string

record limits =
  payload_bytes :: u32
  cell_bytes :: u64
  active_transfers :: u32
  retention_seconds :: u32

definition default_limits :: limits where
  "default_limits =
     \<lparr>payload_bytes = 1024 * 1024, cell_bytes = 32 * 1024 * 1024,
      active_transfers = 8, retention_seconds = 3600\<rparr>"

datatype capture_phase = Reserved | Started | Ready | Unknown | Released | Expired

datatype transport_path = InfrastructureRelay

record payload_manifest =
  mf_bytes :: u32
  mf_sha256 :: string

record native_receipt =
  exit_code :: "32 word option"
  exit_signal :: "32 word option"
  timed_out :: bool
  cancelled :: bool
  cleanup_verified :: bool
  streams_complete :: bool
  output_truncated :: bool

record produced_payload =
  pp_native :: native_receipt
  pp_manifest :: "payload_manifest option"

definition clean_success :: "native_receipt \<Rightarrow> bool" where
  "clean_success r \<longleftrightarrow> exit_code r = Some 0 \<and> exit_signal r = None \<and> \<not> timed_out r
     \<and> \<not> cancelled r \<and> cleanup_verified r \<and> streams_complete r \<and> \<not> output_truncated r"

record native_stage =
  input_started :: bool
  operation_id :: "string option"
  receipt :: "native_receipt option"
  interrupted :: bool

definition default_stage :: native_stage where
  "default_stage =
     \<lparr>input_started = False, operation_id = None, receipt = None, interrupted = False\<rparr>"

record recipient_authority =
  ra_principal :: string
  ra_authority :: string

record transfer =
  t_recipient :: "recipient_authority option"
  t_revision :: u64
  t_transport :: transport_path
  t_id :: string
  t_workspace :: string
  t_cell :: string
  t_source_wallet :: string
  t_destination_wallet :: string
  t_maximum_bytes :: u32
  t_expires_at_unix :: u64
  t_capture :: capture_phase
  t_bytes :: "u32 option"
  t_sha256 :: "string option"
  t_source_manifest :: "payload_manifest option"
  t_delivered :: bool
  t_source :: native_stage
  t_receiver :: native_stage
  t_observations :: "string list"

record cleanup_receipt =
  admission_closed :: bool
  retained_transfer_records :: nat
  remaining_payload_bytes :: int
  native_operations_without_receipts :: nat
  storage_cleanup_verified :: bool

type_synonym grant_key = "string \<times> string \<times> string \<times> string \<times> string"

text \<open>
  A request row is the request it was made with, or the mark the migration leaves on a key two
  former sessions shared.
\<close>

datatype request_text = Requested grant_key grant_key u32 | LegacyAmbiguous

record transfer_row =
  row_id :: nat
  handle :: string
  request_key :: string
  request_json :: request_text
  source_json :: grant_key
  destination_json :: grant_key
  metadata :: transfer
  row_capacity :: int

record vault =
  vlt_workspace :: string
  vlt_cell :: string
  vlt_limits :: limits
  vlt_closed :: bool
  vlt_rows :: "transfer_row list"
  vlt_payloads :: "(nat, u8 list) btree"

section \<open>Results and transactions\<close>

definition in_tx :: "vault \<Rightarrow> (vault \<times> 'a) vresult \<Rightarrow> vault \<times> 'a vresult" where
  "in_tx v r = (case r of Inl e \<Rightarrow> (v, Inl e) | Inr (v', x) \<Rightarrow> (v', Inr x))"

lemma in_tx_Inr:
  "in_tx v r = (v', Inr x) \<longleftrightarrow> r = Inr (v', x)"
  by (auto simp: in_tx_def split: sum.split)

lemma in_tx_Inl:
  "in_tx v r = (v', Inl e) \<longleftrightarrow> r = Inl e \<and> v' = v"
  by (auto simp: in_tx_def split: sum.split)

section \<open>Checks and storage primitives\<close>

definition ident :: "string \<Rightarrow> bool" where
  "ident s \<longleftrightarrow> s \<noteq> [] \<and> length s \<le> 128
     \<and> list_all (\<lambda>c. is_ascii_alphanumeric c \<or> c \<in> set ''._-'') s"

definition grant_identity :: "grant \<Rightarrow> grant_key" where
  "grant_identity g = (gr_workspace g, gr_cell g, gr_principal g, gr_wallet g, gr_authority g)"

definition check_grant :: "vault \<Rightarrow> grant \<Rightarrow> unit vresult" where
  "check_grant v g =
     (if gr_workspace g \<noteq> vlt_workspace v \<or> gr_cell g \<noteq> vlt_cell v
         \<or> \<not> list_all ident
               [gr_workspace g, gr_cell g, gr_principal g, gr_wallet g, gr_authority g]
      then Inl Access else Inr ())"

definition usable :: "transfer \<Rightarrow> u64 option \<Rightarrow> unit vresult" where
  "usable t n =
     (case n of
        None \<Rightarrow> Inl Storage
      | Some timestamp \<Rightarrow>
          (if t_expires_at_unix t \<le> timestamp \<or> t_capture t \<in> {Released, Expired}
           then Inl Access else Inr ()))"

definition find_row :: "vault \<Rightarrow> string \<Rightarrow> transfer_row option" where
  "find_row v h = List.find (\<lambda>r. handle r = h) (vlt_rows v)"

definition vault_row :: "vault \<Rightarrow> string \<Rightarrow> transfer_row vresult" where
  "vault_row v h = (case find_row v h of None \<Rightarrow> Inl Access | Some r \<Rightarrow> Inr r)"

definition all_metadata :: "vault \<Rightarrow> transfer list" where
  "all_metadata v = map metadata (vlt_rows v)"

text \<open>\<open>UPDATE transfers SET .. WHERE handle = h\<close>.\<close>

definition update_row :: "string \<Rightarrow> (transfer_row \<Rightarrow> transfer_row) \<Rightarrow> vault \<Rightarrow> vault" where
  "update_row h f v =
     v\<lparr>vlt_rows := map (\<lambda>r. if handle r = h then f r else r) (vlt_rows v)\<rparr>"

text \<open>
  The optimistic lock: the metadata is written only over the revision it was read at. The
  revision must still fit the signed integer SQLite compares.
\<close>

definition save :: "vault \<Rightarrow> transfer \<Rightarrow> (vault \<times> transfer) vresult" where
  "save v t =
     (case checked_add (t_revision t) 1 of
        None \<Rightarrow> Inl Storage
      | Some next \<Rightarrow>
          (if 2 ^ 63 \<le> uint (t_revision t) then Inl Storage
           else (let t' = t\<lparr>t_revision := next\<rparr>;
                     hit = (\<lambda>r. handle r = t_id t \<and> t_revision (metadata r) = t_revision t)
                 in if length (filter hit (vlt_rows v)) = 1
                    then Inr (v\<lparr>vlt_rows := map (\<lambda>r. if hit r then r\<lparr>metadata := t'\<rparr> else r)
                                             (vlt_rows v)\<rparr>, t')
                    else Inl Conflict)))"

definition authorized :: "vault \<Rightarrow> grant \<Rightarrow> string \<Rightarrow> bool option \<Rightarrow> transfer_row vresult" where
  "authorized v g h destination =
     and_then (check_grant v g) (\<lambda>_.
     and_then (vault_row v h) (\<lambda>r.
       (let allowed =
              (case destination of
                 Some True \<Rightarrow> destination_json r = grant_identity g
               | Some False \<Rightarrow> source_json r = grant_identity g
               | None \<Rightarrow> source_json r = grant_identity g \<or> destination_json r = grant_identity g)
        in if \<not> allowed then Inl Access else Inr r)))"

definition admission :: "vault \<Rightarrow> grant \<Rightarrow> transfer \<Rightarrow> u64 option \<Rightarrow> unit vresult" where
  "admission v g t n =
     (if vlt_closed v then Inl Access
      else and_then (vault_row v (t_id t)) (\<lambda>r.
        if grant_identity g \<noteq> source_json r \<and> grant_identity g \<noteq> destination_json r
        then Inl Access
        else usable (metadata r) n))"

definition claims :: "string \<Rightarrow> transfer_row \<Rightarrow> bool" where
  "claims operation r \<longleftrightarrow> operation_id (t_source (metadata r)) = Some operation
     \<or> operation_id (t_receiver (metadata r)) = Some operation"

definition claim_operation :: "vault \<Rightarrow> string \<Rightarrow> unit vresult" where
  "claim_operation v operation =
     (if length (filter (claims operation) (vlt_rows v)) = 0 then Inr () else Inl Conflict)"

section \<open>Blobs\<close>

text \<open>
  A reader is the list of what its \<open>read\<close> calls return: \<open>None\<close> an error, an empty block the
  end, otherwise a block of bytes; past the list it is at its end. \<open>copy_loop\<close> is the loop
  of \<open>copy_bounded\<close> with the bytes fed to the hash; the writer is its \<open>write_all\<close>.
\<close>

type_synonym reader = "u8 list option list"

fun copy_loop ::
  "('w \<Rightarrow> u8 list \<Rightarrow> 'w option) \<Rightarrow> reader \<Rightarrow> u32 \<Rightarrow> u32 \<Rightarrow> u8 list \<Rightarrow> 'w \<Rightarrow>
   (u32 \<times> u8 list \<times> 'w) vresult" where
  "copy_loop write [] limit count hashed w = Inr (count, hashed, w)"
| "copy_loop write (None # rs) limit count hashed w = Inl CaptureFailed"
| "copy_loop write (Some block # rs) limit count hashed w =
     (if block = [] then Inr (count, hashed, w)
      else if 2 ^ 32 \<le> int (length block) then Inl CaptureFailed
      else if of_nat (length block) > limit - count then Inl Capacity
      else (case write w block of
              None \<Rightarrow> Inl CaptureFailed
            | Some w' \<Rightarrow>
                copy_loop write rs limit (count + of_nat (length block)) (hashed @ block) w'))"

definition copy_bounded ::
  "(u8 list \<Rightarrow> string) \<Rightarrow> ('w \<Rightarrow> u8 list \<Rightarrow> 'w option) \<Rightarrow> reader \<Rightarrow> 'w \<Rightarrow> u32 \<Rightarrow>
   (u32 \<times> string \<times> 'w) vresult" where
  "copy_bounded sha write rd w limit =
     and_then (copy_loop write rd limit 0 [] w) (\<lambda>(count, hashed, w'). Inr (count, sha hashed, w'))"

text \<open>
  An open blob is its bytes and the position of its handle; a blob never grows, so a write past
  its end fails. A read fills the buffer of 8192 bytes as far as the blob, or the \<open>take\<close>
  around it, goes.
\<close>

type_synonym blob = "u8 list \<times> nat"

definition blob_write :: "blob \<Rightarrow> u8 list \<Rightarrow> blob option" where
  "blob_write b block =
     (case b of (body, pos) \<Rightarrow>
        (if length body < pos + length block then None
         else Some (take pos body @ block @ drop (pos + length block) body,
                    pos + length block)))"

definition sink_write :: "unit \<Rightarrow> u8 list \<Rightarrow> unit option" where
  "sink_write w block = Some ()"

definition blob_reads :: "nat \<Rightarrow> u8 list \<Rightarrow> reader" where
  "blob_reads n body = map Some (chunks 8192 (take n body))"

definition blob_open :: "vault \<Rightarrow> nat \<Rightarrow> u8 list vresult" where
  "blob_open v index =
     (case bt_get (vlt_payloads v) index of None \<Rightarrow> Inl Storage | Some body \<Rightarrow> Inr body)"

definition put_blob :: "nat \<Rightarrow> u8 list \<Rightarrow> vault \<Rightarrow> vault" where
  "put_blob index body v = v\<lparr>vlt_payloads := bt_insert index body (vlt_payloads v)\<rparr>"

definition verify_blob ::
  "(u8 list \<Rightarrow> string) \<Rightarrow> vault \<Rightarrow> nat \<Rightarrow> string \<Rightarrow> transfer \<Rightarrow> unit vresult" where
  "verify_blob sha v index column t =
     (case t_bytes t of
        None \<Rightarrow> Inl Integrity
      | Some expected \<Rightarrow>
          and_then (if column = ''source_body'' then Inr 0
                    else if column = ''inbox_body'' then Inr 1 else Inl Invalid) (\<lambda>offset.
          and_then (blob_open v (index * 2 + offset)) (\<lambda>body.
          and_then (copy_bounded sha sink_write (blob_reads (unat expected) body) () expected)
            (\<lambda>(read, digest, _).
               if read \<noteq> expected \<or> Some digest \<noteq> t_sha256 t then Inl Integrity else Inr ()))))"

end
