(* ===== verification/Transfer_Bytes.thy ===== *)
theory Transfer_Bytes
  imports Transfer_Vault
begin

text \<open>
  What the byte primitives of the vault do: the copy loop counts and hashes exactly the bytes it
  moves, a writer that keeps its contract ends up holding them, and \<open>verify_blob\<close> succeeds
  exactly when the recorded digest is that of the blob's prefix.
\<close>

section \<open>The copy loop\<close>

lemma u32_of_nat:
  fixes b :: "'a list"
  assumes "int (length b) < 2 ^ 32"
  shows "uint (of_nat (length b) :: u32) = int (length b)"
  using assms by (simp add: unsigned_of_nat take_bit_nat_eq_self nat_take_bit_eq flip: of_nat_take_bit)

lemma u32_add_bounded:
  fixes limit count k :: u32
  assumes "count \<le> limit" "\<not> k > limit - count"
  shows "uint (count + k) = uint count + uint k \<and> count + k \<le> limit"
proof -
  have "uint (limit - count) = uint limit - uint count"
    using assms(1) by (simp add: word_le_def uint_sub_if_size)
  then have "uint k \<le> uint limit - uint count"
    using assms(2) by (simp add: word_less_def not_less)
  moreover have "uint limit < 2 ^ 32" using uint_lt2p [of limit] by simp
  ultimately have "uint (count + k) = uint count + uint k"
    by (simp add: uint_word_ariths take_bit_int_eq_self)
  then show ?thesis using \<open>uint k \<le> uint limit - uint count\<close> by (simp add: word_le_def)
qed

text \<open>The count never passes the limit and is the number of bytes hashed.\<close>

lemma copy_loop_count:
  assumes "copy_loop wr rd limit count hashed w = Inr (n, h, w')" "count \<le> limit"
  shows "\<exists>bs. h = hashed @ bs \<and> uint n = uint count + int (length bs) \<and> n \<le> limit"
  using assms
proof (induction wr rd limit count hashed w rule: copy_loop.induct)
  case (3 wr block rs limit count hashed w)
  show ?case
  proof (cases "block = []")
    case True
    then show ?thesis using 3 by auto
  next
    case False
    let ?k = "of_nat (length block) :: u32"
    from 3 False obtain w2 where fits: "int (length block) < 2 ^ 32" "\<not> ?k > limit - count"
      and step: "wr w block = Some w2"
        "copy_loop wr rs limit (count + ?k) (hashed @ block) w2 = Inr (n, h, w')"
      by (auto split: if_splits option.splits)
    have sum: "uint (count + ?k) = uint count + int (length block)" "count + ?k \<le> limit"
      using u32_add_bounded [OF "3.prems"(2) fits(2)] u32_of_nat [OF fits(1)] by auto
    obtain bs where "h = (hashed @ block) @ bs" "uint n = uint (count + ?k) + int (length bs)"
        "n \<le> limit"
      using "3.IH" [OF False _ fits(2) step sum(2)] fits(1) by auto
    then show ?thesis using sum by (intro exI [of _ "block @ bs"]) simp
  qed
qed auto

text \<open>A reader with no error and no early end is copied whole.\<close>

lemma copy_loop_all:
  assumes "copy_loop wr (map Some bs) limit count hashed w = Inr (n, h, w')"
    and "\<forall>b \<in> set bs. b \<noteq> []"
  shows "h = hashed @ concat bs"
  using assms
proof (induction bs arbitrary: count hashed w)
  case (Cons b bs)
  then obtain w2 where "copy_loop wr (map Some bs) limit (count + of_nat (length b)) (hashed @ b) w2
      = Inr (n, h, w')"
    by (auto split: if_splits option.splits)
  then show ?case using Cons.IH Cons.prems(2) by fastforce
qed simp

section \<open>Writers\<close>

text \<open>
  The contract of a byte writer: a block that is taken is appended to what was written, and
  the room does not change; a block that fits is taken.
\<close>

locale byte_writer =
  fixes wr :: "'w \<Rightarrow> u8 list \<Rightarrow> 'w option"
    and written :: "'w \<Rightarrow> u8 list"
    and room :: "'w \<Rightarrow> nat"
  assumes written_wr: "wr w b = Some w' \<Longrightarrow> written w' = written w @ b"
    and room_wr: "wr w b = Some w' \<Longrightarrow> room w' = room w"
begin

lemma copy_written:
  assumes "copy_loop wr' rd limit count hashed w = Inr (n, h, w')" "wr' = wr"
  shows "\<exists>bs. h = hashed @ bs \<and> written w' = written w @ bs \<and> room w' = room w"
  using assms
proof (induction wr' rd limit count hashed w rule: copy_loop.induct)
  case (3 wr' block rs limit count hashed w)
  show ?case
  proof (cases "block = []")
    case True
    then show ?thesis using 3 by auto
  next
    case False
    from "3.prems" False obtain w2 where ok: "int (length block) < 2 ^ 32"
        "\<not> of_nat (length block) > limit - count" and w2: "wr' w block = Some w2"
      and loop: "copy_loop wr' rs limit (count + of_nat (length block)) (hashed @ block) w2
        = Inr (n, h, w')"
      by (auto split: if_splits option.splits)
    obtain bs where "h = (hashed @ block) @ bs" "written w' = written w2 @ bs" "room w' = room w2"
      using "3.IH" [OF False _ ok(2) w2 loop] ok(1) "3.prems"(2) by auto
    then show ?thesis
      using written_wr [of w block w2] room_wr [of w block w2] w2 "3.prems"(2)
      by (intro exI [of _ "block @ bs"]) simp
  qed
qed auto

end

text \<open>The other half of the contract: a writer that has room for \<open>n\<close> bytes takes them.\<close>

locale accepting_writer =
  fixes wr :: "'w \<Rightarrow> u8 list \<Rightarrow> 'w option"
    and fits :: "'w \<Rightarrow> nat \<Rightarrow> bool"
  assumes wr_fits: "fits w n \<Longrightarrow> length b \<le> n \<Longrightarrow> \<exists>w'. wr w b = Some w' \<and> fits w' (n - length b)"
begin

lemma copy_fits:
  assumes "\<forall>b \<in> set bs. b \<noteq> [] \<and> int (length b) < 2 ^ 32"
    and "uint count + int (length (concat bs)) \<le> uint limit"
    and "fits w (length (concat bs))"
  shows "\<exists>r. copy_loop wr (map Some bs) limit count hashed w = Inr r"
  using assms
proof (induction bs arbitrary: count hashed w)
  case (Cons b bs)
  let ?k = "of_nat (length b) :: u32"
  have k: "uint ?k = int (length b)" using Cons.prems(1) by (intro u32_of_nat) simp
  have "uint (limit - count) = uint limit - uint count"
    using Cons.prems(2) by (simp add: uint_sub_if_size)
  then have nless: "\<not> ?k > limit - count"
    using Cons.prems(2) k by (simp add: word_less_def)
  have "count \<le> limit" using Cons.prems(2) by (simp add: word_le_def)
  then have sum: "uint (count + ?k) = uint count + int (length b)"
    using u32_add_bounded [OF _ nless] k by simp
  obtain w2 where w2: "wr w b = Some w2" "fits w2 (length (concat bs))"
    using wr_fits [OF Cons.prems(3), of b] by auto
  have "\<exists>r. copy_loop wr (map Some bs) limit (count + ?k) (hashed @ b) w2 = Inr r"
    using Cons.prems sum w2(2) by (intro Cons.IH) auto
  moreover have "b \<noteq> []" "\<not> 2 ^ 32 \<le> int (length b)" using Cons.prems(1) by auto
  ultimately show ?case using nless w2 by simp
qed simp

end

interpretation blob: byte_writer blob_write "\<lambda>(body, pos). take pos body" "\<lambda>(body, pos). length body"
  by unfold_locales (auto simp: blob_write_def split: if_splits)

interpretation blob_room: accepting_writer blob_write "\<lambda>(body, pos) n. pos + n \<le> length body"
  by unfold_locales (auto simp: blob_write_def)

interpretation sink: accepting_writer sink_write "\<lambda>w n. True"
  by unfold_locales (simp add: sink_write_def)

lemma blob_copy:
  assumes "copy_bounded sha blob_write rd (body, 0) limit = Inr (n, digest, body', pos)"
  shows "length body' = length body \<and> n \<le> limit \<and> unat n \<le> length body
    \<and> digest = sha (take (unat n) body')"
proof -
  from assms obtain h where loop: "copy_loop blob_write rd limit 0 [] (body, 0) = Inr (n, h, body', pos)"
    and digest: "digest = sha h"
    by (auto simp: copy_bounded_def and_then_Inr_iff)
  from copy_loop_count [OF loop] have n: "uint n = int (length h)" "n \<le> limit" by auto
  then have len: "unat n = length h" by (simp add: unat_eq_nat_uint)
  from blob.copy_written [OF loop refl] have "take pos body' = h" "length body' = length body" by auto
  then show ?thesis using n(2) digest len by (auto simp: min_def split: if_splits)
qed

section \<open>Reading a blob back\<close>

lemma take_own_length: "take p xs = h \<Longrightarrow> take (length h) xs = h"
  by (cases "p \<le> length xs") auto

lemma concat_blob_blocks: "concat (chunks 8192 (take n body)) = take n body"
  by (rule concat_chunks)

lemma blob_reads_copied:
  assumes "copy_bounded sha wr (blob_reads m body) w limit = Inr (n, digest, w')"
  shows "digest = sha (take m body) \<and> uint n = int (length (take m body))"
proof -
  from assms obtain h where loop: "copy_loop wr (map Some (chunks 8192 (take m body))) limit 0 [] w
      = Inr (n, h, w')" and digest: "digest = sha h"
    by (auto simp: copy_bounded_def and_then_Inr_iff blob_reads_def)
  have "h = take m body"
    using copy_loop_all [OF loop] chunks_nonempty by (auto simp: concat_blob_blocks)
  then show ?thesis using copy_loop_count [OF loop] digest by auto
qed

lemma blob_copied_between:
  assumes "copy_bounded sha blob_write (blob_reads m source) (inbox, 0) limit
      = Inr (n, digest, inbox', pos)"
  shows "digest = sha (take m source) \<and> length inbox' = length inbox
    \<and> take (length (take m source)) inbox' = take m source"
proof -
  from assms obtain h where loop: "copy_loop blob_write (map Some (chunks 8192 (take m source)))
      limit 0 [] (inbox, 0) = Inr (n, h, inbox', pos)" and digest: "digest = sha h"
    by (auto simp: copy_bounded_def and_then_Inr_iff blob_reads_def)
  have h: "h = take m source"
    using copy_loop_all [OF loop] chunks_nonempty by (auto simp: concat_blob_blocks)
  from blob.copy_written [OF loop refl] have "take pos inbox' = h" "length inbox' = length inbox" by auto
  then show ?thesis using take_own_length [of pos inbox' h] h digest by simp
qed

lemma length_covered:
  assumes "uint (n :: u32) = int (length (take (unat n) xs))"
  shows "unat n \<le> length xs"
proof -
  have "nat (uint n) = length (take (unat n) xs)"
    by (subst assms) (rule nat_int)
  then have "unat n = min (length xs) (unat n)"
    unfolding length_take unat_eq_nat_uint [symmetric] .
  then show ?thesis by linarith
qed

lemma verify_blobD:
  assumes "verify_blob sha v index column t = Inr ()"
  shows "\<exists>size body offset. t_bytes t = Some size \<and> blob_open v (index * 2 + offset) = Inr body
    \<and> offset = (if column = ''source_body'' then 0 else 1)
    \<and> column \<in> {''source_body'', ''inbox_body''}
    \<and> unat size \<le> length body \<and> t_sha256 t = Some (sha (take (unat size) body))"
proof -
  obtain size where size: "t_bytes t = Some size"
    using assms by (auto simp: verify_blob_def split: option.splits)
  let ?offset = "if column = ''source_body'' then 0 else 1 :: nat"
  have column: "column \<in> {''source_body'', ''inbox_body''}"
    using assms by (auto simp: verify_blob_def size and_then_def split: if_splits)
  then have offset: "(if column = ''source_body'' then Inr 0
      else if column = ''inbox_body'' then Inr 1 else Inl Invalid) = (Inr ?offset :: nat vresult)"
    by auto
  have "verify_blob sha v index column t = and_then (blob_open v (index * 2 + ?offset)) (\<lambda>body.
      and_then (copy_bounded sha sink_write (blob_reads (unat size) body) () size)
        (\<lambda>(read, digest, _).
           if read \<noteq> size \<or> Some digest \<noteq> t_sha256 t then Inl Integrity else Inr ()))"
    unfolding verify_blob_def size option.case offset by (simp add: and_then_def)
  with assms obtain body where body: "blob_open v (index * 2 + ?offset) = Inr body"
    and "and_then (copy_bounded sha sink_write (blob_reads (unat size) body) () size)
        (\<lambda>(read, digest, _).
           if read \<noteq> size \<or> Some digest \<noteq> t_sha256 t then Inl Integrity else Inr ()) = Inr ()"
    by (auto simp: and_then_Inr_iff)
  then obtain digest where copy: "copy_bounded sha sink_write (blob_reads (unat size) body) () size
        = Inr (size, digest, ())" and digest: "t_sha256 t = Some digest"
    by (auto simp: and_then_Inr_iff split: if_splits)
  note copied = blob_reads_copied [OF copy]
  have "t_sha256 t = Some (sha (take (unat size) body))"
    by (subst digest, subst conjunct1 [OF copied], rule refl)
  moreover have "unat size \<le> length body" by (rule length_covered [OF conjunct2 [OF copied]])
  ultimately show ?thesis
    using size body column
    by (intro exI [of _ size] exI [of _ body] exI [of _ ?offset] conjI) simp_all
qed

lemma verify_inboxD:
  assumes "verify_blob sha v index ''inbox_body'' t = Inr ()"
  obtains size body where "t_bytes t = Some size" "blob_open v (index * 2 + 1) = Inr body"
    "unat size \<le> length body" "t_sha256 t = Some (sha (take (unat size) body))"
  using verify_blobD [OF assms] by auto

section \<open>When copying and verifying succeed\<close>

lemma small_blocks:
  "b \<in> set (chunks 8192 xs) \<Longrightarrow> b \<noteq> [] \<and> int (length b) < 2 ^ 32"
  using chunks_nonempty [of b 8192 xs] chunks_bounded [of 8192 b xs] by simp

lemma covered_length:
  "unat (n :: u32) \<le> length xs \<Longrightarrow> int (length (take (unat n) xs)) = uint n"
  by (simp add: min_def)

lemma blob_reads_succeed:
  assumes loop: "\<exists>r. copy_loop wr (map Some (chunks 8192 (take (unat n) body))) limit 0 [] w = Inr r"
    and len: "unat (n :: u32) \<le> length body"
  shows "\<exists>w'. copy_bounded sha wr (blob_reads (unat n) body) w limit
    = Inr (n, sha (take (unat n) body), w')"
proof -
  obtain k h w' where "copy_loop wr (map Some (chunks 8192 (take (unat n) body))) limit 0 [] w
      = Inr (k, h, w')"
    using loop by (metis prod_cases3)
  then have run: "copy_bounded sha wr (blob_reads (unat n) body) w limit = Inr (k, sha h, w')"
    by (simp add: copy_bounded_def blob_reads_def and_then_def)
  note copied = blob_reads_copied [OF run]
  have "uint k = uint n" by (simp only: conjunct2 [OF copied] covered_length [OF len])
  then have "k = n" by (simp only: word_uint_eq_iff)
  then show ?thesis using run conjunct1 [OF copied] by metis
qed

lemma verify_blob_ok:
  assumes "t_bytes t = Some n" "unat n \<le> length body" "t_sha256 t = Some (sha (take (unat n) body))"
    and "column = ''source_body'' \<and> blob_open v (index * 2) = Inr body
      \<or> column = ''inbox_body'' \<and> blob_open v (index * 2 + 1) = Inr body"
  shows "verify_blob sha v index column t = Inr ()"
proof -
  have "\<exists>r. copy_loop sink_write (map Some (chunks 8192 (take (unat n) body))) n 0 [] () = Inr r"
    using small_blocks covered_length [OF assms(2)]
    by (intro sink.copy_fits) (auto simp only: concat_chunks uint_0_eq add_0)
  from blob_reads_succeed [OF this assms(2), of sha]
  have "copy_bounded sha sink_write (blob_reads (unat n) body) () n = Inr (n, sha (take (unat n) body), ())"
    by auto
  then show ?thesis using assms(1,3,4) by (auto simp: verify_blob_def and_then_def)
qed

lemma blob_copy_ok:
  assumes "unat (n :: u32) \<le> length source" "unat n \<le> length inbox" "n \<le> limit"
  shows "\<exists>inbox' pos. copy_bounded sha blob_write (blob_reads (unat n) source) (inbox, 0) limit
    = Inr (n, sha (take (unat n) source), inbox', pos)"
proof -
  have "\<exists>r. copy_loop blob_write (map Some (chunks 8192 (take (unat n) source))) limit 0 []
      (inbox, 0) = Inr r"
  proof (rule blob_room.copy_fits)
    show "uint (0 :: u32) + int (length (concat (chunks 8192 (take (unat n) source)))) \<le> uint limit"
      using covered_length [OF assms(1)] assms(3) by (simp only: concat_chunks uint_0_eq add_0 word_le_def)
  qed (use small_blocks assms in \<open>auto simp: concat_chunks\<close>)
  from blob_reads_succeed [OF this assms(1), of sha] show ?thesis by auto
qed

end
