(* ===== verification/Transfer_Operations.thy ===== *)
theory Transfer_Operations
  imports Transfer_Vault
begin

text \<open>
  The operations of the vault, in the order of \<open>proofstorm-transfer/src/lib.rs\<close>. An operation
  that authorizes first and opens its transaction later is two definitions: the optimistic
  read, and the part from the transaction on (\<open>.._commit\<close>), which takes what was read. Another
  handle on the same directory may write between the two.
\<close>

section \<open>prepare\<close>

text \<open>The result of \<open>SUM\<close> or \<open>COUNT\<close> read as a \<open>u32\<close>.\<close>

definition as_u32 :: "int \<Rightarrow> int vresult" where
  "as_u32 i = (if 0 \<le> i \<and> i < 2 ^ 32 then Inr i else Inl Storage)"

definition request_scope :: "grant \<Rightarrow> string \<Rightarrow> string" where
  "request_scope g key = gr_principal g @ ''/'' @ gr_authority g @ ''/'' @ key"

definition next_row_id :: "vault \<Rightarrow> nat" where
  "next_row_id v = Suc (fold max (map row_id (vlt_rows v)) 0)"

definition reserved_transfer :: "vault \<Rightarrow> grant \<Rightarrow> grant \<Rightarrow> string \<Rightarrow> u32 \<Rightarrow> u64 \<Rightarrow> transfer" where
  "reserved_transfer v source destination h maximum_bytes timestamp =
     \<lparr>t_recipient = None, t_revision = 0, t_transport = InfrastructureRelay, t_id = h,
      t_workspace = vlt_workspace v, t_cell = vlt_cell v,
      t_source_wallet = gr_wallet source, t_destination_wallet = gr_wallet destination,
      t_maximum_bytes = maximum_bytes,
      t_expires_at_unix = timestamp + ucast (retention_seconds (vlt_limits v)),
      t_capture = Reserved, t_bytes = None, t_sha256 = None, t_source_manifest = None,
      t_delivered = False, t_source = default_stage, t_receiver = default_stage,
      t_observations = []\<rparr>"

definition insert_transfer :: "vault \<Rightarrow> transfer_row \<Rightarrow> u32 \<Rightarrow> (vault \<times> transfer) vresult" where
  "insert_transfer v r maximum_bytes =
     (if handle r \<in> set (map handle (vlt_rows v)) \<or> request_key r \<in> set (map request_key (vlt_rows v))
      then Inl Storage
      else (let zeros = replicate (unat maximum_bytes) 0;
                v' = v\<lparr>vlt_rows := vlt_rows v @ [r]\<rparr>
            in if bt_get (vlt_payloads v) (row_id r * 2) \<noteq> None
                  \<or> bt_get (vlt_payloads v) (row_id r * 2 + 1) \<noteq> None
               then Inl Storage
               else Inr (put_blob (row_id r * 2 + 1) zeros (put_blob (row_id r * 2) zeros v'),
                         metadata r)))"

definition prepare_tx ::
  "(u8 list \<Rightarrow> string) \<Rightarrow> vault \<Rightarrow> grant \<Rightarrow> grant \<Rightarrow> string \<Rightarrow> u32 \<Rightarrow>
   u8 list option \<Rightarrow> u64 option \<Rightarrow> (vault \<times> transfer) vresult" where
  "prepare_tx sha v source destination key maximum_bytes random n =
     (let request = Requested (grant_identity source) (grant_identity destination) maximum_bytes
      in if vlt_closed v then Inl Phase
         else and_then (as_u32 (int (length (vlt_rows v)))) (\<lambda>records.
           (case List.find (\<lambda>r. request_key r = key) (vlt_rows v) of
              Some r \<Rightarrow>
                (if request_json r \<noteq> request then Inl Conflict else Inr (v, metadata r))
            | None \<Rightarrow>
                and_then (as_u32 (int (length (filter (\<lambda>r. row_capacity r > 0) (vlt_rows v)))))
                  (\<lambda>count.
                and_then (as_u32 (sum_list (map row_capacity
                            (filter (\<lambda>r. row_capacity r > 0) (vlt_rows v))))) (\<lambda>used.
                  (let capacity = uint maximum_bytes * 2
                   in if records \<ge> 4096
                         \<or> count \<ge> uint (active_transfers (vlt_limits v))
                         \<or> used + capacity > uint (cell_bytes (vlt_limits v))
                      then Inl Capacity
                      else (case random of
                              None \<Rightarrow> Inl Storage
                            | Some bytes \<Rightarrow>
                                (case n of
                                   None \<Rightarrow> Inl Storage
                                 | Some timestamp \<Rightarrow>
                                     (let h = ''payload-'' @ sha bytes
                                      in insert_transfer v
                                           \<lparr>row_id = next_row_id v, handle = h,
                                            request_key = key, request_json = request,
                                            source_json = grant_identity source,
                                            destination_json = grant_identity destination,
                                            metadata = reserved_transfer v source destination h
                                                         maximum_bytes timestamp,
                                            row_capacity = capacity\<rparr>
                                           maximum_bytes)))))))))"

definition prepare ::
  "(u8 list \<Rightarrow> string) \<Rightarrow> vault \<Rightarrow> grant \<Rightarrow> grant \<Rightarrow> string \<Rightarrow> u32 \<Rightarrow>
   u8 list option \<Rightarrow> u64 option \<Rightarrow> vault \<times> transfer vresult" where
  "prepare sha v source destination key maximum_bytes random n =
     in_tx v
       (and_then (check_grant v source) (\<lambda>_.
        and_then (check_grant v destination) (\<lambda>_.
          if \<not> ident key \<or> maximum_bytes = 0 \<or> maximum_bytes > payload_bytes (vlt_limits v)
             \<or> gr_wallet source = gr_wallet destination
          then Inl Invalid
          else prepare_tx sha v source destination (request_scope source key) maximum_bytes
                 random n)))"

section \<open>handoff and status\<close>

definition handoff ::
  "vault \<Rightarrow> grant \<Rightarrow> grant \<Rightarrow> string \<Rightarrow> u64 option \<Rightarrow> vault \<times> transfer vresult" where
  "handoff v source destination h n =
     in_tx v
       (and_then (check_grant v source) (\<lambda>_.
        and_then (check_grant v destination) (\<lambda>_.
          if gr_principal source = gr_principal destination then Inl Invalid
          else and_then (vault_row v h) (\<lambda>r.
            (let t = metadata r
             in if grant_identity source \<noteq> source_json r
                   \<or> gr_wallet destination \<noteq> t_destination_wallet t
                then Inl Access
                else and_then (admission v source t n) (\<lambda>_.
                  if t_recipient t \<noteq> None
                  then (if destination_json r = grant_identity destination
                        then Inr (v, t) else Inl Conflict)
                  else if t_capture t \<noteq> Ready \<or> t_delivered t
                          \<or> operation_id (t_receiver t) \<noteq> None
                  then Inl Phase
                  else save (update_row h (\<lambda>r. r\<lparr>destination_json := grant_identity destination\<rparr>) v)
                         (t\<lparr>t_recipient := Some \<lparr>ra_principal = gr_principal destination,
                                                ra_authority = gr_authority destination\<rparr>\<rparr>)))))))"

definition status :: "vault \<Rightarrow> grant \<Rightarrow> string \<Rightarrow> transfer vresult" where
  "status v g h = and_then (authorized v g h None) (\<lambda>r. Inr (metadata r))"

section \<open>The producer\<close>

definition begin_capture_commit ::
  "vault \<Rightarrow> grant \<Rightarrow> string \<Rightarrow> transfer \<Rightarrow> u64 option \<Rightarrow> (vault \<times> transfer) vresult" where
  "begin_capture_commit v g operation t n =
     (let t' = t\<lparr>t_capture := Started,
                t_source := (t_source t)\<lparr>operation_id := Some operation\<rparr>\<rparr>
      in and_then (admission v g t' n) (\<lambda>_.
         and_then (claim_operation v operation) (\<lambda>_. save v t')))"

definition begin_capture ::
  "vault \<Rightarrow> grant \<Rightarrow> string \<Rightarrow> string \<Rightarrow> u64 option \<Rightarrow> u64 option \<Rightarrow> vault \<times> transfer vresult" where
  "begin_capture v g h operation n n' =
     in_tx v
       (and_then (authorized v g h (Some False)) (\<lambda>r.
        and_then (usable (metadata r) n) (\<lambda>_.
          if \<not> ident operation then Inl Invalid
          else if t_capture (metadata r) \<noteq> Reserved then Inl Phase
          else begin_capture_commit v g operation (metadata r) n')))"

definition finish_source ::
  "vault \<Rightarrow> string \<Rightarrow> string \<Rightarrow> native_receipt \<Rightarrow> vault \<times> transfer vresult" where
  "finish_source v h operation rcpt =
     in_tx v
       (and_then (vault_row v h) (\<lambda>r.
         (let t = metadata r
          in if operation_id (t_source t) \<noteq> Some operation then Inl Conflict
             else (case receipt (t_source t) of
                     Some previous \<Rightarrow> (if previous = rcpt then Inr (v, t) else Inl Conflict)
                   | None \<Rightarrow>
                       (let t1 = t\<lparr>t_source := (t_source t)\<lparr>receipt := Some rcpt\<rparr>\<rparr>
                        in save v (if \<not> clean_success rcpt \<and> t_capture t1 = Started
                                   then t1\<lparr>t_capture := Unknown\<rparr> else t1))))))"

definition valid_manifest :: "payload_manifest option \<Rightarrow> u32 \<Rightarrow> bool" where
  "valid_manifest manifest maximum_bytes =
     (case manifest of
        None \<Rightarrow> False
      | Some m \<Rightarrow> mf_bytes m > 0 \<and> mf_bytes m \<le> maximum_bytes \<and> length (mf_sha256 m) = 64
          \<and> list_all (\<lambda>c. is_ascii_digit c \<or> byte CHR ''a'' \<le> byte c \<and> byte c \<le> byte CHR ''f'')
              (mf_sha256 m))"

definition mark_unknown :: "vault \<Rightarrow> transfer \<Rightarrow> vault \<times> transfer vresult" where
  "mark_unknown v t =
     (case save v (t\<lparr>t_capture := Unknown\<rparr>) of
        Inl e \<Rightarrow> (v, Inl e)
      | Inr (v', _) \<Rightarrow> (v', Inl CaptureFailed))"

text \<open>The transaction of \<open>capture_staged\<close>: up to opening the blob, then the copy.\<close>

definition staged_admission ::
  "vault \<Rightarrow> grant \<Rightarrow> nat \<Rightarrow> transfer \<Rightarrow> u64 option \<Rightarrow> (transfer \<times> u8 list) vresult" where
  "staged_admission v g index t n =
     and_then (vault_row v (t_id t)) (\<lambda>r.
       (let current = metadata r
        in if row_id r \<noteq> index \<or> t_capture current \<noteq> Started
              \<or> operation_id (t_source current) \<noteq> operation_id (t_source t)
              \<or> receipt (t_source current) \<noteq> receipt (t_source t)
              \<or> t_source_manifest current \<noteq> t_source_manifest t
           then Inl Phase
           else and_then (admission v g current n) (\<lambda>_.
                and_then (blob_open v (index * 2)) (\<lambda>body. Inr (current, body)))))"

definition staged_copy ::
  "(u8 list \<Rightarrow> string) \<Rightarrow> vault \<Rightarrow> nat \<Rightarrow> transfer \<Rightarrow> u8 list \<Rightarrow> reader \<Rightarrow>
   (vault \<times> transfer) vresult" where
  "staged_copy sha v index t body rd =
     and_then (copy_bounded sha blob_write rd (body, 0) (t_maximum_bytes t))
       (\<lambda>(count, digest, body', _).
          if t_source_manifest t \<noteq> Some \<lparr>mf_bytes = count, mf_sha256 = digest\<rparr> then Inl Integrity
          else save (put_blob (index * 2) body' v)
                 (t\<lparr>t_bytes := Some count, t_sha256 := Some digest, t_capture := Ready\<rparr>))"

definition capture_staged ::
  "(u8 list \<Rightarrow> string) \<Rightarrow> vault \<Rightarrow> grant \<Rightarrow> nat \<Rightarrow> transfer \<Rightarrow> reader \<Rightarrow> u64 option \<Rightarrow>
   vault \<times> transfer vresult" where
  "capture_staged sha v g index t rd n =
     (case staged_admission v g index t n of
        Inl e \<Rightarrow> (v, Inl e)
      | Inr (current, body) \<Rightarrow>
          (case staged_copy sha v index current body rd of
             Inr (v', t') \<Rightarrow> (v', Inr t')
           | Inl _ \<Rightarrow>
               (case vault_row v (t_id t) of
                  Inl e \<Rightarrow> (v, Inl e)
                | Inr r \<Rightarrow>
                    (if t_capture (metadata r) = Started then mark_unknown v (metadata r)
                     else (v, Inl CaptureFailed)))))"

definition capture_payload ::
  "(u8 list \<Rightarrow> string) \<Rightarrow> vault \<Rightarrow> grant \<Rightarrow> string \<Rightarrow> string \<Rightarrow> reader \<Rightarrow> produced_payload \<Rightarrow>
   u64 option \<Rightarrow> u64 option \<Rightarrow> vault \<times> transfer vresult" where
  "capture_payload sha v g h operation rd produced n n' =
     (case and_then (authorized v g h (Some False)) (\<lambda>r.
           and_then (usable (metadata r) n) (\<lambda>_. Inr r)) of
        Inl e \<Rightarrow> (v, Inl e)
      | Inr r \<Rightarrow>
          (let t = metadata r; native = pp_native produced
           in if t_capture t \<noteq> Started \<or> operation_id (t_source t) \<noteq> Some operation
              then (v, Inl Phase)
              else if receipt (t_source t) \<noteq> None \<and> receipt (t_source t) \<noteq> Some native
              then (v, Inl Conflict)
              else (case save v (t\<lparr>t_source := (t_source t)\<lparr>receipt := Some native\<rparr>\<rparr>) of
                      Inl e \<Rightarrow> (v, Inl e)
                    | Inr (v1, t1) \<Rightarrow>
                        (if \<not> clean_success native then mark_unknown v1 t1
                         else if \<not> valid_manifest (pp_manifest produced) (t_maximum_bytes t1)
                         then mark_unknown v1 t1
                         else if t_source_manifest t1 \<noteq> None
                                 \<and> t_source_manifest t1 \<noteq> pp_manifest produced
                         then (v1, Inl Conflict)
                         else (case save v1 (t1\<lparr>t_source_manifest := pp_manifest produced\<rparr>) of
                                 Inl e \<Rightarrow> (v1, Inl e)
                               | Inr (v2, t2) \<Rightarrow>
                                   capture_staged sha v2 g (row_id r) t2 rd n')))))"

section \<open>Delivery and the consumer\<close>

definition deliver_commit ::
  "(u8 list \<Rightarrow> string) \<Rightarrow> vault \<Rightarrow> grant \<Rightarrow> nat \<Rightarrow> transfer \<Rightarrow> u64 option \<Rightarrow> (vault \<times> transfer) vresult" where
  "deliver_commit sha v g index t n =
     and_then (admission v g t n) (\<lambda>_.
       if t_delivered t
       then and_then (verify_blob sha v index ''inbox_body'' t) (\<lambda>_. Inr (v, t))
       else and_then (verify_blob sha v index ''source_body'' t) (\<lambda>_.
            and_then (blob_open v (index * 2)) (\<lambda>source.
            and_then (blob_open v (index * 2 + 1)) (\<lambda>inbox.
              (case t_bytes t of
                 None \<Rightarrow> Inl Integrity
               | Some expected \<Rightarrow>
                   and_then (copy_bounded sha blob_write (blob_reads (unat expected) source)
                               (inbox, 0) (t_maximum_bytes t))
                     (\<lambda>(_, digest, inbox', _).
                        if Some digest \<noteq> t_sha256 t then Inl Integrity
                        else save (put_blob (index * 2 + 1) inbox' v) (t\<lparr>t_delivered := True\<rparr>)))))))"

definition deliver ::
  "(u8 list \<Rightarrow> string) \<Rightarrow> vault \<Rightarrow> grant \<Rightarrow> string \<Rightarrow> u64 option \<Rightarrow> u64 option \<Rightarrow>
   vault \<times> transfer vresult" where
  "deliver sha v g h n n' =
     in_tx v
       (and_then (authorized v g h (Some True)) (\<lambda>r.
        and_then (usable (metadata r) n) (\<lambda>_.
          if t_capture (metadata r) \<noteq> Ready then Inl Phase
          else deliver_commit sha v g (row_id r) (metadata r) n')))"

definition begin_receive_commit ::
  "(u8 list \<Rightarrow> string) \<Rightarrow> vault \<Rightarrow> grant \<Rightarrow> string \<Rightarrow> string \<Rightarrow> nat \<Rightarrow> transfer \<Rightarrow> u64 option \<Rightarrow>
   (vault \<times> transfer) vresult" where
  "begin_receive_commit sha v g h operation index t n =
     and_then (admission v g t n) (\<lambda>_.
     and_then (verify_blob sha v index ''inbox_body'' t) (\<lambda>_.
     and_then (claim_operation v operation) (\<lambda>_.
     and_then (vault_row v h) (\<lambda>current.
       if operation_id (t_receiver (metadata current)) \<noteq> None then Inl Phase
       else save v (t\<lparr>t_receiver := (t_receiver t)\<lparr>operation_id := Some operation\<rparr>\<rparr>)))))"

definition begin_receive ::
  "(u8 list \<Rightarrow> string) \<Rightarrow> vault \<Rightarrow> grant \<Rightarrow> string \<Rightarrow> string \<Rightarrow> u64 option \<Rightarrow> u64 option \<Rightarrow>
   vault \<times> transfer vresult" where
  "begin_receive sha v g h operation n n' =
     in_tx v
       (and_then (authorized v g h (Some True)) (\<lambda>r.
        and_then (usable (metadata r) n) (\<lambda>_.
          if \<not> ident operation then Inl Invalid
          else if \<not> t_delivered (metadata r) \<or> operation_id (t_receiver (metadata r)) \<noteq> None
          then Inl Phase
          else begin_receive_commit sha v g h operation (row_id r) (metadata r) n')))"

definition interrupt :: "vault \<Rightarrow> string \<Rightarrow> vault \<times> transfer vresult" where
  "interrupt v h =
     in_tx v
       (and_then (vault_row v h) (\<lambda>r.
         (let t = metadata r;
              t1 = (if operation_id (t_source t) \<noteq> None \<and> receipt (t_source t) = None
                    then t\<lparr>t_source := (t_source t)\<lparr>interrupted := True\<rparr>\<rparr> else t);
              t2 = (if t_capture t1 = Started then t1\<lparr>t_capture := Unknown\<rparr> else t1);
              t3 = (if operation_id (t_receiver t2) \<noteq> None \<and> receipt (t_receiver t2) = None
                    then t2\<lparr>t_receiver := (t_receiver t2)\<lparr>interrupted := True\<rparr>\<rparr> else t2)
          in save v t3)))"

text \<open>
  The consumer's private input: how many bytes it takes before it fails, if it fails, and
  whether its flush succeeds. A streamed copy gives the bytes that reached it.
\<close>

record consumer =
  accepts :: "nat option"
  flushes :: bool

definition stream :: "vault \<Rightarrow> nat \<Rightarrow> transfer \<Rightarrow> consumer \<Rightarrow> u8 list \<times> unit vresult" where
  "stream v index t w =
     (case blob_open v (index * 2 + 1) of
        Inl e \<Rightarrow> ([], Inl e)
      | Inr body \<Rightarrow>
          (case t_bytes t of
             None \<Rightarrow> ([], Inl Integrity)
           | Some expected \<Rightarrow>
               (let sent = take (unat expected) body
                in if (case accepts w of None \<Rightarrow> False | Some k \<Rightarrow> k < length sent)
                   then (take (the (accepts w)) sent, Inl Delivery)
                   else if int (length sent) \<noteq> uint expected then (sent, Inl Integrity)
                   else if \<not> flushes w then (sent, Inl Delivery)
                   else (sent, Inr ()))))"

definition consume_commit ::
  "(u8 list \<Rightarrow> string) \<Rightarrow> vault \<Rightarrow> grant \<Rightarrow> nat \<Rightarrow> transfer \<Rightarrow> u64 option \<Rightarrow> (vault \<times> transfer) vresult" where
  "consume_commit sha v g index t n =
     and_then (admission v g t n) (\<lambda>_.
     and_then (verify_blob sha v index ''inbox_body'' t) (\<lambda>_.
       save v (t\<lparr>t_receiver := (t_receiver t)\<lparr>input_started := True\<rparr>\<rparr>)))"

definition consume ::
  "(u8 list \<Rightarrow> string) \<Rightarrow> vault \<Rightarrow> grant \<Rightarrow> string \<Rightarrow> string \<Rightarrow> consumer \<Rightarrow>
   u64 option \<Rightarrow> u64 option \<Rightarrow> vault \<times> u8 list \<times> unit vresult" where
  "consume sha v g h operation w n n' =
     (case and_then (authorized v g h (Some True)) (\<lambda>r.
           and_then (usable (metadata r) n) (\<lambda>_.
             if operation_id (t_receiver (metadata r)) \<noteq> Some operation
                \<or> receipt (t_receiver (metadata r)) \<noteq> None
                \<or> interrupted (t_receiver (metadata r))
                \<or> input_started (t_receiver (metadata r))
             then Inl Phase
             else and_then (consume_commit sha v g (row_id r) (metadata r) n')
                    (\<lambda>(v', t'). Inr (row_id r, v', t')))) of
        Inl e \<Rightarrow> (v, [], Inl e)
      | Inr (index, v', t') \<Rightarrow>
          (case stream v' index t' w of
             (sent, Inr _) \<Rightarrow> (v', sent, Inr ())
           | (sent, Inl _) \<Rightarrow>
               (case interrupt v' h of
                  (v'', Inl e) \<Rightarrow> (v'', sent, Inl e)
                | (v'', Inr _) \<Rightarrow> (v'', sent, Inl Delivery))))"

definition finish_receive ::
  "vault \<Rightarrow> string \<Rightarrow> string \<Rightarrow> native_receipt \<Rightarrow> vault \<times> transfer vresult" where
  "finish_receive v h operation rcpt =
     in_tx v
       (and_then (vault_row v h) (\<lambda>r.
         (let t = metadata r
          in if operation_id (t_receiver t) \<noteq> Some operation then Inl Conflict
             else (case receipt (t_receiver t) of
                     Some previous \<Rightarrow> (if previous = rcpt then Inr (v, t) else Inl Conflict)
                   | None \<Rightarrow> save v (t\<lparr>t_receiver := (t_receiver t)\<lparr>receipt := Some rcpt\<rparr>\<rparr>)))))"

definition observe_native :: "vault \<Rightarrow> grant \<Rightarrow> string \<Rightarrow> string \<Rightarrow> vault \<times> transfer vresult" where
  "observe_native v g h operation =
     in_tx v
       (and_then (authorized v g h None) (\<lambda>r.
         (let t = metadata r
          in if \<not> ident operation then Inl Invalid
             else if operation \<in> set (t_observations t) then Inr (v, t)
             else if length (t_observations t) \<ge> 32 then Inl Capacity
             else save v (t\<lparr>t_observations := t_observations t @ [operation]\<rparr>))))"

section \<open>Erasure\<close>

definition busy :: "transfer \<Rightarrow> bool" where
  "busy t \<longleftrightarrow> t_capture t = Started
     \<or> (operation_id (t_receiver t) \<noteq> None \<and> receipt (t_receiver t) = None
        \<and> \<not> interrupted (t_receiver t))"

definition erase :: "vault \<Rightarrow> string \<Rightarrow> capture_phase \<Rightarrow> grant option \<Rightarrow> vault \<times> transfer vresult" where
  "erase v h ph g =
     in_tx v
       (and_then (vault_row v h) (\<lambda>r.
        and_then (case g of
                    None \<Rightarrow> Inr ()
                  | Some gr \<Rightarrow>
                      (if grant_identity gr \<noteq> source_json r then Inl Access
                       else if busy (metadata r) then Inl Phase else Inr ())) (\<lambda>_.
        and_then (save v ((metadata r)\<lparr>t_capture := ph\<rparr>)) (\<lambda>(v', t').
          Inr (update_row h (\<lambda>r. r\<lparr>row_capacity := 0\<rparr>)
                 (v'\<lparr>vlt_payloads := bt_remove (row_id r * 2 + 1)
                                    (bt_remove (row_id r * 2) (vlt_payloads v'))\<rparr>), t')))))"

definition release :: "vault \<Rightarrow> grant \<Rightarrow> string \<Rightarrow> vault \<times> transfer vresult" where
  "release v g h =
     (case authorized v g h (Some False) of
        Inl e \<Rightarrow> (v, Inl e)
      | Inr r \<Rightarrow> (if busy (metadata r) then (v, Inl Phase) else erase v h Released (Some g)))"

text \<open>The retention loop: interrupt and erase each transfer that is due.\<close>

definition retire :: "vault \<Rightarrow> string \<Rightarrow> capture_phase \<Rightarrow> vault \<times> transfer vresult" where
  "retire v h ph =
     (case interrupt v h of
        (v', Inl e) \<Rightarrow> (v', Inl e)
      | (v', Inr _) \<Rightarrow> erase v' h ph None)"

fun expire_loop :: "u64 \<Rightarrow> vault \<Rightarrow> nat \<Rightarrow> transfer list \<Rightarrow> vault \<times> nat vresult" where
  "expire_loop timestamp v count [] = (v, Inr count)"
| "expire_loop timestamp v count (t # ts) =
     (if t_expires_at_unix t \<le> timestamp \<and> t_capture t \<notin> {Released, Expired}
      then (case retire v (t_id t) Expired of
              (v', Inl e) \<Rightarrow> (v', Inl e)
            | (v', Inr _) \<Rightarrow> expire_loop timestamp v' (Suc count) ts)
      else expire_loop timestamp v count ts)"

definition expire :: "vault \<Rightarrow> u64 option \<Rightarrow> vault \<times> nat vresult" where
  "expire v n =
     (case n of
        None \<Rightarrow> (v, Inl Storage)
      | Some timestamp \<Rightarrow> expire_loop timestamp v 0 (all_metadata v))"

fun close_loop :: "vault \<Rightarrow> transfer list \<Rightarrow> vault \<times> unit vresult" where
  "close_loop v [] = (v, Inr ())"
| "close_loop v (t # ts) =
     (case retire v (t_id t) Released of
        (v', Inl e) \<Rightarrow> (v', Inl e)
      | (v', Inr _) \<Rightarrow> close_loop v' ts)"

definition stages_without_receipt :: "transfer list \<Rightarrow> nat" where
  "stages_without_receipt ts =
     length (filter (\<lambda>st. operation_id st \<noteq> None \<and> receipt st = None)
               (concat (map (\<lambda>t. [t_source t, t_receiver t]) ts)))"

definition cleanup_report :: "vault \<Rightarrow> cleanup_receipt vresult" where
  "cleanup_report v =
     and_then (as_u32 (sum_list (map (\<lambda>p. int (length (snd p))) (vlt_payloads v)))) (\<lambda>remaining.
     and_then (as_u32 (sum_list (map row_capacity (vlt_rows v)))) (\<lambda>capacity.
       Inr \<lparr>admission_closed = True,
            retained_transfer_records = length (all_metadata v),
            remaining_payload_bytes = remaining,
            native_operations_without_receipts = stages_without_receipt (all_metadata v),
            storage_cleanup_verified = (remaining = 0 \<and> capacity = 0)\<rparr>))"

definition close :: "vault \<Rightarrow> vault \<times> cleanup_receipt vresult" where
  "close v =
     (let v0 = v\<lparr>vlt_closed := True\<rparr>
      in (case close_loop v0 (all_metadata v0) of
            (v', Inl e) \<Rightarrow> (v', Inl e)
          | (v', Inr _) \<Rightarrow> (v', cleanup_report v')))"

end
