(* ===== verification/Transfer_Steps.thy ===== *)
theory Transfer_Steps
  imports Transfer_Bytes Transfer_Operations "HOL-Library.Multiset"
begin

text \<open>
  The vault one write at a time. \<open>row_step\<close> lists every change a saved write makes to one
  transfer and its two blobs; \<open>vault_write\<close> places it in the vault, where the row's
  revision grows by one and nothing else moves. The invariant \<open>vault_inv\<close> is proved once per
  write; what an operation does is a sequence of writes (\<open>Transfer_Refinement\<close>).
\<close>

section \<open>The invariant\<close>

definition gone :: "transfer \<Rightarrow> bool" where
  "gone t \<longleftrightarrow> t_capture t = Released \<or> t_capture t = Expired"

definition ready_inv :: "(u8 list \<Rightarrow> string) \<Rightarrow> transfer \<Rightarrow> u8 list \<Rightarrow> u8 list \<Rightarrow> bool" where
  "ready_inv sha t source inbox \<longleftrightarrow>
     (case t_bytes t of
        None \<Rightarrow> False
      | Some n \<Rightarrow> 0 < n \<and> n \<le> t_maximum_bytes t
          \<and> t_sha256 t = Some (sha (take (unat n) source))
          \<and> t_source_manifest t = Some \<lparr>mf_bytes = n, mf_sha256 = sha (take (unat n) source)\<rparr>
          \<and> (t_delivered t \<longrightarrow> take (unat n) inbox = take (unat n) source))"

text \<open>The phases against the two native stages.\<close>

definition stage_inv :: "transfer \<Rightarrow> bool" where
  "stage_inv t \<longleftrightarrow>
     (t_capture t = Reserved \<longrightarrow> operation_id (t_source t) = None)
     \<and> (t_capture t \<in> {Started, Ready} \<longrightarrow> operation_id (t_source t) \<noteq> None)
     \<and> (t_capture t = Ready \<longrightarrow> (\<exists>rc. receipt (t_source t) = Some rc \<and> clean_success rc))
     \<and> (receipt (t_source t) \<noteq> None \<longrightarrow> operation_id (t_source t) \<noteq> None)
     \<and> (t_delivered t \<longrightarrow> t_capture t = Ready \<or> gone t)
     \<and> (t_recipient t \<noteq> None \<longrightarrow> t_capture t = Ready \<or> gone t)
     \<and> (operation_id (t_receiver t) \<noteq> None \<longrightarrow> t_delivered t)
     \<and> (receipt (t_receiver t) \<noteq> None \<longrightarrow> operation_id (t_receiver t) \<noteq> None)
     \<and> (input_started (t_receiver t) \<longrightarrow> operation_id (t_receiver t) \<noteq> None)
     \<and> (t_source_manifest t \<noteq> None \<longrightarrow>
          valid_manifest (t_source_manifest t) (t_maximum_bytes t))
     \<and> length (t_observations t) \<le> 32"

definition row_inv ::
  "(u8 list \<Rightarrow> string) \<Rightarrow> transfer_row \<Rightarrow> u8 list option \<Rightarrow> u8 list option \<Rightarrow> bool" where
  "row_inv sha r source inbox \<longleftrightarrow>
     (let t = metadata r in
        t_id t = handle r \<and> stage_inv t \<and> 0 < t_maximum_bytes t
        \<and> (if gone t then row_capacity r = 0 \<and> source = None \<and> inbox = None
           else row_capacity r = 2 * uint (t_maximum_bytes t)
             \<and> (case (source, inbox) of
                  (Some s, Some d) \<Rightarrow>
                    length s = unat (t_maximum_bytes t) \<and> length d = unat (t_maximum_bytes t)
                    \<and> (t_capture t = Ready \<longrightarrow> ready_inv sha t s d)
                | _ \<Rightarrow> False)))"

definition operations :: "transfer \<Rightarrow> string list" where
  "operations t =
     (case operation_id (t_source t) of None \<Rightarrow> [] | Some x \<Rightarrow> [x])
     @ (case operation_id (t_receiver t) of None \<Rightarrow> [] | Some x \<Rightarrow> [x])"

definition all_operations :: "transfer_row list \<Rightarrow> string list" where
  "all_operations rs = concat (map (\<lambda>r. operations (metadata r)) rs)"

definition active :: "transfer_row \<Rightarrow> bool" where
  "active r \<longleftrightarrow> row_capacity r > 0"

definition source_of :: "vault \<Rightarrow> transfer_row \<Rightarrow> u8 list option" where
  "source_of v r = bt_get (vlt_payloads v) (row_id r * 2)"

definition inbox_of :: "vault \<Rightarrow> transfer_row \<Rightarrow> u8 list option" where
  "inbox_of v r = bt_get (vlt_payloads v) (row_id r * 2 + 1)"

definition index_inv :: "transfer_row list \<Rightarrow> bool" where
  "index_inv rs \<longleftrightarrow> distinct (map handle rs) \<and> distinct (map row_id rs)
     \<and> distinct (map request_key rs) \<and> distinct (all_operations rs)"

definition budget_inv :: "limits \<Rightarrow> transfer_row list \<Rightarrow> bool" where
  "budget_inv l rs \<longleftrightarrow> length rs \<le> 4096
     \<and> int (length (filter active rs)) \<le> uint (active_transfers l)
     \<and> sum_list (map row_capacity rs) \<le> uint (cell_bytes l)
     \<and> (\<forall>r \<in> set rs. t_maximum_bytes (metadata r) \<le> payload_bytes l)"

definition payload_inv :: "vault \<Rightarrow> bool" where
  "payload_inv v \<longleftrightarrow> bt_wf (vlt_payloads v)
     \<and> (\<forall>i. bt_get (vlt_payloads v) i \<noteq> None \<longrightarrow> i div 2 \<in> row_id ` set (vlt_rows v))"

definition vault_inv :: "(u8 list \<Rightarrow> string) \<Rightarrow> vault \<Rightarrow> bool" where
  "vault_inv sha v \<longleftrightarrow> index_inv (vlt_rows v) \<and> budget_inv (vlt_limits v) (vlt_rows v)
     \<and> payload_inv v \<and> (\<forall>r \<in> set (vlt_rows v). row_inv sha r (source_of v r) (inbox_of v r))"

lemma vault_inv_closed [simp]: "vault_inv sha (v\<lparr>vlt_closed := c\<rparr>) = vault_inv sha v"
  by (simp add: vault_inv_def payload_inv_def source_of_def inbox_of_def)

section \<open>One write\<close>

text \<open>
  The changes one saved write can make to a transfer, before the revision is counted up:
  \<open>fresh\<close> says that no stage of the vault holds the operation. The blobs are the source capture
  and the inbox.
\<close>

type_synonym custody_row = "transfer \<times> u8 list option \<times> u8 list option"

inductive row_step ::
  "(u8 list \<Rightarrow> string) \<Rightarrow> (string \<Rightarrow> bool) \<Rightarrow> custody_row \<Rightarrow> custody_row \<Rightarrow> bool"
  for sha fresh where
  start: "t_capture t = Reserved \<Longrightarrow> fresh operation \<Longrightarrow>
    row_step sha fresh (t, s, d)
      (t\<lparr>t_capture := Started, t_source := (t_source t)\<lparr>operation_id := Some operation\<rparr>\<rparr>, s, d)"
| source_receipt: "operation_id (t_source t) \<noteq> None \<Longrightarrow>
    receipt (t_source t) = None \<or> receipt (t_source t) = Some rc \<Longrightarrow>
    row_step sha fresh (t, s, d) (t\<lparr>t_source := (t_source t)\<lparr>receipt := Some rc\<rparr>\<rparr>, s, d)"
| failed_receipt: "operation_id (t_source t) \<noteq> None \<Longrightarrow> receipt (t_source t) = None \<Longrightarrow>
    t_capture t = Started \<Longrightarrow> \<not> clean_success rc \<Longrightarrow>
    row_step sha fresh (t, s, d)
      (t\<lparr>t_source := (t_source t)\<lparr>receipt := Some rc\<rparr>, t_capture := Unknown\<rparr>, s, d)"
| lost: "t_capture t = Started \<Longrightarrow> row_step sha fresh (t, s, d) (t\<lparr>t_capture := Unknown\<rparr>, s, d)"
| manifest: "t_capture t = Started \<Longrightarrow> valid_manifest m (t_maximum_bytes t) \<Longrightarrow>
    t_source_manifest t = None \<or> t_source_manifest t = m \<Longrightarrow>
    row_step sha fresh (t, s, d) (t\<lparr>t_source_manifest := m\<rparr>, s, d)"
| captured: "t_capture t = Started \<Longrightarrow> receipt (t_source t) = Some rc \<Longrightarrow> clean_success rc \<Longrightarrow>
    n \<le> t_maximum_bytes t \<Longrightarrow> length s' = length s \<Longrightarrow>
    t_source_manifest t = Some \<lparr>mf_bytes = n, mf_sha256 = sha (take (unat n) s')\<rparr> \<Longrightarrow>
    row_step sha fresh (t, Some s, d)
      (t\<lparr>t_bytes := Some n, t_sha256 := Some (sha (take (unat n) s')), t_capture := Ready\<rparr>,
       Some s', d)"
| delivered: "t_capture t = Ready \<Longrightarrow> \<not> t_delivered t \<Longrightarrow> t_bytes t = Some n \<Longrightarrow>
    length d' = length d \<Longrightarrow> take (unat n) d' = take (unat n) s \<Longrightarrow>
    row_step sha fresh (t, Some s, Some d) (t\<lparr>t_delivered := True\<rparr>, Some s, Some d')"
| handed: "t_capture t = Ready \<Longrightarrow> \<not> t_delivered t \<Longrightarrow> t_recipient t = None \<Longrightarrow>
    operation_id (t_receiver t) = None \<Longrightarrow>
    row_step sha fresh (t, s, d) (t\<lparr>t_recipient := Some ra\<rparr>, s, d)"
| claimed: "t_capture t = Ready \<Longrightarrow> t_delivered t \<Longrightarrow> operation_id (t_receiver t) = None \<Longrightarrow>
    fresh operation \<Longrightarrow>
    row_step sha fresh (t, s, d)
      (t\<lparr>t_receiver := (t_receiver t)\<lparr>operation_id := Some operation\<rparr>\<rparr>, s, d)"
| streaming: "t_capture t = Ready \<Longrightarrow> operation_id (t_receiver t) \<noteq> None \<Longrightarrow>
    receipt (t_receiver t) = None \<Longrightarrow> \<not> interrupted (t_receiver t) \<Longrightarrow>
    \<not> input_started (t_receiver t) \<Longrightarrow>
    row_step sha fresh (t, s, d) (t\<lparr>t_receiver := (t_receiver t)\<lparr>input_started := True\<rparr>\<rparr>, s, d)"
| receiver_receipt: "operation_id (t_receiver t) \<noteq> None \<Longrightarrow> receipt (t_receiver t) = None \<Longrightarrow>
    row_step sha fresh (t, s, d) (t\<lparr>t_receiver := (t_receiver t)\<lparr>receipt := Some rc\<rparr>\<rparr>, s, d)"
| observed: "length (t_observations t) < 32 \<Longrightarrow>
    row_step sha fresh (t, s, d) (t\<lparr>t_observations := t_observations t @ [operation]\<rparr>, s, d)"
| stopped: "t' = t\<lparr>t_source := (t_source t)\<lparr>interrupted := a\<rparr>,
                  t_capture := (if t_capture t = Started then Unknown else t_capture t),
                  t_receiver := (t_receiver t)\<lparr>interrupted := b\<rparr>\<rparr> \<Longrightarrow>
    interrupted (t_source t) \<longrightarrow> a \<Longrightarrow> interrupted (t_receiver t) \<longrightarrow> b \<Longrightarrow>
    row_step sha fresh (t, s, d) (t', s, d)"
| erased: "ph = Released \<or> ph = Expired \<Longrightarrow>
    row_step sha fresh (t, s, d) (t\<lparr>t_capture := ph\<rparr>, None, None)"

inductive_cases row_stepE: "row_step sha fresh (t, s, d) (t', s', d')"

lemmas row_step_cases = row_stepE [consumes 1, case_names start source_receipt failed_receipt lost
  manifest captured delivered handed claimed streaming receiver_receipt observed stopped erased]

text \<open>A write of one row, an insertion, or the closing of admission.\<close>

definition fresh_in :: "vault \<Rightarrow> string \<Rightarrow> bool" where
  "fresh_in v operation \<longleftrightarrow> operation \<notin> set (all_operations (vlt_rows v))"

definition bump :: "transfer \<Rightarrow> transfer" where
  "bump t = t\<lparr>t_revision := t_revision t + 1\<rparr>"

definition same_owner :: "transfer_row \<Rightarrow> transfer_row \<Rightarrow> bool" where
  "same_owner r r' \<longleftrightarrow> row_id r' = row_id r \<and> handle r' = handle r
     \<and> request_key r' = request_key r \<and> request_json r' = request_json r
     \<and> source_json r' = source_json r"

inductive vault_write :: "(u8 list \<Rightarrow> string) \<Rightarrow> vault \<Rightarrow> vault \<Rightarrow> bool" for sha where
  write_row: "vlt_rows v = xs @ r # ys \<Longrightarrow>
    row_step sha (fresh_in v) (metadata r, source_of v r, inbox_of v r) (t', s', d') \<Longrightarrow>
    uint (t_revision (metadata r)) < 2 ^ 63 \<Longrightarrow>
    same_owner r r' \<Longrightarrow> metadata r' = bump t' \<Longrightarrow>
    destination_json r' = destination_json r \<or> t_recipient t' \<noteq> t_recipient (metadata r) \<Longrightarrow>
    row_capacity r' = (if gone t' then 0 else row_capacity r) \<Longrightarrow>
    bt_wf p' \<Longrightarrow> bt_get p' (row_id r * 2) = s' \<Longrightarrow> bt_get p' (row_id r * 2 + 1) = d' \<Longrightarrow>
    (\<And>i. i div 2 \<noteq> row_id r \<Longrightarrow> bt_get p' i = bt_get (vlt_payloads v) i) \<Longrightarrow>
    vault_write sha v (v\<lparr>vlt_rows := xs @ r' # ys, vlt_payloads := p'\<rparr>)"
| insert_row: "handle r \<notin> handle ` set (vlt_rows v) \<Longrightarrow>
    request_key r \<notin> request_key ` set (vlt_rows v) \<Longrightarrow>
    row_id r \<notin> row_id ` set (vlt_rows v) \<Longrightarrow>
    metadata r = reserved_transfer v source destination (handle r) m timestamp \<Longrightarrow>
    source_json r = grant_identity source \<Longrightarrow> destination_json r = grant_identity destination \<Longrightarrow>
    row_capacity r = 2 * uint m \<Longrightarrow> 0 < m \<Longrightarrow> m \<le> payload_bytes (vlt_limits v) \<Longrightarrow>
    budget_inv (vlt_limits v) (vlt_rows v @ [r]) \<Longrightarrow> \<not> vlt_closed v \<Longrightarrow>
    p' = bt_insert (row_id r * 2 + 1) (replicate (unat m) 0)
           (bt_insert (row_id r * 2) (replicate (unat m) 0) (vlt_payloads v)) \<Longrightarrow>
    vault_write sha v (v\<lparr>vlt_rows := vlt_rows v @ [r], vlt_payloads := p'\<rparr>)"
| shut: "vault_write sha v (v\<lparr>vlt_closed := True\<rparr>)"

section \<open>A write keeps the invariant\<close>

lemma bump_simps [simp]:
  "t_capture (bump t) = t_capture t" "t_id (bump t) = t_id t" "t_source (bump t) = t_source t"
  "t_receiver (bump t) = t_receiver t" "t_maximum_bytes (bump t) = t_maximum_bytes t"
  "t_bytes (bump t) = t_bytes t" "t_sha256 (bump t) = t_sha256 t"
  "t_source_manifest (bump t) = t_source_manifest t" "t_delivered (bump t) = t_delivered t"
  "t_recipient (bump t) = t_recipient t" "t_observations (bump t) = t_observations t"
  "t_expires_at_unix (bump t) = t_expires_at_unix t"
  "t_destination_wallet (bump t) = t_destination_wallet t"
  "operations (bump t) = operations t" "gone (bump t) = gone t" "stage_inv (bump t) = stage_inv t"
  "ready_inv sha (bump t) s d = ready_inv sha t s d"
  by (simp_all add: bump_def operations_def gone_def stage_inv_def ready_inv_def split: option.split)

lemma row_step_fixed:
  assumes "row_step sha fresh (t, s, d) (t', s', d')"
  shows "t_id t' = t_id t \<and> t_maximum_bytes t' = t_maximum_bytes t
    \<and> t_revision t' = t_revision t \<and> t_expires_at_unix t' = t_expires_at_unix t
    \<and> t_destination_wallet t' = t_destination_wallet t \<and> (gone t \<longrightarrow> gone t')"
  using assms by (cases rule: row_step_cases) (auto simp: gone_def)

lemma row_step_stage_inv:
  assumes "row_step sha fresh (t, s, d) (t', s', d')" "stage_inv t"
  shows "stage_inv t'"
  using assms
proof (cases rule: row_step_cases)
  case (stopped b a)
  then show ?thesis
    using assms(2) by (cases "t_capture t = Started") (simp_all add: stage_inv_def gone_def, auto)
next
  case (erased ph)
  then show ?thesis using assms(2) by (elim disjE) (simp_all add: stage_inv_def gone_def)
next
  case (captured rc n s1 s2)
  then show ?thesis using assms(2) by (simp add: stage_inv_def gone_def) auto
qed (use assms(2) in \<open>simp_all add: stage_inv_def gone_def, auto?\<close>)

lemma row_step_gone:
  assumes "row_step sha fresh (t, s, d) (t', s', d')"
  shows "gone t' \<longrightarrow> (gone t \<and> s' = s \<and> d' = d) \<or> (s' = None \<and> d' = None)"
  using assms by (cases rule: row_step_cases) (simp_all add: gone_def)

lemma row_step_row_inv:
  assumes step: "row_step sha fresh (metadata r, s, d) (t', s', d')" and inv: "row_inv sha r s d"
    and r': "same_owner r r'" "metadata r' = bump t'"
      "row_capacity r' = (if gone t' then 0 else row_capacity r)"
  shows "row_inv sha r' s' d'"
proof -
  let ?t = "metadata r"
  have st: "stage_inv t'" using step inv by (auto simp: row_inv_def Let_def intro: row_step_stage_inv)
  have fixed: "t_id t' = handle r" "t_maximum_bytes t' = t_maximum_bytes ?t" "0 < t_maximum_bytes ?t"
    using row_step_fixed [OF step] inv by (auto simp: row_inv_def Let_def)
  show ?thesis
  proof (cases "gone t'")
    case True
    then have "s' = None \<and> d' = None"
      using row_step_gone [OF step] inv by (auto simp: row_inv_def Let_def)
    then show ?thesis using True st fixed r' by (simp add: row_inv_def same_owner_def)
  next
    case False
    then have live: "\<not> gone ?t" using row_step_fixed [OF step] by blast
    with inv obtain sb db where sd: "s = Some sb" "d = Some db"
      and len: "length sb = unat (t_maximum_bytes ?t)" "length db = unat (t_maximum_bytes ?t)"
      and ready: "t_capture ?t = Ready \<longrightarrow> ready_inv sha ?t sb db"
      and cap: "row_capacity r = 2 * uint (t_maximum_bytes ?t)" and old: "stage_inv ?t"
      by (auto simp: row_inv_def Let_def split: option.splits)
    have "\<exists>sb' db'. s' = Some sb' \<and> d' = Some db' \<and> length sb' = length sb \<and> length db' = length db
        \<and> (t_capture t' = Ready \<longrightarrow> ready_inv sha t' sb' db')"
      using step
    proof (cases rule: row_step_cases)
      case (captured rc n s2 s1)
      have "0 < n" using captured old by (auto simp: stage_inv_def valid_manifest_def)
      moreover have "\<not> t_delivered ?t" using captured old live by (auto simp: stage_inv_def)
      ultimately show ?thesis using captured sd by (auto simp: ready_inv_def)
    next
      case (delivered n d2 d1 s1)
      then show ?thesis using sd ready by (auto simp: ready_inv_def)
    next
      case (erased ph)
      then show ?thesis using False by (auto simp: gone_def)
    qed (use sd ready in \<open>auto simp: ready_inv_def split: if_splits option.splits\<close>)
    then show ?thesis using False st fixed r' cap len by (auto simp: row_inv_def same_owner_def)
  qed
qed

lemma row_step_operations:
  assumes "row_step sha fresh (t, s, d) (t', s', d')" "stage_inv t"
  shows "mset (operations t') = mset (operations t)
    \<or> (\<exists>x. fresh x \<and> mset (operations t') = add_mset x (mset (operations t)))"
  using assms
proof (cases rule: row_step_cases)
  case (start operation)
  then have "operations t' = operation # operations t"
    using assms(2) by (simp add: operations_def stage_inv_def)
  then show ?thesis using start by auto
next
  case (claimed operation)
  then have "operations t' = operations t @ [operation]" by (simp add: operations_def)
  then show ?thesis using claimed by auto
qed (simp_all add: operations_def)

lemma all_operations_split:
  "all_operations (xs @ r # ys) = all_operations xs @ operations (metadata r) @ all_operations ys"
  by (simp add: all_operations_def)

lemma replaced_operations:
  assumes "distinct (all_operations (xs @ r # ys))"
    and "mset (operations t') = mset (operations (metadata r))
      \<or> (\<exists>x. x \<notin> set (all_operations (xs @ r # ys))
            \<and> mset (operations t') = add_mset x (mset (operations (metadata r))))"
    and "metadata r' = bump t'"
  shows "distinct (all_operations (xs @ r' # ys))"
  using assms(2)
proof
  assume "mset (operations t') = mset (operations (metadata r))"
  then have "mset (all_operations (xs @ r' # ys)) = mset (all_operations (xs @ r # ys))"
    by (simp add: all_operations_split assms(3))
  then show ?thesis using assms(1) mset_eq_imp_distinct_iff by blast
next
  assume "\<exists>x. x \<notin> set (all_operations (xs @ r # ys))
            \<and> mset (operations t') = add_mset x (mset (operations (metadata r)))"
  then obtain x where x: "x \<notin> set (all_operations (xs @ r # ys))"
    and "mset (operations t') = add_mset x (mset (operations (metadata r)))" by blast
  then have "mset (all_operations (xs @ r' # ys)) = mset (x # all_operations (xs @ r # ys))"
    by (simp add: all_operations_split assms(3))
  moreover have "distinct (x # all_operations (xs @ r # ys))" using x assms(1) by simp
  ultimately show ?thesis using mset_eq_imp_distinct_iff by blast
qed

lemma write_row_inv:
  assumes inv: "vault_inv sha v" and rows: "vlt_rows v = xs @ r # ys"
    and step: "row_step sha (fresh_in v) (metadata r, source_of v r, inbox_of v r) (t', s', d')"
    and own: "same_owner r r'" and meta: "metadata r' = bump t'"
    and cap: "row_capacity r' = (if gone t' then 0 else row_capacity r)"
    and p': "bt_wf p'" "bt_get p' (row_id r * 2) = s'" "bt_get p' (row_id r * 2 + 1) = d'"
      "\<And>i. i div 2 \<noteq> row_id r \<Longrightarrow> bt_get p' i = bt_get (vlt_payloads v) i"
  shows "vault_inv sha (v\<lparr>vlt_rows := xs @ r' # ys, vlt_payloads := p'\<rparr>)" (is "vault_inv sha ?v")
proof -
  have index: "index_inv (xs @ r # ys)" and budget: "budget_inv (vlt_limits v) (xs @ r # ys)"
    and pay: "payload_inv v"
    and rowi: "\<And>q. q \<in> set (xs @ r # ys) \<Longrightarrow> row_inv sha q (source_of v q) (inbox_of v q)"
    using inv by (auto simp: vault_inv_def rows)
  have ri: "row_inv sha r (source_of v r) (inbox_of v r)" by (rule rowi) simp
  have new: "row_inv sha r' s' d'" by (rule row_step_row_inv [OF step ri own meta cap])
  have ids: "handle r' = handle r" "row_id r' = row_id r" "request_key r' = request_key r"
    using own by (simp_all add: same_owner_def)
  have "stage_inv (metadata r)" using ri by (simp add: row_inv_def Let_def)
  then have "mset (operations t') = mset (operations (metadata r))
      \<or> (\<exists>x. x \<notin> set (all_operations (xs @ r # ys))
            \<and> mset (operations t') = add_mset x (mset (operations (metadata r))))"
    using row_step_operations [OF step] by (simp add: fresh_in_def rows)
  moreover have "distinct (all_operations (xs @ r # ys))" using index by (simp add: index_inv_def)
  ultimately have "distinct (all_operations (xs @ r' # ys))"
    by (intro replaced_operations [OF _ _ meta])
  then have "index_inv (xs @ r' # ys)" using index by (simp add: index_inv_def ids)
  moreover have "budget_inv (vlt_limits v) (xs @ r' # ys)"
  proof -
    have "t_maximum_bytes (metadata r') = t_maximum_bytes (metadata r)"
      using row_step_fixed [OF step] meta by simp
    moreover have "row_capacity r' \<le> row_capacity r" "active r' \<longrightarrow> active r" "0 \<le> row_capacity r"
      using cap ri by (auto simp: row_inv_def Let_def active_def split: if_splits)
    ultimately show ?thesis using budget
      by (cases "active r"; cases "active r'") (auto simp: budget_inv_def)
  qed
  moreover have "payload_inv ?v"
    using pay p' by (auto simp: payload_inv_def rows ids)
      (metis image_iff Un_iff insert_iff)
  moreover have "row_inv sha q (source_of ?v q) (inbox_of ?v q)" if "q \<in> set (xs @ r' # ys)" for q
  proof (cases "q = r'")
    case True
    then show ?thesis using new p' by (simp add: source_of_def inbox_of_def ids)
  next
    case False
    then have rest: "q \<in> set xs \<union> set ys" using that by auto
    then have "row_id q \<in> row_id ` (set xs \<union> set ys)" by (rule imageI)
    moreover have "row_id r \<notin> row_id ` (set xs \<union> set ys)" using index by (auto simp: index_inv_def)
    ultimately have ne: "row_id q \<noteq> row_id r" by metis
    have q: "q \<in> set (xs @ r # ys)" using rest by auto
    then have "bt_get p' (row_id q * 2) = bt_get (vlt_payloads v) (row_id q * 2)"
      "bt_get p' (row_id q * 2 + 1) = bt_get (vlt_payloads v) (row_id q * 2 + 1)"
      using ne by (auto intro!: p'(4))
    then show ?thesis using rowi [OF q] by (simp add: source_of_def inbox_of_def)
  qed
  ultimately show ?thesis by (simp add: vault_inv_def)
qed

lemma insert_row_inv:
  assumes inv: "vault_inv sha v"
    and new: "handle r \<notin> handle ` set (vlt_rows v)" "request_key r \<notin> request_key ` set (vlt_rows v)"
      "row_id r \<notin> row_id ` set (vlt_rows v)"
    and meta: "metadata r = reserved_transfer v source destination (handle r) m timestamp"
    and cap: "row_capacity r = 2 * uint m" "0 < m" "m \<le> payload_bytes (vlt_limits v)"
    and budget: "budget_inv (vlt_limits v) (vlt_rows v @ [r])"
    and p': "p' = bt_insert (row_id r * 2 + 1) (replicate (unat m) 0)
           (bt_insert (row_id r * 2) (replicate (unat m) 0) (vlt_payloads v))"
  shows "vault_inv sha (v\<lparr>vlt_rows := vlt_rows v @ [r], vlt_payloads := p'\<rparr>)" (is "vault_inv sha ?v")
proof -
  have nil: "operations (metadata r) = []"
    by (simp add: meta operations_def reserved_transfer_def default_stage_def)
  have index: "index_inv (vlt_rows v @ [r])"
    using inv new nil by (auto simp: vault_inv_def index_inv_def all_operations_def)
  have pay: "payload_inv v" using inv by (simp add: vault_inv_def)
  have "payload_inv ?v" using pay by (auto simp: payload_inv_def p' split: if_splits)
  moreover have "row_inv sha r (source_of ?v r) (inbox_of ?v r)"
    using cap(1,2)
    by (simp add: row_inv_def meta source_of_def inbox_of_def p' stage_inv_def gone_def
        reserved_transfer_def default_stage_def)
  moreover have "row_inv sha q (source_of ?v q) (inbox_of ?v q)" if "q \<in> set (vlt_rows v)" for q
  proof -
    have ne: "row_id q \<noteq> row_id r" using that new(3) by (metis imageI)
    then have "row_id q * 2 \<noteq> row_id r * 2 + 1" "row_id q * 2 + 1 \<noteq> row_id r * 2"
      by presburger+
    with ne have "source_of ?v q = source_of v q" "inbox_of ?v q = inbox_of v q"
      by (simp_all add: source_of_def inbox_of_def p')
    then show ?thesis using that inv by (simp add: vault_inv_def)
  qed
  ultimately show ?thesis using index budget by (auto simp: vault_inv_def)
qed

lemma vault_write_inv:
  assumes "vault_write sha v v'" "vault_inv sha v"
  shows "vault_inv sha v'"
  using assms
proof (cases rule: vault_write.cases)
  case (write_row xs r ys t' s' d' r' p')
  show ?thesis unfolding write_row(1)
    by (rule write_row_inv [OF assms(2) write_row(2,3,5,6,8-11)]) (rule write_row(12))
next
  case (insert_row r source destination m timestamp p')
  show ?thesis unfolding insert_row(1)
    by (rule insert_row_inv [OF assms(2) insert_row(2-5,8-11,13)])
qed (use assms(2) in simp)

lemma vault_writes_inv:
  "(vault_write sha)\<^sup>*\<^sup>* v v' \<Longrightarrow> vault_inv sha v \<Longrightarrow> vault_inv sha v'"
  by (induction rule: rtranclp_induct) (auto intro: vault_write_inv)

end
