(* ===== verification/Transfer_Refinement.thy ===== *)
theory Transfer_Refinement
  imports Transfer_Steps
begin

text \<open>
  Every operation of the vault is a sequence of the writes of \<open>Transfer_Steps\<close>. The proofs
  follow the code: a transaction that fails writes nothing, a successful one ends in one
  \<open>save\<close> of the row it read.
\<close>

section \<open>Rows and saves\<close>

lemma find_unique:
  "distinct (map f xs) \<Longrightarrow> r \<in> set xs \<Longrightarrow> List.find (\<lambda>q. f q = f r) xs = Some r"
  by (induction xs) (auto simp: image_iff)

lemma vault_rowD:
  assumes "vault_row v h = Inr r"
  obtains xs ys where "vlt_rows v = xs @ r # ys" "handle r = h" "r \<in> set (vlt_rows v)"
proof -
  from assms have "List.find (\<lambda>r. handle r = h) (vlt_rows v) = Some r"
    by (auto simp: vault_row_def find_row_def split: option.splits)
  then have r: "r \<in> set (vlt_rows v)" "handle r = h" using find_SomeD by fastforce+
  then show ?thesis using split_list [OF r(1)] that by metis
qed

lemma vault_row_iff:
  assumes "vault_inv sha v"
  shows "vault_row v h = Inr r \<longleftrightarrow> r \<in> set (vlt_rows v) \<and> handle r = h"
  using assms find_SomeD find_unique [of handle "vlt_rows v" r]
  by (fastforce simp: vault_row_def find_row_def vault_inv_def index_inv_def split: option.splits)

lemma authorizedD:
  assumes "authorized v g h dest = Inr r"
  shows "vault_row v h = Inr r \<and> check_grant v g = Inr ()
    \<and> (dest = Some True \<longrightarrow> destination_json r = grant_identity g)
    \<and> (dest = Some False \<longrightarrow> source_json r = grant_identity g)
    \<and> (source_json r = grant_identity g \<or> destination_json r = grant_identity g)"
  using assms by (auto simp: authorized_def and_then_Inr_iff split: option.splits bool.splits if_splits)

lemma row_facts:
  assumes "vault_inv sha v" "vlt_rows v = xs @ r # ys"
  shows "distinct (map handle (xs @ r # ys)) \<and> t_id (metadata r) = handle r
    \<and> stage_inv (metadata r) \<and> row_inv sha r (source_of v r) (inbox_of v r)"
  using assms by (auto simp: vault_inv_def index_inv_def row_inv_def Let_def)

lemma save_split:
  assumes save: "save w t = Inr (v', t')" and rows: "vlt_rows w = xs @ r # ys"
    and dist: "distinct (map handle (xs @ r # ys))" and h: "t_id t = handle r"
  shows "t' = bump t \<and> uint (t_revision t) < 2 ^ 63 \<and> t_revision t = t_revision (metadata r)
    \<and> v' = w\<lparr>vlt_rows := xs @ r\<lparr>metadata := bump t\<rparr> # ys\<rparr>"
proof -
  let ?hit = "\<lambda>q. handle q = t_id t \<and> t_revision (metadata q) = t_revision t"
  have out: "\<not> ?hit q" if "q \<in> set xs \<union> set ys" for q
  proof -
    have "handle q \<in> handle ` (set xs \<union> set ys)" using that by (rule imageI)
    then show ?thesis using dist h by auto
  qed
  then have others: "filter ?hit xs = []" "filter ?hit ys = []"
    "map (\<lambda>q. if ?hit q then q\<lparr>metadata := m\<rparr> else q) xs = xs"
    "map (\<lambda>q. if ?hit q then q\<lparr>metadata := m\<rparr> else q) ys = ys" for m
    by (auto simp: filter_empty_conv intro!: map_idI)
  from save obtain t2 where "t2 = bump t" "uint (t_revision t) < 2 ^ 63"
    and one: "length (filter ?hit (vlt_rows w)) = 1" and t': "t' = t2"
    and v': "v' = w\<lparr>vlt_rows := map (\<lambda>q. if ?hit q then q\<lparr>metadata := t2\<rparr> else q) (vlt_rows w)\<rparr>"
    by (auto simp: save_def bump_def checked_add_def Let_def split: option.splits if_splits)
  moreover have "?hit r"
    using one unfolding rows filter_append filter.simps(2) others(1,2) by (simp split: if_splits)
  then have "t_revision t = t_revision (metadata r)"
    "map (\<lambda>q. if ?hit q then q\<lparr>metadata := t2\<rparr> else q) (vlt_rows w) = xs @ r\<lparr>metadata := t2\<rparr> # ys"
    unfolding rows map_append list.map others(3,4) by simp_all
  ultimately show ?thesis by simp
qed

lemma save_ok:
  assumes rows: "vlt_rows w = xs @ r # ys" and dist: "distinct (map handle (xs @ r # ys))"
    and t: "t_id t = handle r" "t_revision t = t_revision (metadata r)" "uint (t_revision t) < 2 ^ 63"
  shows "save w t = Inr (w\<lparr>vlt_rows := xs @ r\<lparr>metadata := bump t\<rparr> # ys\<rparr>, bump t)"
proof -
  have "uint (t_revision t) + uint (1 :: u64) < 2 ^ 64" using t(3) by simp
  then have succ: "checked_add (t_revision t) 1 = Some (t_revision t + 1)"
    by (simp add: checked_add_def)
  let ?hit = "\<lambda>q. handle q = t_id t \<and> t_revision (metadata q) = t_revision t"
  have "\<not> ?hit q" if "q \<in> set xs \<union> set ys" for q
  proof -
    have "handle q \<in> handle ` (set xs \<union> set ys)" using that by (rule imageI)
    then show ?thesis using dist t(1) by auto
  qed
  then have "filter ?hit xs = []" "filter ?hit ys = []" by (auto simp: filter_empty_conv)
  then have "length (filter ?hit (vlt_rows w)) = 1" using t by (simp add: rows)
  then have "\<exists>x. save w t = Inr x" using succ t(3) by (simp add: save_def Let_def)
  then obtain w' t' where saved: "save w t = Inr (w', t')" by auto
  from save_split [OF saved rows dist t(1)] saved show ?thesis by auto
qed

text \<open>The end of a successful transaction: one row step, saved.\<close>

lemma saved_write:
  assumes inv: "vault_inv sha v" and rows: "vlt_rows v = xs @ r # ys"
    and step: "row_step sha (fresh_in v) (metadata r, source_of v r, inbox_of v r) (t1, s', d')"
    and save: "save (v\<lparr>vlt_rows := xs @ r1 # ys, vlt_payloads := p'\<rparr>) t1 = Inr (v', t')"
    and own: "same_owner r r1" "metadata r1 = metadata r"
    and cap: "row_capacity r1 = (if gone t1 then 0 else row_capacity r)"
    and dest: "destination_json r1 = destination_json r \<or> t_recipient t1 \<noteq> t_recipient (metadata r)"
    and p': "bt_wf p'" "bt_get p' (row_id r * 2) = s'" "bt_get p' (row_id r * 2 + 1) = d'"
      "\<And>i. i div 2 \<noteq> row_id r \<Longrightarrow> bt_get p' i = bt_get (vlt_payloads v) i"
  shows "vault_write sha v v' \<and> t' = bump t1"
proof -
  have dist: "distinct (map handle (xs @ r1 # ys))"
    using row_facts [OF inv rows] own(1) by (simp add: same_owner_def)
  have "t_id t1 = handle r1"
    using row_step_fixed [OF step] row_facts [OF inv rows] own(1) by (simp add: same_owner_def)
  from save_split [OF save _ dist this]
  have t': "t' = bump t1" and rev: "uint (t_revision t1) < 2 ^ 63"
    and v': "v' = v\<lparr>vlt_rows := xs @ r1\<lparr>metadata := bump t1\<rparr> # ys, vlt_payloads := p'\<rparr>"
    by auto
  have "vault_write sha v (v\<lparr>vlt_rows := xs @ r1\<lparr>metadata := bump t1\<rparr> # ys, vlt_payloads := p'\<rparr>)"
  proof (rule write_row [OF rows step _ _ _ _ _ p'])
    show "uint (t_revision (metadata r)) < 2 ^ 63" using rev row_step_fixed [OF step] by simp
    show "same_owner r (r1\<lparr>metadata := bump t1\<rparr>)" using own(1) by (simp add: same_owner_def)
  qed (use cap dest in simp_all)
  then show ?thesis using t' v' by simp
qed

text \<open>The common case: neither the blobs nor the other columns of the row change.\<close>

lemma saved_metadata:
  assumes inv: "vault_inv sha v" and rows: "vlt_rows v = xs @ r # ys"
    and step: "row_step sha (fresh_in v) (metadata r, source_of v r, inbox_of v r)
      (t1, source_of v r, inbox_of v r)"
    and save: "save v t1 = Inr (v', t')" and live: "gone t1 = gone (metadata r)"
  shows "vault_write sha v v' \<and> t' = bump t1"
proof (rule saved_write [OF inv rows step])
  show "save (v\<lparr>vlt_rows := xs @ r # ys, vlt_payloads := vlt_payloads v\<rparr>) t1 = Inr (v', t')"
    using save by (simp flip: rows)
  show "row_capacity r = (if gone t1 then 0 else row_capacity r)"
    using live row_facts [OF inv rows] by (simp add: row_inv_def Let_def split: if_splits)
  show "bt_wf (vlt_payloads v)" using inv by (simp add: vault_inv_def payload_inv_def)
qed (simp_all add: same_owner_def source_of_def inbox_of_def)

lemma in_tx_writes:
  assumes "in_tx v r = (v', res)" "\<And>v2 x. r = Inr (v2, x) \<Longrightarrow> (vault_write sha)\<^sup>*\<^sup>* v v2"
  shows "(vault_write sha)\<^sup>*\<^sup>* v v'"
  using assms by (auto simp: in_tx_def split: sum.splits)

lemma fresh_claim: "claim_operation v operation = Inr () \<Longrightarrow> fresh_in v operation"
  by (auto simp: claim_operation_def fresh_in_def all_operations_def operations_def claims_def
      filter_empty_conv split: if_splits option.splits)

section \<open>Operations that save one row\<close>

lemma begin_capture_writes:
  assumes inv: "vault_inv sha v" and run: "begin_capture v g h operation n n' = (v', res)"
  shows "(vault_write sha)\<^sup>*\<^sup>* v v'"
proof (rule in_tx_writes [OF run [unfolded begin_capture_def]])
  fix v2 t2
  assume "and_then (authorized v g h (Some False)) (\<lambda>r. and_then (usable (metadata r) n) (\<lambda>_.
      if \<not> ident operation then Inl Invalid
      else if t_capture (metadata r) \<noteq> Reserved then Inl Phase
      else begin_capture_commit v g operation (metadata r) n')) = Inr (v2, t2)"
  then obtain r where r: "vault_row v h = Inr r" and phase: "t_capture (metadata r) = Reserved"
    and commit: "begin_capture_commit v g operation (metadata r) n' = Inr (v2, t2)"
    by (auto simp: and_then_Inr_iff dest!: authorizedD split: if_splits)
  from commit have claim: "claim_operation v operation = Inr ()"
    and save: "save v ((metadata r)\<lparr>t_capture := Started,
      t_source := (t_source (metadata r))\<lparr>operation_id := Some operation\<rparr>\<rparr>) = Inr (v2, t2)"
    by (auto simp: begin_capture_commit_def Let_def and_then_Inr_iff)
  obtain xs ys where rows: "vlt_rows v = xs @ r # ys" using vault_rowD [OF r] by metis
  have "vault_write sha v v2 \<and> t2 = bump ((metadata r)\<lparr>t_capture := Started,
      t_source := (t_source (metadata r))\<lparr>operation_id := Some operation\<rparr>\<rparr>)"
    by (rule saved_metadata [OF inv rows _ save])
      (use phase fresh_claim [OF claim] in \<open>auto simp: gone_def intro: row_step.intros\<close>)
  then show "(vault_write sha)\<^sup>*\<^sup>* v v2" by blast
qed

lemma finish_source_writes:
  assumes inv: "vault_inv sha v" and run: "finish_source v h operation rc = (v', res)"
  shows "(vault_write sha)\<^sup>*\<^sup>* v v'"
proof (rule in_tx_writes [OF run [unfolded finish_source_def]])
  fix v2 t2
  assume run: "and_then (vault_row v h) (\<lambda>r. let t = metadata r
          in if operation_id (t_source t) \<noteq> Some operation then Inl Conflict
             else (case receipt (t_source t) of
                     Some previous \<Rightarrow> (if previous = rc then Inr (v, t) else Inl Conflict)
                   | None \<Rightarrow>
                       (let t1 = t\<lparr>t_source := (t_source t)\<lparr>receipt := Some rc\<rparr>\<rparr>
                        in save v (if \<not> clean_success rc \<and> t_capture t1 = Started
                                   then t1\<lparr>t_capture := Unknown\<rparr> else t1)))) = Inr (v2, t2)"
  then obtain r where r: "vault_row v h = Inr r"
    and op: "operation_id (t_source (metadata r)) = Some operation"
    by (auto simp: and_then_Inr_iff Let_def split: if_splits)
  obtain xs ys where rows: "vlt_rows v = xs @ r # ys" using vault_rowD [OF r] by metis
  show "(vault_write sha)\<^sup>*\<^sup>* v v2"
  proof (cases "receipt (t_source (metadata r))")
    case (Some previous)
    then have "v2 = v" using run r op by (auto simp: and_then_def Let_def split: if_splits)
    then show ?thesis by simp
  next
    case None
    let ?t = "metadata r"
    let ?t1 = "if \<not> clean_success rc \<and> t_capture ?t = Started
      then ?t\<lparr>t_source := (t_source ?t)\<lparr>receipt := Some rc\<rparr>, t_capture := Unknown\<rparr>
      else ?t\<lparr>t_source := (t_source ?t)\<lparr>receipt := Some rc\<rparr>\<rparr>"
    have save: "save v ?t1 = Inr (v2, t2)"
      using run r op None by (simp add: and_then_def Let_def)
    have "row_step sha (fresh_in v) (?t, source_of v r, inbox_of v r)
        (?t1, source_of v r, inbox_of v r)"
      using op None by (auto intro: row_step.intros)
    then have "vault_write sha v v2 \<and> t2 = bump ?t1"
      by (rule saved_metadata [OF inv rows _ save]) (simp add: gone_def)
    then show ?thesis by blast
  qed
qed

lemma finish_receive_writes:
  assumes inv: "vault_inv sha v" and run: "finish_receive v h operation rc = (v', res)"
  shows "(vault_write sha)\<^sup>*\<^sup>* v v'"
proof (rule in_tx_writes [OF run [unfolded finish_receive_def]])
  fix v2 t2
  assume run: "and_then (vault_row v h) (\<lambda>r. let t = metadata r
          in if operation_id (t_receiver t) \<noteq> Some operation then Inl Conflict
             else (case receipt (t_receiver t) of
                     Some previous \<Rightarrow> (if previous = rc then Inr (v, t) else Inl Conflict)
                   | None \<Rightarrow> save v (t\<lparr>t_receiver := (t_receiver t)\<lparr>receipt := Some rc\<rparr>\<rparr>)))
          = Inr (v2, t2)"
  then obtain r where r: "vault_row v h = Inr r"
    and op: "operation_id (t_receiver (metadata r)) = Some operation"
    by (auto simp: and_then_Inr_iff Let_def split: if_splits)
  obtain xs ys where rows: "vlt_rows v = xs @ r # ys" using vault_rowD [OF r] by metis
  show "(vault_write sha)\<^sup>*\<^sup>* v v2"
  proof (cases "receipt (t_receiver (metadata r))")
    case (Some previous)
    then have "v2 = v" using run r op by (auto simp: and_then_def Let_def split: if_splits)
    then show ?thesis by simp
  next
    case None
    let ?t1 = "(metadata r)\<lparr>t_receiver := (t_receiver (metadata r))\<lparr>receipt := Some rc\<rparr>\<rparr>"
    have save: "save v ?t1 = Inr (v2, t2)"
      using run r op None by (simp add: and_then_def Let_def)
    have "row_step sha (fresh_in v) (metadata r, source_of v r, inbox_of v r)
        (?t1, source_of v r, inbox_of v r)"
      using op None by (auto intro: row_step.intros)
    then have "vault_write sha v v2 \<and> t2 = bump ?t1"
      by (rule saved_metadata [OF inv rows _ save]) (simp add: gone_def)
    then show ?thesis by blast
  qed
qed

lemma observe_native_writes:
  assumes inv: "vault_inv sha v" and run: "observe_native v g h operation = (v', res)"
  shows "(vault_write sha)\<^sup>*\<^sup>* v v'"
proof (rule in_tx_writes [OF run [unfolded observe_native_def]])
  fix v2 t2
  assume run: "and_then (authorized v g h None) (\<lambda>r. let t = metadata r
          in if \<not> ident operation then Inl Invalid
             else if operation \<in> set (t_observations t) then Inr (v, t)
             else if length (t_observations t) \<ge> 32 then Inl Capacity
             else save v (t\<lparr>t_observations := t_observations t @ [operation]\<rparr>)) = Inr (v2, t2)"
  then obtain r where r: "vault_row v h = Inr r" and
    cases: "v2 = v \<or> (length (t_observations (metadata r)) < 32 \<and>
       save v ((metadata r)\<lparr>t_observations := t_observations (metadata r) @ [operation]\<rparr>) = Inr (v2, t2))"
    by (auto simp: and_then_Inr_iff Let_def dest!: authorizedD split: if_splits)
  obtain xs ys where rows: "vlt_rows v = xs @ r # ys" using vault_rowD [OF r] by metis
  from cases show "(vault_write sha)\<^sup>*\<^sup>* v v2"
  proof
    assume "length (t_observations (metadata r)) < 32 \<and>
       save v ((metadata r)\<lparr>t_observations := t_observations (metadata r) @ [operation]\<rparr>) = Inr (v2, t2)"
    then have "vault_write sha v v2
        \<and> t2 = bump ((metadata r)\<lparr>t_observations := t_observations (metadata r) @ [operation]\<rparr>)"
      by (intro saved_metadata [OF inv rows]) (auto simp: gone_def intro: row_step.intros)
    then show ?thesis by blast
  qed simp
qed

lemma interrupt_writes:
  assumes inv: "vault_inv sha v" and run: "interrupt v h = (v', res)"
  shows "(vault_write sha)\<^sup>*\<^sup>* v v'"
proof (cases res)
  case (Inl e)
  then show ?thesis using run by (auto simp: interrupt_def in_tx_Inl)
next
  case (Inr t2)
  then obtain r where r: "vault_row v h = Inr r"
    using run by (auto simp: interrupt_def in_tx_Inr and_then_Inr_iff)
  let ?t = "metadata r"
  let ?a = "operation_id (t_source ?t) \<noteq> None \<and> receipt (t_source ?t) = None \<or> interrupted (t_source ?t)"
  let ?b = "operation_id (t_receiver ?t) \<noteq> None \<and> receipt (t_receiver ?t) = None
    \<or> interrupted (t_receiver ?t)"
  let ?t3 = "?t\<lparr>t_source := (t_source ?t)\<lparr>interrupted := ?a\<rparr>,
      t_capture := (if t_capture ?t = Started then Unknown else t_capture ?t),
      t_receiver := (t_receiver ?t)\<lparr>interrupted := ?b\<rparr>\<rparr>"
  have save: "save v ?t3 = Inr (v', t2)"
    using run r Inr by (auto simp: interrupt_def in_tx_Inr and_then_def Let_def
        cong: if_cong split: if_splits)
  obtain xs ys where rows: "vlt_rows v = xs @ r # ys" using vault_rowD [OF r] by metis
  have "row_step sha (fresh_in v) (?t, source_of v r, inbox_of v r) (?t3, source_of v r, inbox_of v r)"
    by (rule stopped [OF refl]) auto
  then have "vault_write sha v v' \<and> t2 = bump ?t3"
    by (rule saved_metadata [OF inv rows _ save]) (simp add: gone_def)
  then show ?thesis by blast
qed

lemma mark_unknown_writes:
  assumes inv: "vault_inv sha v" and r: "vault_row v h = Inr r"
    and started: "t_capture (metadata r) = Started"
    and run: "mark_unknown v (metadata r) = (v', res)"
  shows "(vault_write sha)\<^sup>*\<^sup>* v v'"
proof (cases "save v ((metadata r)\<lparr>t_capture := Unknown\<rparr>)")
  case (Inl e)
  then show ?thesis using run by (simp add: mark_unknown_def)
next
  case (Inr x)
  then obtain t2 where save: "save v ((metadata r)\<lparr>t_capture := Unknown\<rparr>) = Inr (v', t2)"
    using run by (cases x) (auto simp: mark_unknown_def)
  obtain xs ys where rows: "vlt_rows v = xs @ r # ys" using vault_rowD [OF r] by metis
  have "vault_write sha v v' \<and> t2 = bump ((metadata r)\<lparr>t_capture := Unknown\<rparr>)"
    by (rule saved_metadata [OF inv rows _ save])
      (use started in \<open>auto simp: gone_def intro: row_step.intros\<close>)
  then show ?thesis by blast
qed

lemma begin_receive_writes:
  assumes inv: "vault_inv sha v" and run: "begin_receive sha v g h operation n n' = (v', res)"
  shows "(vault_write sha)\<^sup>*\<^sup>* v v'"
proof (rule in_tx_writes [OF run [unfolded begin_receive_def]])
  fix v2 t2
  assume "and_then (authorized v g h (Some True)) (\<lambda>r. and_then (usable (metadata r) n) (\<lambda>_.
      if \<not> ident operation then Inl Invalid
      else if \<not> t_delivered (metadata r) \<or> operation_id (t_receiver (metadata r)) \<noteq> None
      then Inl Phase
      else begin_receive_commit sha v g h operation (row_id r) (metadata r) n')) = Inr (v2, t2)"
  then obtain r where r: "vault_row v h = Inr r" and use: "usable (metadata r) n = Inr ()"
    and phase: "t_delivered (metadata r)" "operation_id (t_receiver (metadata r)) = None"
    and commit: "begin_receive_commit sha v g h operation (row_id r) (metadata r) n' = Inr (v2, t2)"
    by (auto simp: and_then_Inr_iff dest!: authorizedD split: if_splits)
  let ?t1 = "(metadata r)\<lparr>t_receiver := (t_receiver (metadata r))\<lparr>operation_id := Some operation\<rparr>\<rparr>"
  from commit have claim: "claim_operation v operation = Inr ()" and save: "save v ?t1 = Inr (v2, t2)"
    by (auto simp: begin_receive_commit_def and_then_Inr_iff split: if_splits)
  obtain xs ys where rows: "vlt_rows v = xs @ r # ys" using vault_rowD [OF r] by metis
  have "t_capture (metadata r) = Ready"
    using row_facts [OF inv rows] phase(1) use
    by (auto simp: stage_inv_def gone_def usable_def split: option.splits if_splits)
  then have "row_step sha (fresh_in v) (metadata r, source_of v r, inbox_of v r)
      (?t1, source_of v r, inbox_of v r)"
    using phase fresh_claim [OF claim] by (auto intro: row_step.intros)
  then have "vault_write sha v v2 \<and> t2 = bump ?t1"
    by (rule saved_metadata [OF inv rows _ save]) (simp add: gone_def)
  then show "(vault_write sha)\<^sup>*\<^sup>* v v2" by blast
qed

text \<open>\<open>consume\<close> writes its fence, and marks the stage interrupted when the stream fails.\<close>

lemma consume_cases:
  assumes run: "consume sha v g h operation w n n' = (v', sent, res)"
  obtains (refused) e where "v' = v" "sent = []" "res = Inl e"
  | (streamed) r v1 t1 where "vault_row v h = Inr r" "authorized v g h (Some True) = Inr r"
      "usable (metadata r) n = Inr ()" "operation_id (t_receiver (metadata r)) = Some operation"
      "receipt (t_receiver (metadata r)) = None" "\<not> interrupted (t_receiver (metadata r))"
      "\<not> input_started (t_receiver (metadata r))"
      "consume_commit sha v g (row_id r) (metadata r) n' = Inr (v1, t1)"
      "sent = fst (stream v1 (row_id r) t1 w)"
      "(snd (stream v1 (row_id r) t1 w) = Inr () \<and> v' = v1 \<and> res = Inr ())
       \<or> (\<exists>e. snd (stream v1 (row_id r) t1 w) \<noteq> Inr () \<and> v' = fst (interrupt v1 h) \<and> res = Inl e)"
proof (cases "authorized v g h (Some True)")
  case (Inl e)
  then show ?thesis using run refused by (auto simp: consume_def and_then_def)
next
  case (Inr r)
  note auth = Inr
  show ?thesis
  proof (cases "usable (metadata r) n = Inr () \<and> operation_id (t_receiver (metadata r)) = Some operation
      \<and> receipt (t_receiver (metadata r)) = None \<and> \<not> interrupted (t_receiver (metadata r))
      \<and> \<not> input_started (t_receiver (metadata r))
      \<and> (\<exists>x. consume_commit sha v g (row_id r) (metadata r) n' = Inr x)")
    case True
    then obtain v1 t1 where c: "consume_commit sha v g (row_id r) (metadata r) n' = Inr (v1, t1)"
      by auto
    have "(case stream v1 (row_id r) t1 w of
             (sent, Inr _) \<Rightarrow> (v1, sent, Inr ())
           | (sent, Inl _) \<Rightarrow>
               (case interrupt v1 h of
                  (v'', Inl e) \<Rightarrow> (v'', sent, Inl e)
                | (v'', Inr _) \<Rightarrow> (v'', sent, Inl Delivery))) = (v', sent, res)"
      using run True c auth by (simp add: consume_def and_then_def)
    then have out: "sent = fst (stream v1 (row_id r) t1 w)
      \<and> ((snd (stream v1 (row_id r) t1 w) = Inr () \<and> v' = v1 \<and> res = Inr ())
       \<or> (\<exists>e. snd (stream v1 (row_id r) t1 w) \<noteq> Inr () \<and> v' = fst (interrupt v1 h) \<and> res = Inl e))"
      by (cases "stream v1 (row_id r) t1 w"; cases "snd (stream v1 (row_id r) t1 w)";
          cases "interrupt v1 h"; cases "snd (interrupt v1 h)") auto
    have "vault_row v h = Inr r" using authorizedD [OF auth] by blast
    from streamed [OF this auth _ _ _ _ _ c] show ?thesis using True out by simp
  next
    case False
    then have "\<exists>e. and_then (usable (metadata r) n) (\<lambda>_.
             if operation_id (t_receiver (metadata r)) \<noteq> Some operation
                \<or> receipt (t_receiver (metadata r)) \<noteq> None
                \<or> interrupted (t_receiver (metadata r))
                \<or> input_started (t_receiver (metadata r))
             then Inl Phase
             else and_then (consume_commit sha v g (row_id r) (metadata r) n')
                    (\<lambda>(v', t'). Inr (row_id r, v', t'))) = Inl e"
      by (auto simp: and_then_def split: sum.splits)
    then show ?thesis using run auth refused by (auto simp: consume_def and_then_def [of "Inr r"])
  qed
qed

lemma consume_commit_writes:
  assumes inv: "vault_inv sha v" and r: "vault_row v h = Inr r" and "usable (metadata r) n = Inr ()"
    and "operation_id (t_receiver (metadata r)) = Some operation"
      "receipt (t_receiver (metadata r)) = None" "\<not> interrupted (t_receiver (metadata r))"
      "\<not> input_started (t_receiver (metadata r))"
    and commit: "consume_commit sha v g (row_id r) (metadata r) n' = Inr (v1, t1)"
  shows "vault_write sha v v1 \<and> t_capture (metadata r) = Ready
    \<and> t1 = bump ((metadata r)\<lparr>t_receiver := (t_receiver (metadata r))\<lparr>input_started := True\<rparr>\<rparr>)"
proof -
  let ?t1 = "(metadata r)\<lparr>t_receiver := (t_receiver (metadata r))\<lparr>input_started := True\<rparr>\<rparr>"
  obtain xs ys where rows: "vlt_rows v = xs @ r # ys" using vault_rowD [OF r] by metis
  have ready: "t_capture (metadata r) = Ready"
    using row_facts [OF inv rows] assms(3,4)
    by (auto simp: stage_inv_def gone_def usable_def split: option.splits if_splits)
  have save: "save v ?t1 = Inr (v1, t1)"
    using commit by (auto simp: consume_commit_def and_then_Inr_iff)
  have "row_step sha (fresh_in v) (metadata r, source_of v r, inbox_of v r)
      (?t1, source_of v r, inbox_of v r)"
    using assms(4-7) ready by (auto intro: row_step.intros)
  from saved_metadata [OF inv rows this save] ready show ?thesis by (simp add: gone_def)
qed

lemma consume_writes:
  assumes inv: "vault_inv sha v" and run: "consume sha v g h operation w n n' = (v', sent, res)"
  shows "(vault_write sha)\<^sup>*\<^sup>* v v'"
  using run
proof (cases rule: consume_cases)
  case (streamed r v1 t1)
  have w1: "vault_write sha v v1"
    using consume_commit_writes [OF inv streamed(1,3-8)] by blast
  have "(vault_write sha)\<^sup>*\<^sup>* v1 (fst (interrupt v1 h))"
    by (rule interrupt_writes [OF vault_write_inv [OF w1 inv]]) (rule prod.collapse [symmetric])
  then show ?thesis using w1 streamed(10) by (auto intro: converse_rtranclp_into_rtranclp)
qed simp

section \<open>Operations that move bytes\<close>

lemma div2_other: "i div 2 \<noteq> (k :: nat) \<Longrightarrow> i \<noteq> k * 2 \<and> i \<noteq> k * 2 + 1"
  by presburger

lemma even_odd [simp]: "k * 2 \<noteq> Suc (m * 2)" "Suc (m * 2) \<noteq> k * 2" for k m :: nat
  by presburger+

lemma payloads_wf: "vault_inv sha v \<Longrightarrow> bt_wf (vlt_payloads v)"
  by (simp add: vault_inv_def payload_inv_def)

lemma staged_copy_writes:
  assumes inv: "vault_inv sha v" and r: "vault_row v h = Inr r"
    and started: "t_capture (metadata r) = Started"
    and rc: "receipt (t_source (metadata r)) = Some rc" "clean_success rc"
    and body: "blob_open v (row_id r * 2) = Inr body"
    and copy: "staged_copy sha v (row_id r) (metadata r) body rd = Inr (v', t')"
  shows "vault_write sha v v'"
proof -
  let ?t = "metadata r"
  obtain xs ys where rows: "vlt_rows v = xs @ r # ys" using vault_rowD [OF r] by metis
  from copy obtain count digest body' pos where
    c: "copy_bounded sha blob_write rd (body, 0) (t_maximum_bytes ?t) = Inr (count, digest, body', pos)"
    and m: "t_source_manifest ?t = Some \<lparr>mf_bytes = count, mf_sha256 = digest\<rparr>"
    and save: "save (put_blob (row_id r * 2) body' v)
      (?t\<lparr>t_bytes := Some count, t_sha256 := Some digest, t_capture := Ready\<rparr>) = Inr (v', t')"
    by (auto simp: staged_copy_def and_then_Inr_iff split: if_splits)
  from blob_copy [OF c] have b: "length body' = length body" "count \<le> t_maximum_bytes ?t"
    "digest = sha (take (unat count) body')" by auto
  have s: "source_of v r = Some body" using body
    by (auto simp: blob_open_def source_of_def split: option.splits)
  let ?t1 = "?t\<lparr>t_bytes := Some count, t_sha256 := Some digest, t_capture := Ready\<rparr>"
  have step: "row_step sha (fresh_in v) (?t, source_of v r, inbox_of v r)
      (?t1, Some body', inbox_of v r)"
    unfolding s b(3) by (rule captured [OF started rc b(2,1)]) (use m b(3) in simp)
  have "vault_write sha v v' \<and> t' = bump ?t1"
  proof (rule saved_write [OF inv rows step])
    show "save (v\<lparr>vlt_rows := xs @ r # ys,
        vlt_payloads := bt_insert (row_id r * 2) body' (vlt_payloads v)\<rparr>) ?t1 = Inr (v', t')"
      using save by (simp add: put_blob_def flip: rows)
    show "row_capacity r = (if gone ?t1 then 0 else row_capacity r)" by (simp add: gone_def)
  qed (use payloads_wf [OF inv] in \<open>auto simp: same_owner_def inbox_of_def dest: div2_other\<close>)
  then show ?thesis by blast
qed

lemma capture_staged_writes:
  assumes inv: "vault_inv sha v" and rc: "receipt (t_source t) = Some rc" "clean_success rc"
    and run: "capture_staged sha v g index t rd n = (v', res)"
  shows "(vault_write sha)\<^sup>*\<^sup>* v v'"
proof (cases "staged_admission v g index t n")
  case (Inl e)
  then show ?thesis using run by (simp add: capture_staged_def)
next
  case (Inr x)
  obtain current body where x: "x = (current, body)" by (cases x)
  from Inr x obtain r where r: "vault_row v (t_id t) = Inr r" and cur: "current = metadata r"
    "row_id r = index" "t_capture current = Started" "receipt (t_source current) = Some rc"
    and body: "blob_open v (index * 2) = Inr body"
    using rc by (auto simp: staged_admission_def Let_def and_then_Inr_iff split: if_splits)
  show ?thesis
  proof (cases "staged_copy sha v index current body rd")
    case (Inl e)
    then show ?thesis
      using mark_unknown_writes [OF inv r] run Inr x r cur
      by (auto simp: capture_staged_def split: prod.splits)
  next
    case ok: (Inr y)
    obtain v2 t2 where y: "y = (v2, t2)" by (cases y)
    then have "vault_write sha v v2"
      using staged_copy_writes [OF inv r _ _ rc(2)] ok cur body by simp
    then show ?thesis using run Inr x ok y by (simp add: capture_staged_def)
  qed
qed

lemma save_payloads: "save v t = Inr (v', t') \<Longrightarrow> vlt_payloads v' = vlt_payloads v"
  by (auto simp: save_def Let_def split: option.splits if_splits)

lemma save_error: "save v t = Inl e \<Longrightarrow> e = Storage \<or> e = Conflict"
  by (auto simp: save_def Let_def split: option.splits if_splits)

text \<open>
  The four ways through \<open>capture\<close>: refused before it wrote, refused for another manifest, given
  up as uncertain, or staged with the receipt and the manifest recorded.
\<close>

lemma capture_payload_cases:
  assumes inv: "vault_inv sha v"
    and run: "capture_payload sha v g h operation rd produced n n' = (v', res)"
  obtains (early) e where "v' = v" "res = Inl e" "e \<noteq> CaptureFailed"
  | (conflict) e where "(vault_write sha)\<^sup>*\<^sup>* v v'" "vlt_payloads v' = vlt_payloads v" "res = Inl e"
      "e \<noteq> CaptureFailed"
  | (lost) v1 r1 where "(vault_write sha)\<^sup>*\<^sup>* v v1" "vlt_payloads v1 = vlt_payloads v"
      "vault_row v1 h = Inr r1" "t_capture (metadata r1) = Started" "mark_unknown v1 (metadata r1) = (v', res)"
  | (staged) v2 r2 where "(vault_write sha)\<^sup>*\<^sup>* v v2" "vlt_payloads v2 = vlt_payloads v"
      "vault_row v2 h = Inr r2" "t_capture (metadata r2) = Started"
      "receipt (t_source (metadata r2)) = Some (pp_native produced)" "clean_success (pp_native produced)"
      "t_source_manifest (metadata r2) = pp_manifest produced"
      "capture_staged sha v2 g (row_id r2) (metadata r2) rd n' = (v', res)"
proof (cases "and_then (authorized v g h (Some False)) (\<lambda>r. and_then (usable (metadata r) n) (\<lambda>_. Inr r))")
  case (Inl e)
  then have "e \<noteq> CaptureFailed"
    by (auto simp: and_then_Inl_iff authorized_def check_grant_def vault_row_def usable_def Let_def
        split: if_splits option.splits)
  moreover have "v' = v" "res = Inl e" using run Inl by (simp_all add: capture_payload_def)
  ultimately show ?thesis by (intro early)
next
  case auth: (Inr r)
  then have r: "vault_row v h = Inr r" by (auto simp: and_then_Inr_iff dest!: authorizedD)
  obtain xs ys where rows: "vlt_rows v = xs @ r # ys" and h: "handle r = h"
    using vault_rowD [OF r] by metis
  let ?t = "metadata r" and ?native = "pp_native produced"
  let ?t1 = "?t\<lparr>t_source := (t_source ?t)\<lparr>receipt := Some ?native\<rparr>\<rparr>"
  show ?thesis
  proof (cases "t_capture ?t = Started \<and> operation_id (t_source ?t) = Some operation
      \<and> (receipt (t_source ?t) = None \<or> receipt (t_source ?t) = Some ?native)
      \<and> (\<exists>x. save v ?t1 = Inr x)")
    case False
    then have "v' = v \<and> (\<exists>e. res = Inl e \<and> e \<noteq> CaptureFailed)"
      using run auth by (auto simp: capture_payload_def Let_def split: if_splits sum.splits dest: save_error)
    then show ?thesis using early by blast
  next
    case True
    then obtain v1 t1 where save1: "save v ?t1 = Inr (v1, t1)" by auto
    have "row_step sha (fresh_in v) (?t, source_of v r, inbox_of v r)
        (?t1, source_of v r, inbox_of v r)"
      using True by (intro row_step.intros) auto
    from saved_metadata [OF inv rows this save1] have w1: "vault_write sha v v1" and t1: "t1 = bump ?t1"
      by (auto simp: gone_def)
    have inv1: "vault_inv sha v1" by (rule vault_write_inv [OF w1 inv])
    have v1: "v1 = v\<lparr>vlt_rows := xs @ r\<lparr>metadata := t1\<rparr> # ys\<rparr>"
      using save_split [OF save1 rows] row_facts [OF inv rows] t1 by simp
    then have r1: "vault_row v1 h = Inr (r\<lparr>metadata := t1\<rparr>)"
      unfolding vault_row_iff [OF inv1] by (simp add: h)
    have started1: "t_capture t1 = Started" using True t1 by simp
    have p1: "vlt_payloads v1 = vlt_payloads v" by (rule save_payloads [OF save1])
    show ?thesis
    proof (cases "clean_success ?native \<and> valid_manifest (pp_manifest produced) (t_maximum_bytes t1)")
      case False
      then have "mark_unknown v1 t1 = (v', res)"
        using run auth True save1 by (auto simp: capture_payload_def Let_def split: if_splits)
      moreover have "(vault_write sha)\<^sup>*\<^sup>* v v1" using w1 by blast
      ultimately show ?thesis using lost [OF _ p1 r1] started1 by simp
    next
      case good: True
      show ?thesis
      proof (cases "(t_source_manifest t1 = None \<or> t_source_manifest t1 = pp_manifest produced)
          \<and> (\<exists>x. save v1 (t1\<lparr>t_source_manifest := pp_manifest produced\<rparr>) = Inr x)")
        case False
        then have "v' = v1 \<and> (\<exists>e. res = Inl e \<and> e \<noteq> CaptureFailed)"
          using run auth True save1 good
          by (auto simp: capture_payload_def Let_def split: if_splits sum.splits dest: save_error)
        then show ?thesis using conflict [OF _ _ _] w1 p1 by blast
      next
        case True2: True
        then obtain v2 t2 where save2: "save v1 (t1\<lparr>t_source_manifest := pp_manifest produced\<rparr>) = Inr (v2, t2)"
          by auto
        have run2: "capture_staged sha v2 g (row_id r) t2 rd n' = (v', res)"
          using run auth True save1 good True2 save2
          by (auto simp: capture_payload_def Let_def)
        have rows1: "vlt_rows v1 = xs @ r\<lparr>metadata := t1\<rparr> # ys" by (simp add: v1)
        have "row_step sha (fresh_in v1) (t1, source_of v1 (r\<lparr>metadata := t1\<rparr>), inbox_of v1 (r\<lparr>metadata := t1\<rparr>))
            (t1\<lparr>t_source_manifest := pp_manifest produced\<rparr>,
             source_of v1 (r\<lparr>metadata := t1\<rparr>), inbox_of v1 (r\<lparr>metadata := t1\<rparr>))"
          using started1 good True2 by (intro row_step.intros) auto
        then have w2: "vault_write sha v1 v2" and t2: "t2 = bump (t1\<lparr>t_source_manifest := pp_manifest produced\<rparr>)"
          using saved_metadata [OF inv1 rows1 _ save2] by (auto simp: gone_def)
        have inv2: "vault_inv sha v2" by (rule vault_write_inv [OF w2 inv1])
        have "v2 = v1\<lparr>vlt_rows := xs @ r\<lparr>metadata := t2\<rparr> # ys\<rparr>"
          using save_split [OF save2 rows1] row_facts [OF inv1 rows1] t2 by simp
        then have r2: "vault_row v2 h = Inr (r\<lparr>metadata := t2\<rparr>)"
          unfolding vault_row_iff [OF inv2] by (simp add: h)
        have w: "(vault_write sha)\<^sup>*\<^sup>* v v2" using w1 w2 by (meson r_into_rtranclp rtranclp.rtrancl_into_rtrancl)
        have p2: "vlt_payloads v2 = vlt_payloads v" using save_payloads [OF save2] p1 by simp
        show ?thesis
          by (rule staged [OF w p2 r2]) (use t2 t1 good started1 run2 in simp_all)
      qed
    qed
  qed
qed

lemma capture_payload_writes:
  assumes inv: "vault_inv sha v"
    and run: "capture_payload sha v g h operation rd produced n n' = (v', res)"
  shows "(vault_write sha)\<^sup>*\<^sup>* v v'"
  using inv run
proof (cases rule: capture_payload_cases)
  case (lost v1 r1)
  have "vault_inv sha v1" by (rule vault_writes_inv [OF lost(1) inv])
  from mark_unknown_writes [OF this lost(3-5)] lost(1) show ?thesis by (simp add: rtranclp_trans)
next
  case (staged v2 r2)
  have "vault_inv sha v2" by (rule vault_writes_inv [OF staged(1) inv])
  from capture_staged_writes [OF this staged(5,6,8)] staged(1) show ?thesis by (simp add: rtranclp_trans)
qed simp_all

lemma mark_unknown_row:
  assumes inv: "vault_inv sha v" and r: "vault_row v h = Inr r"
    and started: "t_capture (metadata r) = Started"
    and run: "mark_unknown v (metadata r) = (v', Inl CaptureFailed)"
  shows "\<exists>r'. vault_row v' h = Inr r' \<and> t_capture (metadata r') = Unknown"
proof -
  let ?t1 = "(metadata r)\<lparr>t_capture := Unknown\<rparr>"
  obtain t2 where save: "save v ?t1 = Inr (v', t2)"
    using run by (auto simp: mark_unknown_def split: sum.splits prod.splits dest: save_error)
  obtain xs ys where rows: "vlt_rows v = xs @ r # ys" and h: "handle r = h"
    using vault_rowD [OF r] by metis
  have v': "v' = v\<lparr>vlt_rows := xs @ r\<lparr>metadata := bump ?t1\<rparr> # ys\<rparr>"
    using save_split [OF save rows] row_facts [OF inv rows] by simp
  have "vault_inv sha v'" by (rule vault_writes_inv [OF mark_unknown_writes [OF inv r started run] inv])
  then have "vault_row v' h = Inr (r\<lparr>metadata := bump ?t1\<rparr>)"
    by (simp add: vault_row_iff) (simp add: v' h)
  then show ?thesis by simp
qed

lemma mark_unknown_payloads:
  "mark_unknown v t = (v', res) \<Longrightarrow> vlt_payloads v' = vlt_payloads v \<and> (\<exists>e. res = Inl e)"
  by (auto simp: mark_unknown_def split: sum.splits prod.splits dest: save_payloads)

text \<open>What \<open>capture_staged\<close> leaves behind: the new payload, or the old blobs and no custody.\<close>

lemma capture_staged_error:
  assumes inv: "vault_inv sha v" and r: "vault_row v h = Inr r"
    and run: "capture_staged sha v g (row_id r) (metadata r) rd n = (v', Inl e)"
  shows "vlt_payloads v' = vlt_payloads v
    \<and> (e = CaptureFailed \<longrightarrow> (\<exists>r'. vault_row v' h = Inr r' \<and> t_capture (metadata r') = Unknown))"
proof -
  have "t_id (metadata r) = h"
    using inv r by (auto simp: vault_row_iff [OF inv] vault_inv_def row_inv_def Let_def)
  then have same: "vault_row v (t_id (metadata r)) = Inr r" using r by simp
  show ?thesis
  proof (cases "staged_admission v g (row_id r) (metadata r) n")
    case (Inl e')
    then have "e' \<noteq> CaptureFailed"
      by (auto simp: staged_admission_def and_then_Inl_iff admission_def usable_def blob_open_def
          vault_row_def Let_def split: if_splits option.splits)
    then show ?thesis using run Inl by (simp add: capture_staged_def)
  next
    case (Inr x)
    then have started: "t_capture (metadata r) = Started"
      using same by (auto simp: staged_admission_def and_then_Inr_iff Let_def split: if_splits)
    have "mark_unknown v (metadata r) = (v', Inl e)"
      using run Inr same started by (auto simp: capture_staged_def split: prod.splits sum.splits)
    then show ?thesis using mark_unknown_payloads mark_unknown_row [OF inv r started] by blast
  qed
qed

lemma deliver_writes:
  assumes inv: "vault_inv sha v" and run: "deliver sha v g h n n' = (v', res)"
  shows "(vault_write sha)\<^sup>*\<^sup>* v v'"
proof (rule in_tx_writes [OF run [unfolded deliver_def]])
  fix v2 t2
  assume "and_then (authorized v g h (Some True)) (\<lambda>r. and_then (usable (metadata r) n) (\<lambda>_.
      if t_capture (metadata r) \<noteq> Ready then Inl Phase
      else deliver_commit sha v g (row_id r) (metadata r) n')) = Inr (v2, t2)"
  then obtain r where r: "vault_row v h = Inr r" and ready: "t_capture (metadata r) = Ready"
    and commit: "deliver_commit sha v g (row_id r) (metadata r) n' = Inr (v2, t2)"
    by (auto simp: and_then_Inr_iff dest!: authorizedD split: if_splits)
  let ?t = "metadata r"
  obtain xs ys where rows: "vlt_rows v = xs @ r # ys" using vault_rowD [OF r] by metis
  show "(vault_write sha)\<^sup>*\<^sup>* v v2"
  proof (cases "t_delivered ?t")
    case True
    then have "v2 = v" using commit by (auto simp: deliver_commit_def and_then_Inr_iff)
    then show ?thesis by simp
  next
    case False
    with commit obtain source inbox expected count digest inbox' pos where
      ver: "verify_blob sha v (row_id r) ''source_body'' ?t = Inr ()"
      and s: "blob_open v (row_id r * 2) = Inr source" and d: "blob_open v (row_id r * 2 + 1) = Inr inbox"
      and n: "t_bytes ?t = Some expected"
      and copy: "copy_bounded sha blob_write (blob_reads (unat expected) source) (inbox, 0)
        (t_maximum_bytes ?t) = Inr (count, digest, inbox', pos)"
      and save: "save (put_blob (row_id r * 2 + 1) inbox' v) (?t\<lparr>t_delivered := True\<rparr>) = Inr (v2, t2)"
      by (auto simp: deliver_commit_def and_then_Inr_iff split: option.splits if_splits)
    have len: "unat expected \<le> length source"
      using verify_blobD [OF ver] n s by auto
    from blob_copied_between [OF copy] have c: "length inbox' = length inbox"
      "take (unat expected) inbox' = take (unat expected) source"
      using len by (auto simp: min_def split: if_splits)
    have sd: "source_of v r = Some source" "inbox_of v r = Some inbox"
      using s d by (auto simp: blob_open_def source_of_def inbox_of_def split: option.splits)
    have step: "row_step sha (fresh_in v) (?t, source_of v r, inbox_of v r)
        (?t\<lparr>t_delivered := True\<rparr>, Some source, Some inbox')"
      unfolding sd by (rule delivered [OF ready False n c])
    have "vault_write sha v v2 \<and> t2 = bump (?t\<lparr>t_delivered := True\<rparr>)"
    proof (rule saved_write [OF inv rows step])
      show "save (v\<lparr>vlt_rows := xs @ r # ys,
          vlt_payloads := bt_insert (row_id r * 2 + 1) inbox' (vlt_payloads v)\<rparr>)
          (?t\<lparr>t_delivered := True\<rparr>) = Inr (v2, t2)"
        using save by (simp add: put_blob_def flip: rows)
      show "row_capacity r = (if gone (?t\<lparr>t_delivered := True\<rparr>) then 0 else row_capacity r)"
        using ready by (simp add: gone_def)
    qed (use payloads_wf [OF inv] sd in \<open>auto simp: same_owner_def source_of_def dest: div2_other\<close>)
    then show ?thesis by blast
  qed
qed

section \<open>Operations on the row itself\<close>

lemma update_row_split:
  assumes "vlt_rows v = xs @ r # ys" "handle r = h" "distinct (map handle (xs @ r # ys))"
  shows "update_row h f v = v\<lparr>vlt_rows := xs @ f r # ys\<rparr>"
proof -
  have "map (\<lambda>q. if handle q = h then f q else q) zs = zs" if "h \<notin> handle ` set zs" for zs
    using that by (auto intro!: map_idI)
  moreover have "h \<notin> handle ` set xs" "h \<notin> handle ` set ys" using assms(2,3) by auto
  ultimately show ?thesis using assms(1,2) by (simp add: update_row_def)
qed

lemma handoff_writes:
  assumes inv: "vault_inv sha v" and run: "handoff v source destination h n = (v', res)"
  shows "(vault_write sha)\<^sup>*\<^sup>* v v'"
proof (cases res)
  case (Inl e)
  then show ?thesis using run by (auto simp: handoff_def in_tx_Inl)
next
  case (Inr t2)
  let ?dest = "grant_identity destination"
  let ?ra = "\<lparr>ra_principal = gr_principal destination, ra_authority = gr_authority destination\<rparr>"
  from run Inr obtain r where r: "vault_row v h = Inr r" and cases: "v' = v \<or>
      (t_recipient (metadata r) = None \<and> t_capture (metadata r) = Ready \<and> \<not> t_delivered (metadata r)
       \<and> operation_id (t_receiver (metadata r)) = None
       \<and> save (update_row h (\<lambda>r. r\<lparr>destination_json := ?dest\<rparr>) v)
           ((metadata r)\<lparr>t_recipient := Some ?ra\<rparr>) = Inr (v', t2))"
    by (auto simp: handoff_def in_tx_Inr and_then_Inr_iff Let_def split: if_splits)
  obtain xs ys where rows: "vlt_rows v = xs @ r # ys" and h: "handle r = h"
    using vault_rowD [OF r] by metis
  note facts = row_facts [OF inv rows]
  from cases show ?thesis
  proof
    assume ok: "t_recipient (metadata r) = None \<and> t_capture (metadata r) = Ready
       \<and> \<not> t_delivered (metadata r) \<and> operation_id (t_receiver (metadata r)) = None
       \<and> save (update_row h (\<lambda>r. r\<lparr>destination_json := ?dest\<rparr>) v)
           ((metadata r)\<lparr>t_recipient := Some ?ra\<rparr>) = Inr (v', t2)"
    let ?t1 = "(metadata r)\<lparr>t_recipient := Some ?ra\<rparr>"
    have step: "row_step sha (fresh_in v) (metadata r, source_of v r, inbox_of v r)
        (?t1, source_of v r, inbox_of v r)"
      using ok by (intro handed) auto
    have "vault_write sha v v' \<and> t2 = bump ?t1"
    proof (rule saved_write [OF inv rows step])
      show "save (v\<lparr>vlt_rows := xs @ r\<lparr>destination_json := ?dest\<rparr> # ys,
          vlt_payloads := vlt_payloads v\<rparr>) ?t1 = Inr (v', t2)"
        using ok facts by (simp add: update_row_split [OF rows h])
      show "row_capacity (r\<lparr>destination_json := ?dest\<rparr>)
          = (if gone ?t1 then 0 else row_capacity r)"
        using ok by (simp add: gone_def)
    qed (use ok payloads_wf [OF inv] in \<open>simp_all add: same_owner_def source_of_def inbox_of_def\<close>)
    then show ?thesis by blast
  qed simp
qed

lemma handoff_effect:
  assumes inv: "vault_inv sha v" and run: "handoff v source destination h n = (v', Inr t)"
  obtains r' where "vault_row v' h = Inr r'" "destination_json r' = grant_identity destination"
    "t_recipient (metadata r') \<noteq> None"
proof -
  let ?dest = "grant_identity destination"
  let ?ra = "\<lparr>ra_principal = gr_principal destination, ra_authority = gr_authority destination\<rparr>"
  from run obtain r where r: "vault_row v h = Inr r"
    and cases: "(v' = v \<and> t_recipient (metadata r) \<noteq> None \<and> destination_json r = ?dest) \<or>
      save (update_row h (\<lambda>r. r\<lparr>destination_json := ?dest\<rparr>) v)
           ((metadata r)\<lparr>t_recipient := Some ?ra\<rparr>) = Inr (v', t)"
    by (auto simp: handoff_def in_tx_Inr and_then_Inr_iff Let_def split: if_splits)
  have inv': "vault_inv sha v'" by (rule vault_writes_inv [OF handoff_writes [OF inv run] inv])
  obtain xs ys where rows: "vlt_rows v = xs @ r # ys" and h: "handle r = h"
    using vault_rowD [OF r] by metis
  note facts = row_facts [OF inv rows]
  from cases show ?thesis
  proof
    assume save: "save (update_row h (\<lambda>r. r\<lparr>destination_json := ?dest\<rparr>) v)
           ((metadata r)\<lparr>t_recipient := Some ?ra\<rparr>) = Inr (v', t)"
    have upd: "update_row h (\<lambda>r. r\<lparr>destination_json := ?dest\<rparr>) v
        = v\<lparr>vlt_rows := xs @ r\<lparr>destination_json := ?dest\<rparr> # ys\<rparr>"
      using facts by (simp add: update_row_split [OF rows h])
    have "v' = v\<lparr>vlt_rows := xs @ r\<lparr>destination_json := ?dest,
        metadata := bump ((metadata r)\<lparr>t_recipient := Some ?ra\<rparr>)\<rparr> # ys\<rparr>"
      using save_split [OF save [unfolded upd], of xs "r\<lparr>destination_json := ?dest\<rparr>" ys] facts by simp
    then have "vault_row v' h = Inr (r\<lparr>destination_json := ?dest,
        metadata := bump ((metadata r)\<lparr>t_recipient := Some ?ra\<rparr>)\<rparr>)"
      unfolding vault_row_iff [OF inv'] by (simp add: h)
    then show ?thesis by (rule that) simp_all
  qed (use r that in blast)
qed

lemma erase_Inr:
  assumes "erase v h ph g = (v', Inr t2)"
  obtains r v1 where "vault_row v h = Inr r"
    "save v ((metadata r)\<lparr>t_capture := ph\<rparr>) = Inr (v1, t2)"
    "v' = update_row h (\<lambda>r. r\<lparr>row_capacity := 0\<rparr>)
       (v1\<lparr>vlt_payloads := bt_remove (row_id r * 2 + 1) (bt_remove (row_id r * 2) (vlt_payloads v1))\<rparr>)"
    "g \<noteq> None \<longrightarrow> source_json r = grant_identity (the g) \<and> \<not> busy (metadata r)"
  using assms
  by (cases g) (fastforce simp: erase_def in_tx_Inr and_then_Inr_iff split: if_splits)+

lemma erase_effect:
  assumes inv: "vault_inv sha v" and run: "erase v h ph g = (v', Inr t2)"
  obtains xs r ys where "vlt_rows v = xs @ r # ys" "handle r = h"
    "uint (t_revision (metadata r)) < 2 ^ 63" "t2 = bump ((metadata r)\<lparr>t_capture := ph\<rparr>)"
    "v' = v\<lparr>vlt_rows := xs @ r\<lparr>metadata := t2, row_capacity := 0\<rparr> # ys,
           vlt_payloads := bt_remove (row_id r * 2 + 1) (bt_remove (row_id r * 2) (vlt_payloads v))\<rparr>"
proof -
  obtain r v1 where r: "vault_row v h = Inr r"
    and save: "save v ((metadata r)\<lparr>t_capture := ph\<rparr>) = Inr (v1, t2)"
    and v': "v' = update_row h (\<lambda>r. r\<lparr>row_capacity := 0\<rparr>)
       (v1\<lparr>vlt_payloads := bt_remove (row_id r * 2 + 1) (bt_remove (row_id r * 2) (vlt_payloads v1))\<rparr>)"
    using erase_Inr [OF run] by metis
  obtain xs ys where rows: "vlt_rows v = xs @ r # ys" and h: "handle r = h"
    using vault_rowD [OF r] by metis
  have dist: "distinct (map handle (xs @ r # ys))" using row_facts [OF inv rows] by blast
  from save_split [OF save rows dist] row_facts [OF inv rows]
  have t2: "t2 = bump ((metadata r)\<lparr>t_capture := ph\<rparr>)" and rev: "uint (t_revision (metadata r)) < 2 ^ 63"
    and v1: "v1 = v\<lparr>vlt_rows := xs @ r\<lparr>metadata := t2\<rparr> # ys\<rparr>" by auto
  let ?w = "v1\<lparr>vlt_payloads := bt_remove (row_id r * 2 + 1) (bt_remove (row_id r * 2) (vlt_payloads v1))\<rparr>"
  have "vlt_rows ?w = xs @ r\<lparr>metadata := t2\<rparr> # ys" by (simp add: v1)
  from update_row_split [OF this] dist h
  have "v' = v\<lparr>vlt_rows := xs @ r\<lparr>metadata := t2, row_capacity := 0\<rparr> # ys,
           vlt_payloads := bt_remove (row_id r * 2 + 1) (bt_remove (row_id r * 2) (vlt_payloads v))\<rparr>"
    by (simp add: v' v1)
  then show ?thesis by (rule that [OF rows h rev t2])
qed

lemma erase_writes:
  assumes inv: "vault_inv sha v" and ph: "ph = Released \<or> ph = Expired"
    and run: "erase v h ph g = (v', res)"
  shows "(vault_write sha)\<^sup>*\<^sup>* v v'"
proof (cases res)
  case (Inl e)
  then show ?thesis using run by (auto simp: erase_def in_tx_Inl)
next
  case (Inr t2)
  with run have "erase v h ph g = (v', Inr t2)" by simp
  then show ?thesis
  proof (rule erase_effect [OF inv])
    fix xs r ys
    assume rows: "vlt_rows v = xs @ r # ys" and rev: "uint (t_revision (metadata r)) < 2 ^ 63"
      and t2: "t2 = bump ((metadata r)\<lparr>t_capture := ph\<rparr>)"
      and v': "v' = v\<lparr>vlt_rows := xs @ r\<lparr>metadata := t2, row_capacity := 0\<rparr> # ys,
           vlt_payloads := bt_remove (row_id r * 2 + 1) (bt_remove (row_id r * 2) (vlt_payloads v))\<rparr>"
    have "vault_write sha v v'"
      unfolding v'
    proof (rule write_row [OF rows erased [OF ph] rev])
      show "row_capacity (r\<lparr>metadata := t2, row_capacity := 0\<rparr>)
          = (if gone ((metadata r)\<lparr>t_capture := ph\<rparr>) then 0 else row_capacity r)"
        using ph by (auto simp: gone_def)
    qed (use payloads_wf [OF inv] t2 in \<open>auto simp: same_owner_def dest: div2_other\<close>)
    then show ?thesis by blast
  qed
qed

lemma release_writes:
  assumes inv: "vault_inv sha v" and run: "release v g h = (v', res)"
  shows "(vault_write sha)\<^sup>*\<^sup>* v v'"
proof (cases "authorized v g h (Some False)")
  case (Inr r)
  then show ?thesis using run erase_writes [OF inv, of Released h "Some g"]
    by (cases "busy (metadata r)") (auto simp: release_def)
qed (use run in \<open>simp add: release_def\<close>)

lemma retire_writes:
  assumes inv: "vault_inv sha v" and ph: "ph = Released \<or> ph = Expired"
    and run: "retire v h ph = (v', res)"
  shows "(vault_write sha)\<^sup>*\<^sup>* v v'"
proof -
  obtain v1 r1 where i: "interrupt v h = (v1, r1)" by (cases "interrupt v h")
  note w = interrupt_writes [OF inv i]
  have inv1: "vault_inv sha v1" by (rule vault_writes_inv [OF w inv])
  show ?thesis
  proof (cases r1)
    case (Inl e)
    then show ?thesis using w run by (simp add: retire_def i)
  next
    case (Inr t1)
    then have "erase v1 h ph None = (v', res)" using run by (simp add: retire_def i)
    from erase_writes [OF inv1 ph this] w show ?thesis by (rule rtranclp_trans [rotated])
  qed
qed

lemma expire_loop_writes:
  "vault_inv sha v \<Longrightarrow> expire_loop ts v c l = (v', res) \<Longrightarrow> (vault_write sha)\<^sup>*\<^sup>* v v'"
proof (induction ts v c l rule: expire_loop.induct)
  case (2 ts v c t l)
  show ?case
  proof (cases "t_expires_at_unix t \<le> ts \<and> t_capture t \<notin> {Released, Expired}")
    case True
    obtain v1 r1 where i: "retire v (t_id t) Expired = (v1, r1)" by (cases "retire v (t_id t) Expired")
    have w: "(vault_write sha)\<^sup>*\<^sup>* v v1" using retire_writes [OF "2.prems"(1) _ i] by simp
    have inv1: "vault_inv sha v1" by (rule vault_writes_inv [OF w "2.prems"(1)])
    show ?thesis
    proof (cases r1)
      case (Inl e)
      then show ?thesis using w "2.prems"(2) True by (simp add: i)
    next
      case (Inr t1)
      then have "expire_loop ts v1 (Suc c) l = (v', res)" using "2.prems"(2) True by (simp add: i)
      with "2.IH"(1) [OF True i [symmetric] Inr inv1] w show ?thesis by (auto intro: rtranclp_trans)
    qed
  next
    case False
    then have "expire_loop ts v c l = (v', res)" using "2.prems"(2) by (simp split: if_splits)
    then show ?thesis using "2.IH"(2) [OF False "2.prems"(1)] by simp
  qed
qed simp

lemma expire_writes:
  "vault_inv sha v \<Longrightarrow> expire v n = (v', res) \<Longrightarrow> (vault_write sha)\<^sup>*\<^sup>* v v'"
  by (cases n) (auto simp: expire_def intro: expire_loop_writes)

lemma close_loop_writes:
  "vault_inv sha v \<Longrightarrow> close_loop v l = (v', res) \<Longrightarrow> (vault_write sha)\<^sup>*\<^sup>* v v'"
proof (induction v l rule: close_loop.induct)
  case (2 v t l)
  obtain v1 r1 where i: "retire v (t_id t) Released = (v1, r1)" by (cases "retire v (t_id t) Released")
  have w: "(vault_write sha)\<^sup>*\<^sup>* v v1" using retire_writes [OF "2.prems"(1) _ i] by simp
  have inv1: "vault_inv sha v1" by (rule vault_writes_inv [OF w "2.prems"(1)])
  show ?case
  proof (cases r1)
    case (Inl e)
    then show ?thesis using w "2.prems"(2) by (simp add: i)
  next
    case (Inr t1)
    then have "close_loop v1 l = (v', res)" using "2.prems"(2) by (simp add: i)
    with "2.IH" [OF i [symmetric] Inr inv1] w show ?thesis by (auto intro: rtranclp_trans)
  qed
qed simp

lemma close_writes:
  assumes inv: "vault_inv sha v" and run: "close v = (v', res)"
  shows "(vault_write sha)\<^sup>*\<^sup>* v v'"
proof -
  let ?v0 = "v\<lparr>vlt_closed := True\<rparr>"
  obtain v1 r1 where i: "close_loop ?v0 (all_metadata ?v0) = (v1, r1)"
    by (cases "close_loop ?v0 (all_metadata ?v0)")
  have "v' = v1" using run i by (auto simp: close_def Let_def split: sum.splits)
  moreover have "(vault_write sha)\<^sup>*\<^sup>* ?v0 v1" using close_loop_writes [OF _ i] inv by simp
  ultimately show ?thesis using shut [of sha v] by (simp add: converse_rtranclp_into_rtranclp)
qed

section \<open>prepare\<close>

lemma sum_positive_part:
  "(\<forall>x \<in> set xs. (0 :: int) \<le> f x) \<Longrightarrow> sum_list (map f (filter (\<lambda>x. f x > 0) xs)) = sum_list (map f xs)"
  by (induction xs) auto

lemma fold_max_bound: "x \<in> set xs \<or> x = a \<Longrightarrow> x \<le> fold max xs (a :: nat)"
proof (induction xs arbitrary: a x)
  case (Cons y xs)
  show ?case
  proof (cases "x \<in> set xs")
    case True
    then show ?thesis using Cons.IH by simp
  next
    case False
    then have "x \<le> max y a" using Cons.prems by auto
    also have "max y a \<le> fold max xs (max y a)" by (rule Cons.IH) simp
    finally show ?thesis by simp
  qed
qed simp

lemma next_row_id_fresh: "r \<in> set (vlt_rows v) \<Longrightarrow> row_id r < next_row_id v"
  using fold_max_bound [of "row_id r" "map row_id (vlt_rows v)" 0] by (simp add: next_row_id_def)

lemma capacity_nonneg:
  "vault_inv sha v \<Longrightarrow> r \<in> set (vlt_rows v) \<Longrightarrow> 0 \<le> row_capacity r"
  by (auto simp: vault_inv_def row_inv_def Let_def split: if_splits)

text \<open>
  What an accepted request is: the old row of its key, or a row inserted within the budget.
\<close>

lemma prepare_cases:
  assumes inv: "vault_inv sha v"
    and run: "prepare sha v source destination key m random n = (v', Inr t)"
  obtains (replayed) r where "v' = v" "r \<in> set (vlt_rows v)" "metadata r = t"
      "request_key r = request_scope source key"
      "request_json r = Requested (grant_identity source) (grant_identity destination) m"
  | (inserted) r timestamp where "vault_write sha v v'" "n = Some timestamp"
      "vlt_rows v' = vlt_rows v @ [r]" "metadata r = t"
      "t = reserved_transfer v source destination (handle r) m timestamp"
      "request_key r = request_scope source key" "source_json r = grant_identity source"
      "request_json r = Requested (grant_identity source) (grant_identity destination) m"
      "request_scope source key \<notin> request_key ` set (vlt_rows v)" "\<not> vlt_closed v"
proof -
  let ?key = "request_scope source key"
  let ?req = "Requested (grant_identity source) (grant_identity destination) m"
  from run have m: "0 < m" "m \<le> payload_bytes (vlt_limits v)" and open_: "\<not> vlt_closed v"
    and tx: "prepare_tx sha v source destination ?key m random n = Inr (v', t)"
    by (auto simp: prepare_def prepare_tx_def in_tx_Inr and_then_Inr_iff word_neq_0_conv split: if_splits)
  show ?thesis
  proof (cases "List.find (\<lambda>r. request_key r = ?key) (vlt_rows v)")
    case (Some r)
    then have "r \<in> set (vlt_rows v)" "request_key r = ?key" using find_SomeD by fastforce+
    moreover have "v' = v" "metadata r = t" "request_json r = ?req"
      using tx Some by (auto simp: prepare_tx_def Let_def and_then_Inr_iff split: if_splits)
    ultimately show ?thesis by (intro replayed)
  next
    case None
    then have newkey: "?key \<notin> request_key ` set (vlt_rows v)" by (auto simp: find_None_iff)
    let ?small = "filter (\<lambda>r. row_capacity r > 0) (vlt_rows v)"
    from tx None obtain bytes timestamp where
      counts: "length (vlt_rows v) < 4096"
        "int (length ?small) < uint (active_transfers (vlt_limits v))"
        "sum_list (map row_capacity ?small) + uint m * 2 \<le> uint (cell_bytes (vlt_limits v))"
      and n: "n = Some timestamp" and
      ins: "insert_transfer v
         \<lparr>row_id = next_row_id v, handle = ''payload-'' @ sha bytes, request_key = ?key,
          request_json = ?req, source_json = grant_identity source,
          destination_json = grant_identity destination,
          metadata = reserved_transfer v source destination (''payload-'' @ sha bytes) m timestamp,
          row_capacity = uint m * 2\<rparr> m = Inr (v', t)"
      using open_ by (auto simp: prepare_tx_def Let_def and_then_Inr_iff as_u32_def
          split: if_splits option.splits)
    let ?r = "\<lparr>row_id = next_row_id v, handle = ''payload-'' @ sha bytes, request_key = ?key,
          request_json = ?req, source_json = grant_identity source,
          destination_json = grant_identity destination,
          metadata = reserved_transfer v source destination (''payload-'' @ sha bytes) m timestamp,
          row_capacity = uint m * 2\<rparr>"
    let ?p' = "bt_insert (row_id ?r * 2 + 1) (replicate (unat m) 0)
           (bt_insert (row_id ?r * 2) (replicate (unat m) 0) (vlt_payloads v))"
    from ins have newh: "handle ?r \<notin> handle ` set (vlt_rows v)" and t: "metadata ?r = t"
      and v': "v' = v\<lparr>vlt_rows := vlt_rows v @ [?r], vlt_payloads := ?p'\<rparr>"
      by (auto simp: insert_transfer_def put_blob_def Let_def split: if_splits)
    have newid: "row_id ?r \<notin> row_id ` set (vlt_rows v)"
      using next_row_id_fresh by (fastforce simp del: not_gr_zero)
    have "budget_inv (vlt_limits v) (vlt_rows v @ [?r])"
      using inv counts m sum_positive_part [of "vlt_rows v" row_capacity] capacity_nonneg [OF inv]
      by (simp add: budget_inv_def vault_inv_def active_def [abs_def] reserved_transfer_def)
    then have "vault_write sha v v'"
      unfolding v' by (intro insert_row [OF newh _ newid]) (use newkey m open_ in simp_all)
    then show ?thesis
      by (rule inserted [OF _ n, of ?r]) (use v' t newkey open_ in auto)
  qed
qed

lemma prepare_writes:
  assumes inv: "vault_inv sha v"
    and run: "prepare sha v source destination key m random n = (v', res)"
  shows "(vault_write sha)\<^sup>*\<^sup>* v v'"
proof (cases res)
  case (Inl e)
  then show ?thesis using run by (auto simp: prepare_def in_tx_Inl)
next
  case (Inr t)
  then have "prepare sha v source destination key m random n = (v', Inr t)" using run by simp
  then show ?thesis by (rule prepare_cases [OF inv]) auto
qed

end
