(* ===== verification/Transfer_History.thy ===== *)
theory Transfer_History
  imports Transfer_Refinement
begin

text \<open>
  What holds over the whole life of a vault. \<open>vault_op\<close> is one call of any operation with any
  arguments; \<open>vault_reachable\<close> is a vault any sequence of calls leads to. \<open>custody\<close> is the
  abstract life of one payload, and \<open>grows\<close> what a row never gives up.
\<close>

section \<open>Operations and reachable vaults\<close>

inductive vault_op :: "(u8 list \<Rightarrow> string) \<Rightarrow> vault \<Rightarrow> vault \<Rightarrow> bool" for sha where
  op_prepare: "prepare sha v source destination key m random n = (v', res) \<Longrightarrow> vault_op sha v v'"
| op_handoff: "handoff v source destination h n = (v', res) \<Longrightarrow> vault_op sha v v'"
| op_begin_capture: "begin_capture v g h operation n n' = (v', res) \<Longrightarrow> vault_op sha v v'"
| op_finish_source: "finish_source v h operation rc = (v', res) \<Longrightarrow> vault_op sha v v'"
| op_capture: "capture_payload sha v g h operation rd produced n n' = (v', res) \<Longrightarrow> vault_op sha v v'"
| op_deliver: "deliver sha v g h n n' = (v', res) \<Longrightarrow> vault_op sha v v'"
| op_begin_receive: "begin_receive sha v g h operation n n' = (v', res) \<Longrightarrow> vault_op sha v v'"
| op_consume: "consume sha v g h operation w n n' = (v', sent, res) \<Longrightarrow> vault_op sha v v'"
| op_finish_receive: "finish_receive v h operation rc = (v', res) \<Longrightarrow> vault_op sha v v'"
| op_observe: "observe_native v g h operation = (v', res) \<Longrightarrow> vault_op sha v v'"
| op_interrupt: "interrupt v h = (v', res) \<Longrightarrow> vault_op sha v v'"
| op_release: "release v g h = (v', res) \<Longrightarrow> vault_op sha v v'"
| op_expire: "expire v n = (v', res') \<Longrightarrow> vault_op sha v v'"
| op_close: "close v = (v', res'') \<Longrightarrow> vault_op sha v v'"

definition empty_vault :: "string \<Rightarrow> string \<Rightarrow> limits \<Rightarrow> vault" where
  "empty_vault workspace c l =
     \<lparr>vlt_workspace = workspace, vlt_cell = c, vlt_limits = l, vlt_closed = False,
      vlt_rows = [], vlt_payloads = []\<rparr>"

definition vault_reachable :: "(u8 list \<Rightarrow> string) \<Rightarrow> vault \<Rightarrow> bool" where
  "vault_reachable sha v \<longleftrightarrow> (\<exists>workspace c l. (vault_op sha)\<^sup>*\<^sup>* (empty_vault workspace c l) v)"

lemma vault_op_writes:
  "vault_op sha v v' \<Longrightarrow> vault_inv sha v \<Longrightarrow> (vault_write sha)\<^sup>*\<^sup>* v v'"
  by (induction rule: vault_op.induct)
    (auto intro: prepare_writes handoff_writes begin_capture_writes finish_source_writes
      capture_payload_writes deliver_writes begin_receive_writes consume_writes finish_receive_writes
      observe_native_writes interrupt_writes release_writes expire_writes close_writes)

lemma vault_op_inv: "vault_op sha v v' \<Longrightarrow> vault_inv sha v \<Longrightarrow> vault_inv sha v'"
  using vault_op_writes vault_writes_inv by blast

lemma vault_ops_writes:
  "(vault_op sha)\<^sup>*\<^sup>* v v' \<Longrightarrow> vault_inv sha v \<Longrightarrow> (vault_write sha)\<^sup>*\<^sup>* v v' \<and> vault_inv sha v'"
proof (induction rule: rtranclp_induct)
  case (step w w')
  then show ?case using vault_op_writes vault_op_inv by (blast intro: rtranclp_trans)
qed simp

lemma empty_vault_inv: "vault_inv sha (empty_vault workspace c l)"
  by (simp add: vault_inv_def empty_vault_def index_inv_def budget_inv_def payload_inv_def
      all_operations_def)

lemma vault_reachable_inv: "vault_reachable sha v \<Longrightarrow> vault_inv sha v"
  unfolding vault_reachable_def using vault_ops_writes empty_vault_inv by blast

lemma vault_reachable_empty: "vault_reachable sha (empty_vault workspace c l)"
  unfolding vault_reachable_def by blast

lemma vault_reachable_step: "vault_reachable sha v \<Longrightarrow> vault_op sha v v' \<Longrightarrow> vault_reachable sha v'"
  unfolding vault_reachable_def by (meson rtranclp.rtrancl_into_rtrancl)

lemma vault_reachable_steps:
  "vault_reachable sha v \<Longrightarrow> (vault_op sha)\<^sup>*\<^sup>* v v' \<Longrightarrow> vault_reachable sha v'"
  unfolding vault_reachable_def by (meson rtranclp_trans)

section \<open>The abstract life of a payload\<close>

datatype custody =
    Vacant
  | Producing string
  | Uncertain
  | Captured "u8 list"
  | Inboxed "u8 list"
  | Consuming "u8 list" string bool
  | Erased

text \<open>
  One producer, one payload, one consumer: bytes enter once, move unchanged, are claimed by one
  operation and streamed once; any custody can only be lost or erased besides.
\<close>

inductive custody_step :: "custody \<Rightarrow> custody \<Rightarrow> bool" where
  "custody_step Vacant (Producing operation)"
| "custody_step (Producing operation) Uncertain"
| "custody_step (Producing operation) (Captured bytes)"
| "custody_step (Captured bytes) (Inboxed bytes)"
| "custody_step (Inboxed bytes) (Consuming bytes operation False)"
| "custody_step (Consuming bytes operation False) (Consuming bytes operation True)"
| "custody_step c Erased"

inductive_cases custody_stepE: "custody_step c c'"

definition custody_of :: "transfer \<Rightarrow> u8 list option \<Rightarrow> u8 list option \<Rightarrow> custody" where
  "custody_of t source inbox =
     (case t_capture t of
        Reserved \<Rightarrow> Vacant
      | Started \<Rightarrow> Producing (the (operation_id (t_source t)))
      | Unknown \<Rightarrow> Uncertain
      | Ready \<Rightarrow>
          (let n = unat (the (t_bytes t))
           in if \<not> t_delivered t then Captured (take n (the source))
              else (case operation_id (t_receiver t) of
                      None \<Rightarrow> Inboxed (take n (the inbox))
                    | Some operation \<Rightarrow>
                        Consuming (take n (the inbox)) operation (input_started (t_receiver t))))
      | Released \<Rightarrow> Erased
      | Expired \<Rightarrow> Erased)"

definition custody :: "vault \<Rightarrow> transfer_row \<Rightarrow> custody" where
  "custody v r = custody_of (metadata r) (source_of v r) (inbox_of v r)"

lemma custody_of_bump [simp]: "custody_of (bump t) s d = custody_of t s d"
  unfolding custody_of_def bump_simps by (rule refl)

text \<open>What happens to the bytes and the claim of a payload, whatever is done to it.\<close>

lemma custody_steps_fixed:
  assumes "custody_step\<^sup>*\<^sup>* c c'"
  shows "(\<forall>bytes operation. c = Consuming bytes operation True \<longrightarrow>
      c' = Consuming bytes operation True \<or> c' = Erased)
    \<and> (\<forall>bytes operation. c = Consuming bytes operation False \<longrightarrow>
      (\<exists>b. c' = Consuming bytes operation b) \<or> c' = Erased)
    \<and> (\<forall>bytes. c = Inboxed bytes \<longrightarrow>
      (\<exists>operation b. c' = Consuming bytes operation b) \<or> c' \<in> {Inboxed bytes, Erased})
    \<and> (c = Uncertain \<longrightarrow> c' \<in> {Uncertain, Erased}) \<and> (c = Erased \<longrightarrow> c' = Erased)
    \<and> (c' = Vacant \<longrightarrow> c = Vacant)"
  using assms
proof (induction rule: rtranclp_induct)
  case (step y z)
  from step.hyps(2) step.IH show ?case by (cases rule: custody_step.cases) auto
qed auto

lemma row_step_custody:
  assumes step: "row_step sha fresh (metadata r, s, d) (t', s', d')" and inv: "row_inv sha r s d"
  shows "custody_step\<^sup>=\<^sup>= (custody_of (metadata r) s d) (custody_of t' s' d')"
proof -
  have st: "stage_inv (metadata r)" using inv by (simp add: row_inv_def Let_def)
  show ?thesis
    using step
  proof (cases rule: row_step_cases)
    case (captured rc n s2 s1)
    moreover have "\<not> t_delivered (metadata r)"
      using st captured by (auto simp: stage_inv_def gone_def)
    ultimately show ?thesis by (auto simp: custody_of_def Let_def intro: custody_step.intros)
  next
    case (delivered n d2 d1 s1)
    then have "operation_id (t_receiver (metadata r)) = None"
      using st by (auto simp: stage_inv_def)
    then show ?thesis using delivered
      by (auto simp: custody_of_def Let_def intro: custody_step.intros)
  next
    case (streaming y)
    then have "t_delivered (metadata r)" using st by (auto simp: stage_inv_def)
    then show ?thesis using streaming
      by (auto simp: custody_of_def Let_def intro: custody_step.intros)
  next
    case (claimed operation)
    then have "\<not> input_started (t_receiver (metadata r))" using st by (auto simp: stage_inv_def)
    then show ?thesis using claimed
      by (auto simp: custody_of_def Let_def intro: custody_step.intros)
  next
    case (stopped b a)
    then show ?thesis
      by (auto simp: custody_of_def Let_def intro: custody_step.intros
          split: capture_phase.split option.split)
  next
    case (erased ph)
    then show ?thesis
      by (auto simp: custody_of_def Let_def intro: custody_step.intros
          split: capture_phase.split option.split)
  qed (auto simp: custody_of_def Let_def intro: custody_step.intros
        split: capture_phase.split option.split)
qed

section \<open>What a row never gives up\<close>

definition grows :: "transfer_row \<Rightarrow> transfer_row \<Rightarrow> bool" where
  "grows r r' \<longleftrightarrow> same_owner r r' \<and>
     (let t = metadata r; t' = metadata r' in
        (r' = r \<or> uint (t_revision t) < uint (t_revision t'))
        \<and> t_id t' = t_id t \<and> t_maximum_bytes t' = t_maximum_bytes t
        \<and> t_expires_at_unix t' = t_expires_at_unix t
        \<and> (\<forall>x. operation_id (t_source t) = Some x \<longrightarrow> operation_id (t_source t') = Some x)
        \<and> (\<forall>x. operation_id (t_receiver t) = Some x \<longrightarrow> operation_id (t_receiver t') = Some x)
        \<and> (\<forall>x. receipt (t_source t) = Some x \<longrightarrow> receipt (t_source t') = Some x)
        \<and> (\<forall>x. receipt (t_receiver t) = Some x \<longrightarrow> receipt (t_receiver t') = Some x)
        \<and> (input_started (t_receiver t) \<longrightarrow> input_started (t_receiver t'))
        \<and> (\<forall>x. t_recipient t = Some x \<longrightarrow>
             t_recipient t' = Some x \<and> destination_json r' = destination_json r)
        \<and> (gone t \<longrightarrow> gone t')
        \<and> (\<exists>os. t_observations t' = t_observations t @ os))"

lemma grows_refl [simp]: "grows r r"
  by (simp add: grows_def same_owner_def Let_def)

lemma grows_trans:
  assumes "grows a b" "grows b c"
  shows "grows a c"
proof -
  have "b = a \<or> uint (t_revision (metadata a)) < uint (t_revision (metadata b))"
    "c = b \<or> uint (t_revision (metadata b)) < uint (t_revision (metadata c))"
    using assms by (simp_all add: grows_def Let_def)
  then have rev: "c = a \<or> uint (t_revision (metadata a)) < uint (t_revision (metadata c))"
    by (elim disjE) simp_all
  obtain os1 os2 where "t_observations (metadata b) = t_observations (metadata a) @ os1"
    "t_observations (metadata c) = t_observations (metadata b) @ os2"
    using assms by (auto simp: grows_def Let_def)
  then have obs: "\<exists>os. t_observations (metadata c) = t_observations (metadata a) @ os" by simp
  show ?thesis
    using assms unfolding grows_def Let_def same_owner_def
    by (elim conjE, intro conjI rev obs) (simp_all (no_asm_simp))
qed

lemma bump_revision:
  assumes "uint (t_revision t) < 2 ^ 63"
  shows "uint (t_revision (bump t)) = uint (t_revision t) + 1"
  using assms by (simp add: bump_def uint_word_ariths)

lemma row_step_grows:
  assumes step: "row_step sha fresh (metadata r, s, d) (t', s', d')"
    and rev: "uint (t_revision (metadata r)) < 2 ^ 63"
    and own: "same_owner r r'" and meta: "metadata r' = bump t'"
    and dest: "destination_json r' = destination_json r \<or> t_recipient t' \<noteq> t_recipient (metadata r)"
    and st: "stage_inv (metadata r)"
  shows "grows r r'"
proof -
  let ?t = "metadata r"
  have f: "t_id t' = t_id ?t \<and> t_maximum_bytes t' = t_maximum_bytes ?t
      \<and> t_expires_at_unix t' = t_expires_at_unix ?t \<and> t_revision t' = t_revision ?t
      \<and> (gone ?t \<longrightarrow> gone t')"
    using row_step_fixed [OF step] by blast
  have r: "uint (t_revision ?t) < uint (t_revision (bump t'))"
    using f rev bump_revision [of t'] by simp
  have m: "(\<forall>x. operation_id (t_source ?t) = Some x \<longrightarrow> operation_id (t_source t') = Some x)
      \<and> (\<forall>x. operation_id (t_receiver ?t) = Some x \<longrightarrow> operation_id (t_receiver t') = Some x)
      \<and> (\<forall>x. receipt (t_source ?t) = Some x \<longrightarrow> receipt (t_source t') = Some x)
      \<and> (\<forall>x. receipt (t_receiver ?t) = Some x \<longrightarrow> receipt (t_receiver t') = Some x)
      \<and> (input_started (t_receiver ?t) \<longrightarrow> input_started (t_receiver t'))
      \<and> (\<forall>x. t_recipient ?t = Some x \<longrightarrow> t_recipient t' = Some x)
      \<and> (\<exists>os. t_observations t' = t_observations ?t @ os)"
    using step st by (cases rule: row_step_cases) (simp_all add: stage_inv_def, auto?)
  show ?thesis
    unfolding grows_def Let_def meta bump_simps
    using own f r m dest by auto
qed

text \<open>Every row of a vault is still there after any write, has only grown, and its custody moved on.\<close>

lemma vault_write_grows:
  assumes w: "vault_write sha v v'" and inv: "vault_inv sha v" and q: "q \<in> set (vlt_rows v)"
  shows "\<exists>q' \<in> set (vlt_rows v'). grows q q' \<and> custody_step\<^sup>=\<^sup>= (custody v q) (custody v' q')"
  using w
proof (cases rule: vault_write.cases)
  case (write_row xs r ys t' s' d' r' p')
  note facts = row_facts [OF inv write_row(2)]
  have own: "row_id r' = row_id r" using write_row(5) by (simp add: same_owner_def)
  show ?thesis
  proof (cases "q = r")
    case True
    have "grows r r'" using row_step_grows [OF write_row(3,4,5,6,7)] facts by blast
    moreover have "custody v' r' = custody_of t' s' d'"
      using write_row(1,6,10,11) own by (simp add: custody_def source_of_def inbox_of_def)
    moreover have "custody_step\<^sup>=\<^sup>= (custody v r) (custody_of t' s' d')"
      unfolding custody_def by (rule row_step_custody [OF write_row(3)]) (use facts in blast)
    ultimately show ?thesis using True write_row(1) by auto
  next
    case False
    then have rest: "q \<in> set xs \<union> set ys" using q write_row(2) by auto
    then have "row_id q \<in> row_id ` (set xs \<union> set ys)" by (rule imageI)
    moreover have "row_id r \<notin> row_id ` (set xs \<union> set ys)"
      using inv write_row(2) by (auto simp: vault_inv_def index_inv_def)
    ultimately have ne: "row_id q \<noteq> row_id r" by metis
    have "bt_get p' (row_id q * 2) = bt_get (vlt_payloads v) (row_id q * 2)"
      "bt_get p' (row_id q * 2 + 1) = bt_get (vlt_payloads v) (row_id q * 2 + 1)"
      using ne by (auto intro!: write_row(12))
    then have "custody v' q = custody v q"
      by (simp add: custody_def source_of_def inbox_of_def write_row(1))
    moreover have "q \<in> set (vlt_rows v')" using rest write_row(1) by auto
    ultimately show ?thesis by (intro bexI [of _ q]) simp_all
  qed
next
  case (insert_row r source destination m timestamp p')
  have "row_id q \<noteq> row_id r" using q insert_row(4) by (metis imageI)
  then have "custody v' q = custody v q"
    by (simp add: custody_def source_of_def inbox_of_def insert_row(1,13))
  moreover have "q \<in> set (vlt_rows v')" using q insert_row(1) by simp
  ultimately show ?thesis by (intro bexI [of _ q]) simp_all
next
  case shut
  then have "custody v' q = custody v q" by (simp add: custody_def source_of_def inbox_of_def)
  then show ?thesis using q shut by (intro bexI [of _ q]) simp_all
qed

lemma vault_writes_grow:
  assumes "(vault_write sha)\<^sup>*\<^sup>* v v'" "vault_inv sha v" "q \<in> set (vlt_rows v)"
  shows "\<exists>q' \<in> set (vlt_rows v'). grows q q' \<and> custody_step\<^sup>*\<^sup>* (custody v q) (custody v' q')"
  using assms(1)
proof (induction rule: rtranclp_induct)
  case base
  show ?case by (rule bexI [OF _ assms(3)]) simp
next
  case (step w w')
  then obtain q1 where q1: "q1 \<in> set (vlt_rows w)" "grows q q1"
    "custody_step\<^sup>*\<^sup>* (custody v q) (custody w q1)" by blast
  have "vault_inv sha w" by (rule vault_writes_inv [OF step.hyps(1) assms(2)])
  from vault_write_grows [OF step.hyps(2) this q1(1)] obtain q2 where
    "q2 \<in> set (vlt_rows w')" "grows q1 q2" "custody_step\<^sup>=\<^sup>= (custody w q1) (custody w' q2)" by blast
  then show ?case using q1 by (intro bexI [of _ q2]) (auto intro: grows_trans rtranclp_trans)
qed

text \<open>A row that was not there before has been inserted vacant.\<close>

lemma vault_row_None: "vault_row v h = Inl e \<longleftrightarrow> e = Access \<and> h \<notin> handle ` set (vlt_rows v)"
  by (auto simp: vault_row_def find_row_def find_None_iff split: option.splits dest: find_SomeD)

lemma vault_writes_new:
  assumes "(vault_write sha)\<^sup>*\<^sup>* v v'" "vault_inv sha v" "vault_row v h = Inl e" "vault_row v' h = Inr r'"
  shows "custody_step\<^sup>*\<^sup>* Vacant (custody v' r')"
  using assms(1,4)
proof (induction arbitrary: r' rule: rtranclp_induct)
  case base
  then show ?case using assms(3) by simp
next
  case (step w w')
  have inv: "vault_inv sha w" by (rule vault_writes_inv [OF step.hyps(1) assms(2)])
  have inv': "vault_inv sha w'" by (rule vault_write_inv [OF step.hyps(2) inv])
  show ?case
  proof (cases "vault_row w h")
    case (Inr q)
    then have q: "q \<in> set (vlt_rows w)" "handle q = h" using vault_row_iff [OF inv] by auto
    from vault_write_grows [OF step.hyps(2) inv q(1)] obtain q' where q': "q' \<in> set (vlt_rows w')"
      "grows q q'" "custody_step\<^sup>=\<^sup>= (custody w q) (custody w' q')" by blast
    then have "vault_row w' h = Inr q'"
      using q(2) by (simp add: vault_row_iff [OF inv'] grows_def same_owner_def)
    then show ?thesis using step.IH [OF Inr] q'(3) step.prems by auto
  next
    case (Inl e')
    then have absent: "h \<notin> handle ` set (vlt_rows w)" by (simp add: vault_row_None)
    have "r' \<in> set (vlt_rows w')" "handle r' = h"
      using step.prems vault_row_iff [OF inv'] by auto
    with step.hyps(2) absent have "custody w' r' = Vacant"
      by (cases rule: vault_write.cases)
        (auto simp: custody_def custody_of_def reserved_transfer_def same_owner_def)
    then show ?thesis by simp
  qed
qed

lemma vault_writes_row:
  assumes "(vault_write sha)\<^sup>*\<^sup>* v v'" "vault_inv sha v" "vault_row v h = Inr r"
  shows "\<exists>r'. vault_row v' h = Inr r' \<and> grows r r' \<and> custody_step\<^sup>*\<^sup>* (custody v r) (custody v' r')"
proof -
  have inv': "vault_inv sha v'" by (rule vault_writes_inv [OF assms(1,2)])
  have r: "r \<in> set (vlt_rows v)" "handle r = h" using assms(3) vault_row_iff [OF assms(2)] by auto
  from vault_writes_grow [OF assms(1,2) r(1)] obtain r' where r': "r' \<in> set (vlt_rows v')" "grows r r'"
    "custody_step\<^sup>*\<^sup>* (custody v r) (custody v' r')" by blast
  moreover have "handle r' = h" using r' r(2) by (simp add: grows_def same_owner_def)
  ultimately show ?thesis using vault_row_iff [OF inv'] by blast
qed

lemma vault_ops_grow:
  assumes "(vault_op sha)\<^sup>*\<^sup>* v v'" "vault_inv sha v" "vault_row v h = Inr r"
  shows "\<exists>r'. vault_row v' h = Inr r' \<and> grows r r' \<and> custody_step\<^sup>*\<^sup>* (custody v r) (custody v' r')"
  using vault_writes_row [OF _ assms(2,3)] vault_ops_writes [OF assms(1,2)] by blast

text \<open>What the vault itself never changes, and what stays once admission is closed.\<close>

lemma vault_write_identity:
  assumes "vault_write sha v v'"
  shows "vlt_workspace v' = vlt_workspace v \<and> vlt_cell v' = vlt_cell v \<and> vlt_limits v' = vlt_limits v
    \<and> (vlt_closed v \<longrightarrow> vlt_closed v' \<and> map handle (vlt_rows v') = map handle (vlt_rows v))"
  using assms by (cases rule: vault_write.cases) (auto simp: same_owner_def)

lemma vault_writes_identity:
  assumes "(vault_write sha)\<^sup>*\<^sup>* v v'"
  shows "vlt_workspace v' = vlt_workspace v \<and> vlt_cell v' = vlt_cell v \<and> vlt_limits v' = vlt_limits v"
  using assms by (induction rule: rtranclp_induct) (use vault_write_identity in \<open>fastforce+\<close>)

lemma vault_writes_closed:
  assumes "(vault_write sha)\<^sup>*\<^sup>* v v'" "vlt_closed v"
  shows "vlt_closed v' \<and> map handle (vlt_rows v') = map handle (vlt_rows v)"
  using assms by (induction rule: rtranclp_induct) (use vault_write_identity in \<open>fastforce+\<close>)

section \<open>Closing\<close>

lemma vault_row_replace:
  assumes "handle r' = handle r" "h \<noteq> handle r" "vlt_rows v = xs @ r # ys"
  shows "vault_row (v\<lparr>vlt_rows := xs @ r' # ys, vlt_payloads := p\<rparr>) h = vault_row v h"
proof -
  have "List.find (\<lambda>q. handle q = h) (xs @ r' # ys) = List.find (\<lambda>q. handle q = h) (xs @ r # ys)"
    using assms(1,2) by (induction xs) auto
  then show ?thesis by (simp add: vault_row_def find_row_def assms(3))
qed

lemma interrupt_ok:
  assumes inv: "vault_inv sha v" and r: "vault_row v h = Inr r"
    and rev: "uint (t_revision (metadata r)) < 2 ^ 63"
  shows "\<exists>v1 r1. interrupt v h = (v1, Inr (metadata r1)) \<and> vault_row v1 h = Inr r1
    \<and> uint (t_revision (metadata r1)) = uint (t_revision (metadata r)) + 1
    \<and> (\<forall>k. k \<noteq> h \<longrightarrow> vault_row v1 k = vault_row v k)"
proof -
  let ?t = "metadata r"
  obtain t3 where t3: "interrupt v h = in_tx v (save v t3)" "t_id t3 = t_id ?t" "t_revision t3 = t_revision ?t"
    using r by (simp add: interrupt_def and_then_def Let_def)
  obtain xs ys where rows: "vlt_rows v = xs @ r # ys" and h: "handle r = h"
    using vault_rowD [OF r] by metis
  note facts = row_facts [OF inv rows]
  have "save v t3 = Inr (v\<lparr>vlt_rows := xs @ r\<lparr>metadata := bump t3\<rparr> # ys\<rparr>, bump t3)"
    by (rule save_ok [OF rows]) (use facts t3 rev in auto)
  then have run: "interrupt v h = (v\<lparr>vlt_rows := xs @ r\<lparr>metadata := bump t3\<rparr> # ys\<rparr>, Inr (bump t3))"
    using t3(1) by (simp add: in_tx_def)
  have "vault_inv sha (v\<lparr>vlt_rows := xs @ r\<lparr>metadata := bump t3\<rparr> # ys\<rparr>)"
    using vault_writes_inv [OF interrupt_writes [OF inv run] inv] .
  then have "vault_row (v\<lparr>vlt_rows := xs @ r\<lparr>metadata := bump t3\<rparr> # ys\<rparr>) h = Inr (r\<lparr>metadata := bump t3\<rparr>)"
    by (simp add: vault_row_iff h)
  moreover have "uint (t_revision (bump t3)) = uint (t_revision ?t) + 1"
    using bump_revision [of t3] t3(3) rev by simp
  moreover have "vault_row (v\<lparr>vlt_rows := xs @ r\<lparr>metadata := bump t3\<rparr> # ys\<rparr>) k = vault_row v k" if "k \<noteq> h" for k
    using vault_row_replace [OF _ _ rows, of "r\<lparr>metadata := bump t3\<rparr>" k "vlt_payloads v"] that h by simp
  ultimately show ?thesis using run
    by (intro exI [of _ "v\<lparr>vlt_rows := xs @ r\<lparr>metadata := bump t3\<rparr> # ys\<rparr>"]
        exI [of _ "r\<lparr>metadata := bump t3\<rparr>"]) simp
qed

lemma erase_ok:
  assumes inv: "vault_inv sha v" and r: "vault_row v h = Inr r"
    and rev: "uint (t_revision (metadata r)) < 2 ^ 63"
  shows "\<exists>v1 t1. erase v h ph None = (v1, Inr t1)"
proof -
  obtain xs ys where rows: "vlt_rows v = xs @ r # ys" using vault_rowD [OF r] by metis
  have "\<exists>x. save v ((metadata r)\<lparr>t_capture := ph\<rparr>) = Inr x"
    using save_ok [OF rows, of "(metadata r)\<lparr>t_capture := ph\<rparr>"] row_facts [OF inv rows] rev by auto
  then show ?thesis using r by (auto simp: erase_def in_tx_def and_then_def)
qed

lemma retire_ok:
  assumes inv: "vault_inv sha v" and r: "vault_row v h = Inr r" and ph: "ph = Released \<or> ph = Expired"
    and rev: "uint (t_revision (metadata r)) < 2 ^ 63 - 1"
  shows "\<exists>v2 t2 r2. retire v h ph = (v2, Inr t2) \<and> vault_row v2 h = Inr r2 \<and> gone (metadata r2)
    \<and> (\<forall>k. k \<noteq> h \<longrightarrow> vault_row v2 k = vault_row v k)"
proof -
  obtain v1 r1 where i: "interrupt v h = (v1, Inr (metadata r1))" and r1: "vault_row v1 h = Inr r1"
    and rev1: "uint (t_revision (metadata r1)) < 2 ^ 63"
    and other1: "\<forall>k. k \<noteq> h \<longrightarrow> vault_row v1 k = vault_row v k"
    using interrupt_ok [OF inv r] rev by fastforce
  have inv1: "vault_inv sha v1" by (rule vault_writes_inv [OF interrupt_writes [OF inv i] inv])
  obtain v2 t2 where e: "erase v1 h ph None = (v2, Inr t2)" using erase_ok [OF inv1 r1 rev1] by blast
  have inv2: "vault_inv sha v2" by (rule vault_writes_inv [OF erase_writes [OF inv1 ph e] inv1])
  have "\<exists>r2. vault_row v2 h = Inr r2 \<and> gone (metadata r2) \<and> (\<forall>k. k \<noteq> h \<longrightarrow> vault_row v2 k = vault_row v1 k)"
  proof (rule erase_effect [OF inv1 e])
    fix xs r ys
    assume rows: "vlt_rows v1 = xs @ r # ys" and h: "handle r = h"
      and t2: "t2 = bump ((metadata r)\<lparr>t_capture := ph\<rparr>)"
      and v2: "v2 = v1\<lparr>vlt_rows := xs @ r\<lparr>metadata := t2, row_capacity := 0\<rparr> # ys,
           vlt_payloads := bt_remove (row_id r * 2 + 1) (bt_remove (row_id r * 2) (vlt_payloads v1))\<rparr>"
    have "vault_row v2 h = Inr (r\<lparr>metadata := t2, row_capacity := 0\<rparr>)"
      unfolding vault_row_iff [OF inv2] by (simp add: v2 h)
    moreover have "gone t2" using ph by (auto simp: t2 gone_def)
    moreover have "vault_row v2 k = vault_row v1 k" if "k \<noteq> h" for k
      unfolding v2 by (rule vault_row_replace [OF _ _ rows]) (use that h in auto)
    ultimately show ?thesis by (intro exI [of _ "r\<lparr>metadata := t2, row_capacity := 0\<rparr>"]) simp
  qed
  then show ?thesis using other1 by (auto simp: retire_def i e)
qed

lemma close_loop_ok:
  assumes "vault_inv sha v" "distinct (map t_id ts)"
    and "\<And>t. t \<in> set ts \<Longrightarrow> \<exists>r. vault_row v (t_id t) = Inr r \<and> uint (t_revision (metadata r)) < 2 ^ 63 - 1"
  shows "\<exists>v'. close_loop v ts = (v', Inr ()) \<and>
    (\<forall>t \<in> set ts. \<exists>r'. vault_row v' (t_id t) = Inr r' \<and> gone (metadata r'))"
  using assms
proof (induction ts arbitrary: v)
  case (Cons t ts)
  obtain r where r: "vault_row v (t_id t) = Inr r" "uint (t_revision (metadata r)) < 2 ^ 63 - 1"
    using Cons.prems(3) by (metis list.set_intros(1))
  obtain v2 t2 r2 where v2: "retire v (t_id t) Released = (v2, Inr t2)" "vault_row v2 (t_id t) = Inr r2"
    "gone (metadata r2)" "\<forall>k. k \<noteq> t_id t \<longrightarrow> vault_row v2 k = vault_row v k"
    using retire_ok [OF Cons.prems(1) r(1) _ r(2), of Released] by auto
  have inv2: "vault_inv sha v2"
    by (rule vault_writes_inv [OF retire_writes [OF Cons.prems(1) _ v2(1)] Cons.prems(1)]) simp
  have "\<exists>v'. close_loop v2 ts = (v', Inr ()) \<and>
    (\<forall>u \<in> set ts. \<exists>r'. vault_row v' (t_id u) = Inr r' \<and> gone (metadata r'))"
  proof (rule Cons.IH [OF inv2])
    fix u assume u: "u \<in> set ts"
    then have "t_id u \<in> t_id ` set ts" by (rule imageI)
    then have "t_id u \<noteq> t_id t" using Cons.prems(2) by auto
    then show "\<exists>r. vault_row v2 (t_id u) = Inr r \<and> uint (t_revision (metadata r)) < 2 ^ 63 - 1"
      using v2(4) Cons.prems(3) u by simp
  qed (use Cons.prems(2) in simp)
  then obtain v' where loop: "close_loop v2 ts = (v', Inr ())"
    and rest: "\<forall>u \<in> set ts. \<exists>r'. vault_row v' (t_id u) = Inr r' \<and> gone (metadata r')" by blast
  have "v2 = v2 \<and> (vault_write sha)\<^sup>*\<^sup>* v2 v'" using close_loop_writes [OF inv2 loop] by simp
  then obtain r3 where "vault_row v' (t_id t) = Inr r3" "grows r2 r3"
    using vault_writes_row [OF _ inv2 v2(2)] by blast
  then have "\<exists>r'. vault_row v' (t_id t) = Inr r' \<and> gone (metadata r')"
    using v2(3) by (auto simp: grows_def Let_def)
  then show ?case using loop rest v2(1) by simp
qed simp

text \<open>A vault whose transfers are all gone holds no byte and no reservation.\<close>

lemma all_gone_empty:
  assumes inv: "vault_inv sha v" and gone: "\<And>r. r \<in> set (vlt_rows v) \<Longrightarrow> gone (metadata r)"
  shows "vlt_payloads v = [] \<and> sum_list (map row_capacity (vlt_rows v)) = 0"
proof -
  have rows: "row_capacity r = 0 \<and> source_of v r = None \<and> inbox_of v r = None" if "r \<in> set (vlt_rows v)" for r
    using inv gone [OF that] that by (auto simp: vault_inv_def row_inv_def Let_def)
  have "bt_get (vlt_payloads v) i = None" for i
  proof (rule ccontr)
    assume i: "bt_get (vlt_payloads v) i \<noteq> None"
    then obtain r where r: "r \<in> set (vlt_rows v)" "i div 2 = row_id r"
      using inv unfolding vault_inv_def payload_inv_def by blast
    then have "i = row_id r * 2 \<or> i = row_id r * 2 + 1" by presburger
    then show False using rows [OF r(1)] i by (auto simp: source_of_def inbox_of_def)
  qed
  then have "bt_get (vlt_payloads v) = Map.empty" by (rule ext)
  then have "dom (bt_get (vlt_payloads v)) = {}" by simp
  then have "set (bt_keys (vlt_payloads v)) = {}" by (simp only: bt_keys_dom)
  then have "vlt_payloads v = []" by (simp add: bt_keys_def)
  moreover have "sum_list (map row_capacity (vlt_rows v)) = 0"
    by (rule sum_list_nonneg_eq_0_iff [THEN iffD2]) (use rows in auto)
  ultimately show ?thesis by (rule conjI)
qed

end
