(* ===== verification/Transfer_Properties.thy ===== *)
theory Transfer_Properties
  imports Transfer_History
begin

text \<open>
  The properties of the transfer vault, with witnesses. The witnesses run one transfer of four
  bytes from its reservation to the consumer; their digest is a toy with the shape of one.
\<close>

section \<open>An example transfer\<close>

definition example_sha :: "u8 list \<Rightarrow> string" where
  "example_sha bytes =
     (if length bytes = 1 then ''h'' else replicate 64 (if length bytes = 4 then CHR ''a'' else CHR ''0''))"

definition example_grant :: "string \<Rightarrow> grant" where
  "example_grant wallet =
     \<lparr>gr_workspace = ''w'', gr_cell = ''c'', gr_principal = ''p'', gr_wallet = wallet,
      gr_authority = ''owner''\<rparr>"

abbreviation sender :: grant where
  "sender \<equiv> example_grant ''alice''"

abbreviation recipient :: grant where
  "recipient \<equiv> example_grant ''bob''"

definition example_limits :: limits where
  "example_limits =
     \<lparr>payload_bytes = 8, cell_bytes = 64, active_transfers = 2, retention_seconds = 100\<rparr>"

definition example_bytes :: "u8 list" where
  "example_bytes = [1, 2, 3, 4]"

definition good_receipt :: native_receipt where
  "good_receipt =
     \<lparr>exit_code = Some 0, exit_signal = None, timed_out = False, cancelled = False,
      cleanup_verified = True, streams_complete = True, output_truncated = False\<rparr>"

definition example_produced :: produced_payload where
  "example_produced =
     \<lparr>pp_native = good_receipt,
      pp_manifest = Some \<lparr>mf_bytes = 4, mf_sha256 = example_sha example_bytes\<rparr>\<rparr>"

definition example_handle :: string where
  "example_handle = ''payload-'' @ example_sha [7]"

definition vault0 :: vault where
  "vault0 = empty_vault ''w'' ''c'' example_limits"

text \<open>The transfer after each call, and the vault that holds it.\<close>

definition transfer1 :: transfer where
  "transfer1 = reserved_transfer vault0 sender recipient example_handle 8 10"

definition transfer2 :: transfer where
  "transfer2 = transfer1\<lparr>t_revision := 1, t_capture := Started,
     t_source := default_stage\<lparr>operation_id := Some ''send''\<rparr>\<rparr>"

definition transfer3 :: transfer where
  "transfer3 = transfer2\<lparr>t_revision := 4, t_capture := Ready, t_bytes := Some 4,
     t_sha256 := Some (example_sha example_bytes), t_source_manifest := pp_manifest example_produced,
     t_source := default_stage\<lparr>operation_id := Some ''send'', receipt := Some good_receipt\<rparr>\<rparr>"

definition transfer4 :: transfer where
  "transfer4 = transfer3\<lparr>t_revision := 5, t_delivered := True\<rparr>"

definition transfer5 :: transfer where
  "transfer5 = transfer4\<lparr>t_revision := 6,
     t_receiver := default_stage\<lparr>operation_id := Some ''import''\<rparr>\<rparr>"

definition transfer6 :: transfer where
  "transfer6 = transfer5\<lparr>t_revision := 7,
     t_receiver := default_stage\<lparr>operation_id := Some ''import'', input_started := True\<rparr>\<rparr>"

definition example_row :: "transfer \<Rightarrow> transfer_row" where
  "example_row t =
     \<lparr>row_id = 1, handle = example_handle, request_key = request_scope sender ''k'',
      request_json = Requested (grant_identity sender) (grant_identity recipient) 8,
      source_json = grant_identity sender, destination_json = grant_identity recipient,
      metadata = t, row_capacity = 16\<rparr>"

definition example_vault :: "transfer \<Rightarrow> u8 list \<Rightarrow> u8 list \<Rightarrow> vault" where
  "example_vault t source inbox =
     \<lparr>vlt_workspace = ''w'', vlt_cell = ''c'', vlt_limits = example_limits, vlt_closed = False,
      vlt_rows = [example_row t], vlt_payloads = [(2, source), (3, inbox)]\<rparr>"

lemma example_vault_row [simp]:
  "vlt_rows (example_vault t source inbox) = [example_row t]" "metadata (example_row t) = t"
  "handle (example_row t) = example_handle"
  by (simp_all add: example_vault_def example_row_def)

definition vault1 :: vault where
  "vault1 = example_vault transfer1 [0, 0, 0, 0, 0, 0, 0, 0] [0, 0, 0, 0, 0, 0, 0, 0]"

definition vault2 :: vault where
  "vault2 = example_vault transfer2 [0, 0, 0, 0, 0, 0, 0, 0] [0, 0, 0, 0, 0, 0, 0, 0]"

definition vault3 :: vault where
  "vault3 = example_vault transfer3 [1, 2, 3, 4, 0, 0, 0, 0] [0, 0, 0, 0, 0, 0, 0, 0]"

definition vault4 :: vault where
  "vault4 = example_vault transfer4 [1, 2, 3, 4, 0, 0, 0, 0] [1, 2, 3, 4, 0, 0, 0, 0]"

definition vault5 :: vault where
  "vault5 = example_vault transfer5 [1, 2, 3, 4, 0, 0, 0, 0] [1, 2, 3, 4, 0, 0, 0, 0]"

definition vault6 :: vault where
  "vault6 = example_vault transfer6 [1, 2, 3, 4, 0, 0, 0, 0] [1, 2, 3, 4, 0, 0, 0, 0]"

definition working_consumer :: consumer where
  "working_consumer = \<lparr>accepts = None, flushes = True\<rparr>"

lemma example_prepare:
  "prepare example_sha vault0 sender recipient ''k'' 8 (Some [7]) (Some 10) = (vault1, Inr transfer1)"
  by code_simp

lemma example_begin_capture:
  "begin_capture vault1 sender example_handle ''send'' (Some 11) (Some 11) = (vault2, Inr transfer2)"
  by code_simp

lemma example_capture:
  "capture_payload example_sha vault2 sender example_handle ''send''
     [Some [1, 2], Some [3, 4], Some []] example_produced (Some 12) (Some 12) = (vault3, Inr transfer3)"
  by code_simp

lemma example_deliver:
  "deliver example_sha vault3 recipient example_handle (Some 13) (Some 13) = (vault4, Inr transfer4)"
  by code_simp

lemma example_begin_receive:
  "begin_receive example_sha vault4 recipient example_handle ''import'' (Some 14) (Some 14)
     = (vault5, Inr transfer5)"
  by code_simp

lemma example_consume:
  "consume example_sha vault5 recipient example_handle ''import'' working_consumer
     (Some 15) (Some 15) = (vault6, example_bytes, Inr ())"
  by code_simp

lemma example_vault_reachable:
  "vault_reachable example_sha vault0" "vault_reachable example_sha vault1"
  "vault_reachable example_sha vault2" "vault_reachable example_sha vault3"
  "vault_reachable example_sha vault4" "vault_reachable example_sha vault5"
  "vault_reachable example_sha vault6"
proof -
  show r0: "vault_reachable example_sha vault0" unfolding vault0_def by (rule vault_reachable_empty)
  show r1: "vault_reachable example_sha vault1"
    by (rule vault_reachable_step [OF r0 op_prepare [OF example_prepare]])
  show r2: "vault_reachable example_sha vault2"
    by (rule vault_reachable_step [OF r1 op_begin_capture [OF example_begin_capture]])
  show r3: "vault_reachable example_sha vault3"
    by (rule vault_reachable_step [OF r2 op_capture [OF example_capture]])
  show r4: "vault_reachable example_sha vault4"
    by (rule vault_reachable_step [OF r3 op_deliver [OF example_deliver]])
  show r5: "vault_reachable example_sha vault5"
    by (rule vault_reachable_step [OF r4 op_begin_receive [OF example_begin_receive]])
  show "vault_reachable example_sha vault6"
    by (rule vault_reachable_step [OF r5 op_consume [OF example_consume]])
qed

section \<open>Custody of the bytes\<close>

text \<open>
  C6: payload integrity. In every reachable vault a payload that is ready was produced by a native
  command that ended cleanly, has at least one and at most the reserved number of bytes, and both
  the recorded digest and the producer's manifest are the digest of exactly those bytes in the
  source blob; once delivered, the inbox starts with the same bytes.
\<close>

theorem payload_integrity:
  assumes "vault_reachable sha v" "r \<in> set (vlt_rows v)" "t_capture (metadata r) = Ready"
  shows "\<exists>source inbox n rc. source_of v r = Some source \<and> inbox_of v r = Some inbox
    \<and> t_bytes (metadata r) = Some n \<and> 0 < n \<and> n \<le> t_maximum_bytes (metadata r)
    \<and> unat n \<le> length source
    \<and> t_sha256 (metadata r) = Some (sha (take (unat n) source))
    \<and> t_source_manifest (metadata r) = Some \<lparr>mf_bytes = n, mf_sha256 = sha (take (unat n) source)\<rparr>
    \<and> receipt (t_source (metadata r)) = Some rc \<and> clean_success rc
    \<and> (t_delivered (metadata r) \<longrightarrow> take (unat n) inbox = take (unat n) source)"
proof -
  have inv: "row_inv sha r (source_of v r) (inbox_of v r)"
    using vault_reachable_inv [OF assms(1)] assms(2) by (simp add: vault_inv_def)
  then have st: "stage_inv (metadata r)" by (simp add: row_inv_def Let_def)
  from inv assms(3) obtain source inbox where s: "source_of v r = Some source" "inbox_of v r = Some inbox"
    and len: "length source = unat (t_maximum_bytes (metadata r))"
    and ready: "ready_inv sha (metadata r) source inbox"
    by (auto simp: row_inv_def Let_def gone_def split: option.splits)
  from ready obtain n where n: "t_bytes (metadata r) = Some n" by (auto simp: ready_inv_def split: option.splits)
  moreover have "unat n \<le> length source"
    using ready n len by (simp add: ready_inv_def word_le_nat_alt)
  moreover obtain rc where "receipt (t_source (metadata r)) = Some rc" "clean_success rc"
    using st assms(3) by (auto simp: stage_inv_def)
  ultimately show ?thesis using s ready by (auto simp: ready_inv_def)
qed

theorem payload_integrity_witness:
  "\<exists>source (n :: u32). source_of vault4 (example_row transfer4) = Some source
     \<and> t_sha256 transfer4 = Some (example_sha (take (unat n) source))"
proof -
  have ready: "t_capture (metadata (example_row transfer4)) = Ready" by code_simp
  have "example_row transfer4 \<in> set (vlt_rows vault4)" by (simp add: vault4_def)
  from payload_integrity [OF example_vault_reachable(5) this ready] show ?thesis
    unfolding example_vault_row by blast
qed

lemma stream_sent:
  assumes "inbox_of v1 r1 = Some inbox" "row_id r1 = index" "t_bytes t1 = Some n"
  shows "fst (stream v1 index t1 w) = take (length (fst (stream v1 index t1 w))) (take (unat n) inbox)
    \<and> (snd (stream v1 index t1 w) = Inr () \<longrightarrow>
        fst (stream v1 index t1 w) = take (unat n) inbox
        \<and> int (length (take (unat n) inbox)) = uint n)"
proof -
  have "blob_open v1 (index * 2 + 1) = Inr inbox"
    using assms(1,2) by (simp add: blob_open_def inbox_of_def)
  then show ?thesis using assms(3)
    by (auto simp: stream_def Let_def min_def split: option.split)
qed

text \<open>A started consumption: the fence is up, and what was sent is from the captured bytes.\<close>

lemma consume_started:
  assumes inv: "vault_inv sha v" and run: "consume sha v g h operation w n n' = (v', sent, res)"
    and some: "sent \<noteq> [] \<or> res = Inr ()"
  obtains r source size r' where "vault_row v h = Inr r" "source_of v r = Some source"
    "t_source_manifest (metadata r) = Some \<lparr>mf_bytes = size, mf_sha256 = sha (take (unat size) source)\<rparr>"
    "unat size \<le> length source"
    "sent = take (length sent) (take (unat size) source)"
    "res = Inr () \<longrightarrow> sent = take (unat size) source"
    "vault_row v' h = Inr r'" "input_started (t_receiver (metadata r'))"
  using run
proof (cases rule: consume_cases)
  case refused
  then show ?thesis using some by simp
next
  case (streamed r v1 t1)
  note commit = consume_commit_writes [OF inv streamed(1,3-8)]
  have w1: "vault_write sha v v1" and ready: "t_capture (metadata r) = Ready"
    and t1: "t1 = bump ((metadata r)\<lparr>t_receiver := (t_receiver (metadata r))\<lparr>input_started := True\<rparr>\<rparr>)"
    using commit by auto
  obtain xs ys where rows: "vlt_rows v = xs @ r # ys" and h: "handle r = h"
    using vault_rowD [OF streamed(1)] by metis
  note facts = row_facts [OF inv rows]
  have op: "operation_id (t_receiver (metadata r)) \<noteq> None" using streamed(4) by simp
  then have deliv: "t_delivered (metadata r)" using facts by (auto simp: stage_inv_def)
  from facts ready obtain source inbox where s: "source_of v r = Some source" "inbox_of v r = Some inbox"
    and len: "length source = unat (t_maximum_bytes (metadata r))"
    and ri: "ready_inv sha (metadata r) source inbox"
    by (auto simp: row_inv_def Let_def gone_def split: option.splits)
  from ri obtain size where size: "t_bytes (metadata r) = Some size" "size \<le> t_maximum_bytes (metadata r)"
    "t_source_manifest (metadata r) = Some \<lparr>mf_bytes = size, mf_sha256 = sha (take (unat size) source)\<rparr>"
    "take (unat size) inbox = take (unat size) source"
    using deliv by (auto simp: ready_inv_def split: option.splits)
  have save: "save v ((metadata r)\<lparr>t_receiver := (t_receiver (metadata r))\<lparr>input_started := True\<rparr>\<rparr>)
      = Inr (v1, t1)"
    using streamed(8) by (auto simp: consume_commit_def and_then_Inr_iff)
  from save_split [OF save rows] facts
  have v1: "v1 = v\<lparr>vlt_rows := xs @ r\<lparr>metadata := t1\<rparr> # ys\<rparr>" by auto
  have inv1: "vault_inv sha v1" by (rule vault_write_inv [OF w1 inv])
  have r1: "vault_row v1 h = Inr (r\<lparr>metadata := t1\<rparr>)"
    unfolding vault_row_iff [OF inv1] by (simp add: v1 h)
  have inbox1: "inbox_of v1 (r\<lparr>metadata := t1\<rparr>) = Some inbox" using s by (simp add: inbox_of_def v1)
  have bytes1: "t_bytes t1 = Some size" using t1 size(1) by simp
  from stream_sent [OF inbox1 _ bytes1, of "row_id r" w] size(4)
  have sent: "sent = take (length sent) (take (unat size) source)"
    "res = Inr () \<longrightarrow> sent = take (unat size) source"
    using streamed(9,10) by auto
  have "\<exists>r'. vault_row v' h = Inr r' \<and> input_started (t_receiver (metadata r'))"
  proof (cases "v' = v1")
    case True
    then show ?thesis using r1 t1 by simp
  next
    case False
    then have "interrupt v1 h = (v', snd (interrupt v1 h))" using streamed(10) by auto
    then have "(vault_op sha)\<^sup>*\<^sup>* v1 v'" by (blast intro: op_interrupt)
    from vault_ops_grow [OF this inv1 r1] t1 show ?thesis
      by (auto simp: grows_def Let_def)
  qed
  moreover have "unat size \<le> length source" using size(2) len by (simp add: word_le_nat_alt)
  ultimately show ?thesis using that [OF streamed(1) s(1) size(3) _ sent] by blast
qed

text \<open>
  the consumer gets the producer's bytes. Whatever a consumption writes to the consumer's
  private input is the beginning of the bytes the source manifest describes, and a consumption
  that succeeds has written them all: their number and digest are the manifest's.
\<close>

theorem consume_exact:
  assumes "vault_reachable sha v" "consume sha v g h operation w n n' = (v', sent, res)"
    and "sent \<noteq> [] \<or> res = Inr ()"
  shows "\<exists>r source m. vault_row v h = Inr r \<and> source_of v r = Some source
    \<and> t_source_manifest (metadata r) = Some m
    \<and> mf_sha256 m = sha (take (unat (mf_bytes m)) source)
    \<and> sent = take (length sent) (take (unat (mf_bytes m)) source)
    \<and> (res = Inr () \<longrightarrow> sha sent = mf_sha256 m \<and> int (length sent) = uint (mf_bytes m))"
proof (rule consume_started [OF vault_reachable_inv [OF assms(1)] assms(2,3)])
  fix r source size
  assume r: "vault_row v h = Inr r" "source_of v r = Some source"
    "t_source_manifest (metadata r) = Some \<lparr>mf_bytes = size, mf_sha256 = sha (take (unat size) source)\<rparr>"
    and len: "unat size \<le> length source"
    and sent: "sent = take (length sent) (take (unat size) source)"
      "res = Inr () \<longrightarrow> sent = take (unat size) source"
  have "res = Inr () \<longrightarrow> sha sent = sha (take (unat size) source) \<and> int (length sent) = uint size"
    using sent(2) covered_length [OF len] by metis
  then show ?thesis using r sent(1)
    by (intro exI [of _ r] exI [of _ source]
        exI [of _ "\<lparr>mf_bytes = size, mf_sha256 = sha (take (unat size) source)\<rparr>"]) simp
qed

theorem consume_exact_witness:
  "\<exists>r m. vault_row vault5 example_handle = Inr r \<and> t_source_manifest (metadata r) = Some m
     \<and> example_sha example_bytes = mf_sha256 m"
  using consume_exact [OF example_vault_reachable(6) example_consume] by blast

text \<open>
  C8: a payload is consumed at most once. After a consumption that sent a byte or succeeded, and
  after anything else that may happen to the vault, no consumption of the same transfer sends a
  byte or succeeds, for any grant, operation, consumer or time; it leaves the vault as it is.
\<close>

theorem consume_at_most_once:
  assumes "vault_reachable sha v" "consume sha v g h operation w n n' = (v1, sent, res)"
    and "sent \<noteq> [] \<or> res = Inr ()" and "(vault_op sha)\<^sup>*\<^sup>* v1 v2"
  shows "\<exists>e. consume sha v2 g' h operation' w' k k' = (v2, [], Inl e)"
proof -
  have inv: "vault_inv sha v" by (rule vault_reachable_inv [OF assms(1)])
  obtain r1 where r1: "vault_row v1 h = Inr r1" "input_started (t_receiver (metadata r1))"
    by (rule consume_started [OF inv assms(2,3)])
  have "vault_inv sha v1" by (rule vault_op_inv [OF op_consume [OF assms(2)] inv])
  from vault_ops_grow [OF assms(4) this r1(1)] obtain r2 where r2: "vault_row v2 h = Inr r2"
    "input_started (t_receiver (metadata r2))"
    using r1(2) by (auto simp: grows_def Let_def)
  obtain v3 sent3 res3 where run: "consume sha v2 g' h operation' w' k k' = (v3, sent3, res3)"
    by (metis prod_cases3)
  then show ?thesis
  proof (cases rule: consume_cases)
    case (streamed r v1 t1)
    then show ?thesis using r2 by simp
  qed (use run in auto)
qed

theorem consume_at_most_once_witness:
  "\<exists>e. consume example_sha vault6 recipient example_handle ''again'' working_consumer
     (Some 20) (Some 20) = (vault6, [], Inl e)"
  by (rule consume_at_most_once [OF example_vault_reachable(6) example_consume _ rtranclp.rtrancl_refl]) simp

text \<open>
  C7: the vault refines the abstract life of a payload. Any operation leaves every transfer in
  place and moves its custody along \<open>custody_step\<close>: one producer, one payload whose bytes never
  change, one consumer that streams once. A transfer that is new starts vacant.
\<close>

theorem vault_refines_custody:
  assumes "vault_reachable sha v" "vault_op sha v v'"
  shows "(\<forall>r. vault_row v h = Inr r \<longrightarrow>
      (\<exists>r'. vault_row v' h = Inr r' \<and> same_owner r r' \<and> custody_step\<^sup>*\<^sup>* (custody v r) (custody v' r')))
    \<and> (\<forall>r'. vault_row v h = Inl Access \<and> vault_row v' h = Inr r' \<longrightarrow>
        custody_step\<^sup>*\<^sup>* Vacant (custody v' r'))"
proof (intro conjI allI impI)
  have inv: "vault_inv sha v" by (rule vault_reachable_inv [OF assms(1)])
  have steps: "(vault_op sha)\<^sup>*\<^sup>* v v'" using assms(2) by blast
  fix r
  assume "vault_row v h = Inr r"
  from vault_ops_grow [OF steps inv this]
  show "\<exists>r'. vault_row v' h = Inr r' \<and> same_owner r r' \<and> custody_step\<^sup>*\<^sup>* (custody v r) (custody v' r')"
    by (auto simp: grows_def)
next
  fix r'
  assume new: "vault_row v h = Inl Access \<and> vault_row v' h = Inr r'"
  have inv: "vault_inv sha v" by (rule vault_reachable_inv [OF assms(1)])
  have steps: "(vault_write sha)\<^sup>*\<^sup>* v v'" by (rule vault_op_writes [OF assms(2) inv])
  show "custody_step\<^sup>*\<^sup>* Vacant (custody v' r')"
    by (rule vault_writes_new [OF steps inv]) (use new in auto)
qed

theorem vault_refines_custody_witness:
  "\<exists>r'. vault_row vault6 example_handle = Inr r'
     \<and> custody_step\<^sup>*\<^sup>* (custody vault5 (example_row transfer5)) (custody vault6 r')"
proof -
  have "vault_row vault5 example_handle = Inr (example_row transfer5)" by code_simp
  with vault_refines_custody [OF example_vault_reachable(6) op_consume [OF example_consume]]
  show ?thesis by blast
qed

text \<open>
  one producer per transfer. Once a transfer has left its reservation no native producer can be
  started for it, whatever happens in between: \<open>begin_capture\<close> is refused and changes nothing.
  Custody that has become uncertain is never ready again.
\<close>

theorem producer_at_most_once:
  assumes "vault_reachable sha v" "vault_row v h = Inr r" "t_capture (metadata r) \<noteq> Reserved"
    and "(vault_op sha)\<^sup>*\<^sup>* v v'"
  shows "(\<exists>e. begin_capture v' g h operation n n' = (v', Inl e))
    \<and> (\<exists>r'. vault_row v' h = Inr r' \<and> t_capture (metadata r') \<noteq> Reserved
        \<and> (t_capture (metadata r) = Unknown \<longrightarrow> t_capture (metadata r') \<noteq> Ready))"
proof -
  have inv: "vault_inv sha v" by (rule vault_reachable_inv [OF assms(1)])
  obtain r' where r': "vault_row v' h = Inr r'"
    and steps: "custody_step\<^sup>*\<^sup>* (custody v r) (custody v' r')"
    using vault_ops_grow [OF assms(4) inv assms(2)] by blast
  have "custody v r \<noteq> Vacant"
    using assms(3) by (auto simp: custody_def custody_of_def Let_def split: capture_phase.splits option.splits if_splits)
  then have "custody v' r' \<noteq> Vacant" using custody_steps_fixed [OF steps] by blast
  then have left: "t_capture (metadata r') \<noteq> Reserved" by (auto simp: custody_def custody_of_def)
  have "t_capture (metadata r') \<noteq> Ready" if "t_capture (metadata r) = Unknown"
  proof -
    have "custody v r = Uncertain" using that by (simp add: custody_def custody_of_def)
    then have "custody v' r' \<in> {Uncertain, Erased}" using custody_steps_fixed [OF steps] by blast
    then show ?thesis by (auto simp: custody_def custody_of_def Let_def split: if_splits option.splits)
  qed
  moreover have "\<exists>e. begin_capture v' g h operation n n' = (v', Inl e)"
  proof (cases "begin_capture v' g h operation n n'")
    case (Pair w res)
    then show ?thesis
    proof (cases res)
      case (Inl e)
      then show ?thesis using Pair by (auto simp: begin_capture_def in_tx_Inl)
    next
      case (Inr t)
      then show ?thesis using Pair left r'
        by (auto simp: begin_capture_def in_tx_Inr and_then_Inr_iff dest!: authorizedD split: if_splits)
    qed
  qed
  ultimately show ?thesis using r' left by blast
qed

theorem producer_at_most_once_witness:
  "\<exists>e. begin_capture vault2 sender example_handle ''other'' (Some 20) (Some 20) = (vault2, Inl e)"
proof -
  have r: "vault_row vault2 example_handle = Inr (example_row transfer2)" by code_simp
  have "t_capture (metadata (example_row transfer2)) \<noteq> Reserved" by code_simp
  from producer_at_most_once [OF example_vault_reachable(3) r this rtranclp.rtrancl_refl] show ?thesis by blast
qed

section \<open>Access and identity\<close>

text \<open>
  C9: a stranger can do nothing. A grant that is neither the source nor the destination identity of
  a transfer is denied by every operation on it, and the vault does not change; only the source
  identity can produce, release or hand the transfer to another recipient, only the destination
  identity can deliver, claim or consume. (A handoff of a principal to itself is refused as
  invalid before the transfer is read.)
\<close>

theorem stranger_denied:
  assumes "vault_row v h = Inr r"
  shows "(grant_identity g \<noteq> source_json r \<longrightarrow>
       begin_capture v g h operation n n' = (v, Inl Access)
       \<and> capture_payload sha v g h operation rd produced n n' = (v, Inl Access)
       \<and> release v g h = (v, Inl Access)
       \<and> handoff v g d h n =
           (v, Inl (if check_grant v g = Inr () \<and> check_grant v d = Inr ()
                       \<and> gr_principal g = gr_principal d then Invalid else Access)))
    \<and> (grant_identity g \<noteq> destination_json r \<longrightarrow>
       deliver sha v g h n n' = (v, Inl Access)
       \<and> begin_receive sha v g h operation n n' = (v, Inl Access)
       \<and> consume sha v g h operation w n n' = (v, [], Inl Access))
    \<and> (grant_identity g \<noteq> source_json r \<and> grant_identity g \<noteq> destination_json r \<longrightarrow>
       status v g h = Inl Access \<and> observe_native v g h operation = (v, Inl Access))"
proof -
  have check: "check_grant v x = Inr () \<or> check_grant v x = Inl Access" for x
    by (simp add: check_grant_def)
  have auth: "authorized v g h dest = Inl Access"
    if "\<not> (case dest of Some True \<Rightarrow> destination_json r = grant_identity g
            | Some False \<Rightarrow> source_json r = grant_identity g
            | None \<Rightarrow> source_json r = grant_identity g \<or> destination_json r = grant_identity g)" for dest
    using that check [of g] by (auto simp: authorized_def assms and_then_def)
  have "handoff v g d h n = (v, Inl (if check_grant v g = Inr () \<and> check_grant v d = Inr ()
      \<and> gr_principal g = gr_principal d then Invalid else Access))"
    if "grant_identity g \<noteq> source_json r"
    using check [of g] check [of d] that
    by (auto simp: handoff_def in_tx_def and_then_def assms Let_def)
  then show ?thesis
    using auth [of "Some True"] auth [of "Some False"] auth [of None]
    by (auto simp: begin_capture_def capture_payload_def release_def deliver_def begin_receive_def
        consume_def status_def observe_native_def in_tx_def and_then_def)
qed

theorem stranger_denied_witness:
  "consume example_sha vault5 (example_grant ''eve'') example_handle ''import'' working_consumer
     (Some 15) (Some 15) = (vault5, [], Inl Access)"
proof -
  have r: "vault_row vault5 example_handle = Inr (example_row transfer5)" by code_simp
  have "grant_identity (example_grant ''eve'') \<noteq> destination_json (example_row transfer5)" by code_simp
  then show ?thesis using stranger_denied [OF r] by blast
qed

text \<open>
  C10: a native operation is bound to one stage of one transfer for ever. In a reachable vault no
  operation id is held twice, and once a stage holds it, every later attempt to start a producer
  or a consumer under it is refused and changes nothing.
\<close>

theorem operation_never_reused:
  assumes "vault_reachable sha v" "r \<in> set (vlt_rows v)" "claims operation r"
    and "(vault_op sha)\<^sup>*\<^sup>* v v'"
  shows "distinct (all_operations (vlt_rows v'))
    \<and> (\<exists>e. begin_capture v' g h operation n n' = (v', Inl e))
    \<and> (\<exists>e. begin_receive sha v' g h operation n n' = (v', Inl e))"
proof -
  have inv: "vault_inv sha v" by (rule vault_reachable_inv [OF assms(1)])
  have inv': "vault_inv sha v'" using vault_ops_writes [OF assms(4) inv] by blast
  have "vault_row v (handle r) = Inr r" using vault_row_iff [OF inv] assms(2) by simp
  from vault_ops_grow [OF assms(4) inv this] obtain r' where r': "vault_row v' (handle r) = Inr r'"
    "grows r r'" by blast
  have "r' \<in> set (vlt_rows v')" using r'(1) vault_row_iff [OF inv'] by blast
  moreover have "claims operation r'" using r'(2) assms(3) by (auto simp: claims_def grows_def Let_def)
  ultimately have "filter (claims operation) (vlt_rows v') \<noteq> []" by (auto simp: filter_empty_conv)
  then have taken: "claim_operation v' operation = Inl Conflict" by (simp add: claim_operation_def)
  have "\<exists>e. begin_capture v' g h operation n n' = (v', Inl e)"
  proof (cases "begin_capture v' g h operation n n'")
    case (Pair w res)
    then show ?thesis
    proof (cases res)
      case (Inr t)
      then show ?thesis using Pair taken
        by (auto simp: begin_capture_def in_tx_Inr and_then_Inr_iff begin_capture_commit_def Let_def
            split: if_splits)
    qed (auto simp: begin_capture_def in_tx_Inl)
  qed
  moreover have "\<exists>e. begin_receive sha v' g h operation n n' = (v', Inl e)"
  proof (cases "begin_receive sha v' g h operation n n'")
    case (Pair w res)
    then show ?thesis
    proof (cases res)
      case (Inr t)
      then show ?thesis using Pair taken
        by (auto simp: begin_receive_def in_tx_Inr and_then_Inr_iff begin_receive_commit_def
            split: if_splits)
    qed (auto simp: begin_receive_def in_tx_Inl)
  qed
  ultimately show ?thesis using inv' by (simp add: vault_inv_def index_inv_def)
qed

theorem operation_never_reused_witness:
  "\<exists>e. begin_receive example_sha vault4 recipient example_handle ''send'' (Some 14) (Some 14) = (vault4, Inl e)"
proof -
  have r: "example_row transfer4 \<in> set (vlt_rows vault4)" by (simp add: vault4_def)
  have "claims ''send'' (example_row transfer4)" by code_simp
  from operation_never_reused [OF example_vault_reachable(5) r this rtranclp.rtrancl_refl]
  show ?thesis by blast
qed

text \<open>
  C11: the budget. In every reachable vault at most 4096 records exist, the transfers that hold
  bytes are at most \<open>active_transfers\<close>, no reservation is above \<open>payload_bytes\<close>, and all the
  blobs of the cell together are within \<open>cell_bytes\<close>.
\<close>

theorem vault_budget:
  assumes "vault_reachable sha v"
  shows "length (vlt_rows v) \<le> 4096
    \<and> int (length (filter (\<lambda>r. source_of v r \<noteq> None \<or> inbox_of v r \<noteq> None) (vlt_rows v)))
        \<le> uint (active_transfers (vlt_limits v))
    \<and> (\<forall>r \<in> set (vlt_rows v). t_maximum_bytes (metadata r) \<le> payload_bytes (vlt_limits v))
    \<and> (\<Sum>r\<leftarrow>vlt_rows v. int (length (the_default [] (source_of v r)))
          + int (length (the_default [] (inbox_of v r)))) \<le> uint (cell_bytes (vlt_limits v))"
proof -
  have inv: "vault_inv sha v" by (rule vault_reachable_inv [OF assms])
  then have budget: "budget_inv (vlt_limits v) (vlt_rows v)"
    and rows: "\<And>r. r \<in> set (vlt_rows v) \<Longrightarrow> row_inv sha r (source_of v r) (inbox_of v r)"
    by (auto simp: vault_inv_def)
  have held: "source_of v r \<noteq> None \<or> inbox_of v r \<noteq> None \<longleftrightarrow> active r"
    "int (length (the_default [] (source_of v r))) + int (length (the_default [] (inbox_of v r)))
      = row_capacity r" if "r \<in> set (vlt_rows v)" for r
    using rows [OF that] by (auto simp: row_inv_def Let_def active_def word_less_def split: if_splits option.splits)
  have "filter (\<lambda>r. source_of v r \<noteq> None \<or> inbox_of v r \<noteq> None) (vlt_rows v) = filter active (vlt_rows v)"
    using held(1) by (rule filter_cong [OF refl])
  moreover have "map (\<lambda>r. int (length (the_default [] (source_of v r)))
          + int (length (the_default [] (inbox_of v r)))) (vlt_rows v) = map row_capacity (vlt_rows v)"
    using held(2) by (rule map_cong [OF refl])
  ultimately show ?thesis using budget by (simp only: budget_inv_def) blast
qed

theorem vault_budget_witness:
  "length (vlt_rows vault6) \<le> 4096
    \<and> int (length (filter (\<lambda>r. source_of vault6 r \<noteq> None \<or> inbox_of vault6 r \<noteq> None) (vlt_rows vault6)))
        \<le> uint (active_transfers (vlt_limits vault6))"
  using vault_budget [OF example_vault_reachable(7)] by blast

text \<open>
  \<open>prepare\<close> is idempotent for the life of the vault. After an accepted request, and anything
  else short of closing, the same request by the same principal and authority under the same key
  returns the current metadata of the same transfer and reserves nothing; under that key any other
  request is refused. Neither changes the vault.
\<close>

theorem prepare_idempotent:
  assumes "vault_reachable sha v" "prepare sha v source destination key m random n = (v1, Inr t)"
    and "(vault_op sha)\<^sup>*\<^sup>* v1 v2" "\<not> vlt_closed v2"
    and other: "(grant_identity source', grant_identity destination', m') \<noteq>
       (grant_identity source, grant_identity destination, m)"
      "gr_principal source' = gr_principal source" "gr_authority source' = gr_authority source"
  shows "\<exists>r. vault_row v2 (t_id t) = Inr r
    \<and> prepare sha v2 source destination key m random' n' = (v2, Inr (metadata r))
    \<and> (\<exists>e. prepare sha v2 source' destination' key m' random' n' = (v2, Inl e))"
proof -
  have inv: "vault_inv sha v" by (rule vault_reachable_inv [OF assms(1)])
  have inv1: "vault_inv sha v1" by (rule vault_op_inv [OF op_prepare [OF assms(2)] inv])
  have inv2: "vault_inv sha v2" using vault_ops_writes [OF assms(3) inv1] by blast
  have "\<exists>r \<in> set (vlt_rows v1). metadata r = t \<and> request_key r = request_scope source key
      \<and> request_json r = Requested (grant_identity source) (grant_identity destination) m"
    by (rule prepare_cases [OF inv assms(2)]) auto
  then obtain r1 where r1: "r1 \<in> set (vlt_rows v1)" "metadata r1 = t"
    "request_key r1 = request_scope source key"
    "request_json r1 = Requested (grant_identity source) (grant_identity destination) m" by blast
  have "t_id t = handle r1" using inv1 r1 by (auto simp: vault_inv_def row_inv_def Let_def)
  then have "vault_row v1 (t_id t) = Inr r1" using vault_row_iff [OF inv1] r1 by simp
  from vault_ops_grow [OF assms(3) inv1 this] obtain r2 where r2: "vault_row v2 (t_id t) = Inr r2"
    and same: "same_owner r1 r2" by (auto simp: grows_def)
  have mem: "r2 \<in> set (vlt_rows v2)" using r2 vault_row_iff [OF inv2] by blast
  have key: "request_key r2 = request_scope source key"
    and req: "request_json r2 = Requested (grant_identity source) (grant_identity destination) m"
    using same r1 by (simp_all add: same_owner_def)
  have found: "List.find (\<lambda>r. request_key r = request_scope source key) (vlt_rows v2) = Some r2"
    using find_unique [of request_key "vlt_rows v2" r2] inv2 mem key
    by (simp add: vault_inv_def index_inv_def)
  have count: "as_u32 (int (length (vlt_rows v2))) = Inr (int (length (vlt_rows v2)))"
    using inv2 by (simp add: as_u32_def vault_inv_def budget_inv_def)
  have tx: "prepare_tx sha v2 source'' destination'' (request_scope source key) m'' random' n' =
      (if request_json r2 \<noteq> Requested (grant_identity source'') (grant_identity destination'') m''
       then Inl Conflict else Inr (v2, metadata r2))" for source'' destination'' m''
    using assms(4) found count by (simp add: prepare_tx_def Let_def and_then_def)
  have limits: "vlt_workspace v2 = vlt_workspace v \<and> vlt_cell v2 = vlt_cell v \<and> vlt_limits v2 = vlt_limits v"
    using vault_writes_identity vault_op_writes [OF op_prepare [OF assms(2)] inv]
      vault_ops_writes [OF assms(3) inv1] by metis
  from assms(2) have "check_grant v source = Inr ()" "check_grant v destination = Inr ()"
    "ident key" "m \<noteq> 0" "\<not> m > payload_bytes (vlt_limits v)" "gr_wallet source \<noteq> gr_wallet destination"
    by (auto simp: prepare_def in_tx_Inr and_then_Inr_iff split: if_splits)
  then have "prepare sha v2 source destination key m random' n' = (v2, Inr (metadata r2))"
    using limits tx req by (simp add: prepare_def check_grant_def and_then_def in_tx_def)
  moreover have "\<exists>e. prepare sha v2 source' destination' key m' random' n' = (v2, Inl e)"
  proof -
    have scope: "request_scope source' key = request_scope source key"
      using other(2,3) by (simp add: request_scope_def)
    have "prepare_tx sha v2 source' destination' (request_scope source key) m' random' n' = Inl Conflict"
      using tx req other(1) by auto
    then show ?thesis
      by (auto simp: prepare_def in_tx_def and_then_def scope split: sum.splits)
  qed
  ultimately show ?thesis using r2 by blast
qed

theorem prepare_idempotent_witness:
  "prepare example_sha vault1 sender recipient ''k'' 8 (Some [9]) (Some 50) = (vault1, Inr transfer1)
    \<and> (\<exists>e. prepare example_sha vault1 sender recipient ''k'' 7 (Some [9]) (Some 50) = (vault1, Inl e))"
proof -
  have open_: "\<not> vlt_closed vault1" by code_simp
  have diff: "(grant_identity sender, grant_identity recipient, 7 :: u32)
      \<noteq> (grant_identity sender, grant_identity recipient, 8)" by simp
  have "vault_row vault1 (t_id transfer1) = Inr (example_row transfer1)" by code_simp
  with prepare_idempotent [OF example_vault_reachable(1) example_prepare rtranclp.rtrancl_refl open_ diff refl refl]
  show ?thesis by (metis Inr_inject example_vault_row(2))
qed

text \<open>
  request keys of different authorities never meet. The key under which a request is stored
  determines the principal, the authority and the key it was made with.
\<close>

theorem request_scope_injective:
  assumes "ident (gr_principal g)" "ident (gr_authority g)" "ident (gr_principal g')"
    "ident (gr_authority g')" "request_scope g key = request_scope g' key'"
  shows "gr_principal g = gr_principal g' \<and> gr_authority g = gr_authority g' \<and> key = key'"
proof -
  have no_slash: "CHR ''/'' \<notin> set s" if "ident s" for s
    using that by (auto simp: ident_def list_all_iff ascii_defs of_char_Char)
  have split: "a = a' \<and> b = b'"
    if "a @ ''/'' @ b = a' @ ''/'' @ b'" "CHR ''/'' \<notin> set a" "CHR ''/'' \<notin> set a'" for a a' b b'
    using that by (auto simp: append_eq_append_conv2 append_eq_Cons_conv Cons_eq_append_conv)
  show ?thesis
    using assms(5) unfolding request_scope_def
    by (metis no_slash assms(1-4) split)
qed

theorem request_scope_injective_witness:
  "gr_principal sender = ''p'' \<and> request_scope sender ''k'' = ''p/owner/k''"
proof -
  have "ident (gr_principal sender)" "ident (gr_authority sender)" by code_simp+
  from request_scope_injective [OF this this refl] show ?thesis
    by (simp add: request_scope_def example_grant_def)
qed

section \<open>Closing and handing off\<close>

text \<open>
  closing succeeds and is final. While no revision is about to exhaust the signed 64 bits,
  \<open>close\<close> returns a receipt that verifies the cleanup: no payload byte and no reservation is left,
  and every record is kept. After it, whatever is called, no payload ever exists again, no record
  is added and every \<open>prepare\<close> is refused.
\<close>

theorem close_final:
  assumes "vault_reachable sha v" "\<forall>r \<in> set (vlt_rows v). uint (t_revision (metadata r)) < 2 ^ 63 - 1"
    and "close v = (v1, res)" and "(vault_op sha)\<^sup>*\<^sup>* v1 v2"
  shows "\<exists>rep e. res = Inr rep \<and> storage_cleanup_verified rep \<and> remaining_payload_bytes rep = 0
    \<and> retained_transfer_records rep = length (vlt_rows v)
    \<and> vlt_payloads v2 = [] \<and> map handle (vlt_rows v2) = map handle (vlt_rows v)
    \<and> prepare sha v2 source destination key m random n = (v2, Inl e)"
proof -
  have inv: "vault_inv sha v" by (rule vault_reachable_inv [OF assms(1)])
  let ?v0 = "v\<lparr>vlt_closed := True\<rparr>"
  have inv0: "vault_inv sha ?v0" using inv by simp
  have ids: "t_id (metadata r) = handle r" if "r \<in> set (vlt_rows v)" for r
    using inv that by (auto simp: vault_inv_def row_inv_def Let_def)
  then have handles: "map t_id (all_metadata ?v0) = map handle (vlt_rows v)"
    by (simp add: all_metadata_def)
  have "\<exists>v'. close_loop ?v0 (all_metadata ?v0) = (v', Inr ()) \<and>
    (\<forall>t \<in> set (all_metadata ?v0). \<exists>r'. vault_row v' (t_id t) = Inr r' \<and> gone (metadata r'))"
  proof (rule close_loop_ok [OF inv0])
    show "distinct (map t_id (all_metadata ?v0))"
      using inv by (simp only: handles) (simp add: vault_inv_def index_inv_def)
    fix t assume "t \<in> set (all_metadata ?v0)"
    then obtain r where r: "r \<in> set (vlt_rows v)" "t = metadata r" by (auto simp: all_metadata_def)
    then have "vault_row ?v0 (t_id t) = Inr r" using vault_row_iff [OF inv0] ids by simp
    then show "\<exists>r. vault_row ?v0 (t_id t) = Inr r \<and> uint (t_revision (metadata r)) < 2 ^ 63 - 1"
      using assms(2) r by blast
  qed
  then obtain v' where loop: "close_loop ?v0 (all_metadata ?v0) = (v', Inr ())"
    and all: "\<And>t. t \<in> set (all_metadata ?v0) \<Longrightarrow> \<exists>r'. vault_row v' (t_id t) = Inr r' \<and> gone (metadata r')"
    by blast
  then have v1: "v1 = v'" and res: "res = cleanup_report v1"
    using assms(3) by (auto simp: close_def Let_def)
  have w0: "(vault_write sha)\<^sup>*\<^sup>* ?v0 v1" using close_loop_writes [OF inv0 loop] by (simp add: v1)
  have inv1: "vault_inv sha v1" by (rule vault_writes_inv [OF w0 inv0])
  have w1: "(vault_write sha)\<^sup>*\<^sup>* v1 v2" and inv2: "vault_inv sha v2"
    using vault_ops_writes [OF assms(4) inv1] by auto
  have c1: "vlt_closed v1 \<and> map handle (vlt_rows v1) = map handle (vlt_rows v)"
    using vault_writes_closed [OF w0] by simp
  have gone1: "gone (metadata r)" if "r \<in> set (vlt_rows v1)" for r
  proof -
    have "handle r \<in> set (map handle (vlt_rows v))" using c1 that by (metis image_eqI set_map)
    then obtain t where t: "t \<in> set (all_metadata ?v0)" "t_id t = handle r"
      using handles by (metis (no_types, lifting) image_iff set_map)
    then obtain r' where "vault_row v1 (handle r) = Inr r'" "gone (metadata r')" using all v1 by metis
    moreover have "vault_row v1 (handle r) = Inr r" using vault_row_iff [OF inv1] that by simp
    ultimately show ?thesis by simp
  qed
  have empty1: "vlt_payloads v1 = []" "sum_list (map row_capacity (vlt_rows v1)) = 0"
    using all_gone_empty [OF inv1] gone1 by auto
  have c2: "vlt_closed v2 \<and> map handle (vlt_rows v2) = map handle (vlt_rows v1)"
    using vault_writes_closed [OF w1] c1 by simp
  have "gone (metadata r)" if "r \<in> set (vlt_rows v2)" for r
  proof -
    have "handle r \<in> set (map handle (vlt_rows v1))" using c2 that by (metis image_eqI set_map)
    then obtain r1 where r1: "r1 \<in> set (vlt_rows v1)" "handle r1 = handle r" by auto
    then have "vault_row v1 (handle r) = Inr r1" using vault_row_iff [OF inv1] by simp
    from vault_writes_row [OF w1 inv1 this] obtain r2 where "vault_row v2 (handle r) = Inr r2" "grows r1 r2"
      by blast
    moreover have "vault_row v2 (handle r) = Inr r" using vault_row_iff [OF inv2] that by simp
    ultimately show ?thesis using gone1 [OF r1(1)] by (simp add: grows_def Let_def)
  qed
  then have empty2: "vlt_payloads v2 = []" using all_gone_empty [OF inv2] by blast
  have "length (vlt_rows v1) = length (vlt_rows v)" using c1 by (metis length_map)
  then have "\<exists>rep. res = Inr rep \<and> storage_cleanup_verified rep \<and> remaining_payload_bytes rep = 0
      \<and> retained_transfer_records rep = length (vlt_rows v)"
    by (simp add: res cleanup_report_def empty1 as_u32_def and_then_def all_metadata_def)
  moreover have "\<exists>e. prepare sha v2 source destination key m random n = (v2, Inl e)"
    using c2 by (auto simp: prepare_def prepare_tx_def in_tx_def and_then_def split: sum.splits)
  ultimately show ?thesis using empty2 c1 c2 by metis
qed

theorem close_final_witness:
  "\<exists>rep. snd (close vault5) = Inr rep \<and> storage_cleanup_verified rep"
proof -
  have "list_all (\<lambda>r. uint (t_revision (metadata r)) < 2 ^ 63 - 1) (vlt_rows vault5)" by code_simp
  then have rev: "\<forall>r \<in> set (vlt_rows vault5). uint (t_revision (metadata r)) < 2 ^ 63 - 1"
    by (simp add: list_all_iff)
  from close_final [OF example_vault_reachable(6) rev prod.collapse [symmetric] rtranclp.rtrancl_refl]
  show ?thesis by blast
qed

text \<open>
  a recipient is fixed by the first hand-off. After it, for ever, the destination identity of
  the transfer is the new recipient's: any other grant is denied delivery, claim and consumption,
  the previous recipient's among them, and a hand-off to somebody else is refused.
\<close>

theorem handoff_final:
  assumes "vault_reachable sha v" "handoff v source destination h n = (v1, Inr t)"
    and "(vault_op sha)\<^sup>*\<^sup>* v1 v2" and "grant_identity g \<noteq> grant_identity destination"
  shows "\<exists>r. vault_row v2 h = Inr r \<and> destination_json r = grant_identity destination
    \<and> deliver sha v2 g h k k' = (v2, Inl Access)
    \<and> begin_receive sha v2 g h operation k k' = (v2, Inl Access)
    \<and> consume sha v2 g h operation w k k' = (v2, [], Inl Access)
    \<and> (\<exists>e. handoff v2 source g h k = (v2, Inl e))"
proof -
  have inv: "vault_inv sha v" by (rule vault_reachable_inv [OF assms(1)])
  have inv1: "vault_inv sha v1" by (rule vault_op_inv [OF op_handoff [OF assms(2)] inv])
  obtain r1 where r1: "vault_row v1 h = Inr r1" "destination_json r1 = grant_identity destination"
    "t_recipient (metadata r1) \<noteq> None"
    by (rule handoff_effect [OF inv assms(2)])
  obtain r2 where r2: "vault_row v2 h = Inr r2" "destination_json r2 = grant_identity destination"
    "t_recipient (metadata r2) \<noteq> None"
    using vault_ops_grow [OF assms(3) inv1 r1(1)] r1(2,3) by (auto simp: grows_def Let_def)
  have denied: "check_grant v2 g = Inr () \<or> check_grant v2 g = Inl Access" by (simp add: check_grant_def)
  have auth: "authorized v2 g h (Some True) = Inl Access"
    using denied r2 assms(4) by (auto simp: authorized_def and_then_def)
  have "\<exists>e. handoff v2 source g h k = (v2, Inl e)"
  proof (cases "handoff v2 source g h k")
    case (Pair v3 res)
    then show ?thesis
    proof (cases res)
      case (Inl e)
      then show ?thesis using Pair by (auto simp: handoff_def in_tx_Inl)
    next
      case (Inr t3)
      then show ?thesis using Pair r2 assms(4)
        by (auto simp: handoff_def in_tx_Inr and_then_Inr_iff Let_def split: if_splits)
    qed
  qed
  then show ?thesis using r2 auth
    by (simp add: deliver_def begin_receive_def consume_def in_tx_def and_then_def)
qed

definition example_heir :: grant where
  "example_heir = recipient\<lparr>gr_principal := ''q''\<rparr>"

definition vault_handed :: vault where
  "vault_handed = (example_vault (transfer3\<lparr>t_revision := 5, t_recipient := Some
       \<lparr>ra_principal = ''q'', ra_authority = ''owner''\<rparr>\<rparr>)
     [1, 2, 3, 4, 0, 0, 0, 0] [0, 0, 0, 0, 0, 0, 0, 0])
     \<lparr>vlt_rows := [(example_row (transfer3\<lparr>t_revision := 5, t_recipient := Some
       \<lparr>ra_principal = ''q'', ra_authority = ''owner''\<rparr>\<rparr>))
       \<lparr>destination_json := grant_identity example_heir\<rparr>]\<rparr>"

theorem handoff_final_witness:
  "deliver example_sha vault_handed recipient example_handle (Some 13) (Some 13)
     = (vault_handed, Inl Access)"
proof -
  have run: "handoff vault3 sender example_heir example_handle (Some 13)
      = (vault_handed, Inr (transfer3\<lparr>t_revision := 5, t_recipient := Some
          \<lparr>ra_principal = ''q'', ra_authority = ''owner''\<rparr>\<rparr>))"
    by code_simp
  have diff: "grant_identity recipient \<noteq> grant_identity example_heir" by code_simp
  from handoff_final [OF example_vault_reachable(4) run rtranclp.rtrancl_refl diff] show ?thesis by blast
qed

section \<open>Races, failures and success\<close>

text \<open>
  no lost update. Two handles on the same vault may both read a transfer before either
  writes. A commit based on a read that is out of date (the row is not what was read) is refused:
  neither a second producer, nor a second claim, nor a second stream, nor a delivery gets through.
\<close>

theorem stale_commit_refused:
  assumes "vault_reachable sha v" "vault_row v h = Inr r" "(vault_op sha)\<^sup>*\<^sup>* v v'"
    and "vault_row v' h = Inr r'" "r' \<noteq> r"
  shows "(\<exists>e. begin_capture_commit v' g operation (metadata r) n = Inl e)
    \<and> (\<exists>e. begin_receive_commit sha v' g h operation (row_id r) (metadata r) n = Inl e)
    \<and> (\<exists>e. consume_commit sha v' g (row_id r) (metadata r) n = Inl e)
    \<and> (t_delivered (metadata r) \<or> (\<exists>e. deliver_commit sha v' g (row_id r) (metadata r) n = Inl e))"
proof -
  have inv: "vault_inv sha v" by (rule vault_reachable_inv [OF assms(1)])
  have inv': "vault_inv sha v'" using vault_ops_writes [OF assms(3) inv] by blast
  have "grows r r'" using vault_ops_grow [OF assms(3) inv assms(2)] assms(4) by auto
  then have newer: "t_revision (metadata r) \<noteq> t_revision (metadata r')"
    and ids: "t_id (metadata r) = t_id (metadata r')"
    using assms(5) by (auto simp: grows_def Let_def)
  obtain xs ys where rows: "vlt_rows v' = xs @ r' # ys" using vault_rowD [OF assms(4)] by metis
  note facts = row_facts [OF inv' rows]
  have stale: "\<exists>e. save w t = Inl e"
    if "t_revision t = t_revision (metadata r)" "t_id t = t_id (metadata r)" "vlt_rows w = vlt_rows v'" for w t
  proof (cases "save w t")
    case (Inr x)
    then obtain w' t' where "save w t = Inr (w', t')" by (cases x) auto
    from save_split [OF this] that rows facts ids newer show ?thesis by auto
  qed auto
  have "\<exists>e. begin_capture_commit v' g operation (metadata r) n = Inl e"
    using stale [of "(metadata r)\<lparr>t_capture := Started,
      t_source := (t_source (metadata r))\<lparr>operation_id := Some operation\<rparr>\<rparr>" v']
    by (auto simp: begin_capture_commit_def Let_def and_then_def split: sum.splits)
  moreover have "\<exists>e. begin_receive_commit sha v' g h operation (row_id r) (metadata r) n = Inl e"
    using stale [of "(metadata r)\<lparr>t_receiver := (t_receiver (metadata r))\<lparr>operation_id := Some operation\<rparr>\<rparr>" v']
    by (auto simp: begin_receive_commit_def and_then_def split: sum.splits)
  moreover have "\<exists>e. consume_commit sha v' g (row_id r) (metadata r) n = Inl e"
    using stale [of "(metadata r)\<lparr>t_receiver := (t_receiver (metadata r))\<lparr>input_started := True\<rparr>\<rparr>" v']
    by (auto simp: consume_commit_def and_then_def split: sum.splits)
  moreover have "\<exists>e. deliver_commit sha v' g (row_id r) (metadata r) n = Inl e" if fresh: "\<not> t_delivered (metadata r)"
  proof (cases "deliver_commit sha v' g (row_id r) (metadata r) n")
    case (Inr x)
    then obtain inbox' where "save (put_blob (row_id r * 2 + 1) inbox' v') ((metadata r)\<lparr>t_delivered := True\<rparr>) = Inr x"
      using fresh by (auto simp: deliver_commit_def and_then_Inr_iff split: option.splits if_splits)
    then show ?thesis
      using stale [of "(metadata r)\<lparr>t_delivered := True\<rparr>" "put_blob (row_id r * 2 + 1) inbox' v'"]
      by (auto simp: put_blob_def)
  qed auto
  ultimately show ?thesis by blast
qed

theorem stale_commit_refused_witness:
  "\<exists>e. begin_receive_commit example_sha vault5 recipient example_handle ''second'' 1 transfer4 (Some 14) = Inl e"
proof -
  have r: "vault_row vault4 example_handle = Inr (example_row transfer4)" by code_simp
  have r': "vault_row vault5 example_handle = Inr (example_row transfer5)" by code_simp
  have diff: "example_row transfer5 \<noteq> example_row transfer4"
  proof -
    have "t_revision transfer5 \<noteq> t_revision transfer4" by code_simp
    then show ?thesis by (metis example_vault_row(2))
  qed
  have steps: "(vault_op example_sha)\<^sup>*\<^sup>* vault4 vault5" by (blast intro: op_begin_receive [OF example_begin_receive])
  have "row_id (example_row transfer4) = 1" by (simp add: example_row_def)
  with stale_commit_refused [OF example_vault_reachable(5) r steps r' diff] show ?thesis
    by (metis example_vault_row(2))
qed

text \<open>
  a capture that fails keeps nothing. Whatever error \<open>capture\<close> returns, no byte of any blob
  has changed; and when the error is that of an incomplete capture, custody is recorded as
  unknown, so that it cannot become ready (\<open>producer_at_most_once\<close>).
\<close>

theorem failed_capture_keeps_nothing:
  assumes "vault_reachable sha v"
    and "capture_payload sha v g h operation rd produced n n' = (v', Inl e)"
  shows "vlt_payloads v' = vlt_payloads v
    \<and> (e = CaptureFailed \<longrightarrow> (\<exists>r'. vault_row v' h = Inr r' \<and> t_capture (metadata r') = Unknown))"
proof -
  have inv: "vault_inv sha v" by (rule vault_reachable_inv [OF assms(1)])
  show ?thesis
    using inv assms(2)
  proof (cases rule: capture_payload_cases)
    case (lost v1 r1)
    have inv1: "vault_inv sha v1" by (rule vault_writes_inv [OF lost(1) inv])
    show ?thesis
      using mark_unknown_payloads [OF lost(5)] mark_unknown_row [OF inv1 lost(3,4)] lost(2,5) by auto
  next
    case (staged v2 r2)
    have "vault_inv sha v2" by (rule vault_writes_inv [OF staged(1) inv])
    from capture_staged_error [OF this staged(3,8)] staged(2) show ?thesis by simp
  qed auto
qed

theorem failed_capture_keeps_nothing_witness:
  "vlt_payloads (fst (capture_payload example_sha vault2 sender example_handle ''send''
       [Some [1, 2], None] example_produced (Some 12) (Some 12))) = vlt_payloads vault2"
proof -
  have "capture_payload example_sha vault2 sender example_handle ''send''
       [Some [1, 2], None] example_produced (Some 12) (Some 12)
     = (fst (capture_payload example_sha vault2 sender example_handle ''send''
       [Some [1, 2], None] example_produced (Some 12) (Some 12)), Inl CaptureFailed)"
    by code_simp
  from failed_capture_keeps_nothing [OF example_vault_reachable(3) this] show ?thesis by blast
qed

text \<open>What a ready row gives the integrity checks.\<close>

lemma ready_verified:
  assumes inv: "vault_inv sha v" and r: "vault_row v h = Inr r" and ready: "t_capture (metadata r) = Ready"
  obtains source inbox size where "blob_open v (row_id r * 2) = Inr source"
    "blob_open v (row_id r * 2 + 1) = Inr inbox" "t_bytes (metadata r) = Some size"
    "unat size \<le> length source" "unat size \<le> length inbox" "size \<le> t_maximum_bytes (metadata r)"
    "t_sha256 (metadata r) = Some (sha (take (unat size) source))"
    "t_delivered (metadata r) \<longrightarrow> take (unat size) inbox = take (unat size) source"
proof -
  obtain xs ys where rows: "vlt_rows v = xs @ r # ys" using vault_rowD [OF r] by metis
  from row_facts [OF inv rows] ready obtain source inbox where
    s: "source_of v r = Some source" "inbox_of v r = Some inbox"
    and len: "length source = unat (t_maximum_bytes (metadata r))"
      "length inbox = unat (t_maximum_bytes (metadata r))"
    and ri: "ready_inv sha (metadata r) source inbox"
    by (auto simp: row_inv_def Let_def gone_def split: option.splits)
  from ri obtain size where "t_bytes (metadata r) = Some size" "size \<le> t_maximum_bytes (metadata r)"
    "t_sha256 (metadata r) = Some (sha (take (unat size) source))"
    "t_delivered (metadata r) \<longrightarrow> take (unat size) inbox = take (unat size) source"
    by (auto simp: ready_inv_def split: option.splits)
  moreover from this(2) have "unat size \<le> length source" "unat size \<le> length inbox"
    using len by (simp_all add: word_le_nat_alt)
  ultimately show ?thesis using that s by (simp add: blob_open_def source_of_def inbox_of_def)
qed

lemma authorized_intro:
  assumes "vault_row v h = Inr r" "check_grant v g = Inr ()" "destination_json r = grant_identity g"
  shows "authorized v g h (Some True) = Inr r"
  using assms by (simp add: authorized_def and_then_def)

lemma admission_intro:
  assumes "vault_row v (t_id t) = Inr r" "\<not> vlt_closed v" "destination_json r = grant_identity g"
    "usable (metadata r) n = Inr ()"
  shows "admission v g t n = Inr ()"
  using assms by (simp add: admission_def and_then_def)

text \<open>
  delivery never fails for integrity. In a reachable vault that is open, the recipient of a
  ready payload can deliver it: the digest check passes, the bytes are copied and the transfer
  is marked delivered.
\<close>

theorem delivery_succeeds:
  assumes "vault_reachable sha v" "vault_row v h = Inr r" "t_capture (metadata r) = Ready"
    and "check_grant v g = Inr ()" "destination_json r = grant_identity g" "\<not> vlt_closed v"
    and "usable (metadata r) n = Inr ()" "usable (metadata r) n' = Inr ()"
    and "uint (t_revision (metadata r)) < 2 ^ 63"
  shows "\<exists>v' t. deliver sha v g h n n' = (v', Inr t) \<and> t_delivered t"
proof -
  have inv: "vault_inv sha v" by (rule vault_reachable_inv [OF assms(1)])
  obtain xs ys where rows: "vlt_rows v = xs @ r # ys" and h: "handle r = h"
    using vault_rowD [OF assms(2)] by metis
  note facts = row_facts [OF inv rows]
  have same: "vault_row v (t_id (metadata r)) = Inr r" using facts h assms(2) by simp
  note adm = admission_intro [OF same assms(6,5,8)]
  note auth = authorized_intro [OF assms(2,4,5)]
  obtain source inbox size where b: "blob_open v (row_id r * 2) = Inr source"
    "blob_open v (row_id r * 2 + 1) = Inr inbox" "t_bytes (metadata r) = Some size"
    "unat size \<le> length source" "unat size \<le> length inbox" "size \<le> t_maximum_bytes (metadata r)"
    "t_sha256 (metadata r) = Some (sha (take (unat size) source))"
    "t_delivered (metadata r) \<longrightarrow> take (unat size) inbox = take (unat size) source"
    by (rule ready_verified [OF inv assms(2,3)])
  have "\<exists>v' t. deliver_commit sha v g (row_id r) (metadata r) n' = Inr (v', t) \<and> t_delivered t"
  proof (cases "t_delivered (metadata r)")
    case True
    have "verify_blob sha v (row_id r) ''inbox_body'' (metadata r) = Inr ()"
      using b True by (intro verify_blob_ok [OF b(3,5)]) auto
    then show ?thesis using True adm by (simp add: deliver_commit_def and_then_def)
  next
    case False
    have ver: "verify_blob sha v (row_id r) ''source_body'' (metadata r) = Inr ()"
      using b by (intro verify_blob_ok [OF b(3,4)]) auto
    obtain inbox' pos where copy: "copy_bounded sha blob_write (blob_reads (unat size) source) (inbox, 0)
        (t_maximum_bytes (metadata r)) = Inr (size, sha (take (unat size) source), inbox', pos)"
      using blob_copy_ok [OF b(4,5,6)] by blast
    have "\<exists>w. save (put_blob (row_id r * 2 + 1) inbox' v) ((metadata r)\<lparr>t_delivered := True\<rparr>)
        = Inr (w, bump ((metadata r)\<lparr>t_delivered := True\<rparr>))"
      using save_ok [of "put_blob (row_id r * 2 + 1) inbox' v" xs r ys "(metadata r)\<lparr>t_delivered := True\<rparr>"]
        rows facts assms(9) by (simp add: put_blob_def)
    then show ?thesis using False adm ver b(1-3,7) copy
      by (auto simp: deliver_commit_def and_then_def)
  qed
  then show ?thesis using auth assms(3,7) by (auto simp: deliver_def and_then_def in_tx_def)
qed

theorem delivery_succeeds_witness:
  "\<exists>v' t. deliver example_sha vault3 recipient example_handle (Some 13) (Some 13) = (v', Inr t)
    \<and> t_delivered t"
proof (rule delivery_succeeds [OF example_vault_reachable(4)])
  show "vault_row vault3 example_handle = Inr (example_row transfer3)" by code_simp
qed code_simp+

text \<open>
  C12: a claimed payload reaches its consumer. In a reachable vault that is open, a recipient that
  holds the claim can stream the payload once: a consumer that takes every byte gets all of them
  and the call succeeds.
\<close>

theorem consume_succeeds:
  assumes "vault_reachable sha v" "vault_row v h = Inr r"
    and "operation_id (t_receiver (metadata r)) = Some operation" "receipt (t_receiver (metadata r)) = None"
      "\<not> interrupted (t_receiver (metadata r))" "\<not> input_started (t_receiver (metadata r))"
    and "check_grant v g = Inr ()" "destination_json r = grant_identity g" "\<not> vlt_closed v"
    and "usable (metadata r) n = Inr ()" "usable (metadata r) n' = Inr ()"
    and "uint (t_revision (metadata r)) < 2 ^ 63" "accepts w = None" "flushes w"
  shows "\<exists>v' sent. consume sha v g h operation w n n' = (v', sent, Inr ())"
proof -
  have inv: "vault_inv sha v" by (rule vault_reachable_inv [OF assms(1)])
  obtain xs ys where rows: "vlt_rows v = xs @ r # ys" and h: "handle r = h"
    using vault_rowD [OF assms(2)] by metis
  note facts = row_facts [OF inv rows]
  have same: "vault_row v (t_id (metadata r)) = Inr r" using facts h assms(2) by simp
  note adm = admission_intro [OF same assms(9,8,11)]
  note auth = authorized_intro [OF assms(2,7,8)]
  have deliv: "t_delivered (metadata r)" using facts assms(3) by (auto simp: stage_inv_def)
  then have ready: "t_capture (metadata r) = Ready"
    using facts assms(10) by (auto simp: stage_inv_def gone_def usable_def split: option.splits if_splits)
  obtain source inbox size where b: "blob_open v (row_id r * 2) = Inr source"
    "blob_open v (row_id r * 2 + 1) = Inr inbox" "t_bytes (metadata r) = Some size"
    "unat size \<le> length source" "unat size \<le> length inbox" "size \<le> t_maximum_bytes (metadata r)"
    "t_sha256 (metadata r) = Some (sha (take (unat size) source))"
    "t_delivered (metadata r) \<longrightarrow> take (unat size) inbox = take (unat size) source"
    by (rule ready_verified [OF inv assms(2) ready])
  have ver: "verify_blob sha v (row_id r) ''inbox_body'' (metadata r) = Inr ()"
    using b deliv by (intro verify_blob_ok [OF b(3,5)]) auto
  let ?t1 = "(metadata r)\<lparr>t_receiver := (t_receiver (metadata r))\<lparr>input_started := True\<rparr>\<rparr>"
  have save: "save v ?t1 = Inr (v\<lparr>vlt_rows := xs @ r\<lparr>metadata := bump ?t1\<rparr> # ys\<rparr>, bump ?t1)"
    using save_ok [OF rows, of ?t1] facts assms(12) by simp
  let ?v1 = "v\<lparr>vlt_rows := xs @ r\<lparr>metadata := bump ?t1\<rparr> # ys\<rparr>"
  have commit: "consume_commit sha v g (row_id r) (metadata r) n' = Inr (?v1, bump ?t1)"
    using adm ver save by (simp add: consume_commit_def and_then_def)
  have "blob_open ?v1 (row_id r * 2 + 1) = Inr inbox" using b(2) by (simp add: blob_open_def)
  then have "stream ?v1 (row_id r) (bump ?t1) w = (take (unat size) inbox, Inr ())"
    using b(3) assms(13,14) covered_length [OF b(5)] by (simp add: stream_def)
  then show ?thesis
    using auth assms(3-6,10) commit by (simp add: consume_def and_then_def)
qed

theorem consume_succeeds_witness:
  "\<exists>v' sent. consume example_sha vault5 recipient example_handle ''import'' working_consumer
     (Some 15) (Some 15) = (v', sent, Inr ())"
proof (rule consume_succeeds [OF example_vault_reachable(6)])
  show "vault_row vault5 example_handle = Inr (example_row transfer5)" by code_simp
qed code_simp+

end
