(* ===== verification/Json_Text.thy ===== *)
theory Json_Text
  imports Ordered_Containers
begin

text \<open>
  JSON values and the text functions of the standard library the components share:
  splitting and joining at a separator, ASCII upper case, prefixes, and replacing one byte.
\<close>

section \<open>JSON\<close>

text \<open>
  \<open>serde_json::Value\<close>. A number is kept as the integer it is, or as one that is not an integer;
  an object is its members in the order of the map.
\<close>

datatype json =
  JNull | JBool bool | JNumber int | JFloat string | JString string | JArray "json list"
  | JObject "(string \<times> json) list"

fun json_str :: "json \<Rightarrow> string option" where
  "json_str (JString s) = Some s"
| "json_str _ = None"

fun json_bool :: "json \<Rightarrow> bool option" where
  "json_bool (JBool b) = Some b"
| "json_bool _ = None"

fun json_array :: "json \<Rightarrow> json list option" where
  "json_array (JArray js) = Some js"
| "json_array _ = None"

fun json_object :: "json \<Rightarrow> (string \<times> json) list option" where
  "json_object (JObject members) = Some members"
| "json_object _ = None"

section \<open>Splitting and joining\<close>

fun split_on :: "char \<Rightarrow> string \<Rightarrow> string list" where
  "split_on c [] = [[]]"
| "split_on c (x # xs) =
     (if x = c then [] # split_on c xs
      else (x # hd (split_on c xs)) # tl (split_on c xs))"

fun join :: "string \<Rightarrow> string list \<Rightarrow> string" where
  "join sep [] = []"
| "join sep [x] = x"
| "join sep (x # y # xs) = x @ sep @ join sep (y # xs)"

lemma split_on_nonempty [simp]: "split_on c s \<noteq> []"
  by (cases s) auto

lemma split_on_free: "c \<notin> set s \<Longrightarrow> split_on c s = [s]"
  by (induction s) auto

lemma split_on_append:
  "c \<notin> set a \<Longrightarrow> split_on c (a @ c # b) = a # split_on c b"
  by (induction a) auto

lemma split_on_parts: "p \<in> set (split_on c s) \<Longrightarrow> c \<notin> set p"
proof (induction s arbitrary: p)
  case (Cons x xs)
  obtain q qs where "split_on c xs = q # qs" by (cases "split_on c xs") auto
  then show ?case using Cons by (auto split: if_splits)
qed simp

lemma join_Cons: "xs \<noteq> [] \<Longrightarrow> join sep (x # xs) = x @ sep @ join sep xs"
  by (cases xs) auto

lemma join_split_on: "join [c] (split_on c s) = s"
proof (induction s)
  case (Cons x xs)
  obtain q qs where q: "split_on c xs = q # qs" by (cases "split_on c xs") auto
  then show ?case using Cons by (cases qs) auto
qed simp

lemma split_on_join:
  "xs \<noteq> [] \<Longrightarrow> \<forall>x \<in> set xs. c \<notin> set x \<Longrightarrow> split_on c (join [c] xs) = xs"
proof (induction "[c]" xs rule: join.induct)
  case (2 x)
  then show ?case by (simp add: split_on_free)
next
  case (3 x y xs)
  then show ?case by (simp add: split_on_append)
qed simp

text \<open>A text that begins with another and a separator begins with its segments.\<close>

definition strict_prefix_at :: "char \<Rightarrow> string \<Rightarrow> string \<Rightarrow> bool" where
  "strict_prefix_at c a b \<longleftrightarrow> take (Suc (length a)) b = a @ [c]"

lemma strict_prefix_at_iff: "strict_prefix_at c a b \<longleftrightarrow> (\<exists>r. b = a @ c # r)"
proof
  assume p: "strict_prefix_at c a b"
  then have "b = (a @ [c]) @ drop (Suc (length a)) b"
    unfolding strict_prefix_at_def using append_take_drop_id by metis
  then show "\<exists>r. b = a @ c # r" by (metis append.assoc append_Cons append_Nil)
next
  assume "\<exists>r. b = a @ c # r"
  then show "strict_prefix_at c a b" by (auto simp: strict_prefix_at_def)
qed

lemma split_on_append_sep: "split_on c (a @ c # r) = split_on c a @ split_on c r"
  by (induction a) (auto simp: append_is_Nil_conv split: if_splits)

lemma strict_prefix_at_segments:
  "strict_prefix_at c a b \<longleftrightarrow> (\<exists>q. q \<noteq> [] \<and> split_on c b = split_on c a @ q)"
proof
  assume "strict_prefix_at c a b"
  then show "\<exists>q. q \<noteq> [] \<and> split_on c b = split_on c a @ q"
    by (auto simp: strict_prefix_at_iff split_on_append_sep)
next
  assume "\<exists>q. q \<noteq> [] \<and> split_on c b = split_on c a @ q"
  then obtain q where q: "q \<noteq> []" "split_on c b = split_on c a @ q" by blast
  have "b = join [c] (split_on c a @ q)" using q(2) join_split_on by metis
  also have "\<dots> = join [c] (split_on c a) @ [c] @ join [c] q"
  proof -
    have "join [c] (xs @ q) = join [c] xs @ [c] @ join [c] q" if "xs \<noteq> []" for xs
      using that q(1) by (induction "[c]" xs rule: join.induct) (auto simp: join_Cons)
    then show ?thesis by simp
  qed
  finally have "b = a @ c # join [c] q" by (simp add: join_split_on)
  then show "strict_prefix_at c a b" by (auto simp: strict_prefix_at_iff)
qed

lemma split_on_inj: "split_on c a = split_on c b \<longleftrightarrow> a = b"
  by (metis join_split_on)

section \<open>Case, prefixes and replacement\<close>

definition to_ascii_uppercase :: "string \<Rightarrow> string" where
  "to_ascii_uppercase s =
     map (\<lambda>c. if is_ascii_lowercase c then char_of (byte c - 32) else c) s"

definition string_starts_with :: "string \<Rightarrow> string \<Rightarrow> bool" where
  "string_starts_with s p \<longleftrightarrow> take (length p) s = p"

definition replace_byte :: "char \<Rightarrow> string \<Rightarrow> string \<Rightarrow> string" where
  "replace_byte c r s = concat (map (\<lambda>x. if x = c then r else [x]) s)"

lemma replace_byte_single_length: "length (replace_byte c [d] s) = length s"
  by (induction s) (auto simp: replace_byte_def)

end
