(* ===== verification/Transfer_Migration.thy ===== *)
theory Transfer_Migration
  imports Transfer_Vault Json_Text
begin

text \<open>
  The one migration of a vault (\<open>proofstorm-transfer/src/migration.rs\<close>): session identities are
  retired from the custody bindings. The rows are the text columns of the table. The JSON
  library is not under \<open>src/\<close>: \<open>parse\<close> and \<open>print\<close> stand for \<open>serde_json::from_str\<close> and
  \<open>to_string\<close>.
\<close>

section \<open>Data\<close>

record raw_row =
  rw_id :: nat
  rw_key :: string
  rw_request :: string
  rw_source :: string
  rw_destination :: string
  rw_metadata :: string

record raw_db =
  user_version :: int
  raw_rows :: "raw_row list"

type_synonym json_parser = "string \<Rightarrow> json option"
type_synonym json_printer = "json \<Rightarrow> string"

section \<open>Accessors of a JSON value\<close>

fun as_str :: "json \<Rightarrow> string vresult" where
  "as_str (JString s) = Inr s"
| "as_str _ = Inl Storage"

definition parse_text :: "json_parser \<Rightarrow> string \<Rightarrow> json vresult" where
  "parse_text parse s = (case parse s of None \<Rightarrow> Inl Storage | Some j \<Rightarrow> Inr j)"

fun sequence_results :: "'a vresult list \<Rightarrow> 'a list vresult" where
  "sequence_results [] = Inr []"
| "sequence_results (r # rs) =
     and_then r (\<lambda>x. and_then (sequence_results rs) (\<lambda>xs. Inr (x # xs)))"

fun object_get :: "json \<Rightarrow> string \<Rightarrow> json option" where
  "object_get (JObject members) name = bt_get members name"
| "object_get _ name = None"

section \<open>The migration\<close>

definition owner :: "json_parser \<Rightarrow> json_printer \<Rightarrow> string \<Rightarrow> string vresult" where
  "owner parse print encoded =
     and_then (parse_text parse encoded) (\<lambda>j.
       (case j of
          JArray vs \<Rightarrow>
            and_then (sequence_results (map as_str vs)) (\<lambda>identity.
              if length identity \<noteq> 5 then Inl Storage
              else Inr (print (JArray (map JString (identity[4 := ''owner''])))))
        | _ \<Rightarrow> Inl Storage))"

text \<open>The recipient's former lease or session becomes its authority.\<close>

definition rename_recipient :: "(string \<times> json) list \<Rightarrow> (string \<times> json) list" where
  "rename_recipient recipient =
     bt_remove ''expires_at_unix''
       (case bt_get recipient ''lease'' of
          Some authority \<Rightarrow> bt_insert ''authority'' authority (bt_remove ''lease'' recipient)
        | None \<Rightarrow>
            (case bt_get recipient ''session'' of
               Some authority \<Rightarrow> bt_insert ''authority'' authority (bt_remove ''session'' recipient)
             | None \<Rightarrow> recipient))"

definition upgrade_metadata :: "json \<Rightarrow> json" where
  "upgrade_metadata meta =
     (case meta of
        JObject members \<Rightarrow>
          (case bt_get members ''recipient'' of
             Some (JObject recipient) \<Rightarrow>
               JObject (bt_insert ''recipient'' (JObject (rename_recipient recipient)) members)
           | _ \<Rightarrow> meta)
      | _ \<Rightarrow> meta)"

definition upgrade_destination ::
  "json_parser \<Rightarrow> json_printer \<Rightarrow> json \<Rightarrow> string \<Rightarrow> string vresult" where
  "upgrade_destination parse print meta destination =
     (if object_get meta ''recipient'' \<in> {None, Some JNull}
      then owner parse print destination else Inr destination)"

definition upgrade_request :: "json_parser \<Rightarrow> json_printer \<Rightarrow> string \<Rightarrow> string vresult" where
  "upgrade_request parse print request =
     and_then (parse_text parse request) (\<lambda>j.
       (case j of
          JArray [a, b, c] \<Rightarrow>
            and_then (and_then (as_str a) (owner parse print)) (\<lambda>a'.
            and_then (and_then (as_str b) (owner parse print)) (\<lambda>b'.
              Inr (print (JArray [JString a', JString b', c]))))
        | _ \<Rightarrow> Inl Storage))"

text \<open>\<open>splitn(3, '/')\<close>: the text around the first two slashes.\<close>

definition split_once :: "string \<Rightarrow> (string \<times> string) option" where
  "split_once s =
     (case dropWhile (\<lambda>c. c \<noteq> CHR ''/'') s of
        [] \<Rightarrow> None
      | _ # rest \<Rightarrow> Some (takeWhile (\<lambda>c. c \<noteq> CHR ''/'') s, rest))"

definition next_key :: "string \<Rightarrow> string vresult" where
  "next_key key =
     (case split_once key of
        None \<Rightarrow> Inl Storage
      | Some (prin, rest) \<Rightarrow>
          (case split_once rest of
             None \<Rightarrow> Inl Storage
           | Some (_, name) \<Rightarrow> Inr (prin @ ''/owner/'' @ name)))"

definition legacy_key :: "nat \<Rightarrow> string \<Rightarrow> string" where
  "legacy_key i key = ''legacy/'' @ decimal i @ ''/'' @ key"

text \<open>\<open>UPDATE transfers SET .. WHERE id = i\<close> on a table whose request keys are unique.\<close>

definition update_raw :: "nat \<Rightarrow> (raw_row \<Rightarrow> raw_row) \<Rightarrow> raw_row list \<Rightarrow> raw_row list vresult" where
  "update_raw i f rows =
     (let rows' = map (\<lambda>r. if rw_id r = i then f r else r) rows
      in if distinct (map rw_key rows') then Inr rows' else Inl Storage)"

definition upgrade_row ::
  "json_parser \<Rightarrow> json_printer \<Rightarrow> raw_row \<Rightarrow> string list \<times> raw_row list \<Rightarrow>
   (string list \<times> raw_row list) vresult" where
  "upgrade_row parse print r state =
     (case state of (keys, rows) \<Rightarrow>
        and_then (owner parse print (rw_source r)) (\<lambda>source.
        and_then (parse_text parse (rw_metadata r)) (\<lambda>meta.
        and_then (upgrade_destination parse print meta (rw_destination r)) (\<lambda>destination.
        and_then (upgrade_request parse print (rw_request r)) (\<lambda>encoded.
        and_then (next_key (rw_key r)) (\<lambda>key.
          (let fresh = key \<notin> set keys;
               rows1 = (if fresh then rows
                        else map (\<lambda>q. if rw_key q = key then q\<lparr>rw_request := ''legacy-ambiguous''\<rparr>
                                       else q) rows);
               key' = (if fresh then key else legacy_key (rw_id r) (rw_key r))
           in and_then (update_raw (rw_id r)
                (\<lambda>q. q\<lparr>rw_key := key', rw_request := encoded, rw_source := source,
                       rw_destination := destination,
                       rw_metadata := print (upgrade_metadata meta)\<rparr>) rows1) (\<lambda>rows2.
                Inr (if fresh then key # keys else keys, rows2)))))))))"

fun upgrade_rows ::
  "json_parser \<Rightarrow> json_printer \<Rightarrow> raw_row list \<Rightarrow> string list \<times> raw_row list \<Rightarrow>
   (string list \<times> raw_row list) vresult" where
  "upgrade_rows parse print [] state = Inr state"
| "upgrade_rows parse print (r # rs) state =
     and_then (upgrade_row parse print r state) (\<lambda>state'. upgrade_rows parse print rs state')"

definition parked_key :: "nat \<Rightarrow> string" where
  "parked_key i = ''migration:'' @ decimal i"

definition upgrade :: "json_parser \<Rightarrow> json_printer \<Rightarrow> raw_db \<Rightarrow> raw_db vresult" where
  "upgrade parse print db =
     (if user_version db \<ge> 1 then Inr db
      else and_then (upgrade_rows parse print (raw_rows db)
              ([], map (\<lambda>r. r\<lparr>rw_key := parked_key (rw_id r)\<rparr>) (raw_rows db))) (\<lambda>(_, rows).
           Inr (db\<lparr>user_version := 1, raw_rows := rows\<rparr>)))"

section \<open>Opening a vault\<close>

text \<open>What the file system says of the two paths; a symbolic link is \<open>Other_Node\<close>.\<close>

datatype path_status =
  Missing | Directory "32 word" | Regular_File "32 word" | Other_Node | Unreadable

text \<open>The octal modes \<open>0o777\<close>, \<open>0o700\<close> and \<open>0o600\<close>.\<close>

abbreviation PERMISSION_BITS :: "32 word" where "PERMISSION_BITS \<equiv> 511"
abbreviation OWNER_ALL :: "32 word" where "OWNER_ALL \<equiv> 448"
abbreviation OWNER_READ_WRITE :: "32 word" where "OWNER_READ_WRITE \<equiv> 384"

definition private_directory :: "path_status \<Rightarrow> unit vresult" where
  "private_directory st =
     (case st of
        Directory mode \<Rightarrow> (if and mode PERMISSION_BITS = OWNER_ALL then Inr () else Inl Storage)
      | Missing \<Rightarrow> Inr ()
      | _ \<Rightarrow> Inl Storage)"

text \<open>\<open>create_new\<close> makes the file private; one that exists must be so already.\<close>

definition private_file :: "path_status \<Rightarrow> unit vresult" where
  "private_file st =
     (case st of
        Regular_File mode \<Rightarrow>
          (if and mode PERMISSION_BITS = OWNER_READ_WRITE then Inr () else Inl Storage)
      | Missing \<Rightarrow> Inr ()
      | _ \<Rightarrow> Inl Storage)"

definition bad_limits :: "limits \<Rightarrow> bool" where
  "bad_limits l \<longleftrightarrow> payload_bytes l = 0 \<or> payload_bytes l > 16 * 1024 * 1024
     \<or> cell_bytes l > 256 * 1024 * 1024
     \<or> cell_bytes l < ucast (payload_bytes l) * 2
     \<or> \<not> (1 \<le> active_transfers l \<and> active_transfers l \<le> 32)
     \<or> \<not> (1 \<le> retention_seconds l \<and> retention_seconds l \<le> 86400)"

text \<open>
  \<open>open\<close> on a database that is new or already at version 1; an older one is taken there by
  \<open>upgrade\<close> first. The limits are the caller's, everything else is what was stored.
\<close>

definition open_vault ::
  "path_status \<Rightarrow> path_status \<Rightarrow> string \<Rightarrow> string \<Rightarrow> limits \<Rightarrow> vault option \<Rightarrow> vault vresult" where
  "open_vault root file workspace c l stored =
     (if \<not> ident workspace \<or> \<not> ident c \<or> bad_limits l then Inl Invalid
      else and_then (private_directory root) (\<lambda>_.
           and_then (private_file file) (\<lambda>_.
             (case stored of
                None \<Rightarrow>
                  Inr \<lparr>vlt_workspace = workspace, vlt_cell = c, vlt_limits = l, vlt_closed = False,
                       vlt_rows = [], vlt_payloads = []\<rparr>
              | Some v \<Rightarrow>
                  (if (vlt_workspace v, vlt_cell v) \<noteq> (workspace, c) then Inl Access
                   else Inr (v\<lparr>vlt_limits := l\<rparr>))))))"

lemma and_then_simps [simp]: "and_then (Inl e) f = Inl e" "and_then (Inr x) f = f x"
  by (simp_all add: and_then_def)

section \<open>Keys\<close>

lemma split_once_Some:
  "split_once s = Some (a, b) \<longleftrightarrow> s = a @ ''/'' @ b \<and> CHR ''/'' \<notin> set a"
proof
  assume "split_once s = Some (a, b)"
  then obtain c where c: "dropWhile (\<lambda>c. c \<noteq> CHR ''/'') s = c # b"
    and a: "a = takeWhile (\<lambda>c. c \<noteq> CHR ''/'') s"
    by (auto simp: split_once_def split: list.splits)
  have "c = CHR ''/''" using hd_dropWhile [of "\<lambda>c. c \<noteq> CHR ''/''" s] c by simp
  then have "s = a @ ''/'' @ b" using takeWhile_dropWhile_id [of "\<lambda>c. c \<noteq> CHR ''/''" s] c a by simp
  then show "s = a @ ''/'' @ b \<and> CHR ''/'' \<notin> set a"
    using a by (auto dest: set_takeWhileD)
next
  assume s: "s = a @ ''/'' @ b \<and> CHR ''/'' \<notin> set a"
  then have "dropWhile (\<lambda>c. c \<noteq> CHR ''/'') s = ''/'' @ b" "takeWhile (\<lambda>c. c \<noteq> CHR ''/'') s = a"
    by (auto simp: dropWhile_append takeWhile_append dropWhile_eq_Nil_conv takeWhile_eq_all_conv)
  then show "split_once s = Some (a, b)" by (simp add: split_once_def)
qed

lemma split_unique:
  assumes "a @ ''/'' @ b = a' @ ''/'' @ b'" "CHR ''/'' \<notin> set a" "CHR ''/'' \<notin> set a'"
  shows "a = a' \<and> b = b'"
proof -
  have "split_once (a @ ''/'' @ b) = Some (a, b)" using split_once_Some assms(2) by blast
  moreover have "split_once (a @ ''/'' @ b) = Some (a', b')" using split_once_Some assms(1,3) by blast
  ultimately show ?thesis by simp
qed

section \<open>Unique keys\<close>

lemma next_key_form:
  assumes "next_key key = Inr k"
  obtains prin name where "k = prin @ ''/owner/'' @ name" "CHR ''/'' \<notin> set prin"
  using assms by (auto simp: next_key_def split_once_Some split: option.splits)

lemma decimal_no_slash: "CHR ''/'' \<notin> set (decimal n)"
  using decimal_digits [of "CHR ''/''" n] by (auto simp: byte_def)

lemma legacy_key_inj:
  assumes "legacy_key i key = legacy_key j key'"
  shows "i = j"
proof -
  have "decimal i @ ''/'' @ key = decimal j @ ''/'' @ key'"
    using assms by (simp add: legacy_key_def)
  then have "decimal i = decimal j"
    using split_unique [OF _ decimal_no_slash decimal_no_slash] by blast
  then show ?thesis by (rule decimal_inj)
qed

lemma next_key_not_legacy:
  assumes "next_key key = Inr k"
  shows "k \<noteq> legacy_key i key'"
proof
  assume eq: "k = legacy_key i key'"
  obtain prin name where k: "k = prin @ ''/owner/'' @ name" "CHR ''/'' \<notin> set prin"
    by (rule next_key_form [OF assms])
  have *: "prin @ ''/'' @ (''owner/'' @ name) = ''legacy'' @ ''/'' @ (decimal i @ ''/'' @ key')"
    using k(1) eq by (simp add: legacy_key_def)
  have "''owner/'' @ name = decimal i @ ''/'' @ key'"
    using split_unique [OF * k(2)] by simp
  then have **: "''owner'' @ ''/'' @ name = decimal i @ ''/'' @ key'" by simp
  have "''owner'' = decimal i"
    using split_unique [OF ** _ decimal_no_slash] by simp
  then have "CHR ''o'' \<in> set (decimal i)" by (metis list.set_intros(1))
  then have "byte (CHR ''o'') \<le> 57" using decimal_digits by blast
  then show False by (simp add: byte_def)
qed

lemma parked_key_inj: "parked_key i = parked_key j \<Longrightarrow> i = j"
  by (auto simp: parked_key_def dest: decimal_inj)

lemma parked_no_slash: "CHR ''/'' \<notin> set (parked_key i)"
  using decimal_no_slash by (auto simp: parked_key_def)

lemma next_key_slash: "next_key key = Inr k \<Longrightarrow> CHR ''/'' \<in> set k"
  by (erule next_key_form) simp

lemma next_key_not_parked: "next_key key = Inr k \<Longrightarrow> k \<noteq> parked_key i"
  using parked_no_slash next_key_slash by blast

lemma legacy_slash: "CHR ''/'' \<in> set (legacy_key i key)"
  by (simp add: legacy_key_def)

lemma legacy_not_parked: "legacy_key i key \<noteq> parked_key j"
  using parked_no_slash legacy_slash by metis

section \<open>The table while it is being migrated\<close>

text \<open>
  \<open>ds\<close> are the rows already done, as they were. A row still to come is parked; a row that is done
  has the normalized key of some row or a legacy one. A normalized key two rows share is
  ambiguous.
\<close>

definition has_next :: "string \<Rightarrow> raw_row \<Rightarrow> bool" where
  "has_next k r \<longleftrightarrow> next_key (rw_key r) = Inr k"

definition ambiguous :: "raw_row list \<Rightarrow> string \<Rightarrow> bool" where
  "ambiguous ds k \<longleftrightarrow> 2 \<le> length (filter (has_next k) ds)"

definition key_of :: "raw_row list \<Rightarrow> raw_row \<Rightarrow> bool" where
  "key_of ds q \<longleftrightarrow>
     (if rw_id q \<in> rw_id ` set ds
      then (\<exists>r \<in> set ds. has_next (rw_key q) r) \<or> (\<exists>key. rw_key q = legacy_key (rw_id q) key)
      else rw_key q = parked_key (rw_id q))"

definition half_migrated ::
  "raw_row list \<Rightarrow> raw_row list \<Rightarrow> string list \<times> raw_row list \<Rightarrow> bool" where
  "half_migrated ds rs state \<longleftrightarrow>
     (case state of (keys, rows) \<Rightarrow>
        map rw_id rows = map rw_id (ds @ rs) \<and> distinct (map rw_id rows)
        \<and> distinct (map rw_key rows)
        \<and> (\<forall>k. k \<in> set keys \<longleftrightarrow> (\<exists>r \<in> set ds. has_next k r))
        \<and> (\<forall>q \<in> set rows. key_of ds q)
        \<and> (\<forall>q \<in> set rows. ambiguous ds (rw_key q) \<longrightarrow> rw_request q = ''legacy-ambiguous''))"

text \<open>What one row needs to be converted: each of its texts parses to the shape expected.\<close>

definition convertible :: "json_parser \<Rightarrow> json_printer \<Rightarrow> raw_row \<Rightarrow> bool" where
  "convertible parse print r \<longleftrightarrow>
     \<not> isl (owner parse print (rw_source r))
     \<and> (case parse (rw_metadata r) of None \<Rightarrow> False
        | Some meta \<Rightarrow> \<not> isl (upgrade_destination parse print meta (rw_destination r)))
     \<and> \<not> isl (upgrade_request parse print (rw_request r))
     \<and> \<not> isl (next_key (rw_key r))"

lemma not_isl: "\<not> isl r \<longleftrightarrow> (\<exists>x. r = Inr x)"
  by (cases r) auto

lemma ambiguous_snoc:
  "ambiguous (ds @ [r]) k \<Longrightarrow> ambiguous ds k \<or> (has_next k r \<and> (\<exists>r \<in> set ds. has_next k r))"
proof -
  assume a: "ambiguous (ds @ [r]) k"
  have "filter (has_next k) ds \<noteq> [] \<Longrightarrow> \<exists>r \<in> set ds. has_next k r"
    by (auto simp: filter_empty_conv)
  then show ?thesis using a by (auto simp: ambiguous_def split: if_splits)
qed

lemma ambiguous_has_next: "ambiguous ds k \<Longrightarrow> \<exists>r \<in> set ds. has_next k r"
  unfolding ambiguous_def by (metis filter_empty_conv list.size(3) not_numeral_le_zero)

lemma distinct_update:
  assumes "distinct (map rw_key rows)" "distinct (map rw_id rows)"
    "\<And>q. q \<in> set rows \<Longrightarrow> rw_id q \<noteq> i \<Longrightarrow> rw_key q \<noteq> k" "\<And>q. rw_key (f q) = k"
  shows "distinct (map (\<lambda>r. rw_key (if rw_id r = i then f r else r)) rows)"
  using assms
proof (induction rows)
  case (Cons r rows)
  have tail: "distinct (map (\<lambda>r. rw_key (if rw_id r = i then f r else r)) rows)"
    using Cons by simp
  show ?case
  proof (cases "rw_id r = i")
    case True
    then have "\<And>q. q \<in> set rows \<Longrightarrow> rw_id q \<noteq> i"
      using Cons.prems(2) by (metis distinct.simps(2) image_eqI list.simps(9) set_map)
    then show ?thesis using tail True Cons.prems(3,4) by (auto simp del: map_map)
  next
    case False
    then have "rw_key r \<noteq> k" using Cons.prems(3) by simp
    moreover have "\<forall>q \<in> set rows. rw_key q \<noteq> rw_key r" using Cons.prems(1) by (simp add: image_iff) metis
    ultimately show ?thesis using tail False Cons.prems(4) by (auto split: if_splits)
  qed
qed simp

lemma key_of_others:
  assumes "key_of ds q" "rw_id q \<noteq> rw_id r" "rw_id q' = rw_id q" "rw_key q' = rw_key q"
  shows "key_of (ds @ [r]) q'"
  using assms by (auto simp: key_of_def split: if_splits)

lemma key_of_fresh:
  assumes "key_of ds q" "has_next k r" "\<not> (\<exists>r \<in> set ds. has_next k r)"
  shows "rw_key q \<noteq> k"
  using assms next_key_not_parked next_key_not_legacy unfolding key_of_def has_next_def
  by metis

lemma key_of_not_legacy:
  assumes "key_of ds q" "rw_id q \<noteq> i"
  shows "rw_key q \<noteq> legacy_key i key"
  using assms next_key_not_legacy legacy_key_inj legacy_not_parked
  unfolding key_of_def has_next_def by metis

lemma legacy_not_ambiguous: "\<not> ambiguous ds (legacy_key i key)"
  using ambiguous_has_next next_key_not_legacy unfolding has_next_def by blast

lemma half_migratedD:
  assumes "half_migrated ds rs (keys, rows)"
  shows "distinct (map rw_key rows)" "distinct (map rw_id rows)"
    "k \<in> set keys \<longleftrightarrow> (\<exists>r \<in> set ds. has_next k r)" "q \<in> set rows \<Longrightarrow> key_of ds q"
    "q \<in> set rows \<Longrightarrow> ambiguous ds (rw_key q) \<Longrightarrow> rw_request q = ''legacy-ambiguous''"
  using assms unfolding half_migrated_def prod.case by blast+

text \<open>Both branches of a row, on the table they leave.\<close>

lemma half_migrated_update:
  assumes inv: "half_migrated ds (r # rs) (keys, rows)"
    and upd: "\<And>q. q \<in> set rows \<Longrightarrow> rw_id (g q) = rw_id q \<and> (rw_id q \<noteq> rw_id r \<longrightarrow> rw_key (g q) = rw_key q)
       \<and> (rw_id q = rw_id r \<longrightarrow> rw_key (g q) = k)"
    and fresh: "\<And>q. q \<in> set rows \<Longrightarrow> rw_id q \<noteq> rw_id r \<Longrightarrow> rw_key q \<noteq> k"
    and k: "(\<exists>r \<in> set (ds @ [r]). has_next k r) \<or> (\<exists>key. k = legacy_key (rw_id r) key)"
    and keys: "\<And>k. k \<in> set keys' \<longleftrightarrow> (\<exists>r \<in> set (ds @ [r]). has_next k r)"
    and amb: "\<And>q. q \<in> set rows \<Longrightarrow> ambiguous (ds @ [r]) (rw_key (g q)) \<Longrightarrow> rw_request (g q) = ''legacy-ambiguous''"
  shows "half_migrated (ds @ [r]) rs (keys', map g rows)"
proof -
  have ids: "map rw_id (map g rows) = map rw_id rows" using upd by auto
  have "map (\<lambda>q. rw_key (g q)) rows
      = map (\<lambda>q. rw_key (if rw_id q = rw_id r then q\<lparr>rw_key := k\<rparr> else q)) rows"
    using upd by auto
  moreover have "distinct \<dots>"
    by (rule distinct_update [OF half_migratedD(1,2) [OF inv]]) (use fresh in auto)
  ultimately have "distinct (map (\<lambda>q. rw_key (g q)) rows)" by (simp only:)
  then have dk: "distinct (map rw_key (map g rows))" by (simp add: comp_def)
  have ko: "key_of (ds @ [r]) (g q)" if q: "q \<in> set rows" for q
  proof (cases "rw_id q = rw_id r")
    case True
    then show ?thesis using upd [OF q] k by (auto simp: key_of_def)
  next
    case False
    show ?thesis
      by (rule key_of_others [OF half_migratedD(4) [OF inv q] False]) (use upd [OF q] False in auto)
  qed
  have "distinct (map rw_id (map g rows))" using half_migratedD(2) [OF inv] ids by (simp only:)
  moreover have "map rw_id (map g rows) = map rw_id ((ds @ [r]) @ rs)"
    using inv ids by (simp add: half_migrated_def)
  ultimately show ?thesis
    using dk ko keys amb unfolding half_migrated_def prod.case by auto
qed

lemma upgrade_row_step:
  assumes inv: "half_migrated ds (r # rs) (keys, rows)" and conv: "convertible parse print r"
  shows "\<exists>st. upgrade_row parse print r (keys, rows) = Inr st \<and> half_migrated (ds @ [r]) rs st"
proof -
  obtain source meta destination encoded key where
    c: "owner parse print (rw_source r) = Inr source" "parse (rw_metadata r) = Some meta"
      "upgrade_destination parse print meta (rw_destination r) = Inr destination"
      "upgrade_request parse print (rw_request r) = Inr encoded" "next_key (rw_key r) = Inr key"
    using conv by (auto simp: convertible_def not_isl split: option.splits sum.splits)
  have hn: "has_next key r" using c(5) by (simp add: has_next_def)
  have only: "\<And>k. has_next k r \<longleftrightarrow> k = key" using c(5) by (auto simp: has_next_def)
  have known: "\<And>k. k \<in> set keys \<longleftrightarrow> (\<exists>r \<in> set ds. has_next k r)"
    and kof: "\<And>q. q \<in> set rows \<Longrightarrow> key_of ds q"
    and amb: "\<And>q. q \<in> set rows \<Longrightarrow> ambiguous ds (rw_key q) \<Longrightarrow> rw_request q = ''legacy-ambiguous''"
    and dk: "distinct (map rw_key rows)" and di: "distinct (map rw_id rows)"
    using half_migratedD [OF inv] by blast+
  define f where "f k = (\<lambda>q :: raw_row. q\<lparr>rw_key := k, rw_request := encoded, rw_source := source,
    rw_destination := destination, rw_metadata := print (upgrade_metadata meta)\<rparr>)" for k
  show ?thesis
  proof (cases "key \<in> set keys")
    case False
    define g where "g q = (if rw_id q = rw_id r then f key q else q)" for q :: raw_row
    have fresh: "rw_key q \<noteq> key" if "q \<in> set rows" for q
      using key_of_fresh [OF kof [OF that] hn] False known by blast
    have d: "distinct (map (\<lambda>q. rw_key (g q)) rows)"
      unfolding g_def by (rule distinct_update [OF dk di]) (use fresh in \<open>auto simp: f_def\<close>)
    have update: "update_raw (rw_id r) (f key) rows = Inr (map g rows)"
      using d by (simp add: update_raw_def g_def [abs_def] comp_def)
    have run: "upgrade_row parse print r (keys, rows) = Inr (key # keys, map g rows)"
      using c False update by (simp add: upgrade_row_def parse_text_def f_def)
    have amb': "rw_request (g q) = ''legacy-ambiguous''"
      if "q \<in> set rows" "ambiguous (ds @ [r]) (rw_key (g q))" for q
    proof -
      have a: "ambiguous ds (rw_key (g q))"
        using ambiguous_snoc [OF that(2)] only known [of key] False by auto
      have "rw_id q \<noteq> rw_id r"
      proof
        assume "rw_id q = rw_id r"
        then have "rw_key (g q) = key" by (simp add: g_def f_def)
        then show False using ambiguous_has_next [OF a] known [of key] False by simp
      qed
      then show ?thesis using amb [OF that(1)] a by (simp add: g_def)
    qed
    have "half_migrated (ds @ [r]) rs (key # keys, map g rows)"
      by (rule half_migrated_update [OF inv, of g key])
        (use fresh hn known only amb' in \<open>auto simp: g_def f_def\<close>)
    then show ?thesis using run by blast
  next
    case True
    define k where "k = legacy_key (rw_id r) (rw_key r)"
    define m where "m q = (if rw_key q = key then q\<lparr>rw_request := ''legacy-ambiguous''\<rparr> else q)" for q :: raw_row
    define g where "g q = (if rw_id (m q) = rw_id r then f k (m q) else m q)" for q :: raw_row
    have m: "rw_id (m q) = rw_id q" "rw_key (m q) = rw_key q" for q by (auto simp: m_def)
    have fresh: "rw_key q \<noteq> k" if "q \<in> set rows" "rw_id q \<noteq> rw_id r" for q
      unfolding k_def by (rule key_of_not_legacy [OF kof [OF that(1)] that(2)])
    have eq: "map (\<lambda>q. rw_key (g q)) rows
        = map (\<lambda>q. rw_key (if rw_id q = rw_id r then f k q else q)) rows"
      by (auto simp: g_def m f_def)
    have d: "distinct (map (\<lambda>q. rw_key (g q)) rows)"
      unfolding eq by (rule distinct_update [OF dk di]) (use fresh in \<open>auto simp: f_def\<close>)
    have update: "update_raw (rw_id r) (f k) (map m rows) = Inr (map g rows)"
      using d by (simp add: update_raw_def g_def [abs_def] comp_def)
    have run: "upgrade_row parse print r (keys, rows) = Inr (keys, map g rows)"
      using c True update unfolding m_def [abs_def]
      by (simp add: upgrade_row_def parse_text_def f_def k_def)
    have amb': "rw_request (g q) = ''legacy-ambiguous''"
      if q: "q \<in> set rows" and a: "ambiguous (ds @ [r]) (rw_key (g q))" for q
    proof -
      have other: "rw_id q \<noteq> rw_id r"
      proof
        assume "rw_id q = rw_id r"
        then have "rw_key (g q) = k" by (simp add: g_def f_def m)
        then show False using a legacy_not_ambiguous k_def by metis
      qed
      then have gq: "g q = m q" by (simp add: g_def m)
      show ?thesis
      proof (cases "rw_key q = key")
        case True
        then show ?thesis using gq by (simp add: m_def)
      next
        case False
        then have "ambiguous ds (rw_key q)"
          using ambiguous_snoc [OF a] gq only m by auto
        then show ?thesis using amb [OF q] gq False by (simp add: m_def)
      qed
    qed
    have "half_migrated (ds @ [r]) rs (keys, map g rows)"
    proof (rule half_migrated_update [OF inv, of g k])
      show "x \<in> set keys \<longleftrightarrow> (\<exists>r \<in> set (ds @ [r]). has_next x r)" for x
        using known only True by auto
    qed (use fresh amb' k_def in \<open>auto simp: g_def f_def m\<close>)
    then show ?thesis using run by blast
  qed
qed

lemma upgrade_rows_steps:
  assumes "half_migrated ds rs st" "list_all (convertible parse print) rs"
  shows "\<exists>st'. upgrade_rows parse print rs st = Inr st' \<and> half_migrated (ds @ rs) [] st'"
  using assms
proof (induction rs arbitrary: ds st)
  case (Cons r rs)
  obtain keys rows where st: "st = (keys, rows)" by fastforce
  obtain st1 where "upgrade_row parse print r st = Inr st1" "half_migrated (ds @ [r]) rs st1"
    using upgrade_row_step [of ds r rs keys rows parse print] Cons.prems st by auto
  then show ?case using Cons.IH [of "ds @ [r]" st1] Cons.prems(2) by (simp add: and_then_def)
qed simp

lemma parked_half_migrated:
  assumes "distinct (map rw_id rows)"
  shows "half_migrated [] rows ([], map (\<lambda>r. r\<lparr>rw_key := parked_key (rw_id r)\<rparr>) rows)"
proof -
  have "distinct (map (\<lambda>r. parked_key (rw_id r)) rows)"
    using assms parked_key_inj by (auto simp: distinct_map inj_on_def)
  then show ?thesis
    using assms by (auto simp: half_migrated_def comp_def key_of_def ambiguous_def)
qed

section \<open>Properties\<close>

text \<open>
  C13: A vault of the old format whose texts parse is always migrated: the table's UNIQUE key is
  never violated, every handle keeps its row, and the vault is at version 1.
\<close>

theorem migration_keeps_every_row:
  assumes "user_version db < 1" "distinct (map rw_id (raw_rows db))"
    "list_all (convertible parse print) (raw_rows db)"
  shows "\<exists>db'. upgrade parse print db = Inr db' \<and> user_version db' = 1
    \<and> map rw_id (raw_rows db') = map rw_id (raw_rows db) \<and> distinct (map rw_key (raw_rows db'))"
proof -
  obtain keys rows where "upgrade_rows parse print (raw_rows db)
      ([], map (\<lambda>r. r\<lparr>rw_key := parked_key (rw_id r)\<rparr>) (raw_rows db)) = Inr (keys, rows)"
    "half_migrated (raw_rows db) [] (keys, rows)"
    using upgrade_rows_steps [OF parked_half_migrated [OF assms(2)] assms(3)] by auto
  then show ?thesis using assms(1) by (auto simp: upgrade_def half_migrated_def and_then_def)
qed

text \<open>Two sessions of one principal used the same name.\<close>

definition sample_parse :: json_parser where
  "sample_parse s =
     (if s = ''S'' then Some (JArray (map JString [''w'', ''c'', ''a'', ''n'', ''s'']))
      else if s = ''R'' then Some (JArray [JString ''S'', JString ''S'', JNull])
      else if s = ''M'' then Some (JObject []) else None)"

definition sample_print :: json_printer where
  "sample_print j = (case j of JObject _ \<Rightarrow> ''M'' | _ \<Rightarrow> ''S'')"

definition sample_row :: "nat \<Rightarrow> string \<Rightarrow> raw_row" where
  "sample_row i key = \<lparr>rw_id = i, rw_key = key, rw_request = ''R'', rw_source = ''S'',
     rw_destination = ''S'', rw_metadata = ''M''\<rparr>"

definition sample_db :: raw_db where
  "sample_db = \<lparr>user_version = 0, raw_rows = [sample_row 1 ''a/s/n'', sample_row 2 ''a/t/n'']\<rparr>"

lemma sample_db_old: "user_version sample_db < 1"
  by code_simp

lemma sample_db_ids: "distinct (map rw_id (raw_rows sample_db))"
  by code_simp

lemma sample_db_convertible: "list_all (convertible sample_parse sample_print) (raw_rows sample_db)"
  by code_simp

lemma sample_db_ambiguous: "ambiguous (raw_rows sample_db) ''a/owner/n''"
  by code_simp

lemma sample_db_upgraded:
  "upgrade sample_parse sample_print sample_db
   = Inr \<lparr>user_version = 1, raw_rows =
       [(sample_row 1 ''a/owner/n'')\<lparr>rw_request := ''legacy-ambiguous''\<rparr>,
        (sample_row 2 ''legacy/2/a/t/n'')\<lparr>rw_request := ''S''\<rparr>]\<rparr>"
  by code_simp

theorem migration_keeps_every_row_witness:
  "\<exists>db'. upgrade sample_parse sample_print sample_db = Inr db' \<and> user_version db' = 1
    \<and> map rw_id (raw_rows db') = map rw_id (raw_rows sample_db)
    \<and> distinct (map rw_key (raw_rows db'))"
  by (rule migration_keeps_every_row [OF sample_db_old sample_db_ids sample_db_convertible])

text \<open>
  Where two former sessions used one key, the migrated vault replays neither request: the row
  that keeps the normalized key holds no request at all, so a repeat of either is refused as a
  replay with other arguments.
\<close>

theorem migration_refuses_ambiguous_replay:
  assumes "user_version db < 1" "distinct (map rw_id (raw_rows db))"
    "list_all (convertible parse print) (raw_rows db)"
    "ambiguous (raw_rows db) k" "upgrade parse print db = Inr db'"
    "q \<in> set (raw_rows db')" "rw_key q = k"
  shows "rw_request q = ''legacy-ambiguous''"
proof -
  obtain keys rows where "upgrade_rows parse print (raw_rows db)
      ([], map (\<lambda>r. r\<lparr>rw_key := parked_key (rw_id r)\<rparr>) (raw_rows db)) = Inr (keys, rows)"
    and inv: "half_migrated (raw_rows db) [] (keys, rows)"
    using upgrade_rows_steps [OF parked_half_migrated [OF assms(2)] assms(3)] by auto
  then have "raw_rows db' = rows" using assms(1,5) by (auto simp: upgrade_def and_then_def)
  then show ?thesis using inv assms(4,6,7) by (auto simp: half_migrated_def)
qed

theorem migration_refuses_ambiguous_replay_witness:
  "rw_request ((sample_row 1 ''a/owner/n'')\<lparr>rw_request := ''legacy-ambiguous''\<rparr>)
   = ''legacy-ambiguous''"
  by (rule migration_refuses_ambiguous_replay [OF sample_db_old sample_db_ids
        sample_db_convertible sample_db_ambiguous sample_db_upgraded])
    (simp_all add: sample_row_def)

end
