(* ===== verification/Cell_Model.thy ===== *)
theory Cell_Model
  imports Json_Text
begin

text \<open>
  The document a cell is described by (\<open>proofstorm-core/src/model.rs\<close>): components, typed
  links, payment methods and the policy. A \<open>BTreeMap\<close> is a sorted association list, a
  \<open>BTreeSet\<close> whose order is never read a set.
\<close>

section \<open>Data\<close>

definition API_VERSION :: string where
  "API_VERSION = ''proofstorm/v1alpha1''"

datatype capability =
  CatalogRead | CandidateBuild | CandidateRead | CandidateCancel | CellRead | CellCreate
  | CellEdit | CellClone | CellValidate | CellPublish | CellMaterialize | CellStatus
  | CellClose | CellConnect | ExperimentCreate | ExperimentRead | ExperimentClose
  | CellOperate | ActionCancel | TopologyInspect | TopologyMutate | NodeAdd | NodeRemove
  | NodeControl | ComponentControl | PeerConnect | PeerDisconnect | WalletCreate
  | WalletControl | WalletFund | ChannelOpen | ChannelClose | ChannelForceClose
  | ChannelRebalance | ChainMine | ChainFee | ChainReorg | NetworkDelay | NetworkDrop
  | NetworkPartition | NetworkHeal | ComponentLogs | ComponentExecLive | ComponentForensics
  | AuthenticationTest | TrafficCapture | OracleList | OracleRun | ArtifactRead | PolicyRead
  | PolicyEdit | SnapshotCreate | SnapshotRestore | MintQuotePaymentOverride
  | MintNativeConfigOverride

datatype component_kind =
  Bitcoin | Lightning | ArkServer | SparkServer | PaymentProcessor | Mint | Database
  | IdentityProvider | Wallet | Workspace | Proxy | Oracle

datatype control_class = CellControl | TargetControl | WorkspaceControl | OracleControl

type_synonym config = "(string, json) btree"

record component_spec =
  c_id :: string
  c_kind :: component_kind
  c_implementation :: string
  c_version :: "string option"
  c_config_version :: string
  c_control :: control_class
  c_config :: config

datatype link_kind =
  BitcoinPeer | LightningPeer | ChainBackend | ArkBackend | SparkBackend | PaymentBackend
  | DatabaseBackend | AuthenticationBackend | NetworkPath

definition is_backend :: "link_kind \<Rightarrow> bool" where
  "is_backend k \<longleftrightarrow> k \<notin> {BitcoinPeer, LightningPeer, NetworkPath}"

datatype database_role = Primary | Cache | Authentication

datatype payment_method = Bolt11 | Bolt12 | Onchain | Custom string

text \<open>CDK's limit on a custom kind, less its suffix.\<close>

definition MAX_CUSTOM_METHOD_LEN :: nat where
  "MAX_CUSTOM_METHOD_LEN = 53"

fun method_str :: "payment_method \<Rightarrow> string" where
  "method_str Bolt11 = ''bolt11''"
| "method_str Bolt12 = ''bolt12''"
| "method_str Onchain = ''onchain''"
| "method_str (Custom name) = name"

fun custom_name :: "payment_method \<Rightarrow> string option" where
  "custom_name (Custom name) = Some name"
| "custom_name _ = None"

definition is_unit_byte :: "char \<Rightarrow> bool" where
  "is_unit_byte c \<longleftrightarrow> is_ascii_lowercase c \<or> is_ascii_digit c \<or> c = CHR ''-'' \<or> c = CHR ''_''"

definition parse_method :: "string \<Rightarrow> payment_method option" where
  "parse_method value =
     (if value = ''bolt11'' then Some Bolt11
      else if value = ''bolt12'' then Some Bolt12
      else if value = ''onchain'' then Some Onchain
      else if 1 \<le> length value \<and> length value \<le> MAX_CUSTOM_METHOD_LEN
              \<and> list_all is_unit_byte value
      then Some (Custom value)
      else None)"

datatype authentication_protocol = Oidc

datatype bitcoin_network = Regtest

datatype dependency_binding =
  BindChain bitcoin_network
  | BindArk bitcoin_network
  | BindSpark bitcoin_network
  | BindPayment payment_method string
  | BindDatabase database_role "string option"
  | BindAuthentication authentication_protocol

fun binding_link_kind :: "dependency_binding \<Rightarrow> link_kind" where
  "binding_link_kind (BindChain _) = ChainBackend"
| "binding_link_kind (BindArk _) = ArkBackend"
| "binding_link_kind (BindSpark _) = SparkBackend"
| "binding_link_kind (BindPayment _ _) = PaymentBackend"
| "binding_link_kind (BindDatabase _ _) = DatabaseBackend"
| "binding_link_kind (BindAuthentication _) = AuthenticationBackend"

record link_spec =
  l_id :: string
  l_kind :: link_kind
  l_from :: string
  l_to :: string
  l_binding :: "dependency_binding option"

fun role_str :: "database_role \<Rightarrow> string" where
  "role_str Primary = ''primary''"
| "role_str Cache = ''cache''"
| "role_str Authentication = ''authentication''"

definition database_name :: "link_spec \<Rightarrow> string option" where
  "database_name link =
     (case l_binding link of
        Some (BindDatabase role database) \<Rightarrow>
          Some (case database of
                  Some name \<Rightarrow> name
                | None \<Rightarrow> replace_byte CHR ''-'' ''_'' (l_from link) @ ''_'' @ role_str role)
      | _ \<Rightarrow> None)"

record cell_limits =
  max_components :: "u64 option"
  max_links :: "u64 option"
  max_config_bytes :: "u64 option"

definition default_cell_limits :: cell_limits where
  "default_cell_limits = \<lparr>max_components = None, max_links = None, max_config_bytes = None\<rparr>"

record cell_policy =
  allow :: "capability set"
  policy_limits :: cell_limits

definition default_cell_policy :: cell_policy where
  "default_cell_policy = \<lparr>allow = {}, policy_limits = default_cell_limits\<rparr>"

record cell_spec =
  api_version :: string
  cell_name :: string
  components :: "component_spec list"
  links :: "link_spec list"
  policy :: cell_policy

text \<open>The identities of the processors (\<open>processor_ids.rs\<close>).\<close>

definition LDK_PROCESSOR :: string where "LDK_PROCESSOR = ''cdk-ldk-server-processor''"
definition BARK_PROCESSOR :: string where "BARK_PROCESSOR = ''cdk-bark-processor''"
definition BARK_SERVER :: string where "BARK_SERVER = ''bark-server''"
definition CLN_HOLD :: string where "CLN_HOLD = ''cln-hold''"
definition SPARK_PROCESSOR :: string where "SPARK_PROCESSOR = ''cdk-spark-processor''"
definition SPARK_OPERATORS :: string where "SPARK_OPERATORS = ''spark-operators''"
definition OPEN_SSP :: string where "OPEN_SSP = ''open-ssp''"

definition links_from :: "cell_spec \<Rightarrow> string \<Rightarrow> link_spec list" where
  "links_from cell cid = filter (\<lambda>link. l_from link = cid) (links cell)"

definition plan_links :: "cell_spec \<Rightarrow> string \<Rightarrow> link_spec list" where
  "plan_links cell cid =
     (let own = links_from cell cid
      in if list_ex (\<lambda>c. c_id c = cid \<and> c_implementation c = SPARK_PROCESSOR) (components cell)
         then (let ssps = map l_to (filter (\<lambda>link. l_kind link = SparkBackend) own)
               in own @ filter (\<lambda>link. l_kind link = SparkBackend \<and> l_from link \<in> set ssps)
                          (links cell))
         else own)"

section \<open>Order of the payment methods\<close>

text \<open>The derived order: by variant, custom methods by name.\<close>

fun method_key :: "payment_method \<Rightarrow> nat \<times> string" where
  "method_key Bolt11 = (0, [])"
| "method_key Bolt12 = (1, [])"
| "method_key Onchain = (2, [])"
| "method_key (Custom name) = (3, name)"

lemma method_key_inj: "method_key a = method_key b \<Longrightarrow> a = b"
  by (cases a; cases b) auto

instantiation payment_method :: linorder
begin

definition less_eq_payment_method :: "payment_method \<Rightarrow> payment_method \<Rightarrow> bool" where
  "less_eq_payment_method a b \<longleftrightarrow> method_key a \<le> method_key b"

definition less_payment_method :: "payment_method \<Rightarrow> payment_method \<Rightarrow> bool" where
  "less_payment_method a b \<longleftrightarrow> method_key a < method_key b"

instance
  by standard (auto simp: less_eq_payment_method_def less_payment_method_def intro: method_key_inj)

end

section \<open>Payment methods and their names\<close>

text \<open>A method a document can hold: a custom name is one that parses as itself.\<close>

definition wf_method :: "payment_method \<Rightarrow> bool" where
  "wf_method m \<longleftrightarrow> parse_method (method_str m) = Some m"

lemma parse_method_str: "parse_method s = Some m \<Longrightarrow> method_str m = s"
  by (auto simp: parse_method_def split: if_splits)

lemma parse_method_wf: "parse_method s = Some m \<Longrightarrow> wf_method m"
  using parse_method_str by (fastforce simp: wf_method_def)

lemma method_str_inj: "wf_method a \<Longrightarrow> wf_method b \<Longrightarrow> method_str a = method_str b \<Longrightarrow> a = b"
  by (auto simp: wf_method_def)

lemma unit_byte_no_comma: "is_unit_byte c \<Longrightarrow> c \<noteq> CHR '',''"
  by (auto simp: is_unit_byte_def ascii_defs)

lemma method_str_no_comma:
  assumes "wf_method m"
  shows "CHR '','' \<notin> set (method_str m)"
proof (cases m)
  case (Custom name)
  then have "list_all is_unit_byte name"
    using assms by (auto simp: wf_method_def parse_method_def split: if_splits)
  then show ?thesis using Custom by (auto simp: list_all_iff dest: unit_byte_no_comma)
qed auto

end
