(* ===== verification/Cell_Issues.thy ===== *)
theory Cell_Issues
  imports Cell_Model
begin

text \<open>
  The issues a validation reports and the checks of a single text (\<open>proofstorm-core/src/validation.rs\<close>).
  An issue is its code and the JSON pointer it is at; the prose that goes with them is not
  modelled. A validator that pushes onto the caller's vector is the list of what it pushes, in order.
\<close>

section \<open>Issues\<close>

record validation_issue =
  iss_code :: string
  iss_path :: string

record validation_report =
  rep_valid :: bool
  rep_issues :: "validation_issue list"

definition from_issues :: "validation_issue list \<Rightarrow> validation_report" where
  "from_issues issues = \<lparr>rep_valid = (issues = []), rep_issues = issues\<rparr>"

definition issue :: "string \<Rightarrow> string \<Rightarrow> validation_issue list" where
  "issue code path = [\<lparr>iss_code = code, iss_path = path\<rparr>]"

definition issue_if :: "bool \<Rightarrow> string \<Rightarrow> string \<Rightarrow> validation_issue list" where
  "issue_if b code path = (if b then issue code path else [])"

lemma issue_not_Nil [simp]: "issue code path \<noteq> []"
  by (simp add: issue_def)

lemma issue_if_Nil [simp]: "issue_if b code path = [] \<longleftrightarrow> \<not> b"
  by (simp add: issue_if_def)

text \<open>\<open>/components/i\<close> and \<open>/links/i\<close>, with what follows.\<close>

definition component_path :: "nat \<Rightarrow> string" where
  "component_path i = ''/components/'' @ decimal i"

definition link_path :: "nat \<Rightarrow> string" where
  "link_path i = ''/links/'' @ decimal i"

text \<open>A validator applied to each component with its index.\<close>

definition each_component ::
  "(nat \<Rightarrow> component_spec \<Rightarrow> validation_issue list) \<Rightarrow> cell_spec \<Rightarrow> validation_issue list" where
  "each_component f cell = concat (map (\<lambda>(i, c). f i c) (enumerate 0 (components cell)))"

lemma each_component_Nil:
  assumes "\<And>i c. f i c = [] \<longleftrightarrow> P c"
  shows "each_component f cell = [] \<longleftrightarrow> (\<forall>c \<in> set (components cell). P c)"
proof -
  have "(\<forall>p \<in> set (enumerate 0 (components cell)). case p of (i, c) \<Rightarrow> f i c = [])
      \<longleftrightarrow> (\<forall>p \<in> set (enumerate 0 (components cell)). P (snd p))"
    using assms by (auto split: prod.splits)
  also have "\<dots> \<longleftrightarrow> (\<forall>c \<in> snd ` set (enumerate 0 (components cell)). P c)" by simp
  also have "snd ` set (enumerate 0 (components cell)) = set (components cell)"
    by (metis map_snd_enumerate set_map)
  finally show ?thesis by (auto simp: each_component_def split: prod.splits)
qed

section \<open>Checks of one text\<close>

fun slug_bytes :: "bool \<Rightarrow> string \<Rightarrow> bool" where
  "slug_bytes previous_dash [] = True"
| "slug_bytes previous_dash (c # cs) =
     (let dash = c = CHR ''-''
      in if \<not> (is_ascii_lowercase c \<or> is_ascii_digit c \<or> dash) \<or> (dash \<and> previous_dash) then False
         else slug_bytes dash cs)"

definition is_slug :: "string \<Rightarrow> bool" where
  "is_slug s \<longleftrightarrow> \<not> (s = [] \<or> length s > 63 \<or> starts_with s CHR ''-'' \<or> ends_with s CHR ''-'')
     \<and> slug_bytes False s"

definition is_config_version_identifier :: "string \<Rightarrow> bool" where
  "is_config_version_identifier s \<longleftrightarrow> s \<noteq> [] \<and> length s \<le> 128
     \<and> list_all (\<lambda>segment. segment \<noteq> [] \<and> segment \<noteq> ''.'' \<and> segment \<noteq> ''..''
          \<and> list_all (\<lambda>c. is_ascii_alphanumeric c \<or> c = CHR ''.'' \<or> c = CHR ''+'' \<or> c = CHR ''-'')
              segment)
        (split_on CHR ''/'' s)"

definition is_cashu_unit :: "string \<Rightarrow> bool" where
  "is_cashu_unit s \<longleftrightarrow> s \<noteq> [] \<and> length s \<le> 64 \<and> list_all is_unit_byte s"

definition is_postgres_identifier :: "string \<Rightarrow> bool" where
  "is_postgres_identifier s \<longleftrightarrow>
     (case s of [] \<Rightarrow> False | c # _ \<Rightarrow> is_ascii_lowercase c)
     \<and> list_all (\<lambda>c. is_ascii_lowercase c \<or> is_ascii_digit c \<or> c = CHR ''_'') s"

definition exceeds_policy_limit :: "nat \<Rightarrow> u64 option \<Rightarrow> bool" where
  "exceeds_policy_limit count limit =
     (case limit of None \<Rightarrow> False | Some l \<Rightarrow> 2 ^ 64 \<le> count \<or> of_nat count > l)"

section \<open>Slugs\<close>

definition kebab_segment :: "string \<Rightarrow> bool" where
  "kebab_segment s \<longleftrightarrow> s \<noteq> [] \<and> list_all (\<lambda>c. is_ascii_lowercase c \<or> is_ascii_digit c) s"

lemma dash_not_kebab: "\<not> is_ascii_lowercase CHR ''-''" "\<not> is_ascii_digit CHR ''-''"
  by (simp_all add: ascii_defs)

lemma slug_bytes_segments:
  "slug_bytes p s \<and> (s = [] \<longrightarrow> \<not> p) \<and> \<not> ends_with s CHR ''-''
   \<longleftrightarrow> list_all (\<lambda>c. is_ascii_lowercase c \<or> is_ascii_digit c) (hd (split_on CHR ''-'' s))
       \<and> (p \<longrightarrow> hd (split_on CHR ''-'' s) \<noteq> [])
       \<and> list_all kebab_segment (tl (split_on CHR ''-'' s))"
proof (induction s arbitrary: p)
  case Nil
  then show ?case by (simp add: ends_with_last)
next
  case (Cons x xs)
  obtain q qs where q: "split_on CHR ''-'' xs = q # qs" by (cases "split_on CHR ''-'' xs") auto
  show ?case
  proof (cases "x = CHR ''-''")
    case True
    have "slug_bytes p (x # xs) \<and> \<not> ends_with (x # xs) CHR ''-''
        \<longleftrightarrow> \<not> p \<and> (slug_bytes True xs \<and> (xs = [] \<longrightarrow> \<not> True) \<and> \<not> ends_with xs CHR ''-'')"
      using True by (auto simp: ends_with_last)
    then show ?thesis using Cons.IH [of True] True q by (auto simp: kebab_segment_def)
  next
    case False
    have "slug_bytes p (x # xs) \<and> \<not> ends_with (x # xs) CHR ''-''
        \<longleftrightarrow> (is_ascii_lowercase x \<or> is_ascii_digit x)
          \<and> (slug_bytes False xs \<and> (xs = [] \<longrightarrow> \<not> False) \<and> \<not> ends_with xs CHR ''-'')"
      using False by (auto simp: ends_with_last)
    then show ?thesis using Cons.IH [of False] False q by auto
  qed
qed

lemma is_slug_iff:
  "is_slug s \<longleftrightarrow> length s \<le> 63 \<and> list_all kebab_segment (split_on CHR ''-'' s)"
proof (cases s)
  case Nil
  then show ?thesis by (simp add: is_slug_def kebab_segment_def)
next
  case (Cons x xs)
  obtain q qs where q: "split_on CHR ''-'' s = q # qs" by (cases "split_on CHR ''-'' s") auto
  have "q = [] \<longleftrightarrow> x = CHR ''-''" using q Cons by (auto split: if_splits)
  moreover have "is_slug s \<longleftrightarrow> length s \<le> 63 \<and> x \<noteq> CHR ''-''
      \<and> (slug_bytes False s \<and> (s = [] \<longrightarrow> \<not> False) \<and> \<not> ends_with s CHR ''-'')"
    using Cons by (auto simp: is_slug_def)
  ultimately show ?thesis
    unfolding slug_bytes_segments [of False s] q by (auto simp: kebab_segment_def)
qed

lemma slug_nonempty: "is_slug s \<Longrightarrow> s \<noteq> []"
  by (simp add: is_slug_def)

end
