(* ===== verification/Cell_Stacks.thy ===== *)
theory Cell_Stacks
  imports Cell_Issues
begin

text \<open>
  The dependency graphs of the Bark and Spark stacks (\<open>stack_validation.rs\<close>,
  \<open>bark_validation.rs\<close>, \<open>spark_validation.rs\<close> of \<open>proofstorm-core\<close>).
\<close>

section \<open>Requirements\<close>

record requirement =
  rq_link_kind :: link_kind
  rq_target_kind :: component_kind
  rq_target_impl :: string
  rq_binding :: "dependency_binding \<Rightarrow> bool"

fun chain_regtest :: "dependency_binding \<Rightarrow> bool" where
  "chain_regtest (BindChain Regtest) = True"
| "chain_regtest _ = False"

fun database_primary :: "dependency_binding \<Rightarrow> bool" where
  "database_primary (BindDatabase Primary _) = True"
| "database_primary _ = False"

fun bolt11_sat :: "dependency_binding \<Rightarrow> bool" where
  "bolt11_sat (BindPayment Bolt11 u) = (u = ''sat'')"
| "bolt11_sat _ = False"

fun ark_regtest :: "dependency_binding \<Rightarrow> bool" where
  "ark_regtest (BindArk Regtest) = True"
| "ark_regtest _ = False"

fun spark_regtest :: "dependency_binding \<Rightarrow> bool" where
  "spark_regtest (BindSpark Regtest) = True"
| "spark_regtest _ = False"

definition CHAIN :: requirement where
  "CHAIN = \<lparr>rq_link_kind = ChainBackend, rq_target_kind = Bitcoin,
            rq_target_impl = ''bitcoin-core'', rq_binding = chain_regtest\<rparr>"

definition DATABASE :: requirement where
  "DATABASE = \<lparr>rq_link_kind = DatabaseBackend, rq_target_kind = Database,
               rq_target_impl = ''postgresql'', rq_binding = database_primary\<rparr>"

definition resolve :: "requirement \<Rightarrow> cell_spec \<Rightarrow> component_spec \<Rightarrow> component_spec option" where
  "resolve rq cell c =
     (case filter (\<lambda>link. l_from link = c_id c \<and> l_kind link = rq_link_kind rq) (links cell) of
        [link] \<Rightarrow>
          (if (case l_binding link of None \<Rightarrow> False | Some b \<Rightarrow> rq_binding rq b)
           then List.find (\<lambda>t. c_id t = l_to link \<and> c_kind t = rq_target_kind rq
                               \<and> c_implementation t = rq_target_impl rq) (components cell)
           else None)
      | _ \<Rightarrow> None)"

definition unexpected_dependency :: "requirement list \<Rightarrow> link_spec \<Rightarrow> bool" where
  "unexpected_dependency rqs link \<longleftrightarrow>
     is_backend (l_kind link) \<and> \<not> list_ex (\<lambda>rq. rq_link_kind rq = l_kind link) rqs"

definition validate_requirements ::
  "cell_spec \<Rightarrow> component_spec \<Rightarrow> string \<Rightarrow> string \<Rightarrow> component_kind \<Rightarrow> requirement list \<Rightarrow>
   validation_issue list" where
  "validate_requirements cell c path prefix kind rqs =
     issue_if (c_kind c \<noteq> kind) (prefix @ ''_component_kind_mismatch'') path
     @ concat (map (\<lambda>rq. issue_if (resolve rq cell c = None) (prefix @ ''_dependency_required'') path)
         rqs)
     @ concat (map (\<lambda>link. issue_if (unexpected_dependency rqs link)
                             (prefix @ ''_unexpected_dependency'') path)
         (links_from cell (c_id c)))"

section \<open>Bark\<close>

definition ARK :: requirement where
  "ARK = \<lparr>rq_link_kind = ArkBackend, rq_target_kind = ArkServer,
          rq_target_impl = BARK_SERVER, rq_binding = ark_regtest\<rparr>"

definition BARK_LIGHTNING :: requirement where
  "BARK_LIGHTNING = \<lparr>rq_link_kind = PaymentBackend, rq_target_kind = Lightning,
                     rq_target_impl = CLN_HOLD, rq_binding = bolt11_sat\<rparr>"

definition bark_requirements :: "string \<Rightarrow> (component_kind \<times> requirement list) option" where
  "bark_requirements i =
     (if i = BARK_PROCESSOR then Some (PaymentProcessor, [CHAIN, ARK])
      else if i = BARK_SERVER then Some (ArkServer, [CHAIN, DATABASE, BARK_LIGHTNING])
      else if i = CLN_HOLD then Some (Lightning, [CHAIN])
      else None)"

definition bark_downstream :: "cell_spec \<Rightarrow> component_spec \<Rightarrow> component_spec option" where
  "bark_downstream cell c =
     (if c_implementation c = BARK_PROCESSOR then resolve ARK cell c
      else if c_implementation c = BARK_SERVER then resolve BARK_LIGHTNING cell c
      else None)"

definition validate_chain :: "cell_spec \<Rightarrow> component_spec \<Rightarrow> string \<Rightarrow> validation_issue list" where
  "validate_chain cell c path =
     (case resolve CHAIN cell c of
        None \<Rightarrow> []
      | Some chain \<Rightarrow>
          issue_if (case bt_get (c_config chain) ''txindex'' of
                      None \<Rightarrow> False | Some value \<Rightarrow> value \<noteq> JBool True)
            ''bark_txindex_required'' path
          @ (case bark_downstream cell c of
               None \<Rightarrow> []
             | Some downstream \<Rightarrow>
                 (case resolve CHAIN cell downstream of
                    None \<Rightarrow> []
                  | Some other_chain \<Rightarrow>
                      issue_if (c_id chain \<noteq> c_id other_chain) ''bark_shared_chain_required'' path)))"

definition bark_topology :: "cell_spec \<Rightarrow> validation_issue list" where
  "bark_topology cell =
     each_component (\<lambda>i c.
       (case bark_requirements (c_implementation c) of
          None \<Rightarrow> []
        | Some (kind, rqs) \<Rightarrow>
            validate_requirements cell c (component_path i) ''bark'' kind rqs
            @ validate_chain cell c (component_path i))) cell"

section \<open>Spark\<close>

text \<open>The 63 bytes of an identifier less \<open>_4_ephemeral\<close>.\<close>

definition SPARK_DATABASE_NAME_LIMIT :: nat where
  "SPARK_DATABASE_NAME_LIMIT = 63 - length ''_4_ephemeral''"

definition OPERATORS :: requirement where
  "OPERATORS = \<lparr>rq_link_kind = SparkBackend, rq_target_kind = SparkServer,
                rq_target_impl = SPARK_OPERATORS, rq_binding = spark_regtest\<rparr>"

definition SSP :: requirement where
  "SSP = \<lparr>rq_link_kind = SparkBackend, rq_target_kind = SparkServer,
          rq_target_impl = OPEN_SSP, rq_binding = spark_regtest\<rparr>"

definition SPARK_LIGHTNING :: requirement where
  "SPARK_LIGHTNING = \<lparr>rq_link_kind = PaymentBackend, rq_target_kind = Lightning,
                      rq_target_impl = ''ldk-server'', rq_binding = bolt11_sat\<rparr>"

definition spark_requirements :: "string \<Rightarrow> (component_kind \<times> requirement list) option" where
  "spark_requirements i =
     (if i = SPARK_PROCESSOR then Some (PaymentProcessor, [SSP])
      else if i = OPEN_SSP then Some (SparkServer, [OPERATORS, SPARK_LIGHTNING])
      else if i = SPARK_OPERATORS then Some (SparkServer, [CHAIN, DATABASE])
      else None)"

definition spark_database_names :: "cell_spec \<Rightarrow> component_spec \<Rightarrow> string \<Rightarrow> validation_issue list" where
  "spark_database_names cell operators path =
     concat (map (\<lambda>name. issue_if (length name > SPARK_DATABASE_NAME_LIMIT)
                           ''spark_database_name_too_long'' path)
       (List.map_filter database_name
          (filter (\<lambda>link. l_kind link = DatabaseBackend) (links_from cell (c_id operators)))))"

definition chain_through :: "cell_spec \<Rightarrow> component_spec \<Rightarrow> requirement \<Rightarrow> component_spec option" where
  "chain_through cell c rq = Option.bind (resolve rq cell c) (resolve CHAIN cell)"

definition spark_shared_chain :: "cell_spec \<Rightarrow> component_spec \<Rightarrow> string \<Rightarrow> validation_issue list" where
  "spark_shared_chain cell ssp path =
     (case (chain_through cell ssp OPERATORS, chain_through cell ssp SPARK_LIGHTNING) of
        (Some operators, Some lightning) \<Rightarrow>
          issue_if (c_id operators \<noteq> c_id lightning) ''spark_shared_chain_required'' path
      | _ \<Rightarrow> [])"

definition spark_topology :: "cell_spec \<Rightarrow> validation_issue list" where
  "spark_topology cell =
     each_component (\<lambda>i c.
       (case spark_requirements (c_implementation c) of
          None \<Rightarrow> []
        | Some (kind, rqs) \<Rightarrow>
            validate_requirements cell c (component_path i) ''spark'' kind rqs
            @ (if c_implementation c = OPEN_SSP then spark_shared_chain cell c (component_path i)
               else if c_implementation c = SPARK_OPERATORS
               then spark_database_names cell c (component_path i)
               else []))) cell"

section \<open>What a resolved requirement is\<close>

lemma resolve_Some:
  assumes "resolve rq cell c = Some t"
  obtains link b where
    "filter (\<lambda>link. l_from link = c_id c \<and> l_kind link = rq_link_kind rq) (links cell) = [link]"
    "l_binding link = Some b" "rq_binding rq b"
    "t \<in> set (components cell)" "c_id t = l_to link" "c_kind t = rq_target_kind rq"
    "c_implementation t = rq_target_impl rq"
proof -
  obtain link where l: "filter (\<lambda>link. l_from link = c_id c \<and> l_kind link = rq_link_kind rq)
      (links cell) = [link]"
    and b: "case l_binding link of None \<Rightarrow> False | Some b \<Rightarrow> rq_binding rq b"
    and t: "List.find (\<lambda>t. c_id t = l_to link \<and> c_kind t = rq_target_kind rq
              \<and> c_implementation t = rq_target_impl rq) (components cell) = Some t"
    using assms by (auto simp: resolve_def split: list.splits if_splits)
  from t have "t \<in> set (components cell)" "c_id t = l_to link" "c_kind t = rq_target_kind rq"
    "c_implementation t = rq_target_impl rq"
    by (auto simp: find_Some_iff)
  moreover obtain b where "l_binding link = Some b" "rq_binding rq b"
    using b by (auto split: option.splits)
  ultimately show thesis using that l by blast
qed

lemma validate_requirements_Nil:
  "validate_requirements cell c path prefix kind rqs = [] \<longleftrightarrow>
     c_kind c = kind
     \<and> (\<forall>rq \<in> set rqs. \<exists>t. resolve rq cell c = Some t)
     \<and> (\<forall>link \<in> set (links_from cell (c_id c)). is_backend (l_kind link) \<longrightarrow>
          (\<exists>rq \<in> set rqs. rq_link_kind rq = l_kind link))"
  by (auto simp: validate_requirements_def unexpected_dependency_def list_ex_iff)

end
