(* ===== verification/Cell_Native.thy ===== *)
theory Cell_Native
  imports Cell_Issues
begin

text \<open>
  Mint settings a document passes through without modelling them
  (\<open>proofstorm-core/src/native_settings.rs\<close>): which names an override may not use, and the
  checks a cell's overrides go through. \<open>print\<close> is \<open>serde_json\<close>'s text of a value.
\<close>

section \<open>Reserved settings\<close>

definition MAX_TOML_BYTES :: nat where
  "MAX_TOML_BYTES = 8192"

definition NUTSHELL_ENV :: "(string \<times> string) list" where
  "NUTSHELL_ENV = [
    (''CASHU_DIR'', ''data_directory''), (''LIGHTNING_FEE_PERCENT'', ''lightning_fee_percent''),
    (''LIGHTNING_RESERVE_FEE_MIN'', ''lightning_reserve_fee_min_sat''),
    (''MELT_QUOTE_TTL'', ''melt_quote_ttl_seconds''),
    (''MINT_AUTH_DATABASE'', ''authentication_database''),
    (''MINT_AUTH_DATABASE_PASSWORD'', ''authentication_database''),
    (''MINT_AUTH_MAX_BLIND_TOKENS'', ''auth_max_blind_tokens''),
    (''MINT_AUTH_OICD_CLIENT_ID'', ''oidc_client_id''),
    (''MINT_AUTH_OICD_DISCOVERY_URL'', ''oidc_discovery_url''),
    (''MINT_AUTH_RATE_LIMIT_PER_MINUTE'', ''auth_rate_limit_per_minute''),
    (''MINT_BOLT11_DISABLE_MELT'', ''disable_melt''),
    (''MINT_BOLT11_DISABLE_MINT'', ''disable_mint''),
    (''MINT_CLNREST_ENABLE_MPP'', ''clnrest_enable_mpp''), (''MINT_DATABASE'', ''database''),
    (''MINT_DATABASE_LOCK_TIMEOUT'', ''database_lock_timeout_ms''),
    (''MINT_DATABASE_PASSWORD'', ''database''), (''MINT_DERIVATION_PATH'', ''derivation_path''),
    (''MINT_DERIVATION_PATH_LIST'', ''derivation_path''),
    (''MINT_FORWARDED_ALLOW_IPS'', ''forwarded_allow_ips''),
    (''MINT_GLOBAL_RATE_LIMIT_PER_MINUTE'', ''global_rate_limit_per_minute''),
    (''MINT_INFO_CONTACT'', ''contact_email''), (''MINT_INFO_DESCRIPTION'', ''description''),
    (''MINT_INFO_DESCRIPTION_LONG'', ''description_long''),
    (''MINT_INFO_ICON_URL'', ''icon_url''), (''MINT_INFO_MOTD'', ''motd''),
    (''MINT_INFO_NAME'', ''name''), (''MINT_INFO_TOS_URL'', ''tos_url''),
    (''MINT_INFO_URLS'', ''public_url''), (''MINT_INPUT_FEE_PPK'', ''input_fee_ppk''),
    (''MINT_LIGHTNING_BACKEND'', ''backend_kind''), (''MINT_LISTEN_HOST'', ''listen_address''),
    (''MINT_LISTEN_PORT'', ''listen_address''), (''MINT_LND_ENABLE_MPP'', ''lnd_enable_mpp''),
    (''MINT_MAX_BALANCE'', ''max_balance_sat''),
    (''MINT_MAX_MELT_BOLT11_SAT'', ''max_melt_sat''),
    (''MINT_MAX_MINT_BOLT11_SAT'', ''max_mint_sat''),
    (''MINT_MAX_REQUEST_LENGTH'', ''max_request_length''),
    (''MINT_MAX_SECRET_LENGTH'', ''max_secret_length''),
    (''MINT_MAX_WITNESS_LENGTH'', ''max_witness_length''),
    (''MINT_PAYMENT_BACKENDS'', ''backend_kind''), (''MINT_PRIVATE_KEY'', ''mint_private_key''),
    (''MINT_QUOTE_BACKEND_CHECK_RATE_LIMIT'', ''quote_backend_check_rate_limit_seconds''),
    (''MINT_QUOTE_TTL'', ''mint_quote_ttl_seconds''), (''MINT_RATE_LIMIT'', ''rate_limit''),
    (''MINT_RATE_LIMIT_PROXY_TRUST'', ''rate_limit_proxy_trust''),
    (''MINT_REDIS_CACHE_TTL'', ''redis_cache_ttl_seconds''),
    (''MINT_REGULAR_TASKS_INTERVAL_SECONDS'', ''regular_tasks_interval_seconds''),
    (''MINT_SEED_DECRYPTION_KEY'', ''mint_private_key''),
    (''MINT_TRANSACTION_RATE_LIMIT_PER_MINUTE'', ''transaction_rate_limit_per_minute''),
    (''MINT_WATCHDOG_BALANCE_CHECK_INTERVAL_SECONDS'', ''watchdog_balance_check_interval_seconds''),
    (''MINT_WATCHDOG_ENABLED'', ''watchdog_enabled''),
    (''MINT_WEBSOCKET_READ_TIMEOUT'', ''websocket_read_timeout_seconds''),
    (''HTTP_PROXY'', ''tor''), (''SOCKS_HOST'', ''tor''), (''SOCKS_PORT'', ''tor''),
    (''SOCKS_PROXY'', ''tor''), (''TOR'', ''tor''), (''MINT_AUTH_OICD_'', ''authentication''),
    (''MINT_BACKEND_'', ''backend_kind''),
    (''MINT_CLNREST_'', ''lightning_backend_credentials''),
    (''MINT_LND_'', ''lightning_backend_credentials''), (''MINT_REDIS_CACHE_'', ''redis_cache''),
    (''MINT_REQUIRE_'', ''authentication''), (''MINT_RPC_SERVER_'', ''management_rpc''),
    (''PROOFSTORM_'', '''')
    ]"

definition CDK_TOML :: "(string \<times> string) list" where
  "CDK_TOML = [
    (''info.url'', ''public_url''), (''info.listen_host'', ''listen_address''),
    (''info.listen_port'', ''listen_address''), (''info.mnemonic'', ''mint_mnemonic''),
    (''info.signatory_url'', ''mint_mnemonic''), (''info.signatory_certs'', ''mint_mnemonic''),
    (''info.enable_info_page'', ''enable_info_page''),
    (''info.input_fee_ppk'', ''input_fee_ppk''), (''info.use_keyset_v2'', ''use_keyset_v2''),
    (''info.quote_ttl.mint_ttl'', ''mint_quote_ttl_seconds''),
    (''info.quote_ttl.melt_ttl'', ''melt_quote_ttl_seconds''),
    (''info.http_cache.backend'', ''''), (''info.http_cache.ttl'', ''http_cache_ttl_seconds''),
    (''info.http_cache.tti'', ''http_cache_tti_seconds''), (''mint_info.name'', ''name''),
    (''mint_info.description'', ''description''),
    (''mint_info.description_long'', ''description_long''), (''mint_info.motd'', ''motd''),
    (''mint_info.icon_url'', ''icon_url''), (''mint_info.contact_email'', ''contact_email''),
    (''mint_info.contact_nostr_public_key'', ''contact_nostr_public_key''),
    (''mint_info.tos_url'', ''tos_url''), (''limits.max_inputs'', ''max_inputs''),
    (''limits.max_outputs'', ''max_outputs''), (''mint_management_rpc'', ''management_rpc''),
    (''payment_backend'', ''payment_backends''), (''fake_wallet'', ''payment_backends''),
    (''grpc_processor'', ''lightning_backend_endpoint''),
    (''lnd'', ''lightning_backend_endpoint''), (''cln'', ''lightning_backend_endpoint''),
    (''ldk_node'', ''embedded_lightning''), (''onchain'', ''embedded_onchain''),
    (''bdk'', ''embedded_onchain''), (''database'', ''database_engine''),
    (''auth_database'', ''authentication_database''), (''auth'', ''authentication''),
    (''signatory'', ''mint_mnemonic'')
    ]"

record overrides =
  ov_field :: string
  ov_env :: bool
  ov_reserved :: "(string \<times> string) list"

definition NUTSHELL :: overrides where
  "NUTSHELL = \<lparr>ov_field = ''native_env'', ov_env = True, ov_reserved = NUTSHELL_ENV\<rparr>"

definition CDK :: overrides where
  "CDK = \<lparr>ov_field = ''native_toml'', ov_env = False, ov_reserved = CDK_TOML\<rparr>"

definition overrides_of :: "string \<Rightarrow> overrides option" where
  "overrides_of i =
     (if i = ''nutshell'' then Some NUTSHELL else if i = ''cdk'' then Some CDK else None)"

definition override_field :: "string \<Rightarrow> string option" where
  "override_field i = map_option ov_field (overrides_of i)"

text \<open>Whether a reserved name covers a key: by name or prefix ignoring case, or by dotted path.\<close>

definition covers :: "overrides \<Rightarrow> string \<Rightarrow> string \<Rightarrow> bool" where
  "covers ov key name \<longleftrightarrow>
     (if ov_env ov
      then to_ascii_uppercase key = name
           \<or> (ends_with name CHR ''_'' \<and> string_starts_with (to_ascii_uppercase key) name)
      else key = name \<or> strict_prefix_at CHR ''.'' name key \<or> strict_prefix_at CHR ''.'' key name)"

definition reserved :: "string \<Rightarrow> string \<Rightarrow> string option" where
  "reserved i key =
     Option.bind (overrides_of i) (\<lambda>ov.
       map_option snd (List.find (\<lambda>(name, field). covers ov key name) (ov_reserved ov)))"

section \<open>The keys of an override\<close>

fun leaf_paths :: "json \<Rightarrow> string list \<Rightarrow> string list"
  and leaf_members :: "(string \<times> json) list \<Rightarrow> string list \<Rightarrow> string list" where
  "leaf_paths (JObject members) path =
     (if members \<noteq> [] \<or> path = [] then leaf_members members path else [join ''.'' path])"
| "leaf_paths JNull path = [join ''.'' path]"
| "leaf_paths (JBool b) path = [join ''.'' path]"
| "leaf_paths (JNumber i) path = [join ''.'' path]"
| "leaf_paths (JFloat s) path = [join ''.'' path]"
| "leaf_paths (JString s) path = [join ''.'' path]"
| "leaf_paths (JArray js) path = [join ''.'' path]"
| "leaf_members [] path = []"
| "leaf_members ((k, v) # members) path = leaf_paths v (path @ [k]) @ leaf_members members path"

definition override_keys :: "component_spec \<Rightarrow> string list" where
  "override_keys c =
     (case Option.bind (override_field (c_implementation c)) (bt_get (c_config c)) of
        None \<Rightarrow> []
      | Some value \<Rightarrow> sort (leaf_paths value []))"

text \<open>
  \<open>nutshell_settings\<close> is the text file of the release, here its lines; a release without one,
  or a candidate build, is not checked. The result is the names the release does not read.
\<close>

definition unknown_release_names ::
  "(string \<Rightarrow> string list option) \<Rightarrow> component_spec \<Rightarrow> string \<Rightarrow> bool \<Rightarrow> string list" where
  "unknown_release_names nutshell_settings c version candidate =
     (if c_implementation c \<noteq> ''nutshell'' \<or> candidate then []
      else (case nutshell_settings version of
              None \<Rightarrow> []
            | Some known \<Rightarrow>
                filter (\<lambda>name. \<not> list_ex (\<lambda>setting.
                    to_ascii_uppercase setting = to_ascii_uppercase name) known)
                  (override_keys c)))"

section \<open>Shape\<close>

definition is_env_name :: "string \<Rightarrow> bool" where
  "is_env_name key \<longleftrightarrow> key \<noteq> [] \<and> length key \<le> 128
     \<and> list_all (\<lambda>(i, c). c = CHR ''_'' \<or> is_ascii_lowercase c \<or> is_ascii_uppercase c
                        \<or> (i > 0 \<and> is_ascii_digit c)) (enumerate 0 key)"

definition validate_env :: "(string \<times> string) list \<Rightarrow> unit coded" where
  "validate_env env =
     (if length env > 64 then Inl ''environment has more than 64 variables''
      else if list_ex (\<lambda>(k, v). \<not> is_env_name k) env
      then Inl ''environment names must match [A-Za-z_][A-Za-z0-9_]* within 128 bytes''
      else if list_ex (\<lambda>(k, v). string_starts_with k ''PROOFSTORM_'') env
      then Inl ''PROOFSTORM_ environment variables are reserved''
      else if list_ex (\<lambda>(k, v). CHR 0x00 \<in> set v \<or> length v > 4096) env
      then Inl ''environment values must be at most 4096 bytes without NUL''
      else if sum_list (map (\<lambda>(k, v). length k + length v) env) > 8192
      then Inl ''environment exceeds 8192 bytes''
      else Inr ())"

fun contains_null :: "json \<Rightarrow> bool"
  and any_null :: "json list \<Rightarrow> bool"
  and any_member_null :: "(string \<times> json) list \<Rightarrow> bool" where
  "contains_null JNull = True"
| "contains_null (JArray js) = any_null js"
| "contains_null (JObject members) = any_member_null members"
| "contains_null (JBool b) = False"
| "contains_null (JNumber i) = False"
| "contains_null (JFloat s) = False"
| "contains_null (JString s) = False"
| "any_null [] = False"
| "any_null (j # js) = (contains_null j \<or> any_null js)"
| "any_member_null [] = False"
| "any_member_null ((k, v) # members) = (contains_null v \<or> any_member_null members)"

definition string_members :: "json \<Rightarrow> (string \<times> string) list option" where
  "string_members value =
     Option.bind (json_object value) (\<lambda>members.
       all_some (map (\<lambda>(k, v). map_option (Pair k) (json_str v)) members))"

definition shape :: "(json \<Rightarrow> string) \<Rightarrow> overrides \<Rightarrow> json \<Rightarrow> unit coded" where
  "shape print ov value =
     (if ov_env ov
      then (case string_members value of
              None \<Rightarrow> Inl ''expected an object of string values''
            | Some env \<Rightarrow> validate_env env)
      else (case json_object value of
              None \<Rightarrow> Inl ''expected an object of TOML keys''
            | Some table \<Rightarrow>
                (if any_member_null table then Inl ''TOML has no null; omit the key instead''
                 else if length (print value) > MAX_TOML_BYTES
                 then Inl ''exceeds 8192 bytes as JSON''
                 else Inr ())))"

section \<open>Validation\<close>

definition key_pointer :: "string \<Rightarrow> string" where
  "key_pointer key =
     join ''/'' (map (\<lambda>segment. replace_byte CHR ''/'' ''~1'' (replace_byte CHR ''~'' ''~0'' segment))
                   (split_on CHR ''.'' key))"

definition native_component ::
  "(json \<Rightarrow> string) \<Rightarrow> bool \<Rightarrow> nat \<Rightarrow> component_spec \<Rightarrow> validation_issue list" where
  "native_component print allowed i c =
     (case overrides_of (c_implementation c) of
        None \<Rightarrow> []
      | Some ov \<Rightarrow>
          (case bt_get (c_config c) (ov_field ov) of
             None \<Rightarrow> []
           | Some value \<Rightarrow>
               (let path = component_path i @ ''/config/'' @ ov_field ov
                in issue_if (\<not> allowed) ''native_config_override_not_allowed'' path
                   @ (case shape print ov value of
                        Inl _ \<Rightarrow> issue ''native_config_override_invalid'' path
                      | Inr _ \<Rightarrow>
                          concat (map (\<lambda>key.
                            issue_if (reserved (c_implementation c) key \<noteq> None)
                              ''native_config_override_managed'' (path @ ''/'' @ key_pointer key))
                            (override_keys c))))))"

definition validate_native :: "(json \<Rightarrow> string) \<Rightarrow> cell_spec \<Rightarrow> validation_issue list" where
  "validate_native print cell =
     each_component (native_component print (MintNativeConfigOverride \<in> allow (policy cell))) cell"

section \<open>Keys as paths\<close>

text \<open>The path of member names to each leaf, before the names are joined.\<close>

fun leaf_keys :: "json \<Rightarrow> string list \<Rightarrow> string list list"
  and member_keys :: "(string \<times> json) list \<Rightarrow> string list \<Rightarrow> string list list" where
  "leaf_keys (JObject members) path =
     (if members \<noteq> [] \<or> path = [] then member_keys members path else [path])"
| "leaf_keys JNull path = [path]"
| "leaf_keys (JBool b) path = [path]"
| "leaf_keys (JNumber i) path = [path]"
| "leaf_keys (JFloat s) path = [path]"
| "leaf_keys (JString s) path = [path]"
| "leaf_keys (JArray js) path = [path]"
| "member_keys [] path = []"
| "member_keys ((k, v) # members) path = leaf_keys v (path @ [k]) @ member_keys members path"

lemma leaf_paths_keys:
  "leaf_paths v path = map (join ''.'') (leaf_keys v path)"
  "leaf_members ms path = map (join ''.'') (member_keys ms path)"
  by (induction v path and ms path rule: leaf_paths_leaf_members.induct) auto

lemma join_prefix:
  "xs \<noteq> [] \<Longrightarrow> ys \<noteq> [] \<Longrightarrow> join sep (xs @ ys) = join sep xs @ sep @ join sep ys"
  by (induction sep xs rule: join.induct) (auto simp: join_Cons)

lemma covers_path:
  assumes "\<not> ov_env ov" "ks \<noteq> []" "rs \<noteq> []" "ks = rs @ qs \<or> rs = ks @ qs"
  shows "covers ov (join ''.'' ks) (join ''.'' rs)"
proof (cases "qs = []")
  case True
  then show ?thesis using assms by (auto simp: covers_def)
next
  case False
  then show ?thesis
    using assms by (auto simp: covers_def join_prefix strict_prefix_at_iff)
qed

lemma reserved_iff:
  "reserved i key \<noteq> None \<longleftrightarrow>
   (\<exists>ov. overrides_of i = Some ov \<and> (\<exists>(name, field) \<in> set (ov_reserved ov). covers ov key name))"
proof (cases "overrides_of i")
  case (Some ov)
  have "List.find (\<lambda>(name, field). covers ov key name) (ov_reserved ov) \<noteq> None
      \<longleftrightarrow> (\<exists>(name, field) \<in> set (ov_reserved ov). covers ov key name)"
    unfolding find_None_iff by auto
  then show ?thesis using Some by (simp add: reserved_def)
qed (simp add: reserved_def)

end
