(* ===== verification/Cell_Processors.thy ===== *)
theory Cell_Processors
  imports Cell_Model
begin

text \<open>
  The audited processor profiles (\<open>proofstorm-core/src/processor_profile.rs\<close>): the payment
  methods each processor can advertise, the units a client may bind, and the textual form of a
  method set.
\<close>

section \<open>Profiles\<close>

definition PAYMENT_METHODS_FIELD :: string where
  "PAYMENT_METHODS_FIELD = ''payment_methods''"

definition BARK_ARKOOR :: string where
  "BARK_ARKOOR = ''arkoor''"

datatype processor_profile = LdkServer | Bark | Spark

definition for_implementation :: "string \<Rightarrow> processor_profile option" where
  "for_implementation i =
     (if i = LDK_PROCESSOR then Some LdkServer
      else if i = BARK_PROCESSOR then Some Bark
      else if i = SPARK_PROCESSOR then Some Spark
      else None)"

fun profile_implementation :: "processor_profile \<Rightarrow> string" where
  "profile_implementation LdkServer = LDK_PROCESSOR"
| "profile_implementation Bark = BARK_PROCESSOR"
| "profile_implementation Spark = SPARK_PROCESSOR"

fun supported_methods :: "processor_profile \<Rightarrow> payment_method set" where
  "supported_methods LdkServer = {Bolt11, Bolt12}"
| "supported_methods Bark = {Bolt11, Onchain, Custom BARK_ARKOOR}"
| "supported_methods Spark = {Bolt11}"

definition configurable :: "processor_profile \<Rightarrow> bool" where
  "configurable p \<longleftrightarrow> p = Bark"

definition binding_units :: "processor_profile \<Rightarrow> string \<Rightarrow> string set" where
  "binding_units p client =
     (if p = LdkServer \<and> client = ''nutshell'' then {''msat'', ''sat''} else {''sat''})"

fun settings_unit :: "processor_profile \<Rightarrow> string" where
  "settings_unit LdkServer = ''msat''"
| "settings_unit Bark = ''sat''"
| "settings_unit Spark = ''sat''"

definition accepts_methods :: "processor_profile \<Rightarrow> payment_method set \<Rightarrow> bool" where
  "accepts_methods p ms \<longleftrightarrow>
     ms \<noteq> {} \<and> ms \<subseteq> supported_methods p \<and> (configurable p \<or> ms = supported_methods p)"

text \<open>Every item parses; the set of them, if no two are the same.\<close>

definition distinct_methods :: "processor_profile \<Rightarrow> payment_method option list \<Rightarrow> payment_method set option" where
  "distinct_methods p items =
     (case all_some items of
        None \<Rightarrow> None
      | Some ms \<Rightarrow>
          (if card (set ms) = length items \<and> accepts_methods p (set ms) then Some (set ms)
           else None))"

definition advertised_methods :: "processor_profile \<Rightarrow> config \<Rightarrow> payment_method set option" where
  "advertised_methods p cfg =
     (case (if configurable p then bt_get cfg PAYMENT_METHODS_FIELD else None) of
        None \<Rightarrow> Some (supported_methods p)
      | Some value \<Rightarrow>
          Option.bind (json_array value) (\<lambda>items.
            distinct_methods p
              (map (\<lambda>item. Option.bind (json_str item) parse_method) items)))"

definition parse_methods :: "processor_profile \<Rightarrow> string \<Rightarrow> payment_method set option" where
  "parse_methods p value = distinct_methods p (map parse_method (split_on CHR '','' value))"

text \<open>The loop of \<open>bound_methods\<close>: the unit bound so far and the methods seen.\<close>

fun bind_loop ::
  "string set \<Rightarrow> string option \<Rightarrow> payment_method set \<Rightarrow> dependency_binding option list \<Rightarrow>
   (string option \<times> payment_method set) option" where
  "bind_loop units bound seen [] = Some (bound, seen)"
| "bind_loop units bound seen (b # bs) =
     (case b of
        Some (BindPayment method u) \<Rightarrow>
          (if u \<notin> units \<or> (bound \<noteq> None \<and> bound \<noteq> Some u) \<or> method \<in> seen then None
           else bind_loop units (Some u) (insert method seen) bs)
      | _ \<Rightarrow> None)"

definition bound_methods ::
  "processor_profile \<Rightarrow> string \<Rightarrow> dependency_binding option list \<Rightarrow>
   (string \<times> payment_method set) option" where
  "bound_methods p client bindings =
     Option.bind (bind_loop (binding_units p client) None {} bindings) (\<lambda>(bound, seen).
     Option.bind bound (\<lambda>u. if accepts_methods p seen then Some (u, seen) else None))"

definition method_list :: "payment_method set \<Rightarrow> string" where
  "method_list ms = join '','' (map method_str (sorted_list_of_set ms))"

section \<open>What is bound\<close>

lemma bind_loop_Some:
  assumes "bind_loop units bound seen bs = Some (b', seen')"
  shows "\<exists>pms. bs = map (\<lambda>(m, u). Some (BindPayment m u)) pms
    \<and> seen' = seen \<union> fst ` set pms \<and> distinct (map fst pms) \<and> seen \<inter> fst ` set pms = {}
    \<and> (\<forall>(m, u) \<in> set pms. u \<in> units \<and> b' = Some u)
    \<and> (pms = [] \<longrightarrow> b' = bound) \<and> (bound \<noteq> None \<longrightarrow> b' = bound)"
  using assms
proof (induction units bound seen bs rule: bind_loop.induct)
  case (2 units bound seen b bs)
  then obtain m u where b: "b = Some (BindPayment m u)" "u \<in> units" "bound = None \<or> bound = Some u"
      "m \<notin> seen" and run: "bind_loop units (Some u) (insert m seen) bs = Some (b', seen')"
    by (auto split: option.splits dependency_binding.splits if_splits)
  from "2.IH" [OF b(1) refl _ run] b obtain pms where
    pms: "bs = map (\<lambda>(m, u). Some (BindPayment m u)) pms"
      "seen' = insert m seen \<union> fst ` set pms" "distinct (map fst pms)"
      "insert m seen \<inter> fst ` set pms = {}"
      "\<forall>(m, u) \<in> set pms. u \<in> units \<and> b' = Some u" "b' = Some u"
    by auto
  then show ?case using b by (intro exI [of _ "(m, u) # pms"]) auto
qed auto

lemma supported_finite [simp]: "finite (supported_methods p)"
  by (cases p) auto

lemma supported_wf: "m \<in> supported_methods p \<Longrightarrow> wf_method m"
  by (cases p) (auto simp: wf_method_def parse_method_def BARK_ARKOOR_def MAX_CUSTOM_METHOD_LEN_def
      is_unit_byte_def ascii_defs)

lemma accepted_finite: "accepts_methods p ms \<Longrightarrow> finite ms"
  unfolding accepts_methods_def using finite_subset supported_finite by blast

lemma accepted_wf: "accepts_methods p ms \<Longrightarrow> m \<in> ms \<Longrightarrow> wf_method m"
  unfolding accepts_methods_def using supported_wf by blast

lemma method_list_split:
  assumes "accepts_methods p ms"
  shows "split_on CHR '','' (method_list ms) = map method_str (sorted_list_of_set ms)"
proof -
  have "sorted_list_of_set ms \<noteq> []"
    using assms accepted_finite [OF assms] by (simp add: accepts_methods_def)
  moreover have "\<forall>s \<in> set (map method_str (sorted_list_of_set ms)). CHR '','' \<notin> set s"
    using assms accepted_finite [OF assms] method_str_no_comma accepted_wf by auto
  ultimately show ?thesis unfolding method_list_def by (intro split_on_join) auto
qed

end
