(* ===== verification/Cell_Validation.thy ===== *)
theory Cell_Validation
  imports Cell_Stacks Cell_Native Cell_Processors
begin

text \<open>
  \<open>validate_cell\<close> (\<open>proofstorm-core/src/validation.rs\<close>) with the checks of CDK mints
  (\<open>cdk_validation.rs\<close>) and of payment processors (\<open>processor_validation.rs\<close>). The length of
  a serialized configuration is that of \<open>to_vec\<close>, the JSON library's \<open>serde_json::to_vec\<close>.
\<close>

section \<open>Limits and components\<close>

definition validate_limits :: "cell_spec \<Rightarrow> validation_issue list" where
  "validate_limits cell =
     (let ls = policy_limits (policy cell)
      in concat (map (\<lambda>(field, value).
             issue_if (value = Some 0) ''invalid_limit'' (''/policy/limits/'' @ field))
           [(''max_components'', max_components ls), (''max_links'', max_links ls),
            (''max_config_bytes'', max_config_bytes ls)])
         @ issue_if (exceeds_policy_limit (length (components cell)) (max_components ls))
             ''component_limit_exceeded'' ''/components''
         @ issue_if (exceeds_policy_limit (length (links cell)) (max_links ls))
             ''link_limit_exceeded'' ''/links'')"

definition config_size :: "(config \<Rightarrow> string option) \<Rightarrow> config \<Rightarrow> nat" where
  "config_size to_vec cfg = (case to_vec cfg of None \<Rightarrow> 2 ^ 64 - 1 | Some v \<Rightarrow> length v)"

definition component_issues ::
  "(config \<Rightarrow> string option) \<Rightarrow> u64 option \<Rightarrow> string set \<Rightarrow> nat \<Rightarrow> component_spec \<Rightarrow>
   validation_issue list" where
  "component_issues to_vec max_bytes ids i c =
     issue_if (\<not> is_slug (c_id c)) ''invalid_component_id'' (component_path i @ ''/id'')
     @ issue_if (c_id c \<in> ids) ''duplicate_component_id'' (component_path i @ ''/id'')
     @ issue_if (\<not> is_slug (c_implementation c)) ''invalid_implementation''
         (component_path i @ ''/implementation'')
     @ issue_if (\<not> is_config_version_identifier (c_config_version c)) ''invalid_config_version''
         (component_path i @ ''/config_version'')
     @ issue_if (exceeds_policy_limit (config_size to_vec (c_config c)) max_bytes)
         ''config_too_large'' (component_path i @ ''/config'')"

text \<open>The loop over the components: the issues and the set of ids.\<close>

fun component_loop ::
  "(config \<Rightarrow> string option) \<Rightarrow> u64 option \<Rightarrow> string set \<Rightarrow> nat \<Rightarrow> component_spec list \<Rightarrow>
   validation_issue list \<times> string set" where
  "component_loop to_vec max_bytes ids i [] = ([], ids)"
| "component_loop to_vec max_bytes ids i (c # cs) =
     (let (rest, ids') = component_loop to_vec max_bytes (insert (c_id c) ids) (Suc i) cs
      in (component_issues to_vec max_bytes ids i c @ rest, ids'))"

definition validate_components ::
  "(config \<Rightarrow> string option) \<Rightarrow> cell_spec \<Rightarrow> validation_issue list \<times> string set" where
  "validate_components to_vec cell =
     component_loop to_vec (max_config_bytes (policy_limits (policy cell))) {} 0 (components cell)"

section \<open>Links\<close>

definition validate_link_identity :: "nat \<Rightarrow> link_spec \<Rightarrow> string set \<Rightarrow> validation_issue list" where
  "validate_link_identity i link ids =
     issue_if (\<not> is_slug (l_id link)) ''invalid_link_id'' (link_path i @ ''/id'')
     @ issue_if (l_id link \<in> ids) ''duplicate_link_id'' (link_path i @ ''/id'')"

definition validate_binding :: "nat \<Rightarrow> link_spec \<Rightarrow> validation_issue list" where
  "validate_binding i link =
     (let path = link_path i @ ''/binding''
      in (case l_binding link of
            Some b \<Rightarrow>
              (if \<not> is_backend (l_kind link) then issue ''unexpected_dependency_binding'' path
               else issue_if (binding_link_kind b \<noteq> l_kind link)
                      ''incompatible_dependency_binding'' path)
          | None \<Rightarrow> issue_if (is_backend (l_kind link)) ''missing_dependency_binding'' path)
         @ (case l_binding link of
              Some (BindPayment _ u) \<Rightarrow>
                issue_if (\<not> is_cashu_unit u) ''invalid_payment_unit'' (path @ ''/unit'')
            | _ \<Rightarrow> []))"

fun has_role :: "database_role \<Rightarrow> dependency_binding option \<Rightarrow> bool" where
  "has_role role (Some (BindDatabase r _)) = (r = role)"
| "has_role role _ = False"

fun duplicate_role_code :: "database_role \<Rightarrow> string" where
  "duplicate_role_code Primary = ''duplicate_primary_database''"
| "duplicate_role_code Cache = ''duplicate_cache_database''"
| "duplicate_role_code Authentication = ''duplicate_authentication_database''"

definition validate_database_role ::
  "nat \<Rightarrow> link_spec \<Rightarrow> link_spec list \<Rightarrow> validation_issue list" where
  "validate_database_role i link previous =
     (case l_binding link of
        Some (BindDatabase role _) \<Rightarrow>
          (let name = the_default [] (database_name link)
           in issue_if (length name > 63 \<or> \<not> is_postgres_identifier name)
                ''invalid_database_name'' (link_path i @ ''/binding/database'')
              @ issue_if (list_ex (\<lambda>p. l_to p = l_to link \<and> l_kind p = DatabaseBackend
                                       \<and> database_name p = Some name) previous)
                  ''duplicate_database_name'' (link_path i @ ''/binding/database'')
              @ issue_if (list_ex (\<lambda>p. l_from p = l_from link \<and> has_role role (l_binding p)) previous)
                  (duplicate_role_code role) (link_path i))
      | _ \<Rightarrow> [])"

definition payment_target :: "dependency_binding option \<Rightarrow> component_kind set" where
  "payment_target b =
     (case b of
        Some (BindPayment Onchain _) \<Rightarrow> {Bitcoin, PaymentProcessor}
      | Some (BindPayment (Custom _) _) \<Rightarrow> {PaymentProcessor}
      | Some (BindPayment _ _) \<Rightarrow> {Lightning, PaymentProcessor}
      | _ \<Rightarrow> {Lightning, Bitcoin, PaymentProcessor})"

definition compatible_kinds :: "link_spec \<Rightarrow> component_kind \<Rightarrow> component_kind \<Rightarrow> bool" where
  "compatible_kinds link src dst =
     (case l_kind link of
        BitcoinPeer \<Rightarrow> src = Bitcoin \<and> dst = Bitcoin
      | LightningPeer \<Rightarrow> src = Lightning \<and> dst = Lightning
      | ChainBackend \<Rightarrow>
          src \<in> {Lightning, Mint, PaymentProcessor, ArkServer, SparkServer} \<and> dst = Bitcoin
      | ArkBackend \<Rightarrow> src = PaymentProcessor \<and> dst = ArkServer
      | SparkBackend \<Rightarrow> src \<in> {PaymentProcessor, SparkServer} \<and> dst = SparkServer
      | PaymentBackend \<Rightarrow>
          src \<in> {Mint, PaymentProcessor, ArkServer, SparkServer}
          \<and> dst \<in> payment_target (l_binding link)
      | DatabaseBackend \<Rightarrow>
          src \<in> {Mint, IdentityProvider, ArkServer, SparkServer} \<and> dst = Database
      | AuthenticationBackend \<Rightarrow> src = Mint \<and> dst = IdentityProvider
      | NetworkPath \<Rightarrow> True)"

definition link_issues ::
  "string set \<Rightarrow> (string, component_kind) btree \<Rightarrow> nat \<Rightarrow> link_spec \<Rightarrow> string set \<Rightarrow> link_spec list \<Rightarrow>
   validation_issue list" where
  "link_issues ids kinds i link link_ids previous =
     validate_link_identity i link link_ids
     @ validate_binding i link
     @ validate_database_role i link previous
     @ issue_if (l_from link = l_to link) ''self_link'' (link_path i)
     @ concat (map (\<lambda>(field, endpoint).
         issue_if (endpoint \<notin> ids) ''missing_link_endpoint'' (link_path i @ ''/'' @ field))
         [(''from'', l_from link), (''to'', l_to link)])
     @ (case (bt_get kinds (l_from link), bt_get kinds (l_to link)) of
          (Some src, Some dst) \<Rightarrow>
            issue_if (\<not> compatible_kinds link src dst) ''incompatible_link_kinds'' (link_path i)
        | _ \<Rightarrow> [])"

fun link_loop ::
  "string set \<Rightarrow> (string, component_kind) btree \<Rightarrow> nat \<Rightarrow> string set \<Rightarrow> link_spec list \<Rightarrow>
   link_spec list \<Rightarrow> validation_issue list" where
  "link_loop ids kinds i link_ids previous [] = []"
| "link_loop ids kinds i link_ids previous (link # rest) =
     link_issues ids kinds i link link_ids previous
     @ link_loop ids kinds (Suc i) (insert (l_id link) link_ids) (previous @ [link]) rest"

definition validate_links ::
  "cell_spec \<Rightarrow> string set \<Rightarrow> (string, component_kind) btree \<Rightarrow> validation_issue list" where
  "validate_links cell ids kinds = link_loop ids kinds 0 {} [] (links cell)"

section \<open>Authentication\<close>

definition count_links :: "cell_spec \<Rightarrow> component_spec \<Rightarrow> (link_spec \<Rightarrow> bool) \<Rightarrow> nat" where
  "count_links cell c p = length (filter p (links_from cell (c_id c)))"

definition config_text :: "component_spec \<Rightarrow> string \<Rightarrow> string option" where
  "config_text c field = Option.bind (bt_get (c_config c) field) json_str"

definition authentication_component :: "cell_spec \<Rightarrow> nat \<Rightarrow> component_spec \<Rightarrow> validation_issue list" where
  "authentication_component cell i c =
     issue_if (c_implementation c = ''keycloak''
               \<and> count_links cell c (\<lambda>l. l_kind l = DatabaseBackend \<and> has_role Primary (l_binding l)) \<noteq> 1)
       ''keycloak_primary_database_required'' (component_path i)
     @ (if c_kind c \<noteq> Mint then []
        else (let providers = count_links cell c (\<lambda>l. l_kind l = AuthenticationBackend)
              in issue_if (providers > 1) ''duplicate_authentication_provider'' (component_path i)
                 @ issue_if (list_ex (\<lambda>l. has_role Authentication (l_binding l))
                               (links_from cell (c_id c)) \<and> providers = 0)
                     ''authentication_database_without_provider'' (component_path i)
                 @ (if c_implementation c \<noteq> ''nutshell'' \<or> providers = 0 then []
                    else issue_if (case config_text c ''oidc_discovery_url'' of
                                     None \<Rightarrow> False | Some url \<Rightarrow> url \<noteq> [])
                           ''ambiguous_oidc_discovery''
                           (component_path i @ ''/config/oidc_discovery_url'')
                         @ issue_if (case config_text c ''oidc_client_id'' of
                                       None \<Rightarrow> False | Some client \<Rightarrow> client \<noteq> ''cashu-client'')
                             ''linked_oidc_client_mismatch''
                             (component_path i @ ''/config/oidc_client_id''))))"

definition authentication_topology :: "cell_spec \<Rightarrow> validation_issue list" where
  "authentication_topology cell = each_component (authentication_component cell) cell"

section \<open>CDK mints\<close>

definition configured :: "component_spec \<Rightarrow> string \<Rightarrow> string \<Rightarrow> string" where
  "configured c field fallback = the_default fallback (config_text c field)"

definition embedded_payment_tuples :: "component_spec \<Rightarrow> (payment_method \<times> string \<times> string) list" where
  "embedded_payment_tuples c =
     (if configured c ''embedded_lightning'' ''none'' = ''ldk-node''
      then map (\<lambda>m. (m, configured c ''embedded_lightning_unit'' ''sat'', ''ldk-node'')) [Bolt11, Bolt12]
      else [])
     @ (if configured c ''embedded_onchain'' ''none'' = ''bdk'' then [(Onchain, ''sat'', ''bdk'')] else [])"

definition validate_payment_override :: "cell_spec \<Rightarrow> validation_issue list" where
  "validate_payment_override cell =
     (if MintQuotePaymentOverride \<in> allow (policy cell) then []
      else each_component (\<lambda>i c.
             issue_if (c_implementation c = ''cdk''
                       \<and> Option.bind (bt_get (c_config c) ''allow_mint_quote_payment_override'') json_bool
                         = Some True)
               ''mint_quote_payment_override_not_allowed''
               (component_path i @ ''/config/allow_mint_quote_payment_override'')) cell)"

text \<open>
  The loop over the payment links of one mint, with the unit of each backend and the claimed
  methods.
\<close>

fun cdk_payments ::
  "string \<Rightarrow> (string, string) btree \<Rightarrow> (payment_method \<times> string) set \<Rightarrow> link_spec list \<Rightarrow>
   validation_issue list" where
  "cdk_payments path units claimed [] = []"
| "cdk_payments path units claimed (link # rest) =
     (case l_binding link of
        Some (BindPayment method u) \<Rightarrow>
          (let bound = the_default u (bt_get units (l_to link))
           in issue_if (bound \<noteq> u) ''cdk_payment_backend_unit_mixed'' (path @ ''/links/'' @ l_id link)
              @ issue_if ((method, u) \<in> claimed) ''cdk_payment_method_conflict''
                  (path @ ''/links/'' @ l_id link)
              @ cdk_payments path (bt_insert (l_to link) bound units) (insert (method, u) claimed) rest)
      | _ \<Rightarrow> cdk_payments path units claimed rest)"

definition embedded_claims :: "component_spec \<Rightarrow> (payment_method \<times> string) set" where
  "embedded_claims c = set (map (\<lambda>(m, u, backend). (m, u)) (embedded_payment_tuples c))"

definition cdk_component :: "cell_spec \<Rightarrow> nat \<Rightarrow> component_spec \<Rightarrow> validation_issue list" where
  "cdk_component cell i c =
     (if c_implementation c \<noteq> ''cdk'' then []
      else (let path = component_path i;
                ldk = configured c ''embedded_lightning'' ''none'' = ''ldk-node'';
                bdk = configured c ''embedded_onchain'' ''none'' = ''bdk'';
                outgoing = (\<lambda>k. filter (\<lambda>l. l_kind l = k) (links_from cell (c_id c)));
                chains = length (outgoing ChainBackend);
                payments = outgoing PaymentBackend;
                role_bound = (\<lambda>role. list_ex (\<lambda>l. has_role role (l_binding l)) (outgoing DatabaseBackend));
                authenticated = outgoing AuthenticationBackend \<noteq> [];
                postgres = role_bound Primary;
                auth_database = role_bound Authentication
            in issue_if (\<not> is_cashu_unit (configured c ''embedded_lightning_unit'' ''sat''))
                 ''invalid_payment_unit'' (path @ ''/config/embedded_lightning_unit'')
               @ (if (ldk \<or> bdk) \<and> chains \<noteq> 1 then issue ''cdk_embedded_chain_backend_required'' path
                  else issue_if (\<not> (ldk \<or> bdk) \<and> chains > 0) ''cdk_chain_backend_unused'' path)
               @ cdk_payments path [] (embedded_claims c) payments
               @ issue_if (payments = [] \<and> \<not> ldk \<and> \<not> bdk) ''cdk_payment_path_required'' path
               @ (if authenticated \<and> postgres \<and> \<not> auth_database
                  then issue ''cdk_authentication_database_required'' path
                  else issue_if (auth_database \<and> \<not> postgres)
                         ''cdk_authentication_database_unused'' path)))"

definition cdk_topology :: "cell_spec \<Rightarrow> validation_issue list" where
  "cdk_topology cell = each_component (cdk_component cell) cell"

section \<open>Payment processors\<close>

definition payment_links :: "cell_spec \<Rightarrow> component_spec \<Rightarrow> link_spec list" where
  "payment_links cell c = filter (\<lambda>l. l_kind l = PaymentBackend) (links_from cell (c_id c))"

fun find_map :: "('a \<Rightarrow> 'b option) \<Rightarrow> 'a list \<Rightarrow> 'b option" where
  "find_map f [] = None"
| "find_map f (x # xs) = (case f x of None \<Rightarrow> find_map f xs | Some y \<Rightarrow> Some y)"

text \<open>The first processor a mint's payment links reach.\<close>

definition processor_target :: "cell_spec \<Rightarrow> link_spec list \<Rightarrow> component_spec option" where
  "processor_target cell ls =
     find_map (\<lambda>link. List.find (\<lambda>t. c_id t = l_to link
         \<and> (c_kind t = PaymentProcessor \<or> for_implementation (c_implementation t) \<noteq> None))
       (components cell)) ls"

fun profile_code :: "processor_profile \<Rightarrow> string" where
  "profile_code LdkServer = ''ldk_processor_payment_bindings''"
| "profile_code Bark = ''bark_processor_payment_bindings''"
| "profile_code Spark = ''spark_processor_payment_bindings''"

definition one_target :: "cell_spec \<Rightarrow> link_spec list \<Rightarrow> component_kind \<Rightarrow> string \<Rightarrow> bool" where
  "one_target cell ls kind implementation \<longleftrightarrow>
     (\<forall>link \<in> set ls. \<exists>t \<in> set (components cell).
        l_to link = l_to (hd ls) \<and> c_id t = l_to link \<and> c_kind t = kind
        \<and> c_implementation t = implementation)"

definition profile_issues ::
  "cell_spec \<Rightarrow> nat \<Rightarrow> component_spec \<Rightarrow> link_spec list \<Rightarrow> processor_profile \<Rightarrow> string \<Rightarrow>
   component_kind \<Rightarrow> payment_method set option \<Rightarrow> validation_issue list" where
  "profile_issues cell i c ls p target_implementation target_kind advertised =
     (case advertised of
        None \<Rightarrow> []
      | Some methods \<Rightarrow>
          issue_if (\<not> (case bound_methods p (c_implementation c) (map l_binding ls) of
                        None \<Rightarrow> False | Some (_, bound) \<Rightarrow> bound = methods)
                    \<or> \<not> one_target cell ls target_kind target_implementation)
            (profile_code p) (component_path i))"

definition processor_component :: "cell_spec \<Rightarrow> nat \<Rightarrow> component_spec \<Rightarrow> validation_issue list" where
  "processor_component cell i c =
     (let ls = payment_links cell c
      in if c_implementation c = LDK_PROCESSOR
         then profile_issues cell i c ls LdkServer ''ldk-server'' Lightning
                (advertised_methods LdkServer (c_config c))
         else if c_implementation c \<in> {''cdk'', ''nutshell''}
         then (case processor_target cell ls of
                 None \<Rightarrow> []
               | Some t \<Rightarrow>
                   (case for_implementation (c_implementation t) of
                      None \<Rightarrow> issue ''unsupported_processor_profile'' (component_path i)
                    | Some p \<Rightarrow>
                        profile_issues cell i c ls p (profile_implementation p) PaymentProcessor
                          (advertised_methods p (c_config t))))
         else [])"

definition processor_topology :: "cell_spec \<Rightarrow> validation_issue list" where
  "processor_topology cell = each_component (processor_component cell) cell"

section \<open>The whole validation\<close>

definition component_kinds :: "cell_spec \<Rightarrow> (string, component_kind) btree" where
  "component_kinds cell = bt_of_list (map (\<lambda>c. (c_id c, c_kind c)) (components cell))"

definition validate_cell ::
  "(config \<Rightarrow> string option) \<Rightarrow> (json \<Rightarrow> string) \<Rightarrow> cell_spec \<Rightarrow> validation_report" where
  "validate_cell to_vec print cell =
     (let (component_issues, ids) = validate_components to_vec cell
      in from_issues
           (issue_if (api_version cell \<noteq> API_VERSION) ''unsupported_api_version'' ''/api_version''
            @ issue_if (\<not> is_slug (cell_name cell)) ''invalid_cell_name'' ''/name''
            @ validate_limits cell
            @ component_issues
            @ validate_links cell ids (component_kinds cell)
            @ authentication_topology cell
            @ processor_topology cell
            @ bark_topology cell
            @ spark_topology cell
            @ cdk_topology cell
            @ validate_payment_override cell
            @ validate_native print cell))"

end
