(* ===== verification/Cell_Specification.thy ===== *)
theory Cell_Specification
  imports Cell_Validation
begin

text \<open>
  What a valid cell is, stated over the whole document instead of by a pass over it, and the
  proof that \<open>validate_cell\<close> reports no issue exactly for such documents.
\<close>

section \<open>The graph\<close>

definition within :: "nat \<Rightarrow> u64 option \<Rightarrow> bool" where
  "within n limit \<longleftrightarrow> (\<forall>l. limit = Some l \<longrightarrow> n \<le> unat l)"

definition limits_ok :: "cell_spec \<Rightarrow> bool" where
  "limits_ok cell \<longleftrightarrow>
     (let ls = policy_limits (policy cell)
      in max_components ls \<noteq> Some 0 \<and> max_links ls \<noteq> Some 0 \<and> max_config_bytes ls \<noteq> Some 0
         \<and> within (length (components cell)) (max_components ls)
         \<and> within (length (links cell)) (max_links ls))"

definition component_ok :: "(config \<Rightarrow> string option) \<Rightarrow> u64 option \<Rightarrow> component_spec \<Rightarrow> bool" where
  "component_ok to_vec max_bytes c \<longleftrightarrow> is_slug (c_id c) \<and> is_slug (c_implementation c)
     \<and> is_config_version_identifier (c_config_version c)
     \<and> within (config_size to_vec (c_config c)) max_bytes"

text \<open>A link carries a binding exactly when it is a backend link, and one of its own kind.\<close>

definition binding_ok :: "link_spec \<Rightarrow> bool" where
  "binding_ok link \<longleftrightarrow>
     (if is_backend (l_kind link) then map_option binding_link_kind (l_binding link) = Some (l_kind link)
      else l_binding link = None)
     \<and> (\<forall>m u. l_binding link = Some (BindPayment m u) \<longrightarrow> is_cashu_unit u)
     \<and> (\<forall>name. database_name link = Some name \<longrightarrow> length name \<le> 63 \<and> is_postgres_identifier name)"

definition link_ok :: "cell_spec \<Rightarrow> link_spec \<Rightarrow> bool" where
  "link_ok cell link \<longleftrightarrow> is_slug (l_id link) \<and> binding_ok link \<and> l_from link \<noteq> l_to link
     \<and> (\<exists>a \<in> set (components cell). \<exists>b \<in> set (components cell).
          c_id a = l_from link \<and> c_id b = l_to link \<and> compatible_kinds link (c_kind a) (c_kind b))"

text \<open>The database a link owns on its server, and the role it has for its client.\<close>

definition db_key :: "link_spec \<Rightarrow> (string \<times> string) option" where
  "db_key link = map_option (Pair (l_to link)) (database_name link)"

definition role_key :: "link_spec \<Rightarrow> (string \<times> database_role) option" where
  "role_key link =
     (case l_binding link of Some (BindDatabase r _) \<Rightarrow> Some (l_from link, r) | _ \<Rightarrow> None)"

definition graph_ok :: "(config \<Rightarrow> string option) \<Rightarrow> cell_spec \<Rightarrow> bool" where
  "graph_ok to_vec cell \<longleftrightarrow>
     distinct (map c_id (components cell))
     \<and> list_all (component_ok to_vec (max_config_bytes (policy_limits (policy cell)))) (components cell)
     \<and> distinct (map l_id (links cell))
     \<and> list_all (link_ok cell) (links cell)
     \<and> distinct (List.map_filter db_key (links cell))
     \<and> distinct (List.map_filter role_key (links cell))"

lemma set_mapped_filter: "y \<in> set (List.map_filter f xs) \<longleftrightarrow> (\<exists>x \<in> set xs. f x = Some y)"
  by (force simp: List.map_filter_def)

lemma exceeds_within: "exceeds_policy_limit n limit \<longleftrightarrow> \<not> within n limit"
proof (cases limit)
  case (Some l)
  have "2 ^ 64 \<le> n \<or> of_nat n > l \<longleftrightarrow> unat l < n"
  proof (cases "n < 2 ^ 64")
    case True
    then have "unat (of_nat n :: u64) = n" by (simp add: unat_of_nat take_bit_nat_eq_self)
    then show ?thesis using True by (simp add: word_less_nat_alt)
  next
    case False
    moreover have "unat l < 2 ^ 64" using unsigned_less [of l] by simp
    ultimately show ?thesis by linarith
  qed
  then show ?thesis using Some by (simp add: exceeds_policy_limit_def within_def not_le)
qed (simp add: exceeds_policy_limit_def within_def)

lemma validate_limits_Nil: "validate_limits cell = [] \<longleftrightarrow> limits_ok cell"
  by (auto simp: validate_limits_def limits_ok_def Let_def exceeds_within)

lemma component_issues_Nil:
  "component_issues to_vec mb ids i c = [] \<longleftrightarrow> component_ok to_vec mb c \<and> c_id c \<notin> ids"
  by (auto simp: component_issues_def component_ok_def exceeds_within)

lemma component_loop_spec:
  "fst (component_loop to_vec mb ids i cs) = [] \<longleftrightarrow>
     list_all (component_ok to_vec mb) cs \<and> distinct (map c_id cs) \<and> ids \<inter> c_id ` set cs = {}"
  "snd (component_loop to_vec mb ids i cs) = ids \<union> c_id ` set cs"
proof (induction to_vec mb ids i cs rule: component_loop.induct)
  case (2 to_vec mb ids i c cs)
  { case 1
    show ?case using 2 by (auto simp: component_issues_Nil split: prod.splits) }
  { case 2
    show ?case using "2.IH" by (auto split: prod.splits) }
qed auto

section \<open>Links\<close>

text \<open>What the loop checks of a link alone.\<close>

definition link_local :: "string set \<Rightarrow> (string, component_kind) btree \<Rightarrow> link_spec \<Rightarrow> bool" where
  "link_local ids kinds link \<longleftrightarrow> is_slug (l_id link) \<and> binding_ok link \<and> l_from link \<noteq> l_to link
     \<and> l_from link \<in> ids \<and> l_to link \<in> ids
     \<and> (\<forall>src dst. bt_get kinds (l_from link) = Some src \<longrightarrow> bt_get kinds (l_to link) = Some dst \<longrightarrow>
          compatible_kinds link src dst)"

lemma database_name_binding:
  "database_name link \<noteq> None \<longleftrightarrow> (\<exists>r d. l_binding link = Some (BindDatabase r d))"
  by (auto simp: database_name_def split: option.splits dependency_binding.splits)

lemma database_kind:
  assumes "binding_ok link"
  shows "l_kind link = DatabaseBackend \<longleftrightarrow> database_name link \<noteq> None"
proof
  assume k: "l_kind link = DatabaseBackend"
  then obtain b where "l_binding link = Some b" "binding_link_kind b = DatabaseBackend"
    using assms by (auto simp: binding_ok_def is_backend_def)
  then show "database_name link \<noteq> None"
    unfolding database_name_binding by (cases b) auto
next
  assume "database_name link \<noteq> None"
  then obtain r d where "l_binding link = Some (BindDatabase r d)"
    unfolding database_name_binding by blast
  then show "l_kind link = DatabaseBackend"
    using assms by (auto simp: binding_ok_def split: if_splits)
qed

lemma has_role_key: "has_role r (l_binding link) \<longleftrightarrow> role_key link = Some (l_from link, r)"
  by (cases "(r, l_binding link)" rule: has_role.cases) (auto simp: role_key_def split: option.splits)

lemma role_key_from: "role_key link = Some (f, r) \<Longrightarrow> f = l_from link"
  by (auto simp: role_key_def split: option.splits dependency_binding.splits)

lemma validate_binding_role_Nil:
  assumes "list_all binding_ok previous"
  shows "validate_binding i link = [] \<and> validate_database_role i link previous = [] \<longleftrightarrow>
     binding_ok link
     \<and> (\<forall>k. db_key link = Some k \<longrightarrow> k \<notin> set (List.map_filter db_key previous))
     \<and> (\<forall>k. role_key link = Some k \<longrightarrow> k \<notin> set (List.map_filter role_key previous))"
proof (cases "\<exists>r d. l_binding link = Some (BindDatabase r d)")
  case True
  then obtain r d name where b: "l_binding link = Some (BindDatabase r d)"
    and n: "database_name link = Some name"
    by (auto simp: database_name_def)
  have rk: "role_key link = Some (l_from link, r)" using b by (simp add: role_key_def)
  have dk: "db_key link = Some (l_to link, name)" using n by (simp add: db_key_def)
  have clash: "list_ex (\<lambda>p. l_to p = l_to link \<and> l_kind p = DatabaseBackend
        \<and> database_name p = Some name) previous
      \<longleftrightarrow> (l_to link, name) \<in> set (List.map_filter db_key previous)"
    using assms database_kind
    by (auto simp: list_ex_iff list_all_iff db_key_def set_mapped_filter)
  have role: "list_ex (\<lambda>p. l_from p = l_from link \<and> has_role r (l_binding p)) previous
      \<longleftrightarrow> (l_from link, r) \<in> set (List.map_filter role_key previous)"
    unfolding list_ex_iff set_mapped_filter has_role_key using role_key_from by metis
  have "validate_binding i link = [] \<longleftrightarrow> l_kind link = DatabaseBackend"
    using b by (auto simp: validate_binding_def Let_def is_backend_def)
  moreover have "binding_ok link \<longleftrightarrow> l_kind link = DatabaseBackend
      \<and> length name \<le> 63 \<and> is_postgres_identifier name"
    using b n by (auto simp: binding_ok_def is_backend_def)
  ultimately show ?thesis
    using b n rk dk clash role by (auto simp: validate_database_role_def Let_def not_less)
next
  case False
  then have "database_name link = None" using database_name_binding by blast
  moreover from this False have "role_key link = None" "db_key link = None"
      "validate_database_role i link previous = []"
    by (auto simp: role_key_def db_key_def validate_database_role_def
        split: option.splits dependency_binding.splits)
  moreover have "validate_binding i link = [] \<longleftrightarrow> binding_ok link"
    using calculation(1)
    by (auto simp: validate_binding_def binding_ok_def Let_def split: option.splits dependency_binding.splits)
  ultimately show ?thesis by auto
qed

lemma link_issues_Nil:
  assumes "list_all binding_ok previous"
  shows "link_issues ids kinds i link link_ids previous = [] \<longleftrightarrow>
     link_local ids kinds link \<and> l_id link \<notin> link_ids
     \<and> (\<forall>k. db_key link = Some k \<longrightarrow> k \<notin> set (List.map_filter db_key previous))
     \<and> (\<forall>k. role_key link = Some k \<longrightarrow> k \<notin> set (List.map_filter role_key previous))"
  using validate_binding_role_Nil [OF assms, of i link]
  by (auto simp: link_issues_def link_local_def validate_link_identity_def split: option.splits)

lemma map_filter_Cons:
  "List.map_filter f (x # xs)
   = (case f x of None \<Rightarrow> List.map_filter f xs | Some y \<Rightarrow> y # List.map_filter f xs)"
  by (simp add: List.map_filter_def split: option.splits)

lemma map_filter_snoc:
  "set (List.map_filter f (xs @ [x])) = set (List.map_filter f xs) \<union> set_option (f x)"
  by (auto simp: set_mapped_filter)

lemma link_loop_Nil:
  "list_all binding_ok previous \<Longrightarrow>
   link_loop ids kinds i link_ids previous ls = [] \<longleftrightarrow>
     list_all (link_local ids kinds) ls
     \<and> distinct (map l_id ls) \<and> link_ids \<inter> l_id ` set ls = {}
     \<and> distinct (List.map_filter db_key ls)
     \<and> set (List.map_filter db_key previous) \<inter> set (List.map_filter db_key ls) = {}
     \<and> distinct (List.map_filter role_key ls)
     \<and> set (List.map_filter role_key previous) \<inter> set (List.map_filter role_key ls) = {}"
proof (induction ids kinds i link_ids previous ls rule: link_loop.induct)
  case (1 ids kinds i link_ids previous)
  then show ?case by (simp add: List.map_filter_def)
next
  case (2 ids kinds i link_ids previous link rest)
  show ?case
  proof (cases "link_local ids kinds link")
    case True
    then have "list_all binding_ok (previous @ [link])"
      using "2.prems" by (simp add: link_local_def)
    note IH = "2.IH" [OF this]
    show ?thesis
      unfolding link_loop.simps append_is_Nil_conv link_issues_Nil [OF "2.prems"] IH
      using True by (auto simp: map_filter_Cons map_filter_snoc split: option.splits)
  next
    case False
    then show ?thesis by (simp add: link_issues_Nil [OF "2.prems"])
  qed
qed

lemma component_kinds_get:
  assumes "distinct (map c_id (components cell))" "c \<in> set (components cell)"
  shows "bt_get (component_kinds cell) (c_id c) = Some (c_kind c)"
proof -
  have "map fst (map (\<lambda>c. (c_id c, c_kind c)) (components cell)) = map c_id (components cell)"
    by simp
  then have "distinct (map fst (map (\<lambda>c. (c_id c, c_kind c)) (components cell)))"
    using assms(1) by (simp only:)
  then show ?thesis
    using assms(2) unfolding component_kinds_def by (subst bt_of_list_get) auto
qed

lemma link_local_ok:
  assumes d: "distinct (map c_id (components cell))"
  shows "link_local (c_id ` set (components cell)) (component_kinds cell) link \<longleftrightarrow> link_ok cell link"
proof -
  have get: "bt_get (component_kinds cell) (c_id c) = Some (c_kind c)" if "c \<in> set (components cell)" for c
    by (rule component_kinds_get [OF d that])
  show ?thesis
  proof
    assume l: "link_local (c_id ` set (components cell)) (component_kinds cell) link"
    then obtain a b where ab: "a \<in> set (components cell)" "c_id a = l_from link"
        "b \<in> set (components cell)" "c_id b = l_to link"
      by (auto simp: link_local_def)
    then have "compatible_kinds link (c_kind a) (c_kind b)"
      using l get [OF ab(1)] get [OF ab(3)] by (simp add: link_local_def)
    then show "link_ok cell link" using l ab unfolding link_local_def link_ok_def by blast
  next
    assume l: "link_ok cell link"
    then obtain a b where ab: "a \<in> set (components cell)" "c_id a = l_from link"
        "b \<in> set (components cell)" "c_id b = l_to link"
        "compatible_kinds link (c_kind a) (c_kind b)"
      by (auto simp: link_ok_def)
    then show "link_local (c_id ` set (components cell)) (component_kinds cell) link"
      using l get [OF ab(1)] get [OF ab(3)] unfolding link_local_def link_ok_def
      by (auto intro: rev_image_eqI)
  qed
qed

lemma validate_graph_Nil:
  assumes "validate_components to_vec cell = (issues, ids)"
  shows "issues = [] \<and> validate_links cell ids (component_kinds cell) = [] \<longleftrightarrow> graph_ok to_vec cell"
proof (cases "distinct (map c_id (components cell))")
  case True
  have i: "issues = [] \<longleftrightarrow> list_all (component_ok to_vec (max_config_bytes (policy_limits (policy cell))))
      (components cell)"
    and ids: "ids = c_id ` set (components cell)"
    using component_loop_spec [of to_vec "max_config_bytes (policy_limits (policy cell))" "{}" 0 "components cell"]
      assms True by (simp_all add: validate_components_def)
  have l: "link_local ids (component_kinds cell) = link_ok cell"
    unfolding ids using link_local_ok [OF True] by blast
  show ?thesis
    using True i unfolding validate_links_def graph_ok_def
    by (auto simp: link_loop_Nil l List.map_filter_def)
next
  case False
  then have "issues \<noteq> []"
    using component_loop_spec(1) [of to_vec "max_config_bytes (policy_limits (policy cell))" "{}" 0 "components cell"]
      assms by (auto simp: validate_components_def)
  then show ?thesis using False by (simp add: graph_ok_def)
qed

end
