(* ===== verification/Cell_Topology.thy ===== *)
theory Cell_Topology
  imports Cell_Specification
begin

text \<open>
  The conditions a valid cell puts on its mints, processors, stacks and overrides, and the
  equivalence of \<open>validate_cell\<close> with all of them.
\<close>

section \<open>Authentication\<close>

definition authentication_ok :: "cell_spec \<Rightarrow> bool" where
  "authentication_ok cell \<longleftrightarrow> (\<forall>c \<in> set (components cell).
     let own = links_from cell (c_id c);
         providers = length (filter (\<lambda>l. l_kind l = AuthenticationBackend) own)
     in (c_implementation c = ''keycloak'' \<longrightarrow>
           length (filter (\<lambda>l. l_kind l = DatabaseBackend \<and> has_role Primary (l_binding l)) own) = 1)
        \<and> (c_kind c = Mint \<longrightarrow> providers \<le> 1
             \<and> ((\<exists>l \<in> set own. has_role Authentication (l_binding l)) \<longrightarrow> providers = 1)
             \<and> (c_implementation c = ''nutshell'' \<and> providers = 1 \<longrightarrow>
                  config_text c ''oidc_discovery_url'' \<in> {None, Some []}
                  \<and> config_text c ''oidc_client_id'' \<in> {None, Some ''cashu-client''})))"

lemma authentication_topology_Nil: "authentication_topology cell = [] \<longleftrightarrow> authentication_ok cell"
  unfolding authentication_topology_def authentication_ok_def
proof (rule each_component_Nil)
  fix i c
  show "authentication_component cell i c = [] \<longleftrightarrow>
     (let own = links_from cell (c_id c);
         providers = length (filter (\<lambda>l. l_kind l = AuthenticationBackend) own)
     in (c_implementation c = ''keycloak'' \<longrightarrow>
           length (filter (\<lambda>l. l_kind l = DatabaseBackend \<and> has_role Primary (l_binding l)) own) = 1)
        \<and> (c_kind c = Mint \<longrightarrow> providers \<le> 1
             \<and> ((\<exists>l \<in> set own. has_role Authentication (l_binding l)) \<longrightarrow> providers = 1)
             \<and> (c_implementation c = ''nutshell'' \<and> providers = 1 \<longrightarrow>
                  config_text c ''oidc_discovery_url'' \<in> {None, Some []}
                  \<and> config_text c ''oidc_client_id'' \<in> {None, Some ''cashu-client''})))"
  proof -
    define n where "n = length (filter (\<lambda>l. l_kind l = AuthenticationBackend) (links_from cell (c_id c)))"
    have "n = 0 \<or> n = 1 \<or> 1 < n" by linarith
    then show ?thesis
      unfolding authentication_component_def count_links_def Let_def n_def [symmetric]
      by (auto simp: list_ex_iff split: option.splits)
  qed
qed

section \<open>CDK mints\<close>

definition payment_claim :: "link_spec \<Rightarrow> (payment_method \<times> string) option" where
  "payment_claim link =
     (case l_binding link of Some (BindPayment m u) \<Rightarrow> Some (m, u) | _ \<Rightarrow> None)"

definition payment_unit :: "link_spec \<Rightarrow> (string \<times> string) option" where
  "payment_unit link = map_option (\<lambda>(m, u). (l_to link, u)) (payment_claim link)"

definition cdk_ok :: "cell_spec \<Rightarrow> component_spec \<Rightarrow> bool" where
  "cdk_ok cell c \<longleftrightarrow>
     (let own = links_from cell (c_id c);
          embedded = embedded_payment_tuples c;
          payments = payment_links cell c;
          chains = length (filter (\<lambda>l. l_kind l = ChainBackend) own);
          stores = (\<lambda>role. \<exists>l \<in> set own. l_kind l = DatabaseBackend \<and> has_role role (l_binding l))
      in is_cashu_unit (configured c ''embedded_lightning_unit'' ''sat'')
         \<and> chains = (if embedded = [] then 0 else 1)
         \<and> distinct (map (\<lambda>(m, u, b). (m, u)) embedded @ List.map_filter payment_claim payments)
         \<and> (\<forall>(t, u) \<in> set (List.map_filter payment_unit payments).
              \<forall>(t', u') \<in> set (List.map_filter payment_unit payments). t = t' \<longrightarrow> u = u')
         \<and> (payments \<noteq> [] \<or> embedded \<noteq> [])
         \<and> (stores Authentication \<longrightarrow> stores Primary)
         \<and> ((\<exists>l \<in> set own. l_kind l = AuthenticationBackend) \<and> stores Primary \<longrightarrow> stores Authentication))"

lemma cdk_payments_Nil:
  "cdk_payments path units claimed ls = [] \<longleftrightarrow>
     distinct (List.map_filter payment_claim ls)
     \<and> claimed \<inter> set (List.map_filter payment_claim ls) = {}
     \<and> (\<forall>(t, u) \<in> set (List.map_filter payment_unit ls). bt_get units t \<in> {None, Some u})
     \<and> (\<forall>(t, u) \<in> set (List.map_filter payment_unit ls).
          \<forall>(t', u') \<in> set (List.map_filter payment_unit ls). t = t' \<longrightarrow> u = u')"
proof (induction ls arbitrary: units claimed)
  case Nil
  then show ?case by (simp add: List.map_filter_def)
next
  case (Cons link rest)
  show ?case
  proof (cases "payment_claim link")
    case None
    then have "cdk_payments path units claimed (link # rest) = cdk_payments path units claimed rest"
      by (auto simp: payment_claim_def split: option.splits dependency_binding.splits)
    then show ?thesis
      using None Cons.IH [of units claimed] by (simp add: map_filter_Cons payment_unit_def)
  next
    case (Some mu)
    then obtain m u where b: "l_binding link = Some (BindPayment m u)" and mu: "mu = (m, u)"
      by (auto simp: payment_claim_def split: option.splits dependency_binding.splits)
    have unit: "payment_unit link = Some (l_to link, u)" using Some mu by (simp add: payment_unit_def)
    let ?bound = "the_default u (bt_get units (l_to link))"
    have bound: "?bound = u \<longleftrightarrow> bt_get units (l_to link) \<in> {None, Some u}"
      by (cases "bt_get units (l_to link)") auto
    show ?thesis
    proof (cases "?bound = u")
      case True
      have IH: "cdk_payments path (bt_insert (l_to link) u units) (insert (m, u) claimed) rest = [] \<longleftrightarrow>
          distinct (List.map_filter payment_claim rest)
          \<and> insert (m, u) claimed \<inter> set (List.map_filter payment_claim rest) = {}
          \<and> (\<forall>(t, v) \<in> set (List.map_filter payment_unit rest).
               bt_get (bt_insert (l_to link) u units) t \<in> {None, Some v})
          \<and> (\<forall>(t, v) \<in> set (List.map_filter payment_unit rest).
               \<forall>(t', v') \<in> set (List.map_filter payment_unit rest). t = t' \<longrightarrow> v = v')"
        by (rule Cons.IH)
      have step: "cdk_payments path units claimed (link # rest) = [] \<longleftrightarrow> (m, u) \<notin> claimed
          \<and> cdk_payments path (bt_insert (l_to link) u units) (insert (m, u) claimed) rest = []"
        using b True by (simp add: Let_def)
      show ?thesis
        unfolding step IH map_filter_Cons Some unit option.case mu
        using bound True by (auto split: if_splits)
    next
      case False
      then show ?thesis using b bound unit by (auto simp: Let_def map_filter_Cons)
    qed
  qed
qed

lemma embedded_empty:
  "embedded_payment_tuples c = [] \<longleftrightarrow>
     configured c ''embedded_lightning'' ''none'' \<noteq> ''ldk-node''
     \<and> configured c ''embedded_onchain'' ''none'' \<noteq> ''bdk''"
  by (simp add: embedded_payment_tuples_def)

lemma embedded_distinct: "distinct (map (\<lambda>(m, u, b). (m, u)) (embedded_payment_tuples c))"
proof (cases "configured c ''embedded_lightning'' ''none'' = ''ldk-node''")
  case True
  then show ?thesis by (simp add: embedded_payment_tuples_def image_iff)
next
  case False
  then show ?thesis by (simp add: embedded_payment_tuples_def)
qed

lemma cdk_payments_claims:
  "cdk_payments path [] (embedded_claims c) ls = [] \<longleftrightarrow>
     distinct (map (\<lambda>(m, u, b). (m, u)) (embedded_payment_tuples c)
       @ List.map_filter payment_claim ls)
     \<and> (\<forall>(t, u) \<in> set (List.map_filter payment_unit ls).
          \<forall>(t', u') \<in> set (List.map_filter payment_unit ls). t = t' \<longrightarrow> u = u')"
  unfolding cdk_payments_Nil distinct_append embedded_claims_def [symmetric]
  using embedded_distinct by auto

lemma cdk_component_Nil:
  "cdk_component cell i c = [] \<longleftrightarrow> (c_implementation c = ''cdk'' \<longrightarrow> cdk_ok cell c)"
proof (cases "c_implementation c = ''cdk''")
  case True
  define own where "own = links_from cell (c_id c)"
  define ldk where "ldk = (configured c ''embedded_lightning'' ''none'' = ''ldk-node'')"
  define bdk where "bdk = (configured c ''embedded_onchain'' ''none'' = ''bdk'')"
  define unit_ok where "unit_ok = is_cashu_unit (configured c ''embedded_lightning_unit'' ''sat'')"
  define chains where "chains = length (filter (\<lambda>l. l_kind l = ChainBackend) own)"
  define stores where
    "stores role = (\<exists>l \<in> set own. l_kind l = DatabaseBackend \<and> has_role role (l_binding l))" for role
  define authed where "authed = (\<exists>l \<in> set own. l_kind l = AuthenticationBackend)"
  define claims_ok where "claims_ok = (cdk_payments (component_path i) [] (embedded_claims c)
    (payment_links cell c) = [])"
  have embedded: "embedded_payment_tuples c = [] \<longleftrightarrow> \<not> ldk \<and> \<not> bdk"
    by (simp add: embedded_empty ldk_def bdk_def)
  have payments: "filter (\<lambda>l. l_kind l = PaymentBackend) own = payment_links cell c"
    by (simp add: payment_links_def own_def)
  have bound: "list_ex (\<lambda>l. has_role role (l_binding l)) (filter (\<lambda>l. l_kind l = DatabaseBackend) own)
      \<longleftrightarrow> stores role" for role
    by (auto simp: list_ex_iff stores_def)
  have auth: "filter (\<lambda>l. l_kind l = AuthenticationBackend) own \<noteq> [] \<longleftrightarrow> authed"
    by (simp add: filter_empty_conv authed_def)
  have "cdk_component cell i c = [] \<longleftrightarrow> unit_ok
      \<and> (if (ldk \<or> bdk) \<and> chains \<noteq> 1 then False else \<not> (\<not> (ldk \<or> bdk) \<and> chains > 0))
      \<and> claims_ok
      \<and> \<not> (payment_links cell c = [] \<and> \<not> ldk \<and> \<not> bdk)
      \<and> (if authed \<and> stores Primary \<and> \<not> stores Authentication then False
         else \<not> (stores Authentication \<and> \<not> stores Primary))"
    using True
    unfolding cdk_component_def Let_def own_def [symmetric] ldk_def [symmetric] bdk_def [symmetric]
      unit_ok_def [symmetric] chains_def [symmetric] payments bound auth claims_ok_def
    by simp
  also have "\<dots> \<longleftrightarrow> cdk_ok cell c"
    unfolding cdk_ok_def Let_def own_def [symmetric] unit_ok_def [symmetric] chains_def [symmetric]
      stores_def [symmetric] authed_def [symmetric] embedded claims_ok_def cdk_payments_claims
    by (cases ldk; cases bdk; simp; blast)
  finally show ?thesis using True by simp
qed (simp add: cdk_component_def)

section \<open>Processors\<close>

text \<open>
  The client's payment links bind exactly the methods \<open>ms\<close>, each once and all in one unit, to
  one component.
\<close>

definition serves ::
  "cell_spec \<Rightarrow> component_spec \<Rightarrow> processor_profile \<Rightarrow> string \<Rightarrow> component_kind \<Rightarrow>
   payment_method set \<Rightarrow> bool" where
  "serves cell c p implementation kind ms \<longleftrightarrow>
     accepts_methods p ms
     \<and> (\<exists>u \<in> binding_units p (c_implementation c). \<exists>order. distinct order \<and> set order = ms
          \<and> map l_binding (payment_links cell c) = map (\<lambda>m. Some (BindPayment m u)) order)
     \<and> (\<exists>t \<in> set (components cell). c_kind t = kind \<and> c_implementation t = implementation
          \<and> (\<forall>link \<in> set (payment_links cell c). l_to link = c_id t))"

definition processors_ok :: "cell_spec \<Rightarrow> bool" where
  "processors_ok cell \<longleftrightarrow> (\<forall>c \<in> set (components cell).
     (c_implementation c = LDK_PROCESSOR \<longrightarrow>
        serves cell c LdkServer ''ldk-server'' Lightning (supported_methods LdkServer))
     \<and> (c_implementation c \<in> {''cdk'', ''nutshell''} \<longrightarrow>
          (\<forall>t. processor_target cell (payment_links cell c) = Some t \<longrightarrow>
            (\<exists>p. for_implementation (c_implementation t) = Some p
               \<and> (\<forall>ms. advertised_methods p (c_config t) = Some ms \<longrightarrow>
                    serves cell c p (profile_implementation p) PaymentProcessor ms)))))"

lemma bind_loop_all:
  assumes "distinct order" "seen \<inter> set order = {}" "u \<in> units" "bound = None \<or> bound = Some u"
  shows "bind_loop units bound seen (map (\<lambda>m. Some (BindPayment m u)) order)
    = Some (if order = [] then bound else Some u, seen \<union> set order)"
  using assms by (induction order arbitrary: bound seen) auto

lemma bound_methods_iff:
  "bound_methods p client bs = Some (u, ms) \<longleftrightarrow>
     accepts_methods p ms \<and> u \<in> binding_units p client
     \<and> (\<exists>order. distinct order \<and> set order = ms \<and> bs = map (\<lambda>m. Some (BindPayment m u)) order)"
proof
  assume "bound_methods p client bs = Some (u, ms)"
  then have run: "bind_loop (binding_units p client) None {} bs = Some (Some u, ms)"
    and acc: "accepts_methods p ms"
    by (auto simp: bound_methods_def bind_eq_Some_conv split: if_splits)
  obtain pms where p: "bs = map (\<lambda>(m, u). Some (BindPayment m u)) pms" "ms = fst ` set pms"
      "distinct (map fst pms)" "\<forall>(m, v) \<in> set pms. v \<in> binding_units p client \<and> Some u = Some v"
      "pms = [] \<longrightarrow> Some u = None"
    using bind_loop_Some [OF run] by auto
  then have "bs = map (\<lambda>m. Some (BindPayment m u)) (map fst pms)" by auto
  moreover have "u \<in> binding_units p client" using p(4,5) by (cases pms) auto
  ultimately show "accepts_methods p ms \<and> u \<in> binding_units p client
     \<and> (\<exists>order. distinct order \<and> set order = ms \<and> bs = map (\<lambda>m. Some (BindPayment m u)) order)"
    using p(2,3) acc by (intro conjI exI [of _ "map fst pms"]) auto
next
  assume "accepts_methods p ms \<and> u \<in> binding_units p client
     \<and> (\<exists>order. distinct order \<and> set order = ms \<and> bs = map (\<lambda>m. Some (BindPayment m u)) order)"
  then obtain order where o: "accepts_methods p ms" "u \<in> binding_units p client" "distinct order"
      "set order = ms" "bs = map (\<lambda>m. Some (BindPayment m u)) order"
    by blast
  then have "order \<noteq> []" by (auto simp: accepts_methods_def)
  then show "bound_methods p client bs = Some (u, ms)"
    using bind_loop_all [OF o(3) _ o(2), of "{}" None] o by (simp add: bound_methods_def)
qed

lemma profile_issues_Nil:
  "profile_issues cell i c (payment_links cell c) p implementation kind advertised = [] \<longleftrightarrow>
     (\<forall>ms. advertised = Some ms \<longrightarrow> serves cell c p implementation kind ms)"
proof (cases advertised)
  case (Some ms)
  let ?ls = "payment_links cell c"
  have b: "(case bound_methods p (c_implementation c) (map l_binding ?ls) of
        None \<Rightarrow> False | Some (_, bound) \<Rightarrow> bound = ms)
      \<longleftrightarrow> (\<exists>u. bound_methods p (c_implementation c) (map l_binding ?ls) = Some (u, ms))"
    by (auto split: option.splits)
  have one: "one_target cell ?ls kind implementation \<longleftrightarrow>
      (\<exists>t \<in> set (components cell). c_kind t = kind \<and> c_implementation t = implementation
         \<and> (\<forall>link \<in> set ?ls. l_to link = c_id t))" if "?ls \<noteq> []"
  proof
    assume o: "one_target cell ?ls kind implementation"
    then obtain t where "t \<in> set (components cell)" "c_id t = l_to (hd ?ls)" "c_kind t = kind"
        "c_implementation t = implementation"
      using \<open>?ls \<noteq> []\<close> unfolding one_target_def by (metis hd_in_set)
    moreover have "\<forall>link \<in> set ?ls. l_to link = l_to (hd ?ls)" using o by (auto simp: one_target_def)
    ultimately show "\<exists>t \<in> set (components cell). c_kind t = kind \<and> c_implementation t = implementation
         \<and> (\<forall>link \<in> set ?ls. l_to link = c_id t)" by metis
  next
    assume "\<exists>t \<in> set (components cell). c_kind t = kind \<and> c_implementation t = implementation
         \<and> (\<forall>link \<in> set ?ls. l_to link = c_id t)"
    then show "one_target cell ?ls kind implementation"
      using \<open>?ls \<noteq> []\<close> unfolding one_target_def by (metis hd_in_set)
  qed
  have nonempty: "?ls \<noteq> []" if "bound_methods p (c_implementation c) (map l_binding ?ls) = Some (u, ms)" for u
    using that by (auto simp: bound_methods_iff accepts_methods_def)
  have "profile_issues cell i c ?ls p implementation kind advertised = [] \<longleftrightarrow>
      (\<exists>u. bound_methods p (c_implementation c) (map l_binding ?ls) = Some (u, ms))
      \<and> one_target cell ?ls kind implementation"
    using Some b by (simp add: profile_issues_def)
  also have "\<dots> \<longleftrightarrow> (\<exists>u. bound_methods p (c_implementation c) (map l_binding ?ls) = Some (u, ms))
      \<and> (\<exists>t \<in> set (components cell). c_kind t = kind \<and> c_implementation t = implementation
           \<and> (\<forall>link \<in> set ?ls. l_to link = c_id t))"
    using one nonempty by blast
  also have "\<dots> \<longleftrightarrow> serves cell c p implementation kind ms"
    unfolding bound_methods_iff serves_def by blast
  finally show ?thesis using Some by simp
qed (simp add: profile_issues_def)

lemma processor_topology_Nil: "processor_topology cell = [] \<longleftrightarrow> processors_ok cell"
  unfolding processor_topology_def processors_ok_def
proof (rule each_component_Nil)
  fix i and c :: component_spec
  have ldk: "advertised_methods LdkServer (c_config c) = Some (supported_methods LdkServer)"
    by (simp add: advertised_methods_def configurable_def)
  have other: "LDK_PROCESSOR \<noteq> ''cdk''" "LDK_PROCESSOR \<noteq> ''nutshell''" by (simp_all add: LDK_PROCESSOR_def)
  show "processor_component cell i c = [] \<longleftrightarrow>
     (c_implementation c = LDK_PROCESSOR \<longrightarrow>
        serves cell c LdkServer ''ldk-server'' Lightning (supported_methods LdkServer))
     \<and> (c_implementation c \<in> {''cdk'', ''nutshell''} \<longrightarrow>
          (\<forall>t. processor_target cell (payment_links cell c) = Some t \<longrightarrow>
            (\<exists>p. for_implementation (c_implementation t) = Some p
               \<and> (\<forall>ms. advertised_methods p (c_config t) = Some ms \<longrightarrow>
                    serves cell c p (profile_implementation p) PaymentProcessor ms))))"
    unfolding processor_component_def Let_def
    using ldk other
    by (cases "processor_target cell (payment_links cell c)")
      (auto simp: profile_issues_Nil split: option.splits)
qed

section \<open>Stacks\<close>

definition requirements_met ::
  "cell_spec \<Rightarrow> component_spec \<Rightarrow> component_kind \<times> requirement list \<Rightarrow> bool" where
  "requirements_met cell c kr \<longleftrightarrow> c_kind c = fst kr
     \<and> (\<forall>rq \<in> set (snd kr). \<exists>t. resolve rq cell c = Some t)
     \<and> (\<forall>link \<in> set (links_from cell (c_id c)). is_backend (l_kind link) \<longrightarrow>
          (\<exists>rq \<in> set (snd kr). rq_link_kind rq = l_kind link))"

definition bark_ok :: "cell_spec \<Rightarrow> bool" where
  "bark_ok cell \<longleftrightarrow> (\<forall>c \<in> set (components cell). \<forall>kr.
     bark_requirements (c_implementation c) = Some kr \<longrightarrow>
       requirements_met cell c kr
       \<and> (\<forall>chain. resolve CHAIN cell c = Some chain \<longrightarrow>
            bt_get (c_config chain) ''txindex'' \<in> {None, Some (JBool True)}
            \<and> (\<forall>d other. bark_downstream cell c = Some d \<longrightarrow> resolve CHAIN cell d = Some other \<longrightarrow>
                 c_id chain = c_id other)))"

definition spark_ok :: "cell_spec \<Rightarrow> bool" where
  "spark_ok cell \<longleftrightarrow> (\<forall>c \<in> set (components cell).
     (\<forall>kr. spark_requirements (c_implementation c) = Some kr \<longrightarrow> requirements_met cell c kr)
     \<and> (c_implementation c = OPEN_SSP \<longrightarrow>
          (\<forall>o1 o2. chain_through cell c OPERATORS = Some o1 \<longrightarrow>
             chain_through cell c SPARK_LIGHTNING = Some o2 \<longrightarrow> c_id o1 = c_id o2))
     \<and> (c_implementation c = SPARK_OPERATORS \<longrightarrow>
          (\<forall>link \<in> set (links_from cell (c_id c)). \<forall>name.
             l_kind link = DatabaseBackend \<and> database_name link = Some name \<longrightarrow>
             length name \<le> SPARK_DATABASE_NAME_LIMIT)))"

lemma requirements_met_Nil:
  "validate_requirements cell c path prefix kind rqs = [] \<longleftrightarrow> requirements_met cell c (kind, rqs)"
  by (auto simp: validate_requirements_Nil requirements_met_def)

lemma validate_chain_Nil:
  "validate_chain cell c path = [] \<longleftrightarrow>
     (\<forall>chain. resolve CHAIN cell c = Some chain \<longrightarrow>
        bt_get (c_config chain) ''txindex'' \<in> {None, Some (JBool True)}
        \<and> (\<forall>d other. bark_downstream cell c = Some d \<longrightarrow> resolve CHAIN cell d = Some other \<longrightarrow>
             c_id chain = c_id other))"
  by (auto simp: validate_chain_def split: option.splits)

lemma bark_topology_Nil: "bark_topology cell = [] \<longleftrightarrow> bark_ok cell"
  unfolding bark_topology_def bark_ok_def
  by (rule each_component_Nil)
    (simp add: requirements_met_Nil validate_chain_Nil split: option.split prod.split)

lemma spark_shared_chain_Nil:
  "spark_shared_chain cell c path = [] \<longleftrightarrow>
     (\<forall>o1 o2. chain_through cell c OPERATORS = Some o1 \<longrightarrow>
        chain_through cell c SPARK_LIGHTNING = Some o2 \<longrightarrow> c_id o1 = c_id o2)"
  by (auto simp: spark_shared_chain_def split: option.splits)

lemma spark_database_names_Nil:
  "spark_database_names cell c path = [] \<longleftrightarrow>
     (\<forall>link \<in> set (links_from cell (c_id c)). \<forall>name.
        l_kind link = DatabaseBackend \<and> database_name link = Some name \<longrightarrow>
        length name \<le> SPARK_DATABASE_NAME_LIMIT)"
  by (auto simp: spark_database_names_def set_mapped_filter not_less)

lemma spark_topology_Nil: "spark_topology cell = [] \<longleftrightarrow> spark_ok cell"
  unfolding spark_topology_def spark_ok_def
proof (rule each_component_Nil)
  fix i c
  have names: "OPEN_SSP \<noteq> SPARK_OPERATORS" "spark_requirements OPEN_SSP \<noteq> None"
      "spark_requirements SPARK_OPERATORS \<noteq> None"
    by (simp_all add: OPEN_SSP_def SPARK_OPERATORS_def SPARK_PROCESSOR_def spark_requirements_def)
  show "(case spark_requirements (c_implementation c) of
          None \<Rightarrow> []
        | Some (kind, rqs) \<Rightarrow>
            validate_requirements cell c (component_path i) ''spark'' kind rqs
            @ (if c_implementation c = OPEN_SSP then spark_shared_chain cell c (component_path i)
               else if c_implementation c = SPARK_OPERATORS
               then spark_database_names cell c (component_path i)
               else [])) = [] \<longleftrightarrow>
     (\<forall>kr. spark_requirements (c_implementation c) = Some kr \<longrightarrow> requirements_met cell c kr)
     \<and> (c_implementation c = OPEN_SSP \<longrightarrow>
          (\<forall>o1 o2. chain_through cell c OPERATORS = Some o1 \<longrightarrow>
             chain_through cell c SPARK_LIGHTNING = Some o2 \<longrightarrow> c_id o1 = c_id o2))
     \<and> (c_implementation c = SPARK_OPERATORS \<longrightarrow>
          (\<forall>link \<in> set (links_from cell (c_id c)). \<forall>name.
             l_kind link = DatabaseBackend \<and> database_name link = Some name \<longrightarrow>
             length name \<le> SPARK_DATABASE_NAME_LIMIT))"
    unfolding spark_shared_chain_Nil [of cell c "component_path i", symmetric]
      spark_database_names_Nil [of cell c "component_path i", symmetric]
    using names by (auto simp: requirements_met_Nil split: option.split prod.split)
qed

section \<open>Overrides\<close>

definition payment_override_ok :: "cell_spec \<Rightarrow> bool" where
  "payment_override_ok cell \<longleftrightarrow> MintQuotePaymentOverride \<in> allow (policy cell)
     \<or> (\<forall>c \<in> set (components cell). c_implementation c = ''cdk'' \<longrightarrow>
          bt_get (c_config c) ''allow_mint_quote_payment_override'' \<noteq> Some (JBool True))"

definition native_ok :: "(json \<Rightarrow> string) \<Rightarrow> cell_spec \<Rightarrow> bool" where
  "native_ok print cell \<longleftrightarrow> (\<forall>c \<in> set (components cell). \<forall>ov value.
     overrides_of (c_implementation c) = Some ov \<and> bt_get (c_config c) (ov_field ov) = Some value \<longrightarrow>
       MintNativeConfigOverride \<in> allow (policy cell)
       \<and> shape print ov value = Inr ()
       \<and> (\<forall>keys \<in> set (leaf_keys value []). reserved (c_implementation c) (join ''.'' keys) = None))"

lemma json_bool_Some: "json_bool j = Some b \<longleftrightarrow> j = JBool b"
  by (cases j) auto

lemma payment_override_Nil: "validate_payment_override cell = [] \<longleftrightarrow> payment_override_ok cell"
proof (cases "MintQuotePaymentOverride \<in> allow (policy cell)")
  case False
  have "validate_payment_override cell = [] \<longleftrightarrow> (\<forall>c \<in> set (components cell).
      \<not> (c_implementation c = ''cdk''
         \<and> Option.bind (bt_get (c_config c) ''allow_mint_quote_payment_override'') json_bool = Some True))"
    using False by (simp add: validate_payment_override_def each_component_Nil)
  then show ?thesis
    using False by (simp add: payment_override_ok_def bind_eq_Some_conv json_bool_Some)
qed (simp add: validate_payment_override_def payment_override_ok_def)

lemma native_component_Nil:
  "native_component print allowed i c = [] \<longleftrightarrow> (\<forall>ov value.
     overrides_of (c_implementation c) = Some ov \<and> bt_get (c_config c) (ov_field ov) = Some value \<longrightarrow>
       allowed \<and> shape print ov value = Inr ()
       \<and> (\<forall>keys \<in> set (leaf_keys value []). reserved (c_implementation c) (join ''.'' keys) = None))"
proof (cases "overrides_of (c_implementation c)")
  case (Some ov)
  show ?thesis
  proof (cases "bt_get (c_config c) (ov_field ov)")
    case None
    then show ?thesis using Some by (simp add: native_component_def)
  next
    case (Some v)
    have "override_keys c = sort (map (join ''.'') (leaf_keys v []))"
      using Some \<open>overrides_of (c_implementation c) = Some ov\<close>
      by (simp add: override_keys_def override_field_def leaf_paths_keys)
    then show ?thesis
      using Some \<open>overrides_of (c_implementation c) = Some ov\<close>
      by (cases "shape print ov v") (auto simp: native_component_def Let_def)
  qed
qed (simp add: native_component_def)

lemma validate_native_Nil: "validate_native print cell = [] \<longleftrightarrow> native_ok print cell"
  unfolding validate_native_def native_ok_def
  by (rule each_component_Nil) (rule native_component_Nil)

section \<open>The whole document\<close>

definition document_ok :: "(config \<Rightarrow> string option) \<Rightarrow> (json \<Rightarrow> string) \<Rightarrow> cell_spec \<Rightarrow> bool" where
  "document_ok to_vec print cell \<longleftrightarrow>
     api_version cell = API_VERSION \<and> is_slug (cell_name cell) \<and> limits_ok cell
     \<and> graph_ok to_vec cell \<and> authentication_ok cell \<and> processors_ok cell
     \<and> bark_ok cell \<and> spark_ok cell
     \<and> (\<forall>c \<in> set (components cell). c_implementation c = ''cdk'' \<longrightarrow> cdk_ok cell c)
     \<and> payment_override_ok cell \<and> native_ok print cell"

lemma cdk_topology_Nil:
  "cdk_topology cell = [] \<longleftrightarrow>
     (\<forall>c \<in> set (components cell). c_implementation c = ''cdk'' \<longrightarrow> cdk_ok cell c)"
  unfolding cdk_topology_def by (rule each_component_Nil) (rule cdk_component_Nil)

lemma validate_cell_document:
  "rep_valid (validate_cell to_vec print cell) \<longleftrightarrow> document_ok to_vec print cell"
proof -
  obtain issues ids where c: "validate_components to_vec cell = (issues, ids)" by fastforce
  show ?thesis
    using validate_graph_Nil [OF c]
    unfolding validate_cell_def c prod.case Let_def from_issues_def document_ok_def
    by (auto simp: validate_limits_Nil authentication_topology_Nil processor_topology_Nil
        bark_topology_Nil spark_topology_Nil cdk_topology_Nil payment_override_Nil validate_native_Nil)
qed

end
