(* ===== verification/Cell_Properties.thy ===== *)
theory Cell_Properties
  imports Cell_Topology
begin

text \<open>
  What a cell that validates guarantees: the properties of the document checks, with a complete
  Spark cell to apply them to.
\<close>

section \<open>A cell\<close>

definition sample_component :: "string \<Rightarrow> component_kind \<Rightarrow> string \<Rightarrow> config \<Rightarrow> component_spec" where
  "sample_component i kind implementation cfg =
     \<lparr>c_id = i, c_kind = kind, c_implementation = implementation, c_version = None,
      c_config_version = ''v/1'', c_control = CellControl, c_config = cfg\<rparr>"

definition sample_link :: "string \<Rightarrow> link_kind \<Rightarrow> string \<Rightarrow> string \<Rightarrow> dependency_binding \<Rightarrow> link_spec" where
  "sample_link i kind src dst b =
     \<lparr>l_id = i, l_kind = kind, l_from = src, l_to = dst, l_binding = Some b\<rparr>"

definition sample_chain :: component_spec where
  "sample_chain = sample_component ''ch'' Bitcoin ''bitcoin-core'' []"

definition sample_operators :: component_spec where
  "sample_operators = sample_component ''op'' SparkServer ''spark-operators'' []"

definition sample_ssp :: component_spec where
  "sample_ssp = sample_component ''sp'' SparkServer ''open-ssp'' []"

definition sample_processor :: component_spec where
  "sample_processor = sample_component ''pr'' PaymentProcessor ''cdk-spark-processor'' []"

definition sample_mint :: component_spec where
  "sample_mint = sample_component ''mi'' Mint ''cdk''
     [(''native_toml'', JObject [(''x'', JObject [(''y'', JBool True)])])]"

definition operators_db :: link_spec where
  "operators_db = sample_link ''od'' DatabaseBackend ''op'' ''db'' (BindDatabase Primary None)"

definition mint_db :: link_spec where
  "mint_db = sample_link ''md'' DatabaseBackend ''mi'' ''db'' (BindDatabase Primary None)"

definition ssp_operators :: link_spec where
  "ssp_operators = sample_link ''so'' SparkBackend ''sp'' ''op'' (BindSpark Regtest)"

definition processor_ssp :: link_spec where
  "processor_ssp = sample_link ''ps'' SparkBackend ''pr'' ''sp'' (BindSpark Regtest)"

definition mint_processor :: link_spec where
  "mint_processor = sample_link ''mp'' PaymentBackend ''mi'' ''pr'' (BindPayment Bolt11 ''sat'')"

definition sample_cell :: cell_spec where
  "sample_cell =
     \<lparr>api_version = API_VERSION, cell_name = ''c'',
      components = [sample_chain, sample_component ''db'' Database ''postgresql'' [],
        sample_operators, sample_component ''no'' Lightning ''ldk-server'' [],
        sample_ssp, sample_processor, sample_mint],
      links = [sample_link ''oc'' ChainBackend ''op'' ''ch'' (BindChain Regtest), operators_db,
        ssp_operators, sample_link ''sn'' PaymentBackend ''sp'' ''no'' (BindPayment Bolt11 ''sat''),
        sample_link ''nc'' ChainBackend ''no'' ''ch'' (BindChain Regtest),
        processor_ssp, mint_processor, mint_db],
      policy = \<lparr>allow = {MintNativeConfigOverride}, policy_limits = default_cell_limits\<rparr>\<rparr>"

definition empty_text :: "config \<Rightarrow> string option" where
  "empty_text cfg = Some []"

definition empty_json :: "json \<Rightarrow> string" where
  "empty_json j = []"

lemma sample_valid: "rep_valid (validate_cell empty_text empty_json sample_cell)"
  by code_simp

lemma valid_document:
  "rep_valid (validate_cell to_vec print cell) \<Longrightarrow> document_ok to_vec print cell"
  by (simp only: validate_cell_document)

section \<open>The databases of the operators\<close>

text \<open>
  The driver derives two databases per operator from the name its link carries; the URLs around
  the names are text.
\<close>

definition SPARK_MAX_OPERATORS :: nat where
  "SPARK_MAX_OPERATORS = 5"

definition operator_databases :: "string \<Rightarrow> nat \<Rightarrow> string list option" where
  "operator_databases base index =
     (let main = base @ ''_'' @ decimal index;
          ephemeral = main @ ''_ephemeral''
      in if is_postgres_identifier base \<and> length ephemeral \<le> 63 then Some [main, ephemeral]
         else None)"

lemma operator_digit:
  assumes "i < SPARK_MAX_OPERATORS"
  shows "length (decimal i) = 1 \<and> list_all is_ascii_digit (decimal i)"
proof -
  have "i \<in> {0, 1, 2, 3, 4}" using assms by (auto simp: SPARK_MAX_OPERATORS_def)
  moreover have "list_all (\<lambda>i. length (decimal i) = 1 \<and> list_all is_ascii_digit (decimal i))
      [0, 1, 2, 3, 4]" by code_simp
  ultimately show ?thesis by auto
qed

lemma identifier_append:
  assumes "is_postgres_identifier base"
    "list_all (\<lambda>c. is_ascii_lowercase c \<or> is_ascii_digit c \<or> c = CHR ''_'') rest"
  shows "is_postgres_identifier (base @ rest)"
  using assms by (cases base) (simp_all add: is_postgres_identifier_def)

lemma operator_databases_ok:
  assumes "is_postgres_identifier base" "length base \<le> SPARK_DATABASE_NAME_LIMIT"
    "i < SPARK_MAX_OPERATORS"
  shows "\<exists>main ephemeral. operator_databases base i = Some [main, ephemeral] \<and> main \<noteq> ephemeral
    \<and> is_postgres_identifier main \<and> length main \<le> 63
    \<and> is_postgres_identifier ephemeral \<and> length ephemeral \<le> 63"
proof -
  let ?main = "base @ ''_'' @ decimal i"
  have digit: "length (decimal i) = 1" "list_all is_ascii_digit (decimal i)"
    using operator_digit [OF assms(3)] by simp_all
  have main: "is_postgres_identifier ?main"
    by (rule identifier_append [OF assms(1)]) (use digit(2) in \<open>simp add: list_all_iff\<close>)
  have "list_all (\<lambda>c. is_ascii_lowercase c \<or> is_ascii_digit c \<or> c = CHR ''_'') ''_ephemeral''"
    by code_simp
  then have "is_postgres_identifier (?main @ ''_ephemeral'')" by (rule identifier_append [OF main])
  then show ?thesis using assms(1,2) digit(1) main
    by (simp add: operator_databases_def Let_def SPARK_DATABASE_NAME_LIMIT_def)
qed

lemma binding_ok_database:
  "binding_ok link \<Longrightarrow> database_name link = Some name \<Longrightarrow> l_kind link = DatabaseBackend"
  by (auto simp: binding_ok_def database_name_def split: option.splits dependency_binding.splits if_splits)

lemma binding_ok_payment:
  "binding_ok link \<Longrightarrow> l_kind link = PaymentBackend \<Longrightarrow> \<exists>m u. l_binding link = Some (BindPayment m u)"
  by (cases "the (l_binding link)") (auto simp: binding_ok_def is_backend_def)

section \<open>Properties\<close>

text \<open>
  C14: the validation is exact. \<open>validate_cell\<close> reports no issue if and only if the document as a
  whole is in order: one identity per component and link, every link typed and between components
  that may be joined, no database or role bound twice, and the conditions on authentication,
  processors, stacks, mints and overrides.
\<close>

theorem validate_cell_exact:
  "validate_cell to_vec print cell = \<lparr>rep_valid = True, rep_issues = []\<rparr>
   \<longleftrightarrow> document_ok to_vec print cell"
proof -
  have "rep_valid (validate_cell to_vec print cell)
      \<longleftrightarrow> validate_cell to_vec print cell = \<lparr>rep_valid = True, rep_issues = []\<rparr>"
    by (auto simp: validate_cell_def from_issues_def split: prod.splits)
  then show ?thesis using validate_cell_document by simp
qed

lemma mapped_filter_inj:
  assumes "distinct (List.map_filter f xs)" "x \<in> set xs" "y \<in> set xs" "x \<noteq> y" "f x = Some k"
  shows "f y \<noteq> Some k"
  using assms by (induction xs) (auto simp: map_filter_Cons set_mapped_filter split: option.splits)

text \<open>
  C15: databases are isolated. In a valid cell every database link names a PostgreSQL identifier
  of at most 63 bytes, and no other link names the same database on the same server. The names the
  Spark operators derive from a link of theirs are checked too: for each operator of a federation
  of at most five the driver accepts both, and both are identifiers of at most 63 bytes. (That the
  derived names stay apart from the names of other links is not promised:
  \<open>operator_database_shared\<close>.)
\<close>

theorem valid_databases_isolated:
  assumes "rep_valid (validate_cell to_vec print cell)"
  shows "(\<forall>link \<in> set (links cell). \<forall>name. database_name link = Some name \<longrightarrow>
      is_postgres_identifier name \<and> length name \<le> 63
      \<and> (\<forall>link' \<in> set (links cell). link' \<noteq> link \<and> l_to link' = l_to link \<longrightarrow>
           database_name link' \<noteq> Some name))
    \<and> (\<forall>c \<in> set (components cell). \<forall>link \<in> set (links_from cell (c_id c)). \<forall>name i.
      c_implementation c = SPARK_OPERATORS \<and> database_name link = Some name
      \<and> i < SPARK_MAX_OPERATORS \<longrightarrow>
      (\<exists>main ephemeral. operator_databases name i = Some [main, ephemeral] \<and> main \<noteq> ephemeral
         \<and> is_postgres_identifier main \<and> length main \<le> 63
         \<and> is_postgres_identifier ephemeral \<and> length ephemeral \<le> 63))"
proof -
  have doc: "document_ok to_vec print cell" using assms by (rule valid_document)
  then have g: "graph_ok to_vec cell" by (simp add: document_ok_def)
  have ok: "binding_ok link" if "link \<in> set (links cell)" for link
    using g that by (simp add: graph_ok_def link_ok_def list_all_iff)
  have apart: "database_name link' \<noteq> Some name"
    if "link \<in> set (links cell)" "link' \<in> set (links cell)" "link' \<noteq> link"
      "l_to link' = l_to link" "database_name link = Some name" for link link' name
    using mapped_filter_inj [of db_key "links cell" link link' "(l_to link, name)"] that g
    by (auto simp: graph_ok_def db_key_def)
  have short: "length name \<le> SPARK_DATABASE_NAME_LIMIT"
    if "c \<in> set (components cell)" "link \<in> set (links_from cell (c_id c))"
      "c_implementation c = SPARK_OPERATORS" "database_name link = Some name" for c link name
  proof -
    have "link \<in> set (links cell)" using that(2) by (simp add: links_from_def)
    then have "l_kind link = DatabaseBackend"
      using ok that(4) by (rule_tac binding_ok_database) auto
    moreover have "spark_ok cell" using doc by (simp add: document_ok_def)
    ultimately show ?thesis using that unfolding spark_ok_def by blast
  qed
  have derived: "\<exists>main ephemeral. operator_databases name i = Some [main, ephemeral] \<and> main \<noteq> ephemeral
      \<and> is_postgres_identifier main \<and> length main \<le> 63
      \<and> is_postgres_identifier ephemeral \<and> length ephemeral \<le> 63"
    if "c \<in> set (components cell)" "link \<in> set (links_from cell (c_id c))"
      "c_implementation c = SPARK_OPERATORS" "database_name link = Some name"
      "i < SPARK_MAX_OPERATORS" for c link name i
  proof (rule operator_databases_ok [OF _ short [OF that(1-4)] that(5)])
    have "binding_ok link" using that(2) by (intro ok) (simp add: links_from_def)
    then show "is_postgres_identifier name" using that(4) by (simp add: binding_ok_def)
  qed
  show ?thesis
  proof (intro conjI ballI allI impI)
    fix link name assume l: "link \<in> set (links cell)" "database_name link = Some name"
    show "is_postgres_identifier name" "length name \<le> 63"
      using ok [OF l(1)] l(2) by (simp_all add: binding_ok_def)
    fix link' assume "link' \<in> set (links cell)" "link' \<noteq> link \<and> l_to link' = l_to link"
    then show "database_name link' \<noteq> Some name" using apart l by blast
  next
    fix c link name i
    assume "c \<in> set (components cell)" "link \<in> set (links_from cell (c_id c))"
      "c_implementation c = SPARK_OPERATORS \<and> database_name link = Some name \<and> i < SPARK_MAX_OPERATORS"
    then show "\<exists>main ephemeral. operator_databases name i = Some [main, ephemeral] \<and> main \<noteq> ephemeral
        \<and> is_postgres_identifier main \<and> length main \<le> 63
        \<and> is_postgres_identifier ephemeral \<and> length ephemeral \<le> 63"
      using derived by blast
  qed
qed

lemma operators_db_of:
  "operators_db \<in> set (links_from sample_cell (c_id sample_operators))"
  "sample_operators \<in> set (components sample_cell)"
  "c_implementation sample_operators = SPARK_OPERATORS"
  "database_name operators_db = Some ''op_primary''"
  "operators_db \<in> set (links sample_cell)" "mint_db \<in> set (links sample_cell)"
  "mint_db \<noteq> operators_db" "l_to mint_db = l_to operators_db"
  by code_simp+

theorem valid_databases_isolated_witness:
  "is_postgres_identifier ''op_primary'' \<and> length ''op_primary'' \<le> 63
   \<and> database_name mint_db \<noteq> Some ''op_primary''
   \<and> (\<exists>main ephemeral. operator_databases ''op_primary'' 4 = Some [main, ephemeral])"
proof -
  have "4 < SPARK_MAX_OPERATORS" by (simp add: SPARK_MAX_OPERATORS_def)
  then show ?thesis
    using valid_databases_isolated [OF sample_valid] operators_db_of by blast
qed

text \<open>
  What the checks leave open: a link may name a database that the operators derive on the same
  server. The cell below is valid, and its mint keeps its data in the database of operator 0.
\<close>

definition shared_mint_db :: link_spec where
  "shared_mint_db =
     sample_link ''md'' DatabaseBackend ''mi'' ''db'' (BindDatabase Primary (Some ''op_primary_0''))"

definition shared_cell :: cell_spec where
  "shared_cell = sample_cell\<lparr>links := map (\<lambda>l. if l = mint_db then shared_mint_db else l) (links sample_cell)\<rparr>"

lemma operator_database_shared:
  "rep_valid (validate_cell empty_text empty_json shared_cell)
   \<and> {operators_db, shared_mint_db} \<subseteq> set (links shared_cell)
   \<and> l_to shared_mint_db = l_to operators_db
   \<and> Option.bind (database_name operators_db) (\<lambda>name. operator_databases name 0)
      = Some [''op_primary_0'', ''op_primary_0_ephemeral'']
   \<and> database_name shared_mint_db = Some ''op_primary_0''"
proof -
  have "rep_valid (validate_cell empty_text empty_json shared_cell)" by code_simp
  moreover have "operators_db \<in> set (links shared_cell)" "shared_mint_db \<in> set (links shared_cell)"
    by code_simp+
  moreover have "l_to shared_mint_db = l_to operators_db"
    "Option.bind (database_name operators_db) (\<lambda>name. operator_databases name 0)
      = Some [''op_primary_0'', ''op_primary_0_ephemeral'']"
    "database_name shared_mint_db = Some ''op_primary_0''"
    by code_simp+
  ultimately show ?thesis by simp
qed

text \<open>
  C16: a CDK mint routes every payment one way. In a valid cell the embedded backends of a mint
  claim every method and unit at most once, a payment link of the mint claims none of theirs, and
  of two payment links neither claims the method and unit of the other, and both use one unit when
  they lead to one backend.
\<close>

theorem valid_payment_routes:
  assumes "rep_valid (validate_cell to_vec print cell)"
    "c \<in> set (components cell)" "c_implementation c = ''cdk''"
  shows "distinct (map (\<lambda>(m, u, b). (m, u)) (embedded_payment_tuples c))
    \<and> (\<forall>link \<in> set (payment_links cell c). \<exists>m u. l_binding link = Some (BindPayment m u)
         \<and> (m, u) \<notin> embedded_claims c
         \<and> (\<forall>link' \<in> set (payment_links cell c). \<forall>m' u'. link' \<noteq> link
              \<and> l_binding link' = Some (BindPayment m' u') \<longrightarrow>
              (m', u') \<noteq> (m, u) \<and> (l_to link' = l_to link \<longrightarrow> u' = u)))"
proof -
  let ?ls = "payment_links cell c"
  have doc: "document_ok to_vec print cell" using assms(1) by (rule valid_document)
  have d: "distinct (map (\<lambda>(m, u, b). (m, u)) (embedded_payment_tuples c)
      @ List.map_filter payment_claim ?ls)"
    and units: "\<forall>(t, u) \<in> set (List.map_filter payment_unit ?ls).
      \<forall>(t', u') \<in> set (List.map_filter payment_unit ?ls). t = t' \<longrightarrow> u = u'"
    using doc assms(2,3) unfolding document_ok_def cdk_ok_def Let_def by blast+
  have bound: "\<exists>m u. l_binding link = Some (BindPayment m u)" if "link \<in> set ?ls" for link
  proof (rule binding_ok_payment)
    show "l_kind link = PaymentBackend" using that by (simp add: payment_links_def)
    show "binding_ok link"
      using doc that by (simp add: document_ok_def graph_ok_def link_ok_def list_all_iff
          payment_links_def links_from_def)
  qed
  have claimed: "(m, u) \<in> set (List.map_filter payment_claim ?ls)"
    "(l_to link, u) \<in> set (List.map_filter payment_unit ?ls)"
    if "link \<in> set ?ls" "l_binding link = Some (BindPayment m u)" for link m u
    using that by (auto simp: set_mapped_filter payment_unit_def payment_claim_def intro!: bexI [of _ link])
  have "(m', u') \<noteq> (m, u)" if "link \<in> set ?ls" "link' \<in> set ?ls" "link' \<noteq> link"
    "l_binding link = Some (BindPayment m u)" "l_binding link' = Some (BindPayment m' u')"
    for link link' m u m' u'
    using mapped_filter_inj [of payment_claim ?ls link link' "(m, u)"] d that
    by (auto simp: payment_claim_def)
  moreover have "(m, u) \<notin> embedded_claims c"
    if "link \<in> set ?ls" "l_binding link = Some (BindPayment m u)" for link m u
    using d claimed(1) [OF that] by (auto simp: embedded_claims_def)
  moreover have "u' = u" if "link \<in> set ?ls" "link' \<in> set ?ls" "l_to link' = l_to link"
    "l_binding link = Some (BindPayment m u)" "l_binding link' = Some (BindPayment m' u')"
    for link link' m u m' u'
    using units claimed(2) [OF that(1,4)] claimed(2) [OF that(2,5)] that(3) by fastforce
  ultimately have "\<exists>m u. l_binding link = Some (BindPayment m u) \<and> (m, u) \<notin> embedded_claims c
      \<and> (\<forall>link' \<in> set ?ls. \<forall>m' u'. link' \<noteq> link \<and> l_binding link' = Some (BindPayment m' u') \<longrightarrow>
           (m', u') \<noteq> (m, u) \<and> (l_to link' = l_to link \<longrightarrow> u' = u))"
    if "link \<in> set ?ls" for link
    using bound [OF that] that by blast
  then show ?thesis using d by simp
qed

text \<open>
  a mint offers exactly what its processor advertises. In a valid cell a CDK or Nutshell mint
  with a payment processor of valid configuration has all its payment links at that one processor,
  and they bind exactly the methods the processor advertises.
\<close>

theorem valid_mint_binds_advertised:
  assumes "rep_valid (validate_cell to_vec print cell)"
    "c \<in> set (components cell)" "c_implementation c \<in> {''cdk'', ''nutshell''}"
    "processor_target cell (payment_links cell c) = Some t"
    "for_implementation (c_implementation t) = Some p" "advertised_methods p (c_config t) = Some ms"
  shows "{m. \<exists>link \<in> set (payment_links cell c). \<exists>u. l_binding link = Some (BindPayment m u)} = ms
    \<and> (\<forall>link \<in> set (payment_links cell c). l_to link = c_id t)"
proof -
  have "processors_ok cell" using valid_document [OF assms(1)] by (simp add: document_ok_def)
  then have s: "serves cell c p (profile_implementation p) PaymentProcessor ms"
    using assms(2-6) unfolding processors_ok_def by fastforce
  then obtain u order where o: "set order = ms"
      "map l_binding (payment_links cell c) = map (\<lambda>m. Some (BindPayment m u)) order"
    by (auto simp: serves_def)
  have "l_binding ` set (payment_links cell c) = (\<lambda>m. Some (BindPayment m u)) ` ms"
    using o by (metis set_map)
  then have methods: "{m. \<exists>link \<in> set (payment_links cell c). \<exists>u. l_binding link = Some (BindPayment m u)} = ms"
    by (auto simp: set_eq_iff image_iff) (metis dependency_binding.inject(4) option.inject)+
  from s obtain t' :: component_spec where t': "\<forall>link \<in> set (payment_links cell c). l_to link = c_id t'"
    unfolding serves_def by blast
  have "\<exists>link \<in> set ls. c_id t = l_to link" if "processor_target cell ls = Some t" for ls
    using that unfolding processor_target_def
    by (induction ls) (auto simp: find_Some_iff split: option.splits)
  then have "c_id t = c_id t'" using assms(4) t' by metis
  then show ?thesis using methods t' by simp
qed

lemma spark_required:
  assumes "spark_ok cell" "c \<in> set (components cell)"
    "spark_requirements (c_implementation c) = Some (kind, rqs)" "rq \<in> set rqs"
  shows "\<exists>t. resolve rq cell c = Some t"
  using assms unfolding spark_ok_def requirements_met_def by fastforce

lemma resolve_spark:
  assumes "resolve rq cell c = Some t" "rq_link_kind rq = SparkBackend"
  shows "\<exists>link. filter (\<lambda>link. l_from link = c_id c \<and> l_kind link = SparkBackend) (links cell) = [link]
    \<and> l_to link = c_id t \<and> t \<in> set (components cell) \<and> c_implementation t = rq_target_impl rq"
  using resolve_Some [OF assms(1)] assms(2) by metis

text \<open>
  C17: a Spark processor talks to one federation. In a valid cell its plan holds exactly two Spark
  links, to its service provider and from that provider to the operators, and the operators'
  chain is the one the provider's Lightning node pays on.
\<close>

theorem valid_spark_federation:
  assumes "rep_valid (validate_cell to_vec print cell)"
    "c \<in> set (components cell)" "c_implementation c = SPARK_PROCESSOR"
  shows "\<exists>ssp ops chain l1 l2. resolve SSP cell c = Some ssp \<and> resolve OPERATORS cell ssp = Some ops
    \<and> resolve CHAIN cell ops = Some chain
    \<and> filter (\<lambda>link. l_kind link = SparkBackend) (plan_links cell (c_id c)) = [l1, l2]
    \<and> l_to l1 = c_id ssp \<and> l_from l2 = c_id ssp \<and> l_to l2 = c_id ops
    \<and> (\<forall>other. chain_through cell ssp SPARK_LIGHTNING = Some other \<longrightarrow> c_id other = c_id chain)"
proof -
  have names: "SPARK_PROCESSOR \<noteq> OPEN_SSP" "SPARK_PROCESSOR \<noteq> SPARK_OPERATORS"
      "OPEN_SSP \<noteq> SPARK_OPERATORS"
    by (simp_all add: OPEN_SSP_def SPARK_OPERATORS_def SPARK_PROCESSOR_def)
  have ok: "spark_ok cell" using valid_document [OF assms(1)] by (simp add: document_ok_def)
  obtain ssp where ssp: "resolve SSP cell c = Some ssp"
    using spark_required [OF ok assms(2)] assms(3) by (fastforce simp: spark_requirements_def)
  obtain l1 where
    l1: "filter (\<lambda>link. l_from link = c_id c \<and> l_kind link = SparkBackend) (links cell) = [l1]"
      "l_to l1 = c_id ssp" and ssp_in: "ssp \<in> set (components cell)" "c_implementation ssp = OPEN_SSP"
    using resolve_spark [OF ssp] by (auto simp: SSP_def)
  obtain ops where ops: "resolve OPERATORS cell ssp = Some ops"
    using spark_required [OF ok ssp_in(1)] ssp_in(2) names by (fastforce simp: spark_requirements_def)
  obtain l2 where
    l2: "filter (\<lambda>link. l_from link = c_id ssp \<and> l_kind link = SparkBackend) (links cell) = [l2]"
      "l_to l2 = c_id ops" and ops_in: "ops \<in> set (components cell)" "c_implementation ops = SPARK_OPERATORS"
    using resolve_spark [OF ops] by (auto simp: OPERATORS_def)
  obtain chain where chain: "resolve CHAIN cell ops = Some chain"
    using spark_required [OF ok ops_in(1)] ops_in(2) names by (fastforce simp: spark_requirements_def)
  have l2_spark: "l_kind l2 = SparkBackend" and "l_from l2 = c_id ssp"
    using l2(1) by (auto dest!: filter_eq_ConsD)
  note this(2)
  moreover have "\<forall>other. chain_through cell ssp SPARK_LIGHTNING = Some other \<longrightarrow> c_id other = c_id chain"
    using ok ssp_in ops chain unfolding spark_ok_def chain_through_def by fastforce
  moreover have "filter (\<lambda>link. l_kind link = SparkBackend) (plan_links cell (c_id c)) = [l1, l2]"
  proof -
    have own: "filter (\<lambda>link. l_kind link = SparkBackend) (links_from cell (c_id c)) = [l1]"
      using l1(1) by (simp add: links_from_def conj_commute)
    have "list_ex (\<lambda>d. c_id d = c_id c \<and> c_implementation d = SPARK_PROCESSOR) (components cell)"
      using assms(2,3) by (auto simp: list_ex_iff)
    moreover have "filter (\<lambda>link. l_kind link = SparkBackend \<and> l_from link = c_id ssp) (links cell) = [l2]"
      using l2(1) by (simp add: conj_commute)
    moreover have "plan_links cell (c_id c) = links_from cell (c_id c)
        @ filter (\<lambda>link. l_kind link = SparkBackend \<and> l_from link \<in> set [c_id ssp]) (links cell)"
      using calculation(1) by (simp only: plan_links_def Let_def own list.map l1(2) if_True)
    ultimately show ?thesis using own l2_spark by (simp add: conj_ac)
  qed
  ultimately show ?thesis using ssp ops chain l1(2) l2(2) by blast
qed

lemma leaf_keys_nonempty:
  "keys \<in> set (leaf_keys v path) \<Longrightarrow> path \<noteq> [] \<Longrightarrow> keys \<noteq> []"
  "keys \<in> set (member_keys ms path) \<Longrightarrow> keys \<noteq> []"
  by (induction v path and ms path rule: leaf_keys_member_keys.induct) (auto split: if_splits)

text \<open>
  C18: an accepted override never touches a setting Proofstorm writes. In a valid cell no leaf of a
  CDK mint's \<open>native_toml\<close> is a reserved path, lies inside a reserved table or contains a reserved
  path, so merging it changes no rendered setting.
\<close>

theorem valid_override_disjoint:
  assumes "rep_valid (validate_cell to_vec print cell)"
    "c \<in> set (components cell)" "c_implementation c = ''cdk''"
    "bt_get (c_config c) ''native_toml'' = Some v" "keys \<in> set (leaf_keys v [])"
    "(name, field) \<in> set CDK_TOML"
  shows "\<forall>rest. keys \<noteq> split_on CHR ''.'' name @ rest \<and> split_on CHR ''.'' name \<noteq> keys @ rest"
proof -
  have ov: "overrides_of (c_implementation c) = Some CDK"
    using assms(3) by (simp add: overrides_of_def)
  have "native_ok print cell" using valid_document [OF assms(1)] by (simp add: document_ok_def)
  then have "shape print CDK v = Inr ()" and free: "reserved (c_implementation c) (join ''.'' keys) = None"
    using ov assms(2,4,5) unfolding native_ok_def by (auto simp: CDK_def)
  then obtain ms where "v = JObject ms"
    by (cases v) (auto simp: shape_def CDK_def)
  then have "keys \<noteq> []" using assms(5) leaf_keys_nonempty(2) by auto
  have "\<not> covers CDK (join ''.'' keys) name"
    using free ov assms(6) reserved_iff [of "c_implementation c" "join ''.'' keys"]
    by (auto simp: CDK_def)
  then show ?thesis
    using covers_path [of CDK keys "split_on CHR ''.'' name"] \<open>keys \<noteq> []\<close> join_split_on
    by (auto simp: CDK_def)
qed

text \<open>
  a method list reads back. The comma-separated list written for any set of methods a processor
  profile accepts, custom methods included, parses to that set.
\<close>

theorem method_list_roundtrip:
  assumes "accepts_methods p ms"
  shows "parse_methods p (method_list ms) = Some ms"
proof -
  let ?xs = "sorted_list_of_set ms"
  have xs: "set ?xs = ms" "distinct ?xs" using accepted_finite [OF assms] by auto
  have "map parse_method (map method_str ?xs) = map Some ?xs"
    using accepted_wf [OF assms] xs(1) by (auto simp: wf_method_def)
  then have "all_some (map parse_method (map method_str ?xs)) = Some ?xs"
    using all_some_map_iff [of parse_method "map method_str ?xs"] by simp
  then show ?thesis
    using assms xs distinct_card [OF xs(2)]
    by (simp add: parse_methods_def method_list_split [OF assms] distinct_methods_def)
qed

section \<open>Witnesses\<close>

text \<open>A mint with two Lightning nodes, one for each method.\<close>

definition route :: "string \<Rightarrow> string \<Rightarrow> payment_method \<Rightarrow> link_spec" where
  "route i dst m = sample_link i PaymentBackend ''mi'' dst (BindPayment m ''sat'')"

definition routed_mint :: component_spec where
  "routed_mint = sample_component ''mi'' Mint ''cdk'' []"

definition routed_cell :: cell_spec where
  "routed_cell = sample_cell\<lparr>
     components := [sample_component ''ln'' Lightning ''lnd'' [],
       sample_component ''l2'' Lightning ''cln'' [], routed_mint],
     links := [route ''r1'' ''ln'' Bolt11, route ''r2'' ''l2'' Bolt12]\<rparr>"

lemma routed_valid: "rep_valid (validate_cell empty_text empty_json routed_cell)"
  by code_simp

lemma routed_links:
  "route ''r1'' ''ln'' Bolt11 \<in> set (payment_links routed_cell routed_mint)"
  "route ''r2'' ''l2'' Bolt12 \<in> set (payment_links routed_cell routed_mint)"
  "route ''r1'' ''ln'' Bolt11 \<noteq> route ''r2'' ''l2'' Bolt12"
  "routed_mint \<in> set (components routed_cell)" "c_implementation routed_mint = ''cdk''"
  by code_simp+

theorem valid_payment_routes_witness: "(Bolt11, ''sat'') \<notin> embedded_claims routed_mint"
proof -
  have "l_binding (route ''r1'' ''ln'' Bolt11) = Some (BindPayment Bolt11 ''sat'')"
    by (simp add: route_def sample_link_def)
  then show ?thesis
    using conjunct2 [OF valid_payment_routes [OF routed_valid routed_links(4,5)], rule_format,
        OF routed_links(1)] by auto
qed

lemma sample_target:
  "processor_target sample_cell (payment_links sample_cell sample_mint) = Some sample_processor"
  "for_implementation (c_implementation sample_processor) = Some Spark"
  "advertised_methods Spark (c_config sample_processor) = Some {Bolt11}"
  "sample_mint \<in> set (components sample_cell)"
  "c_implementation sample_mint \<in> {''cdk'', ''nutshell''}"
  by code_simp+

theorem valid_mint_binds_advertised_witness:
  "{m. \<exists>link \<in> set (payment_links sample_cell sample_mint). \<exists>u.
      l_binding link = Some (BindPayment m u)} = {Bolt11}"
  using valid_mint_binds_advertised [OF sample_valid sample_target(4,5,1,2,3)] by blast

lemma sample_spark:
  "sample_processor \<in> set (components sample_cell)"
  "c_implementation sample_processor = SPARK_PROCESSOR"
  by code_simp+

theorem valid_spark_federation_witness:
  "\<exists>l1 l2. filter (\<lambda>link. l_kind link = SparkBackend)
     (plan_links sample_cell (c_id sample_processor)) = [l1, l2]"
  using valid_spark_federation [OF sample_valid sample_spark] by blast

theorem valid_override_disjoint_witness:
  "\<forall>rest. [''x'', ''y''] \<noteq> split_on CHR ''.'' ''lnd'' @ rest
     \<and> split_on CHR ''.'' ''lnd'' \<noteq> [''x'', ''y''] @ rest"
  by (rule valid_override_disjoint [OF sample_valid, of sample_mint
        "JObject [(''x'', JObject [(''y'', JBool True)])]" _ _ "''lightning_backend_endpoint''"])
    code_simp+

theorem method_list_roundtrip_witness:
  "parse_methods Bark (method_list {Bolt11, Custom ''arkoor''}) = Some {Bolt11, Custom ''arkoor''}"
  by (rule method_list_roundtrip) code_simp

end
