(* ===== verification/Rust_Text.thy ===== *)
theory Rust_Text
  imports Json_Text
begin

text \<open>
  More of the text functions of Rust's standard library: prefixes and suffixes, splitting at a text
  pattern, lines, the characters of a UTF-8 text, and parsing unsigned integers.
\<close>

section \<open>Bytes\<close>

definition is_ascii_hexdigit :: "char \<Rightarrow> bool" where
  "is_ascii_hexdigit ch \<longleftrightarrow>
     is_ascii_digit ch \<or> (97 \<le> byte ch \<and> byte ch \<le> 102) \<or> (65 \<le> byte ch \<and> byte ch \<le> 70)"

definition lower_byte :: "char \<Rightarrow> char" where
  "lower_byte c = (if is_ascii_uppercase c then char_of (byte c + 32) else c)"

definition to_ascii_lowercase :: "string \<Rightarrow> string" where
  "to_ascii_lowercase s = map lower_byte s"

definition eq_ignore_ascii_case :: "string \<Rightarrow> string \<Rightarrow> bool" where
  "eq_ignore_ascii_case a b \<longleftrightarrow> to_ascii_lowercase a = to_ascii_lowercase b"

lemma byte_range: "byte c < 256"
  by (simp add: byte_def)

lemma byte_lower: "is_ascii_uppercase c \<Longrightarrow> byte (lower_byte c) = byte c + 32"
  by (simp add: lower_byte_def is_ascii_uppercase_def byte_def of_char_of take_bit_eq_mod)

lemma lower_byte_idem [simp]: "lower_byte (lower_byte c) = lower_byte c"
proof (cases "is_ascii_uppercase c")
  case True
  then have "\<not> is_ascii_uppercase (lower_byte c)"
    using byte_lower [OF True] by (simp add: is_ascii_uppercase_def)
  then show ?thesis by (simp add: lower_byte_def [of "lower_byte c"])
qed (simp add: lower_byte_def)

lemma to_ascii_lowercase_idem [simp]: "to_ascii_lowercase (to_ascii_lowercase s) = to_ascii_lowercase s"
  by (simp add: to_ascii_lowercase_def)

lemma length_to_ascii_lowercase [simp]: "length (to_ascii_lowercase s) = length s"
  by (simp add: to_ascii_lowercase_def)

lemma hexdigit_lower: "is_ascii_hexdigit c \<Longrightarrow> is_ascii_hexdigit (lower_byte c)"
proof (cases "is_ascii_uppercase c")
  case True
  then show "is_ascii_hexdigit c \<Longrightarrow> is_ascii_hexdigit (lower_byte c)"
    using byte_lower [OF True]
    by (auto simp: is_ascii_hexdigit_def is_ascii_uppercase_def is_ascii_digit_def)
qed (simp add: lower_byte_def)

lemma alphanumeric_lower: "is_ascii_alphanumeric c \<Longrightarrow> is_ascii_alphanumeric (lower_byte c)"
proof (cases "is_ascii_uppercase c")
  case True
  then show "is_ascii_alphanumeric c \<Longrightarrow> is_ascii_alphanumeric (lower_byte c)"
    using byte_lower [OF True]
    by (auto simp: is_ascii_alphanumeric_def is_ascii_uppercase_def is_ascii_lowercase_def)
qed (simp add: lower_byte_def)

lemma hexdigits_lower:
  "list_all is_ascii_hexdigit s \<Longrightarrow> list_all is_ascii_hexdigit (to_ascii_lowercase s)"
  by (auto simp: to_ascii_lowercase_def list_all_iff hexdigit_lower)

section \<open>Prefixes, suffixes and patterns\<close>

definition strip_prefix :: "string \<Rightarrow> string \<Rightarrow> string option" where
  "strip_prefix p s = (if string_starts_with s p then Some (drop (length p) s) else None)"

definition string_ends_with :: "string \<Rightarrow> string \<Rightarrow> bool" where
  "string_ends_with s p \<longleftrightarrow> string_starts_with (rev s) (rev p)"

definition strip_suffix :: "string \<Rightarrow> string \<Rightarrow> string option" where
  "strip_suffix p s =
     (if string_ends_with s p then Some (take (length s - length p) s) else None)"

fun contains_text :: "string \<Rightarrow> string \<Rightarrow> bool" where
  "contains_text p [] \<longleftrightarrow> p = []"
| "contains_text p (c # cs) \<longleftrightarrow> take (length p) (c # cs) = p \<or> contains_text p cs"

definition trim_end_matches :: "char \<Rightarrow> string \<Rightarrow> string" where
  "trim_end_matches c s = rev (dropWhile (\<lambda>x. x = c) (rev s))"

text \<open>\<open>split_once\<close> and \<open>rsplit_once\<close>: around the first and the last occurrence of a pattern.\<close>

fun split_at_first :: "string \<Rightarrow> string \<Rightarrow> (string \<times> string) option" where
  "split_at_first p [] = (if p = [] then Some ([], []) else None)"
| "split_at_first p (x # xs) =
     (if string_starts_with (x # xs) p then Some ([], drop (length p) (x # xs))
      else map_option (apfst (Cons x)) (split_at_first p xs))"

fun split_at_last :: "string \<Rightarrow> string \<Rightarrow> (string \<times> string) option" where
  "split_at_last p [] = (if p = [] then Some ([], []) else None)"
| "split_at_last p (x # xs) =
     (case split_at_last p xs of
        Some (a, b) \<Rightarrow> Some (x # a, b)
      | None \<Rightarrow>
          if string_starts_with (x # xs) p then Some ([], drop (length p) (x # xs)) else None)"

lemma string_starts_with_iff: "string_starts_with s p \<longleftrightarrow> (\<exists>r. s = p @ r)"
proof
  assume "string_starts_with s p"
  then have "s = p @ drop (length p) s"
    unfolding string_starts_with_def using append_take_drop_id by metis
  then show "\<exists>r. s = p @ r" ..
qed (auto simp: string_starts_with_def)

lemma strip_prefix_Some: "strip_prefix p s = Some r \<longleftrightarrow> s = p @ r"
  by (auto simp: strip_prefix_def string_starts_with_iff)

lemma strip_prefix_append [simp]: "strip_prefix p (p @ r) = Some r"
  by (simp add: strip_prefix_Some)

lemma split_at_first_Some: "split_at_first p s = Some (a, b) \<Longrightarrow> s = a @ p @ b"
  by (induction p s arbitrary: a rule: split_at_first.induct)
    (auto simp: string_starts_with_iff split: if_splits)

lemma split_at_last_Some: "split_at_last p s = Some (a, b) \<Longrightarrow> s = a @ p @ b"
  by (induction p s arbitrary: a b rule: split_at_last.induct)
    (auto simp: string_starts_with_iff split: if_splits option.splits)

lemma split_at_last_absent:
  "x \<notin> set s \<Longrightarrow> split_at_last (x # p) s = None"
  by (induction s) (auto simp: string_starts_with_def)

lemma split_at_last_append:
  assumes "split_at_last p s = Some (a, b)"
  shows "split_at_last p (xs @ s) = Some (xs @ a, b)"
  using assms by (induction xs) auto

lemma trim_end_matches_fixed: "s = [] \<or> last s \<noteq> c \<Longrightarrow> trim_end_matches c s = s"
  by (cases s rule: rev_cases) (auto simp: trim_end_matches_def)

section \<open>Lines and characters\<close>

text \<open>\<open>str::lines\<close>: split at line feeds, a final empty line and a carriage return dropped.\<close>

definition drop_carriage_return :: "string \<Rightarrow> string" where
  "drop_carriage_return s = (if ends_with s (char_of (13 :: nat)) then butlast s else s)"

definition text_lines :: "string \<Rightarrow> string list" where
  "text_lines s =
     (let parts = split_on (char_of (10 :: nat)) s
      in map drop_carriage_return (if last parts = [] then butlast parts else parts))"

text \<open>The characters of a UTF-8 text: a leading byte and the continuation bytes after it.\<close>

definition is_continuation :: "char \<Rightarrow> bool" where
  "is_continuation c \<longleftrightarrow> 128 \<le> byte c \<and> byte c < 192"

function utf8_chars :: "string \<Rightarrow> string list" where
  "utf8_chars [] = []"
| "utf8_chars (x # xs) =
     (x # takeWhile is_continuation xs) # utf8_chars (dropWhile is_continuation xs)"
  by pat_completeness auto

termination
  by (relation "measure length") (auto simp: length_dropWhile_le le_imp_less_Suc)

text \<open>\<open>char::is_whitespace\<close> and \<open>char::is_control\<close>, over the bytes of the character.\<close>

definition is_whitespace :: "string \<Rightarrow> bool" where
  "is_whitespace ch \<longleftrightarrow>
     (case map byte ch of
        [a] \<Rightarrow> (9 \<le> a \<and> a \<le> 13) \<or> a = 32
      | [a, b] \<Rightarrow> a = 194 \<and> (b = 133 \<or> b = 160)
      | [a, b, d] \<Rightarrow>
          (a = 225 \<and> b = 154 \<and> d = 128)
          \<or> (a = 226 \<and> b = 128 \<and> ((128 \<le> d \<and> d \<le> 138) \<or> d = 168 \<or> d = 169 \<or> d = 175))
          \<or> (a = 226 \<and> b = 129 \<and> d = 159) \<or> (a = 227 \<and> b = 128 \<and> d = 128)
      | _ \<Rightarrow> False)"

definition is_control :: "string \<Rightarrow> bool" where
  "is_control ch \<longleftrightarrow>
     (case map byte ch of
        [a] \<Rightarrow> a < 32 \<or> a = 127
      | [a, b] \<Rightarrow> a = 194 \<and> 128 \<le> b \<and> b < 160
      | _ \<Rightarrow> False)"

text \<open>\<open>trim().is_empty()\<close>.\<close>

definition is_blank :: "string \<Rightarrow> bool" where
  "is_blank s \<longleftrightarrow> list_all is_whitespace (utf8_chars s)"

section \<open>Numbers\<close>

text \<open>\<open>parse\<close> of an unsigned integer of \<open>w\<close> bits: digits, after one optional plus.\<close>

definition parse_digits :: "nat \<Rightarrow> string \<Rightarrow> nat option" where
  "parse_digits w s =
     (if s \<noteq> [] \<and> list_all is_ascii_digit s \<and> int (decimal_value s) < 2 ^ w
      then Some (decimal_value s) else None)"

definition parse_unsigned :: "nat \<Rightarrow> string \<Rightarrow> nat option" where
  "parse_unsigned w s =
     parse_digits w (case strip_prefix ''+'' s of Some r \<Rightarrow> r | None \<Rightarrow> s)"

lemma parse_digits_decimal: "n < 2 ^ w \<Longrightarrow> parse_digits w (decimal n) = Some n"
  by (auto simp: parse_digits_def decimal_nonempty decimal_value_decimal list_all_iff
      is_ascii_digit_def decimal_digits simp flip: of_nat_power)

lemma parse_unsigned_decimal: "n < 2 ^ w \<Longrightarrow> parse_unsigned w (decimal n) = Some n"
proof -
  assume n: "n < 2 ^ w"
  obtain d ds where d: "decimal n = d # ds" using decimal_nonempty by (cases "decimal n") auto
  have "d \<noteq> CHR ''+''" using decimal_digits [of d n] d by (auto simp: byte_def)
  then have "strip_prefix ''+'' (decimal n) = None"
    using d by (simp add: strip_prefix_def string_starts_with_def)
  then show ?thesis using parse_digits_decimal [OF n] by (simp add: parse_unsigned_def)
qed

section \<open>Loops that stop at the first error\<close>

fun each_ok :: "('a \<Rightarrow> 'e + unit) \<Rightarrow> 'a list \<Rightarrow> 'e + unit" where
  "each_ok f [] = Inr ()"
| "each_ok f (x # xs) = and_then (f x) (\<lambda>_. each_ok f xs)"

text \<open>\<open>collect\<close> of an iterator of results.\<close>

fun collect_ok :: "('a \<Rightarrow> 'e + 'b) \<Rightarrow> 'a list \<Rightarrow> 'e + 'b list" where
  "collect_ok f [] = Inr []"
| "collect_ok f (x # xs) = and_then (f x) (\<lambda>y. and_then (collect_ok f xs) (\<lambda>ys. Inr (y # ys)))"

definition ensure :: "bool \<Rightarrow> 'e \<Rightarrow> 'e + unit" where
  "ensure ok e = (if ok then Inr () else Inl e)"

lemma ensure_iff [simp]: "ensure ok e = Inr u \<longleftrightarrow> ok"
  by (simp add: ensure_def)

lemma each_ok_iff: "each_ok f xs = Inr u \<longleftrightarrow> (\<forall>x \<in> set xs. f x = Inr ())"
  by (induction xs) (auto simp: and_then_Inr_iff)

lemma collect_ok_iff:
  "collect_ok f xs = Inr ys \<longleftrightarrow> list_all2 (\<lambda>x y. f x = Inr y) xs ys"
  by (induction xs arbitrary: ys) (auto simp: and_then_Inr_iff list_all2_Cons1)

lemma collect_ok_map:
  "(\<And>x. x \<in> set xs \<Longrightarrow> f x = Inr (g x)) \<Longrightarrow> collect_ok f xs = Inr (map g xs)"
  by (induction xs) (auto simp: and_then_def)

lemma collect_ok_cong:
  "(\<And>x. x \<in> set xs \<Longrightarrow> f x = g x) \<Longrightarrow> collect_ok f xs = collect_ok g xs"
  by (induction xs) auto

section \<open>Digests\<close>

text \<open>The digest an image is pinned by: 64 hexadecimal digits after the last \<open>@sha256:\<close>.\<close>

definition is_hex64 :: "string \<Rightarrow> bool" where
  "is_hex64 s \<longleftrightarrow> length s = 64 \<and> list_all is_ascii_hexdigit s"

definition is_sha256_image :: "string \<Rightarrow> bool" where
  "is_sha256_image img \<longleftrightarrow>
     (case split_at_last ''@sha256:'' img of None \<Rightarrow> False | Some (_, digest) \<Rightarrow> is_hex64 digest)"

text \<open>The Git commits a build names: 40 hexadecimal digits, taken in lower case.\<close>

definition full_sha :: "string \<Rightarrow> string option" where
  "full_sha s =
     (if length s = 40 \<and> list_all is_ascii_hexdigit s then Some (to_ascii_lowercase s) else None)"

lemma full_sha_idem: "full_sha s = Some t \<Longrightarrow> full_sha t = Some t"
  by (auto simp: full_sha_def hexdigits_lower split: if_splits)

end
