(* ===== verification/Catalog_Model.thy ===== *)
theory Catalog_Model
  imports Cell_Model Rust_Text "HOL-Library.Multiset"
begin

text \<open>
  What the release catalog offers and what publication locks: the types of
  \<open>proofstorm-core/src/catalog.rs\<close>, \<open>candidate.rs\<close>, \<open>candidate_profiles.rs\<close> and
  \<open>publication.rs\<close>. A \<open>BTreeSet\<close> that is only searched is a set; one the code walks in order is the
  ascending list of its elements.
\<close>

section \<open>Support contracts\<close>

datatype release_channel = Stable | Prerelease

datatype support_lifecycle = Preferred | Supported | Deprecated | Experimental

definition is_supported :: "support_lifecycle \<Rightarrow> bool" where
  "is_supported l \<longleftrightarrow> l = Preferred \<or> l = Supported"

datatype catalog_feature =
  NativeCli | NativeCliEntrypoints | MintManagementRpc | FeatureRegtest | PersistentState
  | FeatureBolt11 | FeatureBolt12 | FeatureOnchain | ClearAuth | BlindAuth | FeatureSqlite
  | FeaturePostgres | RedisCache | OidcProvider | WalletOperations

fun for_payment_method :: "payment_method \<Rightarrow> catalog_feature option" where
  "for_payment_method Bolt11 = Some FeatureBolt11"
| "for_payment_method Bolt12 = Some FeatureBolt12"
| "for_payment_method Onchain = Some FeatureOnchain"
| "for_payment_method (Custom _) = None"

datatype storage_backend = Ephemeral | PersistentVolume | Sqlite | Postgres

datatype authentication_mode = Unauthenticated | Nut21Clear | Nut22Blind

record version_support =
  vs_implementation :: string
  vs_versions :: "string list"

record dependency_support =
  ds_kind :: link_kind
  ds_implementation :: string
  ds_versions :: "string set"

record payment_binding_support =
  pb_method :: payment_method
  pb_unit :: string
  pb_backend :: version_support

record embedded_binding_support =
  eb_method :: payment_method
  eb_unit :: string
  eb_backend :: string

record support_matrix =
  sm_storage :: "storage_backend set"
  sm_methods :: "payment_method set"
  sm_backends :: "string set"
  sm_units :: "string set"
  sm_bindings :: "payment_binding_support list"
  sm_embedded :: "embedded_binding_support list"
  sm_authentication :: "authentication_mode set"
  sm_wallets :: "version_support list"

record endpoint_condition =
  en_field :: string
  en_equals :: string

record runtime_endpoint =
  ep_id :: string
  ep_kind :: string
  ep_controls :: "string set"
  ep_limitations :: "string list"
  ep_requires :: "endpoint_condition option"

text \<open>An omitted field never satisfies a condition.\<close>

definition applies_to :: "runtime_endpoint \<Rightarrow> config \<Rightarrow> bool" where
  "applies_to e cfg \<longleftrightarrow>
     (case ep_requires e of
        None \<Rightarrow> True
      | Some condition \<Rightarrow>
          Option.bind (bt_get cfg (en_field condition)) json_str = Some (en_equals condition))"

record build_provenance =
  bp_repository :: string
  bp_commit :: string
  bp_artifact_url :: string
  bp_artifact_sha256 :: string
  bp_platform :: string
  bp_runtime_image :: string
  bp_recipe_digest :: string
  bp_package_path :: "string option"
  bp_lock_digest :: "string option"
  bp_build_image :: "string option"
  bp_transformations :: "string list"

section \<open>Candidate builds\<close>

text \<open>The source of a build, as it is requested.\<close>

datatype candidate_input =
  PullRequestInput string
  | CommitInput "string option" "string option" "string option"
  | TagInput string
  | BundleInput "string option" string "string option" "string list"

record build_profile =
  bf_id :: string
  bf_version :: u32
  bf_repository :: string
  bf_baseline :: string
  bf_dockerfile :: string
  bf_platforms :: "string set"
  bf_features :: "catalog_feature set"
  bf_implementations :: "string list"
  bf_notes :: "string list"
  bf_prepare :: string
  bf_cpu :: u32
  bf_memory :: u32
  bf_deadline :: u32

record provenance =
  pv_schema :: u32
  pv_input_digest :: string
  pv_source :: candidate_input
  pv_platform :: string
  pv_source_image :: string
  pv_builder_image :: string
  pv_baseline_digest :: string
  pv_profile :: build_profile
  pv_profile_digest :: string

record candidate_source =
  cs_candidate :: string
  cs_pull_request :: string
  cs_repository :: string
  cs_commit :: string
  cs_provenance :: "provenance option"

datatype candidate_phase =
  BuildPending | Resolving | Building | Pushing | BuildSucceeded | BuildFailed | BuildCancelled

fun terminal :: "candidate_phase \<Rightarrow> bool" where
  "terminal p \<longleftrightarrow> p = BuildSucceeded \<or> p = BuildFailed \<or> p = BuildCancelled"

record candidate_log =
  lg_text :: string
  lg_truncated :: bool
  lg_unavailable :: "string option"

record diagnostics =
  dg_captured :: int
  dg_logs :: "(string, candidate_log) btree"

record candidate_build =
  cb_diagnostics :: "diagnostics option"
  cb_api :: string
  cb_id :: string
  cb_workspace :: string
  cb_principal :: string
  cb_implementation :: string
  cb_base_version :: string
  cb_pull_request :: string
  cb_resource :: string
  cb_request_digest :: string
  cb_provenance :: "provenance option"
  cb_features :: "catalog_feature set"
  cb_phase :: candidate_phase
  cb_accepted :: int
  cb_started :: "int option"
  cb_completed :: "int option"
  cb_repository :: "string option"
  cb_commit :: "string option"
  cb_version :: "string option"
  cb_image :: "string option"
  cb_error_code :: "string option"
  cb_error_message :: "string option"

section \<open>The catalog\<close>

record catalog_entry =
  ce_id :: string
  ce_kind :: component_kind
  ce_description :: string
  ce_adapter :: string
  ce_action_adapter :: "string option"
  ce_version :: string
  ce_channel :: release_channel
  ce_lifecycle :: support_lifecycle
  ce_config_version :: string
  ce_schema :: json
  ce_schema_digest :: string
  ce_features :: "catalog_feature set"
  ce_dependencies :: "dependency_support list"
  ce_matrix :: support_matrix
  ce_endpoints :: "runtime_endpoint list"
  ce_image :: string
  ce_source_digest :: string
  ce_source :: "candidate_source option"
  ce_provenance :: "build_provenance option"
  ce_control :: "control_class list"

datatype catalog_origin = BuiltIn | CandidateOrigin

definition origin :: "catalog_entry \<Rightarrow> catalog_origin" where
  "origin e = (if ce_source e \<noteq> None then CandidateOrigin else BuiltIn)"

record implementation_support =
  im_implementation :: string
  im_minimum :: "string option"
  im_preferred :: "string option"
  im_supported :: "string set"

record catalog =
  ct_api :: string
  ct_implementations :: "implementation_support list"
  ct_entries :: "catalog_entry list"

section \<open>Locks and revisions\<close>

record lock_entry =
  le_component :: string
  le_catalog :: string
  le_adapter :: string
  le_action_adapter :: "string option"
  le_version :: string
  le_config_version :: string
  le_schema_digest :: string
  le_features :: "catalog_feature set"
  le_dependencies :: "dependency_support list"
  le_config_digest :: string
  le_rollout :: string
  le_image :: string
  le_source_digest :: string
  le_source :: "candidate_source option"
  le_provenance :: "build_provenance option"
  le_overrides :: "string list"

record resolved_lock =
  lk_api :: string
  lk_digest :: string
  lk_entries :: "lock_entry list"

record published_revision =
  rv_workspace :: string
  rv_digest :: string
  rv_cell :: cell_spec
  rv_lock :: resolved_lock

section \<open>Orders of components and links\<close>

text \<open>The derived order of a link, by its fields; \<open>link_key\<close> is the tuple it compares.\<close>

fun kind_rank :: "link_kind \<Rightarrow> nat" where
  "kind_rank BitcoinPeer = 0"
| "kind_rank LightningPeer = 1"
| "kind_rank ChainBackend = 2"
| "kind_rank ArkBackend = 3"
| "kind_rank SparkBackend = 4"
| "kind_rank PaymentBackend = 5"
| "kind_rank DatabaseBackend = 6"
| "kind_rank AuthenticationBackend = 7"
| "kind_rank NetworkPath = 8"

fun role_rank :: "database_role \<Rightarrow> nat" where
  "role_rank Primary = 0"
| "role_rank Cache = 1"
| "role_rank Authentication = 2"

fun binding_key :: "dependency_binding option \<Rightarrow> nat \<times> (nat \<times> string) \<times> string list" where
  "binding_key None = (0, (0, []), [])"
| "binding_key (Some (BindChain _)) = (1, (0, []), [])"
| "binding_key (Some (BindArk _)) = (2, (0, []), [])"
| "binding_key (Some (BindSpark _)) = (3, (0, []), [])"
| "binding_key (Some (BindPayment m u)) = (4, method_key m, [u])"
| "binding_key (Some (BindDatabase r d)) =
     (5, (role_rank r, []), (case d of None \<Rightarrow> [] | Some name \<Rightarrow> [name]))"
| "binding_key (Some (BindAuthentication _)) = (6, (0, []), [])"

definition link_key ::
  "link_spec \<Rightarrow> string \<times> nat \<times> string \<times> string \<times> nat \<times> (nat \<times> string) \<times> string list" where
  "link_key l = (l_id l, kind_rank (l_kind l), l_from l, l_to l, binding_key (l_binding l))"

lemma kind_rank_inj: "kind_rank a = kind_rank b \<Longrightarrow> a = b"
  by (cases a; cases b) auto

lemma role_rank_inj: "role_rank a = role_rank b \<Longrightarrow> a = b"
  by (cases a; cases b) auto

lemma one_network: "(a :: bitcoin_network) = b"
  by (cases a; cases b) simp

lemma one_protocol: "(a :: authentication_protocol) = b"
  by (cases a; cases b) simp

lemma binding_key_inj: "binding_key a = binding_key b \<Longrightarrow> a = b"
proof (induction a rule: binding_key.induct)
  case 1
  then show ?case by (cases b rule: binding_key.cases) auto
next
  case (2 n)
  then show ?case by (cases b rule: binding_key.cases) (auto intro: one_network)
next
  case (3 n)
  then show ?case by (cases b rule: binding_key.cases) (auto intro: one_network)
next
  case (4 n)
  then show ?case by (cases b rule: binding_key.cases) (auto intro: one_network)
next
  case (5 m u)
  then show ?case by (cases b rule: binding_key.cases) (auto dest: method_key_inj)
next
  case (6 r d)
  then show ?case
    by (cases b rule: binding_key.cases) (auto dest: role_rank_inj split: option.splits)
next
  case (7 p)
  then show ?case
    by (cases b rule: binding_key.cases) (auto intro: one_protocol)
qed

lemma link_key_inj: "link_key a = link_key b \<Longrightarrow> a = b"
  by (cases a; cases b) (auto simp: link_key_def dest: kind_rank_inj binding_key_inj)

text \<open>The canonical order of a document: components by identifier, links by their fields.\<close>

definition sort_components :: "component_spec list \<Rightarrow> component_spec list" where
  "sort_components cs = sort_key c_id cs"

definition sort_links :: "link_spec list \<Rightarrow> link_spec list" where
  "sort_links ls = sort_key link_key ls"

lemma sort_key_canonical:
  assumes "inj_on f (set xs)" "mset xs = mset ys"
  shows "sort_key f xs = sort_key f ys"
  using assms by (intro sort_key_inj_key_eq) auto

lemma sort_links_canonical: "mset xs = mset ys \<Longrightarrow> sort_links xs = sort_links ys"
  unfolding sort_links_def by (rule sort_key_canonical) (auto intro: inj_onI link_key_inj)

lemma sort_components_canonical:
  "distinct (map c_id xs) \<Longrightarrow> mset xs = mset ys \<Longrightarrow> sort_components xs = sort_components ys"
  unfolding sort_components_def by (rule sort_key_canonical) (simp_all add: distinct_map)

lemma sort_links_idem [simp]: "sort_links (sort_links ls) = sort_links ls"
  by (rule sort_links_canonical) (simp add: sort_links_def)

end
