(* ===== verification/Store_Data.thy ===== *)
theory Store_Data
  imports Cell_Issues Catalog_Model
begin

text \<open>
  What the store keeps (\<open>proofstorm-store/src\<close>, with the records of \<open>proofstorm-core\<close> it saves):
  phases, rows, errors, and the database as one record of tables.

  A table is a map sorted by its primary key, so an \<open>ORDER BY\<close> of the key is the order of the
  list and a key has one row. A JSON column that is only written, read back and compared is the
  value it encodes; a signed 64-bit column is an \<open>int\<close> whose range is checked where the code
  checks it. Digests are taken of JSON values: SHA-256 and the serialization of a cell document
  and of a lock (derived \<open>Serialize\<close>s), the length of a value's text, and the digest of the
  native command a private receive carries, when it is a valid one, are the fields of \<open>codec\<close>.
\<close>

section \<open>Phases and kinds\<close>

datatype experiment_phase = RunActive | RunClosed

datatype session_phase = SessionActive | SessionFinished

datatype operation_phase = OpPending | OpRunning | OpSucceeded | OpFailed | OpCancelled

datatype cell_handle_phase = HandleOpen | HandleClosing | HandleClosed

datatype operation_kind =
  OpNodeStart | OpNodeStop | OpNodeRestart | OpComponentStart | OpComponentStop
  | OpComponentRestart | OpBootstrapLiquidity | OpPeerConnect | OpPeerDisconnect | OpChannelOpen
  | OpChannelPolicySet | OpChannelClose | OpChannelForceClose | OpChannelRebalance
  | OpNetworkPartition | OpNetworkDelay | OpNetworkLoss | OpNetworkHeal | OpWalletInitialize
  | OpWalletBalance | OpWalletFund | OpWalletInvoice | OpWalletPay | OpWalletQuoteClaim
  | OpWalletMeltQuoteRefresh | OpWalletRoundTrip | OpConservationOracle | OpReachabilityOracle
  | OpComponentForensics | OpComponentExecLive | OpPrivateTransfer | OpComponentLogs
  | OpAuthenticationConformance | OpAuthenticationProtectedSpend | OpAuthenticationReplay

text \<open>The name \<open>serde\<close> gives a kind (\<open>rename_all = "snake_case"\<close>).\<close>

fun operation_kind_name :: "operation_kind \<Rightarrow> string" where
  "operation_kind_name OpNodeStart = ''node_start''"
| "operation_kind_name OpNodeStop = ''node_stop''"
| "operation_kind_name OpNodeRestart = ''node_restart''"
| "operation_kind_name OpComponentStart = ''component_start''"
| "operation_kind_name OpComponentStop = ''component_stop''"
| "operation_kind_name OpComponentRestart = ''component_restart''"
| "operation_kind_name OpBootstrapLiquidity = ''bootstrap_liquidity''"
| "operation_kind_name OpPeerConnect = ''peer_connect''"
| "operation_kind_name OpPeerDisconnect = ''peer_disconnect''"
| "operation_kind_name OpChannelOpen = ''channel_open''"
| "operation_kind_name OpChannelPolicySet = ''channel_policy_set''"
| "operation_kind_name OpChannelClose = ''channel_close''"
| "operation_kind_name OpChannelForceClose = ''channel_force_close''"
| "operation_kind_name OpChannelRebalance = ''channel_rebalance''"
| "operation_kind_name OpNetworkPartition = ''network_partition''"
| "operation_kind_name OpNetworkDelay = ''network_delay''"
| "operation_kind_name OpNetworkLoss = ''network_loss''"
| "operation_kind_name OpNetworkHeal = ''network_heal''"
| "operation_kind_name OpWalletInitialize = ''wallet_initialize''"
| "operation_kind_name OpWalletBalance = ''wallet_balance''"
| "operation_kind_name OpWalletFund = ''wallet_fund''"
| "operation_kind_name OpWalletInvoice = ''wallet_invoice''"
| "operation_kind_name OpWalletPay = ''wallet_pay''"
| "operation_kind_name OpWalletQuoteClaim = ''wallet_quote_claim''"
| "operation_kind_name OpWalletMeltQuoteRefresh = ''wallet_melt_quote_refresh''"
| "operation_kind_name OpWalletRoundTrip = ''wallet_round_trip''"
| "operation_kind_name OpConservationOracle = ''conservation_oracle''"
| "operation_kind_name OpReachabilityOracle = ''reachability_oracle''"
| "operation_kind_name OpComponentForensics = ''component_forensics''"
| "operation_kind_name OpComponentExecLive = ''component_exec_live''"
| "operation_kind_name OpPrivateTransfer = ''private_transfer''"
| "operation_kind_name OpComponentLogs = ''component_logs''"
| "operation_kind_name OpAuthenticationConformance = ''authentication_conformance''"
| "operation_kind_name OpAuthenticationProtectedSpend = ''authentication_protected_spend''"
| "operation_kind_name OpAuthenticationReplay = ''authentication_replay''"

section \<open>Errors\<close>

text \<open>\<open>StoreError\<close>, without the prose of its messages.\<close>

datatype store_error =
  CellUpdateError string
  | IoError
  | DatabaseError
  | SerializationError
  | NotFound string string
  | AccessDenied string string capability
  | StaleDraft string u64 u64
  | IdempotencyConflict string
  | ConflictError string string
  | ValidationError
  | CatalogError
  | PoisonedError
  | VersionOverflow u64
  | InvalidStoredVersion int
  | ArtifactTooLarge nat nat
  | OperationOwnerMismatch string string string

fun store_error_code :: "store_error \<Rightarrow> string" where
  "store_error_code (CellUpdateError code) = code"
| "store_error_code IoError = ''store_failure''"
| "store_error_code DatabaseError = ''store_failure''"
| "store_error_code SerializationError = ''store_failure''"
| "store_error_code PoisonedError = ''store_failure''"
| "store_error_code (VersionOverflow _) = ''store_failure''"
| "store_error_code (InvalidStoredVersion _) = ''store_failure''"
| "store_error_code (NotFound _ _) = ''not_found''"
| "store_error_code (AccessDenied _ _ _) = ''access_denied''"
| "store_error_code (StaleDraft _ _ _) = ''stale_draft''"
| "store_error_code (IdempotencyConflict _) = ''idempotency_conflict''"
| "store_error_code (ConflictError _ _) = ''conflict''"
| "store_error_code ValidationError = ''validation_failed''"
| "store_error_code CatalogError = ''catalog_resolution_failed''"
| "store_error_code (ArtifactTooLarge _ _) = ''artifact_too_large''"
| "store_error_code (OperationOwnerMismatch _ _ _) = ''operation_owner_mismatch''"

type_synonym 'a sresult = "store_error + 'a"

section \<open>Documents\<close>

record draft =
  dr_id :: string
  dr_workspace :: string
  dr_version :: u64
  dr_cell :: cell_spec

text \<open>A row of \<open>instances\<close>, and the instance it reads as once its generation is joined.\<close>

record instance_row =
  in_workspace :: string
  in_id :: string
  in_revision :: string
  in_lock :: string
  in_key :: string
  in_resource :: string

record cell_instance = instance_row +
  in_generation :: int

record experiment_row =
  ex_id :: string
  ex_workspace :: string
  ex_instance :: string
  ex_owner :: string
  ex_phase :: experiment_phase
  ex_created :: int
  ex_closed :: "int option"

record session =
  se_id :: string
  se_workspace :: string
  se_experiment :: string
  se_instance :: string
  se_principal :: string
  se_phase :: session_phase
  se_started :: int
  se_last_activity :: int
  se_finished :: "int option"

record artifact =
  af_media_type :: string
  af_digest :: string
  af_byte_length :: u32
  af_content :: json

text \<open>A row of \<open>actions\<close>, and the operation it reads as once its revision is joined.\<close>

record action_row =
  ac_workspace :: string
  ac_id :: string
  ac_instance :: string
  ac_experiment :: string
  ac_session :: string
  ac_principal :: string
  ac_sequence :: int
  ac_kind :: operation_kind
  ac_capability :: capability
  ac_resource :: string
  ac_request_digest :: string
  ac_request :: json
  ac_phase :: operation_phase
  ac_artifact :: "artifact option"
  ac_accepted :: int
  ac_started :: "int option"
  ac_completed :: "int option"

record cell_operation = action_row +
  ac_revision :: string

record cell_handle =
  ch_name :: string
  ch_generation :: u32
  ch_owner :: string
  ch_config_digest :: string
  ch_phase :: cell_handle_phase
  ch_instance :: string

record private_scope =
  ps_receive_command_digest :: string
  ps_issuer :: string
  ps_component :: string
  ps_mint :: string
  ps_reference :: string

record private_grant =
  pg_id :: string
  pg_workspace :: string
  pg_instance :: string
  pg_principal :: string
  pg_scope :: private_scope
  pg_created :: int
  pg_revoked :: "int option"

section \<open>Updates\<close>

record update_target =
  ut_instance :: string
  ut_expected_generation :: u64
  ut_delete_data :: bool
  ut_delete_retained :: "string list"

record cell_changes =
  cg_added :: "string list"
  cg_unchanged :: "string list"
  cg_restarted :: "string list"
  cg_removed :: "string list"
  cg_deleted_data :: "string list"
  cg_connections_changed :: bool
  cg_policy_changed :: bool
  cg_unsupported :: "string list"
  cg_required_images :: "string list"

record update_plan =
  pl_instance_key :: string
  pl_target :: update_target
  pl_base_revision :: string
  pl_target_revision :: string
  pl_target_lock :: string
  pl_changes :: cell_changes
  pl_digest :: string

record update_state =
  us_generation :: int
  us_applied :: int
  us_converged :: "string option"
  us_closing :: bool

record accepted_update =
  au_principal :: string
  au_key :: string
  au_plan :: update_plan
  au_accepted :: int

section \<open>The database\<close>

datatype receipt_body =
  DraftBody draft
  | RevisionBody published_revision
  | InstanceBody cell_instance
  | ExperimentBody experiment_row
  | SessionBody session
  | OperationBody cell_operation
  | GrantBody private_grant
  | PlanBody update_plan

record receipt =
  rc_operation :: string
  rc_hash :: string
  rc_response :: receipt_body

record runtime_binding =
  rb_source :: string
  rb_cluster :: string
  rb_resource :: "string option"

record draft_row =
  dw_version :: int
  dw_cell :: cell_spec

record revision_row =
  rw_draft :: string
  rw_draft_version :: int
  rw_revision :: published_revision

type_synonym 'v table = "(string \<times> string, 'v) btree"

record store =
  t_workspaces :: "(string, string) btree"
  t_principals :: "string list"
  t_grants :: "(string \<times> string \<times> capability) list"
  t_drafts :: "draft_row table"
  t_revisions :: "(string, revision_row) btree"
  t_instances :: "instance_row table"
  t_experiments :: "experiment_row table"
  t_sessions :: "session table"
  t_actions :: "action_row table"
  t_operation_revisions :: "string table"
  t_private_grants :: "private_grant table"
  t_idempotency :: "(string \<times> string \<times> string, receipt) btree"
  t_handles :: "cell_handle table"
  t_update_state :: "update_state table"
  t_update_plans :: "update_plan table"
  t_updates :: "(string \<times> string \<times> int, accepted_update) btree"
  t_retained :: "(string \<times> string \<times> string) list"
  t_automatic_runs :: "(string \<times> string \<times> string, int \<times> string) btree"
  t_run_seals :: "(cell_instance \<times> published_revision) table"
  t_plan_uses :: "(string \<times> string \<times> string, string) btree"
  t_runtime_bindings :: "(string \<times> runtime_binding) table"

text \<open>The tables \<open>from_connection\<close> creates: all empty.\<close>

definition empty_store :: store where
  "empty_store =
     \<lparr>t_workspaces = [], t_principals = [], t_grants = [], t_drafts = [], t_revisions = [],
      t_instances = [], t_experiments = [], t_sessions = [], t_actions = [],
      t_operation_revisions = [], t_private_grants = [], t_idempotency = [], t_handles = [],
      t_update_state = [], t_update_plans = [], t_updates = [], t_retained = [],
      t_automatic_runs = [], t_run_seals = [], t_plan_uses = [],
      t_runtime_bindings = []\<rparr>"

section \<open>Digests and bounds\<close>

record codec =
  sha256_hex :: "json \<Rightarrow> string"
  cell_json :: "cell_spec \<Rightarrow> json"
  lock_json :: "resolved_lock \<Rightarrow> json"
  json_size :: "json \<Rightarrow> nat"
  receive_digest :: "json \<Rightarrow> string option"

definition digest_json :: "codec \<Rightarrow> json \<Rightarrow> string" where
  "digest_json c v = ''sha256:'' @ sha256_hex c v"

text \<open>\<open>&digest[a..b]\<close>.\<close>

definition slice :: "nat \<Rightarrow> nat \<Rightarrow> string \<Rightarrow> string" where
  "slice a b s = take (b - a) (drop a s)"

definition MAX_ARTIFACT_BYTES :: nat where
  "MAX_ARTIFACT_BYTES = 32 * 1024"

definition I64_MAX :: int where
  "I64_MAX = 2 ^ 63 - 1"

definition sql_version :: "u64 \<Rightarrow> int sresult" where
  "sql_version v = (if uint v \<le> I64_MAX then Inr (uint v) else Inl (VersionOverflow v))"

text \<open>\<open>u64::try_from\<close> of a column, as \<open>read_draft_unchecked\<close> and \<open>operation_from\<close> use it.\<close>

definition stored_u64 :: "int \<Rightarrow> u64 sresult" where
  "stored_u64 v = (if v < 0 then Inl (InvalidStoredVersion v) else Inr (word_of_int v))"

definition is_store_slug :: "string \<Rightarrow> bool" where
  "is_store_slug s \<longleftrightarrow> s \<noteq> [] \<and> length s \<le> 63
     \<and> \<not> starts_with s CHR ''-'' \<and> \<not> ends_with s CHR ''-''
     \<and> list_all (\<lambda>c. is_ascii_lowercase c \<or> is_ascii_digit c \<or> c = CHR ''-'') s
     \<and> \<not> contains_text ''--'' s"

text \<open>The two slug tests of the code base are the same test.\<close>

lemma contains_double_dash:
  "slug_bytes p s \<longleftrightarrow>
     list_all (\<lambda>c. is_ascii_lowercase c \<or> is_ascii_digit c \<or> c = CHR ''-'') s
     \<and> \<not> contains_text ''--'' s \<and> \<not> (p \<and> starts_with s CHR ''-'')"
proof (induction p s rule: slug_bytes.induct)
  case (2 p c cs)
  then show ?case by (cases cs) (auto simp: Let_def)
qed simp

lemma is_store_slug_eq: "is_store_slug s \<longleftrightarrow> is_slug s"
  by (auto simp: is_store_slug_def is_slug_def contains_double_dash)

end
