(* ===== verification/Store_Ledger.thy ===== *)
theory Store_Ledger
  imports Store_Data
begin

text \<open>
  The base every operation of the store stands on (\<open>proofstorm-store/src/lib.rs\<close>): how calls are
  built from statements, the authorization check, the reads by primary key, and the ledger of
  idempotency receipts.

  An operation takes the store to its result and the store after it. A statement or an immediate
  transaction is atomic: it ends in an error and changes nothing, or commits. Between two of them
  another connection may write; \<open>Store_Steps\<close> states what holds then.
\<close>

section \<open>Operations\<close>

type_synonym 'a stx = "('a \<times> store) sresult"
type_synonym 'a sop = "store \<Rightarrow> 'a sresult \<times> store"

definition read_op :: "(store \<Rightarrow> 'a sresult) \<Rightarrow> 'a sop" where
  "read_op f s = (f s, s)"

definition tx_op :: "(store \<Rightarrow> 'a stx) \<Rightarrow> 'a sop" where
  "tx_op f s = (case f s of Inl e \<Rightarrow> (Inl e, s) | Inr (x, s') \<Rightarrow> (Inr x, s'))"

definition return_op :: "'a \<Rightarrow> 'a sop" where
  "return_op x s = (Inr x, s)"

definition fail_op :: "store_error \<Rightarrow> 'a sop" where
  "fail_op e s = (Inl e, s)"

definition bind_op :: "'a sop \<Rightarrow> ('a \<Rightarrow> 'b sop) \<Rightarrow> 'b sop" where
  "bind_op f g s = (case f s of (Inl e, s') \<Rightarrow> (Inl e, s') | (Inr x, s') \<Rightarrow> g x s')"

lemma return_op_apply [simp]: "return_op x s = (Inr x, s)"
  by (simp add: return_op_def)

lemma fail_op_apply [simp]: "fail_op e s = (Inl e, s)"
  by (simp add: fail_op_def)

lemma read_op_Inl: "f s = Inl e \<Longrightarrow> bind_op (read_op f) g s = (Inl e, s)"
  by (simp add: bind_op_def read_op_def)

lemma read_op_Inr: "f s = Inr x \<Longrightarrow> bind_op (read_op f) g s = g x s"
  by (simp add: bind_op_def read_op_def)

lemma tx_op_Inl: "f s = Inl e \<Longrightarrow> bind_op (tx_op f) g s = (Inl e, s)"
  by (simp add: bind_op_def tx_op_def)

lemma tx_op_Inr: "f s = Inr (x, s') \<Longrightarrow> bind_op (tx_op f) g s = g x s'"
  by (simp add: bind_op_def tx_op_def)

lemma bind_read_cases:
  "bind_op (read_op f) g s =
     (case f s of Inl e \<Rightarrow> (Inl e, s) | Inr x \<Rightarrow> g x s)"
  by (simp add: bind_op_def read_op_def split: sum.split)

lemma bind_tx_cases:
  "bind_op (tx_op f) g s =
     (case f s of Inl e \<Rightarrow> (Inl e, s) | Inr (x, s') \<Rightarrow> g x s')"
  by (simp add: bind_op_def tx_op_def split: sum.split prod.split)

lemmas op_cases = bind_read_cases bind_tx_cases

section \<open>Rows\<close>

text \<open>\<open>INSERT\<close> into a table with a primary key, and \<open>INSERT OR IGNORE\<close>.\<close>

definition insert_new :: "'k::linorder \<Rightarrow> 'v \<Rightarrow> ('k, 'v) btree \<Rightarrow> ('k, 'v) btree sresult" where
  "insert_new k v t =
     (if bt_contains_key t k then Inl DatabaseError else Inr (bt_insert k v t))"

definition insert_or_ignore :: "'k::linorder \<Rightarrow> 'v \<Rightarrow> ('k, 'v) btree \<Rightarrow> ('k, 'v) btree" where
  "insert_or_ignore k v t = (if bt_contains_key t k then t else bt_insert k v t)"

lemma insert_new_Inr:
  "insert_new k v t = Inr t' \<longleftrightarrow> bt_get t k = None \<and> t' = bt_insert k v t"
  by (auto simp: insert_new_def bt_contains_key_def)

lemma bt_get_insert_or_ignore:
  "bt_get (insert_or_ignore k v t) l =
     (if l = k then Some (case bt_get t k of None \<Rightarrow> v | Some w \<Rightarrow> w) else bt_get t l)"
  by (auto simp: insert_or_ignore_def bt_contains_key_def bt_get_insert split: option.split)

text \<open>An \<open>UPDATE\<close> of the row with a key.\<close>

definition set_at :: "'k::linorder \<Rightarrow> ('v \<Rightarrow> 'v) \<Rightarrow> ('k, 'v) btree \<Rightarrow> ('k, 'v) btree" where
  "set_at k f t = (case bt_get t k of None \<Rightarrow> t | Some v \<Rightarrow> bt_insert k (f v) t)"

lemma bt_get_set_at:
  "bt_get (set_at k f t) l = (if l = k then map_option f (bt_get t k) else bt_get t l)"
  by (auto simp: set_at_def bt_get_insert split: option.split)

text \<open>An \<open>UPDATE\<close> of the rows a condition selects.\<close>

definition update_where ::
  "('k \<Rightarrow> 'v \<Rightarrow> bool) \<Rightarrow> ('v \<Rightarrow> 'v) \<Rightarrow> ('k, 'v) btree \<Rightarrow> ('k, 'v) btree" where
  "update_where p f t = map (\<lambda>(k, v). (k, if p k v then f v else v)) t"

lemma bt_get_update_where:
  "bt_get (update_where p f t) k = map_option (\<lambda>v. if p k v then f v else v) (bt_get t k)"
  by (induction t) (auto simp: update_where_def bt_get_def)

definition rows :: "('k, 'v) btree \<Rightarrow> 'v list" where
  "rows t = map snd t"

section \<open>Workspaces, principals and grants\<close>

definition put_workspace :: "string \<Rightarrow> string \<Rightarrow> store \<Rightarrow> unit stx" where
  "put_workspace workspace name s =
     Inr ((), s\<lparr>t_workspaces := bt_insert workspace name (t_workspaces s)\<rparr>)"

definition put_principal :: "string \<Rightarrow> store \<Rightarrow> unit stx" where
  "put_principal actor s = Inr ((), s\<lparr>t_principals := List.insert actor (t_principals s)\<rparr>)"

text \<open>The references of a row: its workspace and principal exist.\<close>

definition has_workspace :: "store \<Rightarrow> string \<Rightarrow> bool" where
  "has_workspace s workspace = bt_contains_key (t_workspaces s) workspace"

definition has_principal :: "store \<Rightarrow> string \<Rightarrow> bool" where
  "has_principal s actor \<longleftrightarrow> actor \<in> set (t_principals s)"

definition grant_capability :: "string \<Rightarrow> string \<Rightarrow> capability \<Rightarrow> store \<Rightarrow> unit stx" where
  "grant_capability workspace actor cap s =
     (if \<not> (has_workspace s workspace \<and> has_principal s actor) then Inl DatabaseError
      else Inr ((), s\<lparr>t_grants := List.insert (workspace, actor, cap) (t_grants s)\<rparr>))"

definition revoke_capability :: "string \<Rightarrow> string \<Rightarrow> capability \<Rightarrow> store \<Rightarrow> unit stx" where
  "revoke_capability workspace actor cap s =
     Inr ((), s\<lparr>t_grants := filter (\<lambda>g. g \<noteq> (workspace, actor, cap)) (t_grants s)\<rparr>)"

fun grant_loop :: "string \<Rightarrow> string \<Rightarrow> capability list \<Rightarrow> store \<Rightarrow> store sresult" where
  "grant_loop workspace actor [] s = Inr s"
| "grant_loop workspace actor (cap # caps) s =
     and_then (grant_capability workspace actor cap s)
       (\<lambda>(_, s'). grant_loop workspace actor caps s')"

definition replace_grants :: "string \<Rightarrow> string \<Rightarrow> capability list \<Rightarrow> store \<Rightarrow> unit stx" where
  "replace_grants workspace actor caps s =
     and_then (grant_loop workspace actor caps
         (s\<lparr>t_grants := filter (\<lambda>(w, p, c). \<not> (w = workspace \<and> p = actor)) (t_grants s)\<rparr>))
       (\<lambda>s'. Inr ((), s'))"

definition capabilities :: "store \<Rightarrow> string \<Rightarrow> string \<Rightarrow> capability list" where
  "capabilities s workspace actor =
     map (\<lambda>(w, p, c). c) (filter (\<lambda>(w, p, c). w = workspace \<and> p = actor) (t_grants s))"

definition authorize :: "string \<Rightarrow> string \<Rightarrow> capability \<Rightarrow> store \<Rightarrow> unit sresult" where
  "authorize workspace actor cap s =
     (if cap \<in> set (capabilities s workspace actor) then Inr ()
      else Inl (AccessDenied workspace actor cap))"

definition granted :: "store \<Rightarrow> string \<Rightarrow> string \<Rightarrow> capability \<Rightarrow> bool" where
  "granted s workspace actor cap \<longleftrightarrow> (workspace, actor, cap) \<in> set (t_grants s)"

lemma authorize_granted:
  "authorize workspace actor cap s =
     (if granted s workspace actor cap then Inr () else Inl (AccessDenied workspace actor cap))"
  by (force simp: authorize_def granted_def capabilities_def)

definition read_workspace :: "string \<Rightarrow> string \<Rightarrow> store \<Rightarrow> (string \<times> string) sresult" where
  "read_workspace workspace actor s =
     and_then (authorize workspace actor CellRead s) (\<lambda>_.
       case bt_get (t_workspaces s) workspace of
         None \<Rightarrow> Inl (NotFound ''workspace'' workspace)
       | Some name \<Rightarrow> Inr (workspace, name))"

section \<open>Reads by primary key\<close>

text \<open>A version past the range of an \<open>i64\<close> is a real number in SQLite, and does not read back.\<close>

definition read_draft_unchecked :: "string \<Rightarrow> string \<Rightarrow> store \<Rightarrow> draft sresult" where
  "read_draft_unchecked workspace i s =
     (case bt_get (t_drafts s) (workspace, i) of
        None \<Rightarrow> Inl (NotFound ''draft'' i)
      | Some row \<Rightarrow>
          if dw_version row > I64_MAX then Inl DatabaseError
          else and_then (stored_u64 (dw_version row)) (\<lambda>version.
            Inr \<lparr>dr_id = i, dr_workspace = workspace, dr_version = version, dr_cell = dw_cell row\<rparr>))"

definition revision_unchecked :: "string \<Rightarrow> string \<Rightarrow> store \<Rightarrow> published_revision sresult" where
  "revision_unchecked workspace digest s =
     (case bt_get (t_revisions s) digest of
        None \<Rightarrow> Inl (NotFound ''revision'' digest)
      | Some row \<Rightarrow>
          if rv_workspace (rw_revision row) = workspace then Inr (rw_revision row)
          else Inl (NotFound ''revision'' digest))"

text \<open>\<open>generation_column\<close> and the state an instance has before its first update.\<close>

definition generation_column :: "int \<Rightarrow> int sresult" where
  "generation_column v = (if v < 0 then Inl DatabaseError else Inr v)"

definition initial_update_state :: update_state where
  "initial_update_state =
     \<lparr>us_generation = 1, us_applied = 1, us_converged = None, us_closing = False\<rparr>"

definition state_of :: "string \<Rightarrow> string \<Rightarrow> store \<Rightarrow> update_state sresult" where
  "state_of workspace i s =
     (case bt_get (t_update_state s) (workspace, i) of
        None \<Rightarrow> Inr initial_update_state
      | Some u \<Rightarrow>
          and_then (generation_column (us_generation u)) (\<lambda>_.
          and_then (generation_column (us_applied u)) (\<lambda>_. Inr u)))"

definition with_generation :: "int \<Rightarrow> instance_row \<Rightarrow> cell_instance" where
  "with_generation g r =
     \<lparr>in_workspace = in_workspace r, in_id = in_id r, in_revision = in_revision r,
      in_lock = in_lock r, in_key = in_key r, in_resource = in_resource r, in_generation = g\<rparr>"

definition generation_of :: "string \<Rightarrow> string \<Rightarrow> store \<Rightarrow> int" where
  "generation_of workspace i s =
     (case bt_get (t_update_state s) (workspace, i) of None \<Rightarrow> 1 | Some u \<Rightarrow> us_generation u)"

definition instance_unchecked :: "string \<Rightarrow> string \<Rightarrow> store \<Rightarrow> cell_instance sresult" where
  "instance_unchecked workspace i s =
     (case bt_get (t_instances s) (workspace, i) of
        None \<Rightarrow> Inl (NotFound ''instance'' i)
      | Some row \<Rightarrow>
          and_then (generation_column (generation_of workspace i s)) (\<lambda>g.
            Inr (with_generation g row)))"

definition experiment_unchecked :: "string \<Rightarrow> string \<Rightarrow> store \<Rightarrow> experiment_row sresult" where
  "experiment_unchecked workspace i s =
     (case bt_get (t_experiments s) (workspace, i) of
        None \<Rightarrow> Inl (NotFound ''experiment'' i)
      | Some e \<Rightarrow> Inr e)"

definition session_unchecked :: "string \<Rightarrow> string \<Rightarrow> store \<Rightarrow> session sresult" where
  "session_unchecked workspace i s =
     (case bt_get (t_sessions s) (workspace, i) of
        None \<Rightarrow> Inl (NotFound ''session'' i)
      | Some x \<Rightarrow> Inr x)"

definition with_revision :: "string \<Rightarrow> action_row \<Rightarrow> cell_operation" where
  "with_revision digest a =
     \<lparr>ac_workspace = ac_workspace a, ac_id = ac_id a, ac_instance = ac_instance a,
      ac_experiment = ac_experiment a, ac_session = ac_session a, ac_principal = ac_principal a,
      ac_sequence = ac_sequence a, ac_kind = ac_kind a, ac_capability = ac_capability a,
      ac_resource = ac_resource a, ac_request_digest = ac_request_digest a,
      ac_request = ac_request a, ac_phase = ac_phase a, ac_artifact = ac_artifact a,
      ac_accepted = ac_accepted a, ac_started = ac_started a, ac_completed = ac_completed a,
      ac_revision = digest\<rparr>"

definition operation_from :: "string \<Rightarrow> string \<Rightarrow> store \<Rightarrow> cell_operation sresult" where
  "operation_from workspace i s =
     (case bt_get (t_actions s) (workspace, i) of
        None \<Rightarrow> Inl (NotFound ''operation'' i)
      | Some a \<Rightarrow>
          (case bt_get (t_operation_revisions s) (workspace, i) of
             None \<Rightarrow> Inl DatabaseError
           | Some digest \<Rightarrow>
               if ac_sequence a < 0 then Inl (InvalidStoredVersion (ac_sequence a))
               else Inr (with_revision digest a)))"

definition handle_of :: "string \<Rightarrow> string \<Rightarrow> store \<Rightarrow> cell_handle option" where
  "handle_of workspace name s = bt_get (t_handles s) (workspace, name)"

section \<open>Idempotency receipts\<close>

definition idempotent_response ::
  "codec \<Rightarrow> (receipt_body \<Rightarrow> 'a option) \<Rightarrow> string \<Rightarrow> string \<Rightarrow> string \<Rightarrow> string \<Rightarrow> json \<Rightarrow> store \<Rightarrow>
   'a option sresult" where
  "idempotent_response c parse workspace actor key operation request s =
     (case bt_get (t_idempotency s) (workspace, actor, key) of
        None \<Rightarrow> Inr None
      | Some r \<Rightarrow>
          if rc_operation r \<noteq> operation \<or> rc_hash r \<noteq> digest_json c request
          then Inl (IdempotencyConflict key)
          else (case parse (rc_response r) of
                  None \<Rightarrow> Inl SerializationError
                | Some x \<Rightarrow> Inr (Some x)))"

definition record_idempotency ::
  "codec \<Rightarrow> string \<Rightarrow> string \<Rightarrow> string \<Rightarrow> string \<Rightarrow> json \<Rightarrow> receipt_body \<Rightarrow> store \<Rightarrow> unit stx" where
  "record_idempotency c workspace actor key operation request body s =
     and_then
       (insert_new (workspace, actor, key)
          \<lparr>rc_operation = operation, rc_hash = digest_json c request, rc_response = body\<rparr>
          (t_idempotency s))
       (\<lambda>t. Inr ((), s\<lparr>t_idempotency := t\<rparr>))"

fun draft_body :: "receipt_body \<Rightarrow> draft option" where
  "draft_body (DraftBody d) = Some d"
| "draft_body _ = None"

fun revision_body :: "receipt_body \<Rightarrow> published_revision option" where
  "revision_body (RevisionBody r) = Some r"
| "revision_body _ = None"

fun instance_body :: "receipt_body \<Rightarrow> cell_instance option" where
  "instance_body (InstanceBody i) = Some i"
| "instance_body _ = None"

fun experiment_body :: "receipt_body \<Rightarrow> experiment_row option" where
  "experiment_body (ExperimentBody e) = Some e"
| "experiment_body _ = None"

fun session_body :: "receipt_body \<Rightarrow> session option" where
  "session_body (SessionBody x) = Some x"
| "session_body _ = None"

fun operation_body :: "receipt_body \<Rightarrow> cell_operation option" where
  "operation_body (OperationBody x) = Some x"
| "operation_body _ = None"

fun grant_body :: "receipt_body \<Rightarrow> private_grant option" where
  "grant_body (GrantBody g) = Some g"
| "grant_body _ = None"

fun plan_body :: "receipt_body \<Rightarrow> update_plan option" where
  "plan_body (PlanBody p) = Some p"
| "plan_body _ = None"

lemma record_idempotency_Inr:
  "record_idempotency c workspace actor key operation request body s = Inr (x, s') \<longleftrightarrow>
     bt_get (t_idempotency s) (workspace, actor, key) = None
     \<and> s' = s\<lparr>t_idempotency := bt_insert (workspace, actor, key)
           \<lparr>rc_operation = operation, rc_hash = digest_json c request, rc_response = body\<rparr>
           (t_idempotency s)\<rparr>"
  by (auto simp: record_idempotency_def and_then_Inr_iff insert_new_Inr)

text \<open>What is recorded is what a retry reads, and a key is recorded once.\<close>

lemma receipt_roundtrip:
  assumes "record_idempotency c workspace actor key operation request body s = Inr (x, s')"
    and "parse body = Some y"
  shows "idempotent_response c parse workspace actor key operation request s' = Inr (Some y)"
  using assms by (auto simp: record_idempotency_Inr idempotent_response_def bt_get_insert)

end
