(* ===== verification/Store_Cells.thy ===== *)
theory Store_Cells
  imports Store_Ledger
begin

text \<open>
  Cells: the names principals give them (\<open>proofstorm-store/src/cells.rs\<close>), the instances
  \<open>materialize\<close> creates from a published revision (\<open>lib.rs\<close>), and the runtime an incarnation is
  bound to (\<open>lifecycle.rs\<close>). Random bytes are the argument \<open>nonce\<close>; the support policy of the
  release catalog is the argument \<open>versions_ok\<close>.
\<close>

section \<open>Names\<close>

definition handle_with_phase :: "cell_handle_phase \<Rightarrow> cell_handle \<Rightarrow> cell_handle" where
  "handle_with_phase phase h = h\<lparr>ch_phase := phase\<rparr>"

text \<open>The transaction of \<open>reserve_cell\<close>.\<close>

definition reserved_instance_id :: "codec \<Rightarrow> string \<Rightarrow> string \<Rightarrow> string \<Rightarrow> u32 \<Rightarrow> string" where
  "reserved_instance_id c nonce workspace name generation =
     ''cell-'' @ slice 7 31 (digest_json c
        (JArray [JString workspace, JString name, JNumber (uint generation), JString nonce]))"

definition next_handle_generation :: "cell_handle option \<Rightarrow> u32 sresult" where
  "next_handle_generation existing =
     (case existing of
        None \<Rightarrow> Inr 1
      | Some h \<Rightarrow> (case checked_add (ch_generation h) 1 of
                     None \<Rightarrow> Inl ValidationError
                   | Some g \<Rightarrow> Inr g))"

definition reserve_tx ::
  "codec \<Rightarrow> string \<Rightarrow> string \<Rightarrow> string \<Rightarrow> string \<Rightarrow> string \<Rightarrow> store \<Rightarrow> cell_handle stx" where
  "reserve_tx c nonce workspace actor name config_digest s =
     (let existing = handle_of workspace name s;
          fresh = and_then (next_handle_generation existing) (\<lambda>generation.
            let h = \<lparr>ch_name = name, ch_generation = generation, ch_owner = actor,
                     ch_config_digest = config_digest, ch_phase = HandleOpen,
                     ch_instance = reserved_instance_id c nonce workspace name generation\<rparr>
            in if \<not> has_workspace s workspace then Inl DatabaseError
               else Inr (h, s\<lparr>t_handles := bt_insert (workspace, name) h (t_handles s)\<rparr>))
      in case existing of
           None \<Rightarrow> fresh
         | Some h \<Rightarrow>
             if ch_owner h \<noteq> actor \<and> ch_phase h = HandleClosed then Inl ValidationError
             else if ch_phase h \<noteq> HandleClosed
             then (if ch_config_digest h \<noteq> config_digest then Inl ValidationError else Inr (h, s))
             else fresh)"

definition reserve_cell ::
  "codec \<Rightarrow> string \<Rightarrow> string \<Rightarrow> string \<Rightarrow> string \<Rightarrow> string \<Rightarrow> cell_handle sop" where
  "reserve_cell c nonce workspace actor name config_digest =
     bind_op (read_op (authorize workspace actor CellCreate)) (\<lambda>_.
     if \<not> is_store_slug name then fail_op ValidationError
     else tx_op (reserve_tx c nonce workspace actor name config_digest))"

definition update_state_op :: "string \<Rightarrow> string \<Rightarrow> string \<Rightarrow> update_state sop" where
  "update_state_op workspace actor i =
     bind_op (read_op (authorize workspace actor CellStatus)) (\<lambda>_. read_op (state_of workspace i))"

definition cell_handle_op :: "string \<Rightarrow> string \<Rightarrow> string \<Rightarrow> cell_handle sop" where
  "cell_handle_op workspace actor name =
     bind_op (read_op (authorize workspace actor CellStatus)) (\<lambda>_.
     bind_op (read_op (\<lambda>s. case handle_of workspace name s of
                None \<Rightarrow> Inl (NotFound ''cell'' name) | Some h \<Rightarrow> Inr h)) (\<lambda>h.
     if ch_phase h = HandleClosed then return_op h
     else bind_op (update_state_op workspace actor (ch_instance h)) (\<lambda>u.
            return_op (if us_closing u then handle_with_phase HandleClosing h else h))))"

text \<open>The transaction of \<open>set_cell_phase\<close>, a shutdown latch.\<close>

definition set_phase_tx ::
  "string \<Rightarrow> string \<Rightarrow> string \<Rightarrow> u32 \<Rightarrow> cell_handle_phase \<Rightarrow> store \<Rightarrow> unit stx" where
  "set_phase_tx workspace actor name generation phase s =
     (case handle_of workspace name s of
        None \<Rightarrow> Inl (NotFound ''cell'' name)
      | Some current \<Rightarrow>
          if ch_owner current \<noteq> actor \<or> ch_generation current \<noteq> generation
          then Inl ValidationError
          else if ch_phase current \<noteq> HandleClosed
          then Inr ((), s\<lparr>t_handles :=
                 bt_insert (workspace, name) (handle_with_phase phase current) (t_handles s)\<rparr>)
          else Inr ((), s))"

definition set_cell_phase ::
  "string \<Rightarrow> string \<Rightarrow> cell_handle \<Rightarrow> cell_handle_phase \<Rightarrow> unit sop" where
  "set_cell_phase workspace actor h phase =
     bind_op (read_op (authorize workspace actor CellClose)) (\<lambda>_.
     if phase = HandleOpen then fail_op ValidationError
     else tx_op (set_phase_tx workspace actor (ch_name h) (ch_generation h) phase))"

section \<open>References\<close>

definition resolve_cell_reference ::
  "string \<Rightarrow> string \<Rightarrow> string \<Rightarrow> capability \<Rightarrow> string sop" where
  "resolve_cell_reference workspace actor reference cap =
     bind_op (read_op (authorize workspace actor cap)) (\<lambda>_.
     read_op (\<lambda>s.
       let exact = bt_contains_key (t_instances s) (workspace, reference)
       in case handle_of workspace reference s of
            Some h \<Rightarrow>
              if exact \<and> ch_instance h \<noteq> reference
              then Inl (CellUpdateError ''cell_reference_ambiguous'')
              else Inr (ch_instance h)
          | None \<Rightarrow> if exact then Inr reference else Inl (NotFound ''cell'' reference)))"

text \<open>\<open>SELECT name FROM cell_handles WHERE instance_id = ..\<close>: the first, by name.\<close>

definition alias_of :: "string \<Rightarrow> string \<Rightarrow> store \<Rightarrow> string option" where
  "alias_of workspace i s =
     (case filter (\<lambda>((w, name), h). w = workspace \<and> ch_instance h = i) (t_handles s) of
        [] \<Rightarrow> None
      | ((w, name), h) # _ \<Rightarrow> Some name)"

definition optional_instance :: "string \<Rightarrow> string \<Rightarrow> store \<Rightarrow> cell_instance option sresult" where
  "optional_instance workspace i s =
     (case instance_unchecked workspace i s of
        Inr x \<Rightarrow> Inr (Some x)
      | Inl (NotFound _ _) \<Rightarrow> Inr None
      | Inl e \<Rightarrow> Inl e)"

definition unnamed_handle :: "codec \<Rightarrow> string \<Rightarrow> string \<Rightarrow> cell_instance \<Rightarrow> cell_handle sop" where
  "unnamed_handle c workspace actor i =
     bind_op (read_op (revision_unchecked workspace (in_revision i))) (\<lambda>r.
     bind_op (update_state_op workspace actor (in_id i)) (\<lambda>u.
       return_op
         \<lparr>ch_name = in_id i, ch_generation = 1, ch_owner = [],
          ch_config_digest = digest_json c (cell_json c (rv_cell r)),
          ch_phase = (if us_closing u then HandleClosing else HandleOpen),
          ch_instance = in_id i\<rparr>))"

definition resolve_cell :: "codec \<Rightarrow> string \<Rightarrow> string \<Rightarrow> string \<Rightarrow> cell_handle sop" where
  "resolve_cell c workspace actor reference =
     bind_op (read_op (authorize workspace actor CellStatus)) (\<lambda>_.
     bind_op (read_op (\<lambda>s. Inr (handle_of workspace reference s))) (\<lambda>named.
     bind_op (read_op (optional_instance workspace reference)) (\<lambda>exact.
     case named of
       Some h \<Rightarrow>
         if (case exact of None \<Rightarrow> False | Some i \<Rightarrow> in_id i \<noteq> ch_instance h)
         then fail_op (CellUpdateError ''cell_reference_ambiguous'')
         else cell_handle_op workspace actor (ch_name h)
     | None \<Rightarrow>
         (case exact of
            None \<Rightarrow> fail_op (NotFound ''cell'' reference)
          | Some i \<Rightarrow>
              bind_op (read_op (\<lambda>s. Inr (alias_of workspace (in_id i) s))) (\<lambda>other.
              case other of
                Some name \<Rightarrow> cell_handle_op workspace actor name
              | None \<Rightarrow> unnamed_handle c workspace actor i)))))"

section \<open>Instances\<close>

definition stale_incarnation :: store_error where
  "stale_incarnation = CellUpdateError ''stale_incarnation''"

definition require_incarnation :: "cell_instance \<Rightarrow> store \<Rightarrow> unit sresult" where
  "require_incarnation i s =
     (case bt_get (t_instances s) (in_workspace i, in_id i) of
        Some row \<Rightarrow> if in_key row = in_key i then Inr () else Inl stale_incarnation
      | None \<Rightarrow> Inl stale_incarnation)"

definition record_plan_use :: "cell_instance \<Rightarrow> string option \<Rightarrow> store \<Rightarrow> unit stx" where
  "record_plan_use i plan s =
     and_then (require_incarnation i s) (\<lambda>_.
     and_then (case plan of
                 Some p \<Rightarrow> Inr p
               | None \<Rightarrow> (case bt_get (t_revisions s) (in_revision i) of
                            None \<Rightarrow> Inl DatabaseError
                          | Some row \<Rightarrow> Inr (rw_draft row))) (\<lambda>p.
     Inr ((), s\<lparr>t_plan_uses :=
       insert_or_ignore (in_workspace i, in_key i, p) (in_id i) (t_plan_uses s)\<rparr>)))"

definition instance_unique :: "instance_row \<Rightarrow> store \<Rightarrow> bool" where
  "instance_unique r s \<longleftrightarrow>
     \<not> bt_contains_key (t_instances s) (in_workspace r, in_id r)
     \<and> list_all (\<lambda>q. in_key q \<noteq> in_key r \<and> in_resource q \<noteq> in_resource r) (rows (t_instances s))"

definition insert_instance :: "instance_row \<Rightarrow> store \<Rightarrow> bool stx" where
  "insert_instance r s =
     (if \<not> instance_unique r s then Inr (False, s)
      else if \<not> (has_workspace s (in_workspace r)
                 \<and> bt_contains_key (t_revisions s) (in_revision r))
      then Inl DatabaseError
      else Inr (True, s\<lparr>t_instances := bt_insert (in_workspace r, in_id r) r (t_instances s)\<rparr>))"

definition has_plan :: "string \<Rightarrow> string \<Rightarrow> store \<Rightarrow> bool" where
  "has_plan workspace digest s =
     (case bt_get (t_revisions s) digest of
        None \<Rightarrow> False
      | Some row \<Rightarrow> rv_workspace (rw_revision row) = workspace
          \<and> bt_contains_key (t_drafts s) (workspace, rw_draft row))"

fun lock_versions :: "lock_entry list \<Rightarrow> component_spec list \<Rightarrow> component_spec list option" where
  "lock_versions entries [] = Some []"
| "lock_versions entries (component # cs) =
     (case find (\<lambda>e. le_component e = c_id component) entries of
        None \<Rightarrow> None
      | Some e \<Rightarrow>
          map_option (Cons (component\<lparr>c_version := Some (le_version e)\<rparr>)) (lock_versions entries cs))"

definition new_instance_row ::
  "codec \<Rightarrow> string \<Rightarrow> string \<Rightarrow> string \<Rightarrow> published_revision \<Rightarrow> string \<Rightarrow> instance_row" where
  "new_instance_row c nonce workspace i r digest =
     (let key = ''i'' @ slice 7 26 (digest_json c
                  (JArray [JString workspace, JString i, JString nonce]))
      in \<lparr>in_workspace = workspace, in_id = i, in_revision = digest,
          in_lock = lk_digest (rv_lock r), in_key = key, in_resource = ''cell-'' @ key\<rparr>)"

definition materialize_request :: "string \<Rightarrow> string \<Rightarrow> json" where
  "materialize_request i digest =
     JObject [(''instanceId'', JString i), (''revisionDigest'', JString digest)]"

definition materialize_new ::
  "codec \<Rightarrow> (cell_spec \<Rightarrow> bool) \<Rightarrow> string \<Rightarrow> string \<Rightarrow> string \<Rightarrow> string \<Rightarrow> string \<Rightarrow> string \<Rightarrow>
   cell_instance sop" where
  "materialize_new c versions_ok nonce workspace actor i digest key =
     bind_op (read_op (revision_unchecked workspace digest)) (\<lambda>r.
     bind_op (read_op (\<lambda>s. Inr (has_plan workspace digest s))) (\<lambda>planned.
     if \<not> planned then fail_op (NotFound ''creation plan; create a fresh plan'' digest)
     else case lock_versions (lk_entries (rv_lock r)) (components (rv_cell r)) of
       None \<Rightarrow> fail_op CatalogError
     | Some locked \<Rightarrow>
         if \<not> versions_ok ((rv_cell r)\<lparr>components := locked\<rparr>) then fail_op CatalogError
         else
           let row = new_instance_row c nonce workspace i r digest;
               made = with_generation 1 row
           in bind_op (tx_op (insert_instance row)) (\<lambda>inserted.
              bind_op (if inserted then return_op ()
                       else bind_op (read_op (instance_unchecked workspace i)) (\<lambda>existing.
                              if existing \<noteq> made then fail_op (ConflictError ''instance'' i)
                              else return_op ())) (\<lambda>_.
              bind_op (tx_op (record_plan_use made None)) (\<lambda>_.
              bind_op (tx_op (record_idempotency c workspace actor key ''cell.materialize''
                (materialize_request i digest) (InstanceBody made))) (\<lambda>_.
              return_op made))))))"

definition materialize ::
  "codec \<Rightarrow> (cell_spec \<Rightarrow> bool) \<Rightarrow> string \<Rightarrow> string \<Rightarrow> string \<Rightarrow> string \<Rightarrow> string \<Rightarrow> string \<Rightarrow>
   cell_instance sop" where
  "materialize c versions_ok nonce workspace actor i digest key =
     bind_op (read_op (authorize workspace actor CellMaterialize)) (\<lambda>_.
     if \<not> is_store_slug i then fail_op ValidationError
     else
     bind_op (read_op (state_of workspace i)) (\<lambda>u.
     if us_closing u then fail_op (CellUpdateError ''cell_closing'')
     else
     bind_op (read_op (idempotent_response c instance_body workspace actor key ''cell.materialize''
                (materialize_request i digest))) (\<lambda>previous.
     case previous of
       Some _ \<Rightarrow> read_op (instance_unchecked workspace i)
     | None \<Rightarrow>
         bind_op (read_op (\<lambda>s. Inr (instance_unchecked workspace i s))) (\<lambda>found.
         case found of
           Inr existing \<Rightarrow>
             if in_revision existing \<noteq> digest then fail_op (ConflictError ''instance'' i)
             else return_op existing
         | Inl _ \<Rightarrow> materialize_new c versions_ok nonce workspace actor i digest key))))"

definition read_instance :: "string \<Rightarrow> string \<Rightarrow> string \<Rightarrow> cell_instance sop" where
  "read_instance workspace actor i =
     bind_op (read_op (authorize workspace actor CellStatus)) (\<lambda>_.
       read_op (instance_unchecked workspace i))"

definition instance_for_close :: "string \<Rightarrow> string \<Rightarrow> string \<Rightarrow> cell_instance sop" where
  "instance_for_close workspace actor i =
     bind_op (read_op (authorize workspace actor CellClose)) (\<lambda>_.
       read_op (instance_unchecked workspace i))"

section \<open>Runtimes\<close>

definition runtime_binding_of :: "cell_instance \<Rightarrow> store \<Rightarrow> runtime_binding option" where
  "runtime_binding_of i s =
     (case bt_get (t_runtime_bindings s) (in_workspace i, in_id i) of
        Some (key, b) \<Rightarrow> if key = in_key i then Some b else None
      | None \<Rightarrow> None)"

text \<open>The upsert of \<open>bind_runtime\<close>: a bound runtime only gains a resource it did not have.\<close>

definition upsert_binding ::
  "string \<Rightarrow> runtime_binding \<Rightarrow> (string \<times> runtime_binding) option \<Rightarrow> string \<times> runtime_binding" where
  "upsert_binding key b existing =
     (case existing of
        None \<Rightarrow> (key, b)
      | Some (k, old) \<Rightarrow>
          if k = key \<and> rb_source old = rb_source b \<and> rb_cluster old = rb_cluster b
             \<and> (rb_resource old = None
                \<or> (rb_resource b \<noteq> None \<and> rb_resource old = rb_resource b))
          then (k, old\<lparr>rb_resource :=
                  (case rb_resource b of None \<Rightarrow> rb_resource old | Some uid \<Rightarrow> Some uid)\<rparr>)
          else (k, old))"

definition bind_runtime :: "cell_instance \<Rightarrow> runtime_binding \<Rightarrow> store \<Rightarrow> unit stx" where
  "bind_runtime i b s =
     and_then (require_incarnation i s) (\<lambda>_.
       let row = upsert_binding (in_key i) b
                   (bt_get (t_runtime_bindings s) (in_workspace i, in_id i));
           actual = snd row
       in if rb_source actual \<noteq> rb_source b \<or> rb_cluster actual \<noteq> rb_cluster b
             \<or> (rb_resource b \<noteq> None \<and> rb_resource actual \<noteq> rb_resource b)
          then Inl stale_incarnation
          else Inr ((), s\<lparr>t_runtime_bindings :=
                 bt_insert (in_workspace i, in_id i) row (t_runtime_bindings s)\<rparr>))"

end
