(* ===== verification/Store_Runs.thy ===== *)
theory Store_Runs
  imports Store_Ledger
begin

text \<open>
  Runs and sessions (\<open>proofstorm-store/src/runs.rs\<close>, \<open>sessions.rs\<close>, and the experiment operations
  of \<open>lib.rs\<close>). A run groups the operations of one cell; closing it seals the configuration it
  ran on. A session attributes activity and gates nothing.

  \<open>now\<close> is the reading of the clock, \<open>context\<close> the \<open>context_id\<close> of the process.
\<close>

section \<open>Implicit runs\<close>

definition run_id_of :: "codec \<Rightarrow> string \<Rightarrow> string \<Rightarrow> string \<Rightarrow> int \<Rightarrow> string" where
  "run_id_of c workspace key actor ordinal =
     ''run-'' @ slice 7 39 (digest_json c
        (JArray [JString workspace, JString key, JString actor, JNumber ordinal]))"

definition run_is_active :: "string \<Rightarrow> string \<Rightarrow> store \<Rightarrow> bool" where
  "run_is_active workspace i s =
     (case bt_get (t_experiments s) (workspace, i) of
        None \<Rightarrow> False | Some e \<Rightarrow> ex_phase e = RunActive)"

definition next_run ::
  "codec \<Rightarrow> string \<Rightarrow> string \<Rightarrow> string \<Rightarrow> store \<Rightarrow> (int \<times> string) sresult" where
  "next_run c workspace key actor s =
     (case bt_get (t_automatic_runs s) (workspace, key, actor) of
        None \<Rightarrow> Inr (0, run_id_of c workspace key actor 0)
      | Some (ordinal, i) \<Rightarrow>
          if run_is_active workspace i s then Inr (ordinal, i)
          else if ordinal + 1 > I64_MAX then Inl ValidationError
          else Inr (ordinal + 1, run_id_of c workspace key actor (ordinal + 1)))"

definition implicit_run_id :: "codec \<Rightarrow> string \<Rightarrow> string \<Rightarrow> string \<Rightarrow> string sop" where
  "implicit_run_id c workspace actor i =
     bind_op (read_op (instance_unchecked workspace i)) (\<lambda>x.
     bind_op (read_op (next_run c workspace (in_key x) actor)) (\<lambda>(_, run). return_op run))"

definition default_run_id :: "codec \<Rightarrow> string \<Rightarrow> string \<Rightarrow> string \<Rightarrow> string sop" where
  "default_run_id c workspace actor i =
     bind_op (read_op (authorize workspace actor ExperimentRead)) (\<lambda>_.
       implicit_run_id c workspace actor i)"

definition operation_run_id ::
  "codec \<Rightarrow> string \<Rightarrow> string \<Rightarrow> string \<Rightarrow> string \<Rightarrow> capability \<Rightarrow> string sop" where
  "operation_run_id c workspace actor i requested cap =
     bind_op (read_op (authorize workspace actor cap)) (\<lambda>_.
       if requested = [] then implicit_run_id c workspace actor i else return_op requested)"

text \<open>A cell closes by its name's phase or by the mark on its instance.\<close>

definition handle_not_open :: "string \<Rightarrow> string \<Rightarrow> store \<Rightarrow> bool" where
  "handle_not_open workspace i s \<longleftrightarrow>
     list_ex (\<lambda>((w, _), h). w = workspace \<and> ch_instance h = i \<and> ch_phase h \<noteq> HandleOpen)
       (t_handles s)"

definition marked_closing :: "string \<Rightarrow> string \<Rightarrow> store \<Rightarrow> bool" where
  "marked_closing workspace i s =
     (case bt_get (t_update_state s) (workspace, i) of None \<Rightarrow> False | Some u \<Rightarrow> us_closing u)"

definition insert_experiment ::
  "string \<Rightarrow> string \<Rightarrow> string \<Rightarrow> string \<Rightarrow> int \<Rightarrow> store \<Rightarrow> bool stx" where
  "insert_experiment workspace i inst owner now s =
     (if bt_contains_key (t_experiments s) (workspace, i) then Inr (False, s)
      else if \<not> (has_workspace s workspace \<and> has_principal s owner
                 \<and> bt_contains_key (t_instances s) (workspace, inst))
      then Inl DatabaseError
      else Inr (True, s\<lparr>t_experiments := bt_insert (workspace, i)
             \<lparr>ex_id = i, ex_workspace = workspace, ex_instance = inst, ex_owner = owner,
              ex_phase = RunActive, ex_created = now, ex_closed = None\<rparr> (t_experiments s)\<rparr>))"

text \<open>The transaction of \<open>ensure_implicit_run\<close>.\<close>

definition ensure_run_tx ::
  "codec \<Rightarrow> int \<Rightarrow> string \<Rightarrow> string \<Rightarrow> string \<Rightarrow> string \<Rightarrow> store \<Rightarrow> unit stx" where
  "ensure_run_tx c now workspace actor inst i s =
     (case bt_get (t_instances s) (workspace, inst) of
        None \<Rightarrow> Inl DatabaseError
      | Some row \<Rightarrow>
          and_then (next_run c workspace (in_key row) actor s) (\<lambda>(ordinal, expected).
          if i \<noteq> expected then Inl ValidationError
          else if handle_not_open workspace inst s \<or> marked_closing workspace inst s
          then Inl ValidationError
          else and_then (insert_experiment workspace i inst actor now s) (\<lambda>(_, s').
                 Inr ((), s'\<lparr>t_automatic_runs := bt_insert (workspace, in_key row, actor)
                            (ordinal, i) (t_automatic_runs s')\<rparr>))))"

definition ensure_implicit_run ::
  "codec \<Rightarrow> int \<Rightarrow> string \<Rightarrow> string \<Rightarrow> string \<Rightarrow> string \<Rightarrow> unit sop" where
  "ensure_implicit_run c now workspace actor inst i =
     bind_op (tx_op (ensure_run_tx c now workspace actor inst i)) (\<lambda>_.
     bind_op (read_op (experiment_unchecked workspace i)) (\<lambda>run.
     if ex_instance run \<noteq> inst \<or> ex_owner run \<noteq> actor \<or> ex_phase run \<noteq> RunActive
     then fail_op ValidationError else return_op ()))"

definition ensure_default_run ::
  "codec \<Rightarrow> int \<Rightarrow> string \<Rightarrow> string \<Rightarrow> string \<Rightarrow> capability \<Rightarrow> experiment_row sop" where
  "ensure_default_run c now workspace actor inst cap =
     bind_op (read_op (authorize workspace actor cap)) (\<lambda>_.
     bind_op (implicit_run_id c workspace actor inst) (\<lambda>i.
     bind_op (ensure_implicit_run c now workspace actor inst i) (\<lambda>_.
       read_op (experiment_unchecked workspace i))))"

section \<open>Experiments\<close>

definition create_experiment_request :: "string \<Rightarrow> string \<Rightarrow> json" where
  "create_experiment_request i inst =
     JObject [(''experimentId'', JString i), (''instanceId'', JString inst)]"

definition create_experiment ::
  "codec \<Rightarrow> int \<Rightarrow> string \<Rightarrow> string \<Rightarrow> string \<Rightarrow> string \<Rightarrow> string \<Rightarrow> experiment_row sop" where
  "create_experiment c now workspace actor i inst key =
     bind_op (read_op (authorize workspace actor ExperimentCreate)) (\<lambda>_.
     if \<not> is_store_slug i then fail_op ValidationError
     else
     bind_op (read_op (instance_unchecked workspace inst)) (\<lambda>_.
     bind_op (read_op (idempotent_response c experiment_body workspace actor key
                ''experiment.create'' (create_experiment_request i inst))) (\<lambda>previous.
     case previous of
       Some response \<Rightarrow> return_op response
     | None \<Rightarrow>
         bind_op (tx_op (insert_experiment workspace i inst actor now)) (\<lambda>inserted.
         if \<not> inserted
         then bind_op (read_op (experiment_unchecked workspace i)) (\<lambda>existing.
                if ex_instance existing \<noteq> inst \<or> ex_owner existing \<noteq> actor
                then fail_op (ConflictError ''experiment'' i)
                else bind_op (tx_op (record_idempotency c workspace actor key
                       ''experiment.create'' (create_experiment_request i inst)
                       (ExperimentBody existing))) (\<lambda>_. return_op existing))
         else
           let made = \<lparr>ex_id = i, ex_workspace = workspace, ex_instance = inst,
                       ex_owner = actor, ex_phase = RunActive, ex_created = now,
                       ex_closed = None\<rparr>
           in bind_op (tx_op (record_idempotency c workspace actor key ''experiment.create''
                (create_experiment_request i inst) (ExperimentBody made)))
                (\<lambda>_. return_op made)))))"

definition read_experiment :: "string \<Rightarrow> string \<Rightarrow> string \<Rightarrow> experiment_row sop" where
  "read_experiment workspace actor i =
     bind_op (read_op (authorize workspace actor ExperimentRead)) (\<lambda>_.
       read_op (experiment_unchecked workspace i))"

definition experiment_for_session :: "string \<Rightarrow> string \<Rightarrow> string \<Rightarrow> experiment_row sop" where
  "experiment_for_session workspace actor i =
     bind_op (read_op (authorize workspace actor CellOperate)) (\<lambda>_.
       read_op (experiment_unchecked workspace i))"

definition op_active :: "operation_phase \<Rightarrow> bool" where
  "op_active p \<longleftrightarrow> p = OpPending \<or> p = OpRunning"

definition run_has_active :: "string \<Rightarrow> string \<Rightarrow> store \<Rightarrow> bool" where
  "run_has_active workspace i s \<longleftrightarrow>
     list_ex (\<lambda>((w, _), a). w = workspace \<and> ac_experiment a = i \<and> op_active (ac_phase a))
       (t_actions s)"

definition close_run_row :: "int \<Rightarrow> experiment_row \<Rightarrow> experiment_row" where
  "close_run_row now e =
     e\<lparr>ex_phase := RunClosed,
       ex_closed := (case ex_closed e of None \<Rightarrow> Some now | Some t \<Rightarrow> Some t)\<rparr>"

text \<open>The transaction of \<open>close_experiment\<close>: the seal and the closure are one.\<close>

definition close_run_tx :: "int \<Rightarrow> string \<Rightarrow> string \<Rightarrow> store \<Rightarrow> unit stx" where
  "close_run_tx now workspace i s =
     (if run_has_active workspace i s then Inl ValidationError
      else case bt_get (t_experiments s) (workspace, i) of
        None \<Rightarrow> Inl DatabaseError
      | Some e \<Rightarrow>
          (case bt_get (t_instances s) (workspace, ex_instance e) of
             None \<Rightarrow> Inl DatabaseError
           | Some row \<Rightarrow>
               and_then (generation_column (generation_of workspace (ex_instance e) s)) (\<lambda>g.
               case revision_unchecked workspace (in_revision row) s of
                 Inl _ \<Rightarrow> Inl DatabaseError
               | Inr r \<Rightarrow>
                   Inr ((), s\<lparr>t_run_seals := insert_or_ignore (workspace, i)
                                (with_generation g row, r) (t_run_seals s),
                            t_experiments := bt_insert (workspace, i) (close_run_row now e)
                                (t_experiments s)\<rparr>))))"

definition close_experiment_request :: "string \<Rightarrow> json" where
  "close_experiment_request i = JObject [(''experimentId'', JString i)]"

definition close_experiment ::
  "codec \<Rightarrow> int \<Rightarrow> string \<Rightarrow> string \<Rightarrow> string \<Rightarrow> string \<Rightarrow> experiment_row sop" where
  "close_experiment c now workspace actor i key =
     bind_op (read_op (authorize workspace actor ExperimentClose)) (\<lambda>_.
     bind_op (read_op (idempotent_response c experiment_body workspace actor key
                ''experiment.close'' (close_experiment_request i))) (\<lambda>previous.
     case previous of
       Some response \<Rightarrow> return_op response
     | None \<Rightarrow>
         bind_op (read_op (experiment_unchecked workspace i)) (\<lambda>_.
         bind_op (tx_op (close_run_tx now workspace i)) (\<lambda>_.
         bind_op (read_op (experiment_unchecked workspace i)) (\<lambda>e.
         bind_op (tx_op (record_idempotency c workspace actor key ''experiment.close''
           (close_experiment_request i) (ExperimentBody e))) (\<lambda>_. return_op e))))))"

definition sealed_run_context ::
  "string \<Rightarrow> string \<Rightarrow> string \<Rightarrow> (cell_instance \<times> published_revision) sop" where
  "sealed_run_context workspace actor run =
     bind_op (read_op (authorize workspace actor ArtifactRead)) (\<lambda>_.
     bind_op (read_op (authorize workspace actor ExperimentRead)) (\<lambda>_.
       read_op (\<lambda>s. case bt_get (t_run_seals s) (workspace, run) of
                      None \<Rightarrow> Inl DatabaseError | Some x \<Rightarrow> Inr x)))"

definition run_directory ::
  "string \<Rightarrow> string \<Rightarrow> string option \<Rightarrow> string \<Rightarrow> u32 \<Rightarrow> experiment_row list sop" where
  "run_directory workspace actor inst after limit =
     bind_op (read_op (authorize workspace actor ExperimentRead)) (\<lambda>_.
       read_op (\<lambda>s. Inr (take (unat (min limit 201))
         (map snd (filter (\<lambda>((w, i), e). w = workspace
              \<and> (case inst of None \<Rightarrow> True | Some x \<Rightarrow> ex_instance e = x) \<and> after < i)
            (t_experiments s))))))"

section \<open>Sessions\<close>

definition session_context :: "codec \<Rightarrow> string \<Rightarrow> string \<Rightarrow> string \<Rightarrow> string \<Rightarrow> string" where
  "session_context c workspace actor run context =
     digest_json c (JArray [JString workspace, JString actor, JString run, JString context])"

definition continued_id :: "codec \<Rightarrow> string \<Rightarrow> string \<Rightarrow> nat \<Rightarrow> string" where
  "continued_id c requested ctx generation =
     ''session-'' @ slice 7 39 (digest_json c
        (JArray [JString requested, JString ctx, JNumber (int generation)]))"

text \<open>
  The loop of \<open>track_session\<close>: go on from an interval that is another's or finished. The fuel is
  the number of sessions and one; \<open>Store_Sessions\<close> shows when it is enough.
\<close>

fun track_target ::
  "codec \<Rightarrow> string \<Rightarrow> string \<Rightarrow> string \<Rightarrow> string \<Rightarrow> string \<Rightarrow> store \<Rightarrow> nat \<Rightarrow> nat \<Rightarrow> string \<Rightarrow>
   (session + string) option" where
  "track_target c workspace actor run requested ctx s 0 generation i = None"
| "track_target c workspace actor run requested ctx s (Suc fuel) generation i =
     (case bt_get (t_sessions s) (workspace, i) of
        None \<Rightarrow> Some (Inr i)
      | Some existing \<Rightarrow>
          if se_principal existing = actor \<and> se_experiment existing = run
             \<and> se_finished existing = None
          then Some (Inl existing)
          else track_target c workspace actor run requested ctx s fuel (Suc generation)
                 (continued_id c requested ctx (Suc generation)))"

definition track_tx ::
  "codec \<Rightarrow> int \<Rightarrow> string \<Rightarrow> string \<Rightarrow> experiment_row \<Rightarrow> string \<Rightarrow> string \<Rightarrow> string \<Rightarrow> string \<Rightarrow> store \<Rightarrow>
   session stx" where
  "track_tx c now workspace actor run experiment requested ctx i s =
     (case track_target c workspace actor experiment requested ctx s
             (Suc (length (t_sessions s))) 0 i of
        None \<Rightarrow> Inl PoisonedError
      | Some (Inl existing) \<Rightarrow> Inr (existing, s)
      | Some (Inr j) \<Rightarrow>
          if \<not> (has_workspace s workspace \<and> has_principal s actor
                \<and> bt_contains_key (t_experiments s) (workspace, experiment)
                \<and> bt_contains_key (t_instances s) (workspace, ex_instance run))
          then Inl DatabaseError
          else let x = \<lparr>se_id = j, se_workspace = workspace, se_experiment = experiment,
                        se_instance = ex_instance run, se_principal = actor,
                        se_phase = SessionActive, se_started = now, se_last_activity = now,
                        se_finished = None\<rparr>
               in Inr (x, s\<lparr>t_sessions := bt_insert (workspace, j) x (t_sessions s)\<rparr>))"

definition track_session ::
  "codec \<Rightarrow> int \<Rightarrow> string \<Rightarrow> string \<Rightarrow> string \<Rightarrow> string \<Rightarrow> string \<Rightarrow> session sop" where
  "track_session c now context workspace actor experiment requested =
     bind_op (read_op (experiment_unchecked workspace experiment)) (\<lambda>run.
       let ctx = session_context c workspace actor experiment context;
           i = (if requested = [] then ''session-'' @ slice 7 39 ctx else requested)
       in if \<not> is_store_slug i then fail_op ValidationError
          else tx_op (track_tx c now workspace actor run experiment requested ctx i))"

definition start_session_request :: "string \<Rightarrow> string \<Rightarrow> json" where
  "start_session_request experiment i =
     JObject [(''experimentId'', JString experiment), (''sessionId'', JString i)]"

definition start_session ::
  "codec \<Rightarrow> int \<Rightarrow> string \<Rightarrow> string \<Rightarrow> string \<Rightarrow> string \<Rightarrow> string \<Rightarrow> string \<Rightarrow> session sop" where
  "start_session c now context workspace actor experiment i key =
     bind_op (read_op (authorize workspace actor ExperimentRead)) (\<lambda>_.
     bind_op (read_op (idempotent_response c session_body workspace actor key ''session.start''
                (start_session_request experiment i))) (\<lambda>previous.
     case previous of
       Some x \<Rightarrow> read_op (session_unchecked workspace (se_id x))
     | None \<Rightarrow>
         bind_op (track_session c now context workspace actor experiment i) (\<lambda>x.
         bind_op (tx_op (record_idempotency c workspace actor key ''session.start''
           (start_session_request experiment i) (SessionBody x))) (\<lambda>_. return_op x))))"

definition finish_row :: "int \<Rightarrow> session \<Rightarrow> session" where
  "finish_row now x =
     x\<lparr>se_phase := SessionFinished,
       se_finished := (case se_finished x of None \<Rightarrow> Some now | Some t \<Rightarrow> Some t)\<rparr>"

definition finish_session_stmt :: "int \<Rightarrow> string \<Rightarrow> string \<Rightarrow> store \<Rightarrow> unit stx" where
  "finish_session_stmt now workspace i s =
     Inr ((), s\<lparr>t_sessions := set_at (workspace, i) (finish_row now) (t_sessions s)\<rparr>)"

definition session_for_finish :: "string \<Rightarrow> string \<Rightarrow> string \<Rightarrow> session sop" where
  "session_for_finish workspace actor i =
     bind_op (read_op (authorize workspace actor ExperimentRead)) (\<lambda>_.
     bind_op (read_op (session_unchecked workspace i)) (\<lambda>x.
       if se_principal x \<noteq> actor then fail_op ValidationError else return_op x))"

definition finish_session :: "int \<Rightarrow> string \<Rightarrow> string \<Rightarrow> string \<Rightarrow> session sop" where
  "finish_session now workspace actor i =
     bind_op (session_for_finish workspace actor i) (\<lambda>x.
     bind_op (tx_op (finish_session_stmt now workspace (se_id x))) (\<lambda>_.
       read_op (session_unchecked workspace i)))"

definition finish_cell_stmt :: "int \<Rightarrow> string \<Rightarrow> string \<Rightarrow> store \<Rightarrow> unit stx" where
  "finish_cell_stmt now workspace inst s =
     Inr ((), s\<lparr>t_sessions :=
       update_where (\<lambda>(w, _) x. w = workspace \<and> se_instance x = inst) (finish_row now)
         (t_sessions s)\<rparr>)"

definition finish_cell_sessions :: "int \<Rightarrow> string \<Rightarrow> string \<Rightarrow> string \<Rightarrow> unit sop" where
  "finish_cell_sessions now workspace actor inst =
     bind_op (read_op (authorize workspace actor CellClose)) (\<lambda>_.
       tx_op (finish_cell_stmt now workspace inst))"

record session_page =
  sp_sessions :: "session list"
  sp_next_cursor :: "string option"
  sp_observed :: int

definition page_limit :: "u32 \<Rightarrow> nat" where
  "page_limit limit = unat (max 1 (min limit 100))"

text \<open>The page of rows a cursor and a limit select, of rows ordered by their identifier.\<close>

definition session_window ::
  "int \<Rightarrow> string \<Rightarrow> u32 \<Rightarrow> (session \<Rightarrow> bool) \<Rightarrow> (string \<Rightarrow> bool) \<Rightarrow> string \<Rightarrow> store \<Rightarrow> session_page"
where
  "session_window now workspace limit p q cursor s =
     (let found = filter (\<lambda>((w, i), x). w = workspace \<and> p x \<and> q i \<and> cursor < i) (t_sessions s);
          n = page_limit limit;
          fetched = take (Suc n) found
      in \<lparr>sp_sessions = map snd (take n fetched),
          sp_next_cursor = (if n < length fetched then Some (snd (fst (fetched ! (n - 1)))) else None),
          sp_observed = now\<rparr>)"

definition sessions_page ::
  "int \<Rightarrow> string \<Rightarrow> string \<Rightarrow> string \<Rightarrow> string \<Rightarrow> u32 \<Rightarrow> session_page sop" where
  "sessions_page now workspace actor inst cursor limit =
     bind_op (read_op (authorize workspace actor ExperimentRead)) (\<lambda>_.
       read_op (\<lambda>s. Inr (session_window now workspace limit (\<lambda>x. se_instance x = inst)
                           (\<lambda>_. True) cursor s)))"

definition overlapping_sessions ::
  "int \<Rightarrow> string \<Rightarrow> string \<Rightarrow> string \<Rightarrow> string \<Rightarrow> u32 \<Rightarrow> session_page sop" where
  "overlapping_sessions now workspace actor i cursor limit =
     bind_op (read_op (authorize workspace actor ExperimentRead)) (\<lambda>_.
     bind_op (read_op (session_unchecked workspace i)) (\<lambda>x.
       read_op (\<lambda>s. Inr (session_window now workspace limit
         (\<lambda>y. se_instance y = se_instance x
              \<and> se_started y \<le> the_default now (se_finished x)
              \<and> se_started x \<le> the_default now (se_finished y))
         (\<lambda>j. j \<noteq> i) cursor s))))"

end
