(* ===== verification/Store_Updates.thy ===== *)
theory Store_Updates
  imports Store_Ledger
begin

text \<open>
  Edits of a running cell: the plan two published revisions give (\<open>CellUpdatePlan\<close> of
  \<open>proofstorm-core/src/update.rs\<close>) and its acceptance, application and conflicts with operations
  (\<open>proofstorm-store/src/updates.rs\<close>).
\<close>

section \<open>Plans\<close>

definition json_strings :: "string list \<Rightarrow> json" where
  "json_strings xs = JArray (map JString xs)"

definition plan_json :: "update_plan \<Rightarrow> json" where
  "plan_json p =
     (let t = pl_target p; g = pl_changes p
      in JObject
           [(''instance_key'', JString (pl_instance_key p)),
            (''target'', JObject
               [(''instance_id'', JString (ut_instance t)),
                (''expected_generation'', JNumber (uint (ut_expected_generation t))),
                (''delete_data'', JBool (ut_delete_data t)),
                (''delete_retained'', json_strings (ut_delete_retained t))]),
            (''base_revision'', JString (pl_base_revision p)),
            (''target_revision'', JString (pl_target_revision p)),
            (''target_lock'', JString (pl_target_lock p)),
            (''changes'', JObject
               [(''added'', json_strings (cg_added g)),
                (''unchanged'', json_strings (cg_unchanged g)),
                (''restarted'', json_strings (cg_restarted g)),
                (''removed'', json_strings (cg_removed g)),
                (''deleted_data'', json_strings (cg_deleted_data g)),
                (''connections_changed'', JBool (cg_connections_changed g)),
                (''policy_changed'', JBool (cg_policy_changed g)),
                (''unsupported'', json_strings (cg_unsupported g)),
                (''required_images'', json_strings (cg_required_images g))]),
            (''digest'', JString (pl_digest p))])"

definition seal_plan :: "codec \<Rightarrow> update_plan \<Rightarrow> update_plan" where
  "seal_plan c p = p\<lparr>pl_digest := digest_json c (plan_json (p\<lparr>pl_digest := []\<rparr>))\<rparr>"

definition bind_instance :: "codec \<Rightarrow> string \<Rightarrow> update_plan \<Rightarrow> update_plan" where
  "bind_instance c key p = seal_plan c (p\<lparr>pl_instance_key := key\<rparr>)"

definition locked :: "published_revision \<Rightarrow> string \<Rightarrow> lock_entry option" where
  "locked r i = find (\<lambda>e. le_component e = i) (lk_entries (rv_lock r))"

text \<open>\<open>list.sort(); list.dedup()\<close>.\<close>

definition sort_dedup :: "string list \<Rightarrow> string list" where
  "sort_dedup xs = remdups_adj (sort xs)"

definition unsupported_config_change :: "string \<Rightarrow> string \<Rightarrow> string" where
  "unsupported_config_change i key =
     (if key = ''storage_size''
      then i @ '': live storage resizing is unsupported; set storage_size when adding a new component''
      else i @ '': changing '' @ key @ '' requires an explicit state migration'')"

definition STATE_KEYS :: "string list" where
  "STATE_KEYS =
     [''storage'', ''storage_backend'', ''storage_size'', ''database'', ''network'', ''wallet_name'']"

definition image_replaced ::
  "component_spec \<Rightarrow> lock_entry \<Rightarrow> component_spec \<Rightarrow> lock_entry \<Rightarrow> bool" where
  "image_replaced previous prior component next_entry \<longleftrightarrow>
     le_image prior \<noteq> le_image next_entry \<or> le_catalog prior \<noteq> le_catalog next_entry
     \<or> c_implementation previous \<noteq> c_implementation component
     \<or> c_kind previous \<noteq> c_kind component"

definition component_unsupported ::
  "component_spec \<Rightarrow> lock_entry \<Rightarrow> component_spec \<Rightarrow> lock_entry \<Rightarrow> string list" where
  "component_unsupported previous prior component next_entry =
     (if image_replaced previous prior component next_entry
      then [c_id component @ '': backend/image replacement requires a validated state migration'']
      else [])
     @ map (unsupported_config_change (c_id component))
         (filter (\<lambda>key. bt_get (c_config previous) key \<noteq> bt_get (c_config component) key) STATE_KEYS)"

text \<open>The loop over the components of the new revision; \<open>None\<close> is a lock without an entry.\<close>

definition add_component ::
  "published_revision \<Rightarrow> published_revision \<Rightarrow> component_spec \<Rightarrow> cell_changes \<Rightarrow>
   cell_changes option" where
  "add_component old new component g =
     (case locked new (c_id component) of
        None \<Rightarrow> None
      | Some next_entry \<Rightarrow>
          let g1 = g\<lparr>cg_required_images := cg_required_images g @ [le_image next_entry]\<rparr>
          in case find (\<lambda>x. c_id x = c_id component) (components (rv_cell old)) of
               None \<Rightarrow> Some (g1\<lparr>cg_added := cg_added g1 @ [c_id component]\<rparr>)
             | Some previous \<Rightarrow>
                 (case locked old (c_id component) of
                    None \<Rightarrow> None
                  | Some prior \<Rightarrow>
                      let g2 = g1\<lparr>cg_unsupported := cg_unsupported g1
                                 @ component_unsupported previous prior component next_entry\<rparr>
                      in Some (if le_rollout prior = le_rollout next_entry
                               then g2\<lparr>cg_unchanged := cg_unchanged g2 @ [c_id component]\<rparr>
                               else g2\<lparr>cg_restarted := cg_restarted g2 @ [c_id component]\<rparr>)))"

fun change_loop ::
  "published_revision \<Rightarrow> published_revision \<Rightarrow> component_spec list \<Rightarrow> cell_changes \<Rightarrow>
   cell_changes option" where
  "change_loop old new [] g = Some g"
| "change_loop old new (component # cs) g =
     (case add_component old new component g of
        None \<Rightarrow> None | Some g' \<Rightarrow> change_loop old new cs g')"

definition no_changes :: cell_changes where
  "no_changes =
     \<lparr>cg_added = [], cg_unchanged = [], cg_restarted = [], cg_removed = [], cg_deleted_data = [],
      cg_connections_changed = False, cg_policy_changed = False, cg_unsupported = [],
      cg_required_images = []\<rparr>"

definition removed_components :: "published_revision \<Rightarrow> published_revision \<Rightarrow> string list" where
  "removed_components old new =
     map c_id (filter (\<lambda>x. \<not> list_ex (\<lambda>y. c_id y = c_id x) (components (rv_cell new)))
       (components (rv_cell old)))"

definition database_links :: "published_revision \<Rightarrow> string \<Rightarrow> link_spec list" where
  "database_links r i =
     filter (\<lambda>l. l_from l = i \<and> l_kind l = DatabaseBackend) (links (rv_cell r))"

definition database_unsupported :: "published_revision \<Rightarrow> published_revision \<Rightarrow> string list" where
  "database_unsupported old new =
     map (\<lambda>x. c_id x @ '': database reconnection requires a validated data migration'')
       (filter (\<lambda>x. list_ex (\<lambda>y. c_id y = c_id x) (components (rv_cell new))
                    \<and> database_links old (c_id x) \<noteq> database_links new (c_id x))
          (components (rv_cell old)))"

definition sort_changes :: "cell_changes \<Rightarrow> cell_changes" where
  "sort_changes g =
     g\<lparr>cg_added := sort_dedup (cg_added g), cg_unchanged := sort_dedup (cg_unchanged g),
       cg_restarted := sort_dedup (cg_restarted g), cg_removed := sort_dedup (cg_removed g),
       cg_deleted_data := sort_dedup (cg_deleted_data g),
       cg_unsupported := sort_dedup (cg_unsupported g),
       cg_required_images := sort_dedup (cg_required_images g)\<rparr>"

definition new_plan ::
  "codec \<Rightarrow> update_target \<Rightarrow> published_revision \<Rightarrow> published_revision \<Rightarrow> update_plan option" where
  "new_plan c target old new =
     (case change_loop old new (components (rv_cell new)) no_changes of
        None \<Rightarrow> None
      | Some g \<Rightarrow>
          let removed = removed_components old new;
              changes = g\<lparr>cg_removed := removed,
                cg_deleted_data := ut_delete_retained target
                   @ (if ut_delete_data target then removed else []),
                cg_unsupported := cg_unsupported g @ database_unsupported old new,
                cg_policy_changed := (policy (rv_cell old) \<noteq> policy (rv_cell new)),
                cg_connections_changed := (links (rv_cell old) \<noteq> links (rv_cell new))\<rparr>
          in Some (seal_plan c
               \<lparr>pl_instance_key = [], pl_target = target, pl_base_revision = rv_digest old,
                pl_target_revision = rv_digest new, pl_target_lock = lk_digest (rv_lock new),
                pl_changes = sort_changes changes, pl_digest = []\<rparr>))"

definition is_noop :: "update_plan \<Rightarrow> bool" where
  "is_noop p \<longleftrightarrow> pl_base_revision p = pl_target_revision p \<and> cg_deleted_data (pl_changes p) = []"

definition affected :: "update_plan \<Rightarrow> string list" where
  "affected p = cg_restarted (pl_changes p) @ cg_removed (pl_changes p)"

text \<open>Whether a request names one of the components: a string of its value is the name.\<close>

fun references :: "json \<Rightarrow> string list \<Rightarrow> bool"
  and references_any :: "json list \<Rightarrow> string list \<Rightarrow> bool"
  and references_member :: "(string \<times> json) list \<Rightarrow> string list \<Rightarrow> bool" where
  "references (JString s) ids \<longleftrightarrow> s \<in> set ids"
| "references (JArray js) ids \<longleftrightarrow> references_any js ids"
| "references (JObject ms) ids \<longleftrightarrow> references_member ms ids"
| "references JNull ids \<longleftrightarrow> False"
| "references (JBool b) ids \<longleftrightarrow> False"
| "references (JNumber n) ids \<longleftrightarrow> False"
| "references (JFloat f) ids \<longleftrightarrow> False"
| "references_any [] ids \<longleftrightarrow> False"
| "references_any (j # js) ids \<longleftrightarrow> references j ids \<or> references_any js ids"
| "references_member [] ids \<longleftrightarrow> False"
| "references_member ((k, j) # ms) ids \<longleftrightarrow> references j ids \<or> references_member ms ids"

section \<open>Pending updates\<close>

definition updates_of :: "string \<Rightarrow> string \<Rightarrow> store \<Rightarrow> (int \<times> accepted_update) list" where
  "updates_of workspace i s =
     map (\<lambda>((_, _, g), u). (g, u)) (filter (\<lambda>((w, j, _), _). w = workspace \<and> j = i) (t_updates s))"

definition pending_plans :: "string \<Rightarrow> string \<Rightarrow> int \<Rightarrow> store \<Rightarrow> update_plan list" where
  "pending_plans workspace i after s =
     map (\<lambda>(_, u). au_plan u) (filter (\<lambda>(g, _). after < g) (updates_of workspace i s))"

definition pending_updates :: "string \<Rightarrow> string \<Rightarrow> string list sop" where
  "pending_updates workspace actor =
     bind_op (read_op (authorize workspace actor CellMaterialize)) (\<lambda>_.
       read_op (\<lambda>s. Inr (take 50 (map (\<lambda>((_, i), _). i)
         (filter (\<lambda>((w, _), u). w = workspace \<and> us_applied u < us_generation u \<and> \<not> us_closing u)
            (t_update_state s))))))"

definition is_retained :: "string \<Rightarrow> string \<Rightarrow> string \<Rightarrow> store \<Rightarrow> bool" where
  "is_retained workspace i component s \<longleftrightarrow> (workspace, i, component) \<in> set (t_retained s)"

definition retained_conflict :: "string \<Rightarrow> update_plan \<Rightarrow> published_revision \<Rightarrow> store \<Rightarrow> bool" where
  "retained_conflict workspace p new s \<longleftrightarrow>
     (let i = ut_instance (pl_target p)
      in list_ex (\<lambda>x. \<not> is_retained workspace i x s
                      \<or> list_ex (\<lambda>y. c_id y = x) (components (rv_cell new)))
           (ut_delete_retained (pl_target p))
         \<or> list_ex (\<lambda>x. is_retained workspace i x s) (cg_added (pl_changes p)))"

section \<open>Planning\<close>

definition plan_update ::
  "codec \<Rightarrow> string \<Rightarrow> string \<Rightarrow> update_target \<Rightarrow> published_revision \<Rightarrow> update_plan sop" where
  "plan_update c workspace actor target new =
     bind_op (read_op (authorize workspace actor CellEdit)) (\<lambda>_.
     bind_op (read_op (instance_unchecked workspace (ut_instance target))) (\<lambda>x.
     bind_op (read_op (revision_unchecked workspace (in_revision x))) (\<lambda>old.
     bind_op (read_op (state_of workspace (ut_instance target))) (\<lambda>current.
     if us_closing current then fail_op (CellUpdateError ''cell_closing'')
     else if us_generation current \<noteq> uint (ut_expected_generation target)
     then fail_op (CellUpdateError ''cell_update_conflict'')
     else case new_plan c target old new of
            None \<Rightarrow> fail_op ValidationError
          | Some p \<Rightarrow>
              let plan = bind_instance c (in_key x) p
              in bind_op (read_op (\<lambda>s. Inr (retained_conflict workspace plan new s))) (\<lambda>conflict.
                   if conflict then fail_op (CellUpdateError ''retained_component_conflict'')
                   else return_op plan)))))"

definition save_plan_stmt :: "string \<Rightarrow> string \<Rightarrow> update_plan \<Rightarrow> store \<Rightarrow> update_plan stx" where
  "save_plan_stmt workspace i p s =
     (let t = insert_or_ignore (workspace, i) p (t_update_plans s)
      in Inr (the_default p (bt_get t (workspace, i)), s\<lparr>t_update_plans := t\<rparr>))"

definition save_update_plan :: "string \<Rightarrow> string \<Rightarrow> string \<Rightarrow> update_plan \<Rightarrow> unit sop" where
  "save_update_plan workspace actor i p =
     bind_op (read_op (authorize workspace actor CellEdit)) (\<lambda>_.
     bind_op (tx_op (save_plan_stmt workspace i p)) (\<lambda>old.
       if old \<noteq> p then fail_op (CellUpdateError ''cell_plan_id_conflict'') else return_op ()))"

definition read_update_plan :: "string \<Rightarrow> string \<Rightarrow> string \<Rightarrow> update_plan option sop" where
  "read_update_plan workspace actor i =
     bind_op (read_op (authorize workspace actor CellRead)) (\<lambda>_.
       read_op (\<lambda>s. Inr (bt_get (t_update_plans s) (workspace, i))))"

section \<open>Acceptance\<close>

definition active_conflicts :: "string \<Rightarrow> string \<Rightarrow> string list \<Rightarrow> store \<Rightarrow> bool" where
  "active_conflicts workspace i ids s \<longleftrightarrow>
     list_ex (\<lambda>((w, _), a). w = workspace \<and> ac_instance a = i
              \<and> (ac_phase a = OpPending \<or> ac_phase a = OpRunning) \<and> references (ac_request a) ids)
       (t_actions s)"

definition record_update_receipt ::
  "codec \<Rightarrow> string \<Rightarrow> string \<Rightarrow> string \<Rightarrow> update_plan \<Rightarrow> store \<Rightarrow> unit stx" where
  "record_update_receipt c workspace actor key p =
     record_idempotency c workspace actor key ''cell.update'' (plan_json p) (PlanBody p)"

definition set_generation :: "int \<Rightarrow> update_state option \<Rightarrow> update_state" where
  "set_generation g existing =
     (case existing of
        None \<Rightarrow> \<lparr>us_generation = g, us_applied = 1, us_converged = None, us_closing = False\<rparr>
      | Some u \<Rightarrow> u\<lparr>us_generation := g\<rparr>)"

text \<open>The writes of an acceptance once its checks have passed.\<close>

definition apply_update ::
  "codec \<Rightarrow> int \<Rightarrow> string \<Rightarrow> string \<Rightarrow> string \<Rightarrow> update_plan \<Rightarrow> published_revision \<Rightarrow> int \<Rightarrow>
   store \<Rightarrow> store sresult" where
  "apply_update c now workspace actor key p new generation s =
     (let i = ut_instance (pl_target p)
      in if list_ex (\<lambda>((w, _, _), u). w = workspace \<and> au_principal u = actor \<and> au_key u = key)
              (t_updates s)
         then Inl DatabaseError
         else and_then (insert_new (workspace, i, generation)
                \<lparr>au_principal = actor, au_key = key, au_plan = p, au_accepted = now\<rparr>
                (t_updates s)) (\<lambda>updates.
              Inr (s\<lparr>t_updates := updates,
                t_update_state := bt_insert (workspace, i)
                  (set_generation generation (bt_get (t_update_state s) (workspace, i)))
                  (t_update_state s),
                t_instances := set_at (workspace, i)
                  (\<lambda>r. r\<lparr>in_revision := rv_digest new, in_lock := lk_digest (rv_lock new)\<rparr>)
                  (t_instances s),
                t_handles := update_where
                  (\<lambda>(w, _) h. w = workspace \<and> ch_instance h = i)
                  (\<lambda>h. h\<lparr>ch_config_digest := digest_json c (cell_json c (rv_cell new))\<rparr>)
                  (t_handles s),
                t_retained := fold (\<lambda>x. List.insert (workspace, i, x))
                  (cg_removed (pl_changes p)) (t_retained s)\<rparr>)))"

definition stale_plan :: store_error where
  "stale_plan = CellUpdateError ''stale_incarnation''"

definition accept_tx ::
  "codec \<Rightarrow> int \<Rightarrow> string \<Rightarrow> string \<Rightarrow> update_plan \<Rightarrow> published_revision \<Rightarrow> string \<Rightarrow> store \<Rightarrow>
   unit stx" where
  "accept_tx c now workspace actor p new key s =
     (let i = ut_instance (pl_target p)
      in case bt_get (t_instances s) (workspace, i) of
           None \<Rightarrow> Inl stale_plan
         | Some row \<Rightarrow>
             if in_key row \<noteq> pl_instance_key p then Inl stale_plan
             else case bt_get (t_idempotency s) (workspace, actor, key) of
               Some r \<Rightarrow>
                 if plan_body (rc_response r) = Some p then Inr ((), s)
                 else Inl (CellUpdateError ''idempotency_conflict'')
             | None \<Rightarrow>
                 and_then (state_of workspace i s) (\<lambda>current.
                 if us_closing current then Inl (CellUpdateError ''cell_closing'')
                 else if us_generation current \<noteq> uint (ut_expected_generation (pl_target p))
                         \<or> in_revision row \<noteq> pl_base_revision p
                 then Inl (CellUpdateError ''cell_update_conflict'')
                 else if is_noop p then record_update_receipt c workspace actor key p s
                 else if active_conflicts workspace i (affected p) s
                 then Inl (CellUpdateError ''cell_update_active_operations'')
                 else if retained_conflict workspace p new s
                 then Inl (CellUpdateError ''retained_component_conflict'')
                 else if us_generation current + 1 > I64_MAX
                 then Inl (VersionOverflow (word_of_int (us_generation current + 1)))
                 else and_then (apply_update c now workspace actor key p new
                        (us_generation current + 1) s)
                      (record_update_receipt c workspace actor key p)))"

definition accept_update ::
  "codec \<Rightarrow> int \<Rightarrow> string \<Rightarrow> string \<Rightarrow> update_plan \<Rightarrow> string \<Rightarrow> cell_instance sop" where
  "accept_update c now workspace actor p key =
     bind_op (read_op (authorize workspace actor CellEdit)) (\<lambda>_.
     bind_op (read_op (authorize workspace actor CellMaterialize)) (\<lambda>_.
     if cg_unsupported (pl_changes p) \<noteq> [] then fail_op (CellUpdateError ''cell_update_unsupported'')
     else
     bind_op (read_op (revision_unchecked workspace (pl_target_revision p))) (\<lambda>new.
     bind_op (read_op (revision_unchecked workspace (pl_base_revision p))) (\<lambda>old.
     case new_plan c (pl_target p) old new of
       None \<Rightarrow> fail_op ValidationError
     | Some verified \<Rightarrow>
         if bind_instance c (pl_instance_key p) verified \<noteq> p
         then fail_op (CellUpdateError ''cell_plan_digest_mismatch'')
         else bind_op (tx_op (accept_tx c now workspace actor p new key)) (\<lambda>_.
                read_op (instance_unchecked workspace (ut_instance (pl_target p))))))))"

section \<open>Application and closing\<close>

definition pending_deleted :: "string \<Rightarrow> string \<Rightarrow> int \<Rightarrow> store \<Rightarrow> string list" where
  "pending_deleted workspace i after s =
     concat (map (\<lambda>p. cg_deleted_data (pl_changes p)) (pending_plans workspace i after s))"

definition pending_deleted_data :: "string \<Rightarrow> string \<Rightarrow> string \<Rightarrow> string list sop" where
  "pending_deleted_data workspace actor i =
     bind_op (read_op (authorize workspace actor CellStatus)) (\<lambda>_.
     bind_op (read_op (state_of workspace i)) (\<lambda>current.
       read_op (\<lambda>s. Inr (sort_dedup (pending_deleted workspace i (us_applied current) s)))))"

definition latest_update :: "string \<Rightarrow> string \<Rightarrow> string \<Rightarrow> update_plan option sop" where
  "latest_update workspace actor i =
     bind_op (read_op (authorize workspace actor CellStatus)) (\<lambda>_.
       read_op (\<lambda>s. Inr (case rev (updates_of workspace i s) of
                           [] \<Rightarrow> None | (_, u) # _ \<Rightarrow> Some (au_plan u))))"

definition mark_applied_tx ::
  "string \<Rightarrow> string \<Rightarrow> u64 \<Rightarrow> string option \<Rightarrow> store \<Rightarrow> unit stx" where
  "mark_applied_tx workspace i generation converged s =
     and_then (state_of workspace i s) (\<lambda>current.
     if us_generation current \<noteq> uint generation then Inr ((), s)
     else
       let gone = pending_deleted workspace i (us_applied current) s
       in Inr ((), s\<lparr>
            t_retained := filter (\<lambda>(w, j, x). \<not> (w = workspace \<and> j = i \<and> x \<in> set gone))
              (t_retained s),
            t_update_state := set_at (workspace, i)
              (\<lambda>u. if us_generation u = uint generation
                   then u\<lparr>us_applied := max (us_applied u) (uint generation),
                          us_converged := (case converged of
                             None \<Rightarrow> us_converged u | Some r \<Rightarrow> Some r)\<rparr>
                   else u) (t_update_state s)\<rparr>))"

definition close_stmt :: "string \<Rightarrow> string \<Rightarrow> store \<Rightarrow> unit stx" where
  "close_stmt workspace i s =
     Inr ((), s\<lparr>t_update_state := bt_insert (workspace, i)
       ((case bt_get (t_update_state s) (workspace, i) of
           None \<Rightarrow> initial_update_state | Some u \<Rightarrow> u)\<lparr>us_closing := True\<rparr>)
       (t_update_state s)\<rparr>)"

definition begin_instance_close :: "string \<Rightarrow> string \<Rightarrow> string \<Rightarrow> unit sop" where
  "begin_instance_close workspace actor i =
     bind_op (read_op (authorize workspace actor CellClose)) (\<lambda>_. tx_op (close_stmt workspace i))"

section \<open>Admission of an operation against the updates of its cell\<close>

definition admit_operation ::
  "string \<Rightarrow> string \<Rightarrow> string \<Rightarrow> json \<Rightarrow> operation_kind \<Rightarrow> store \<Rightarrow> string stx" where
  "admit_operation workspace i operation request kind s =
     and_then (state_of workspace i s) (\<lambda>current.
     if us_closing current then Inl (CellUpdateError ''cell_closing'')
     else if list_ex (\<lambda>p. kind \<noteq> OpComponentLogs \<and> references request (affected p))
               (pending_plans workspace i (us_applied current) s)
     then Inl (CellUpdateError ''component_updating'')
     else case bt_get (t_instances s) (workspace, i) of
       None \<Rightarrow> Inl DatabaseError
     | Some row \<Rightarrow>
         let t = insert_or_ignore (workspace, operation) (in_revision row) (t_operation_revisions s)
         in Inr (the_default (in_revision row) (bt_get t (workspace, operation)),
                 s\<lparr>t_operation_revisions := t\<rparr>))"

end
