(* ===== verification/Store_Operations.thy ===== *)
theory Store_Operations
  imports Store_Cells Store_Runs Store_Updates
begin

text \<open>
  Operations on a cell: their admission into the journal, their phases and results
  (\<open>create_operation_inner\<close> to \<open>update_operation_phase\<close> of \<open>proofstorm-store/src/lib.rs\<close>), and the
  private permissions that admit an operation without the capability (\<open>delegation.rs\<close>, with
  \<open>PrivateTransferScope::permits\<close> of \<open>proofstorm-core/src/experiment.rs\<close>).
\<close>

section \<open>Private permissions\<close>

text \<open>\<open>Value::pointer\<close>, for the keys of objects the code names.\<close>

fun json_at :: "string list \<Rightarrow> json \<Rightarrow> json option" where
  "json_at [] j = Some j"
| "json_at (k # ks) (JObject ms) =
     (case map_of ms k of None \<Rightarrow> None | Some j \<Rightarrow> json_at ks j)"
| "json_at (k # ks) j = None"

definition same_text :: "json \<Rightarrow> string list \<Rightarrow> string \<Rightarrow> bool" where
  "same_text request path expected \<longleftrightarrow>
     (case json_at path request of None \<Rightarrow> False | Some j \<Rightarrow> json_str j = Some expected)"

definition permits :: "codec \<Rightarrow> private_scope \<Rightarrow> operation_kind \<Rightarrow> json \<Rightarrow> bool" where
  "permits c scope kind request \<longleftrightarrow>
     (case kind of
        OpPrivateTransfer \<Rightarrow>
          same_text request [''transfer'', ''component''] (ps_component scope)
          \<and> same_text request [''transfer'', ''reference''] (ps_reference scope)
          \<and> (same_text request [''transfer'', ''transferMethod''] ''status''
             \<or> same_text request [''transfer'', ''transferMethod''] ''deliver'')
      | OpComponentExecLive \<Rightarrow>
          same_text request [''component''] (ps_component scope)
          \<and> same_text request [''private_payload'', ''kind''] ''consume''
          \<and> same_text request [''private_payload'', ''reference''] (ps_reference scope)
          \<and> same_text request [''output'', ''mode''] ''private''
          \<and> json_at [''target_component''] request = None
          \<and> json_at [''private_io''] request = None
          \<and> (case json_at [''output'', ''fields''] request of
               None \<Rightarrow> True | Some fs \<Rightarrow> json_array fs = Some [])
          \<and> receive_digest c request = Some (ps_receive_command_digest scope)
      | _ \<Rightarrow> False)"

definition valid_digest :: "string \<Rightarrow> bool" where
  "valid_digest d \<longleftrightarrow> string_starts_with d ''sha256:'' \<and> length (drop 7 d) = 64
     \<and> list_all is_ascii_hexdigit (drop 7 d)"

definition valid_scope :: "string \<Rightarrow> string \<Rightarrow> private_scope \<Rightarrow> bool" where
  "valid_scope actor recipient scope \<longleftrightarrow>
     \<not> (ps_issuer scope \<noteq> actor \<or> actor = recipient \<or> \<not> is_store_slug (ps_component scope)
        \<or> \<not> is_store_slug (ps_mint scope) \<or> ps_reference scope = []
        \<or> length (ps_reference scope) > 128 \<or> \<not> valid_digest (ps_receive_command_digest scope))"

definition operation_context ::
  "string \<Rightarrow> string \<Rightarrow> string \<Rightarrow> capability \<Rightarrow> (cell_instance \<times> published_revision) sop" where
  "operation_context workspace actor i cap =
     bind_op (read_op (authorize workspace actor cap)) (\<lambda>_.
     bind_op (read_op (instance_unchecked workspace i)) (\<lambda>x.
     bind_op (read_op (revision_unchecked workspace (in_revision x))) (\<lambda>r. return_op (x, r))))"

definition operation_context_for ::
  "string \<Rightarrow> string \<Rightarrow> string \<Rightarrow> string \<Rightarrow> capability \<Rightarrow> (cell_instance \<times> published_revision) sop"
where
  "operation_context_for workspace actor i operation cap =
     bind_op (operation_context workspace actor i cap) (\<lambda>(x, current).
     bind_op (read_op (\<lambda>s. Inr (operation_from workspace operation s))) (\<lambda>found.
     case found of
       Inr op \<Rightarrow>
         if ac_instance op \<noteq> i \<or> ac_principal op \<noteq> actor
         then fail_op (ConflictError ''operation'' operation)
         else bind_op (read_op (revision_unchecked workspace (ac_revision op))) (\<lambda>r.
                return_op (x\<lparr>in_revision := rv_digest r, in_lock := lk_digest (rv_lock r)\<rparr>, r))
     | Inl (NotFound _ _) \<Rightarrow> return_op (x, current)
     | Inl e \<Rightarrow> fail_op e))"

definition scope_json :: "private_scope \<Rightarrow> json" where
  "scope_json p =
     JObject [(''receive_command_digest'', JString (ps_receive_command_digest p)),
              (''issuer_principal_id'', JString (ps_issuer p)),
              (''component'', JString (ps_component p)), (''mint'', JString (ps_mint p)),
              (''reference'', JString (ps_reference p))]"

definition issue_request :: "string \<Rightarrow> string \<Rightarrow> string \<Rightarrow> private_scope \<Rightarrow> json" where
  "issue_request recipient i inst scope =
     JObject [(''id'', JString i), (''instance'', JString inst), (''recipient'', JString recipient),
              (''scope'', scope_json scope)]"

definition private_access :: "string \<Rightarrow> string \<Rightarrow> string \<Rightarrow> private_grant sop" where
  "private_access workspace actor i =
     bind_op (read_op (authorize workspace actor ExperimentRead)) (\<lambda>_.
       read_op (\<lambda>s. case bt_get (t_private_grants s) (workspace, i) of
                      None \<Rightarrow> Inl (NotFound ''private access grant'' i) | Some g \<Rightarrow> Inr g))"

text \<open>The existing grant of the same identifier, or the new one; \<open>True\<close> says it is new.\<close>

definition insert_private_grant :: "private_grant \<Rightarrow> store \<Rightarrow> (bool \<times> private_grant) stx" where
  "insert_private_grant g s =
     (case bt_get (t_private_grants s) (pg_workspace g, pg_id g) of
        Some previous \<Rightarrow>
          if pg_instance previous \<noteq> pg_instance g \<or> pg_principal previous \<noteq> pg_principal g
             \<or> pg_scope previous \<noteq> pg_scope g
          then Inl (ConflictError ''private access grant'' (pg_id g))
          else Inr ((False, previous), s)
      | None \<Rightarrow> Inr ((True, g), s\<lparr>t_private_grants :=
             bt_insert (pg_workspace g, pg_id g) g (t_private_grants s)\<rparr>))"

definition issue_private_access ::
  "codec \<Rightarrow> int \<Rightarrow> string \<Rightarrow> string \<Rightarrow> string \<Rightarrow> string \<Rightarrow> string \<Rightarrow> private_scope \<Rightarrow> string \<Rightarrow>
   private_grant sop" where
  "issue_private_access c now workspace actor recipient i inst scope key =
     bind_op (read_op (authorize workspace actor CellOperate)) (\<lambda>_.
     bind_op (read_op (authorize workspace actor ComponentExecLive)) (\<lambda>_.
     bind_op (read_op (authorize workspace recipient ComponentExecLive)) (\<lambda>_.
     if \<not> is_store_slug i \<or> \<not> valid_scope actor recipient scope then fail_op ValidationError
     else
     bind_op (operation_context workspace actor inst ComponentExecLive) (\<lambda>(_, r).
     if \<not> (list_ex (\<lambda>x. c_id x = ps_component scope \<and> c_kind x = Wallet) (components (rv_cell r))
           \<and> list_ex (\<lambda>x. c_id x = ps_mint scope \<and> c_kind x = Mint) (components (rv_cell r)))
     then fail_op ValidationError
     else
     bind_op (read_op (idempotent_response c grant_body workspace actor key ''private_access.issue''
                (issue_request recipient i inst scope))) (\<lambda>previous.
     case previous of
       Some g \<Rightarrow> private_access workspace actor (pg_id g)
     | None \<Rightarrow>
         bind_op (tx_op (insert_private_grant
            \<lparr>pg_id = i, pg_workspace = workspace, pg_instance = inst, pg_principal = recipient,
             pg_scope = scope, pg_created = now, pg_revoked = None\<rparr>)) (\<lambda>(fresh, g).
         if \<not> fresh then return_op g
         else bind_op (tx_op (record_idempotency c workspace actor key ''private_access.issue''
                (issue_request recipient i inst scope) (GrantBody g))) (\<lambda>_. return_op g)))))))"

definition revoke_stmt :: "string \<Rightarrow> string \<Rightarrow> private_grant \<Rightarrow> store \<Rightarrow> unit stx" where
  "revoke_stmt workspace i g s =
     Inr ((), s\<lparr>t_private_grants := set_at (workspace, i) (\<lambda>_. g) (t_private_grants s)\<rparr>)"

definition revoke_private_access :: "int \<Rightarrow> string \<Rightarrow> string \<Rightarrow> string \<Rightarrow> private_grant sop" where
  "revoke_private_access now workspace actor i =
     bind_op (private_access workspace actor i) (\<lambda>g.
     if actor \<noteq> pg_principal g \<and> actor \<noteq> ps_issuer (pg_scope g) then fail_op ValidationError
     else let g' = g\<lparr>pg_revoked := Some (the_default now (pg_revoked g))\<rparr>
          in bind_op (tx_op (revoke_stmt workspace i g')) (\<lambda>_. return_op g'))"

definition matching_access ::
  "codec \<Rightarrow> string \<Rightarrow> string \<Rightarrow> string \<Rightarrow> operation_kind \<Rightarrow> json \<Rightarrow> store \<Rightarrow> private_grant option"
where
  "matching_access c workspace actor i kind request s =
     find (\<lambda>g. permits c (pg_scope g) kind request)
       (map snd (filter (\<lambda>((w, _), g). w = workspace \<and> pg_principal g = actor \<and> pg_instance g = i
                         \<and> pg_revoked g = None) (t_private_grants s)))"

definition authorize_operation_access ::
  "codec \<Rightarrow> string \<Rightarrow> string \<Rightarrow> string \<Rightarrow> operation_kind \<Rightarrow> json \<Rightarrow> store \<Rightarrow> unit sresult" where
  "authorize_operation_access c workspace actor i kind request s =
     (if authorize workspace actor CellOperate s = Inr ()
         \<or> matching_access c workspace actor i kind request s \<noteq> None
      then Inr () else Inl (AccessDenied workspace actor CellOperate))"

section \<open>Admission\<close>

text \<open>The values the admission transaction is entered with.\<close>

record operation_request =
  aq_workspace :: string
  aq_actor :: string
  aq_instance :: string
  aq_experiment :: string
  aq_requested_session :: string
  aq_session :: string
  aq_operation :: string
  aq_kind :: operation_kind
  aq_request :: json
  aq_key :: string
  aq_capability :: capability
  aq_expected :: "string option"

definition operation_envelope :: "operation_request \<Rightarrow> json" where
  "operation_envelope q =
     JObject [(''experimentId'', JString (aq_experiment q)),
              (''instanceId'', JString (aq_instance q)),
              (''kind'', JString (operation_kind_name (aq_kind q))),
              (''operationId'', JString (aq_operation q)), (''request'', aq_request q),
              (''sessionId'', JString (aq_requested_session q))]"

definition operation_resource :: "codec \<Rightarrow> operation_request \<Rightarrow> string" where
  "operation_resource c q =
     ''op-'' @ slice 7 26 (digest_json c
        (JArray [JString (aq_workspace q), JString (aq_instance q), JString (aq_session q),
                 JString (aq_operation q), JString (operation_kind_name (aq_kind q)),
                 aq_request q]))"

definition same_operation :: "codec \<Rightarrow> operation_request \<Rightarrow> cell_operation \<Rightarrow> bool" where
  "same_operation c q existing \<longleftrightarrow>
     \<not> (ac_instance existing \<noteq> aq_instance q \<or> ac_principal existing \<noteq> aq_actor q
        \<or> ac_experiment existing \<noteq> aq_experiment q
        \<or> ac_request_digest existing \<noteq> digest_json c (aq_request q)
        \<or> ac_kind existing \<noteq> aq_kind q
        \<or> (aq_requested_session q \<noteq> [] \<and> ac_session existing \<noteq> aq_session q))"

definition run_open :: "string \<Rightarrow> string \<Rightarrow> string \<Rightarrow> store \<Rightarrow> bool" where
  "run_open workspace i inst s =
     (case bt_get (t_experiments s) (workspace, i) of
        None \<Rightarrow> False | Some e \<Rightarrow> ex_instance e = inst \<and> ex_phase e = RunActive)"

text \<open>\<open>SELECT phase FROM cell_handles WHERE instance_id = ..\<close>: the first, by name.\<close>

definition first_handle_phase :: "string \<Rightarrow> string \<Rightarrow> store \<Rightarrow> cell_handle_phase option" where
  "first_handle_phase workspace i s =
     map_option (\<lambda>(_, h). ch_phase h)
       (find (\<lambda>((w, _), h). w = workspace \<and> ch_instance h = i) (t_handles s))"

definition cell_actions :: "string \<Rightarrow> string \<Rightarrow> store \<Rightarrow> action_row list" where
  "cell_actions workspace i s =
     map snd (filter (\<lambda>((w, _), a). w = workspace \<and> ac_instance a = i) (t_actions s))"

text \<open>\<open>LAST_SEQUENCE\<close>: \<open>COALESCE(MAX(sequence), 0)\<close>.\<close>

definition last_sequence :: "string \<Rightarrow> string \<Rightarrow> store \<Rightarrow> int" where
  "last_sequence workspace i s =
     (case map ac_sequence (cell_actions workspace i s) of
        [] \<Rightarrow> 0 | n # ns \<Rightarrow> fold max ns n)"

definition touch_session :: "int \<Rightarrow> session \<Rightarrow> session" where
  "touch_session now x = x\<lparr>se_last_activity := max (se_last_activity x) now\<rparr>"

definition action_unique :: "action_row \<Rightarrow> store \<Rightarrow> bool" where
  "action_unique a s \<longleftrightarrow>
     \<not> bt_contains_key (t_actions s) (ac_workspace a, ac_id a)
     \<and> list_all (\<lambda>((w, _), b). ac_resource b \<noteq> ac_resource a
          \<and> \<not> (w = ac_workspace a \<and> ac_experiment b = ac_experiment a
                \<and> ac_sequence b = ac_sequence a)) (t_actions s)"

definition insert_action :: "action_row \<Rightarrow> store \<Rightarrow> unit stx" where
  "insert_action a s =
     (if \<not> action_unique a s
         \<or> \<not> bt_contains_key (t_instances s) (ac_workspace a, ac_instance a)
         \<or> \<not> bt_contains_key (t_experiments s) (ac_workspace a, ac_experiment a)
         \<or> \<not> bt_contains_key (t_sessions s) (ac_workspace a, ac_session a)
      then Inl DatabaseError
      else Inr ((), s\<lparr>t_actions := bt_insert (ac_workspace a, ac_id a) a (t_actions s)\<rparr>))"

definition new_action :: "codec \<Rightarrow> int \<Rightarrow> operation_request \<Rightarrow> int \<Rightarrow> action_row" where
  "new_action c now q sequence =
     \<lparr>ac_workspace = aq_workspace q, ac_id = aq_operation q, ac_instance = aq_instance q,
      ac_experiment = aq_experiment q, ac_session = aq_session q, ac_principal = aq_actor q,
      ac_sequence = sequence, ac_kind = aq_kind q, ac_capability = aq_capability q,
      ac_resource = operation_resource c q, ac_request_digest = digest_json c (aq_request q),
      ac_request = aq_request q, ac_phase = OpPending, ac_artifact = None, ac_accepted = now,
      ac_started = None, ac_completed = None\<rparr>"

text \<open>
  The writes of a new operation. At the last sequence number of an \<open>i64\<close> the addition overflows:
  it panics in a debug build and wraps to a number \<open>u64\<close> refuses in a release build.
\<close>

definition admit_new :: "codec \<Rightarrow> int \<Rightarrow> operation_request \<Rightarrow> store \<Rightarrow> cell_operation stx" where
  "admit_new c now q s =
     (let w = aq_workspace q; i = aq_instance q;
          s1 = s\<lparr>t_sessions := set_at (w, aq_session q) (touch_session now) (t_sessions s)\<rparr>;
          last_seq = last_sequence w i s1
      in if last_seq + 1 < 0 \<or> last_seq + 1 > I64_MAX then Inl (InvalidStoredVersion last_seq)
         else
         and_then (admit_operation w i (aq_operation q) (aq_request q) (aq_kind q) s1)
           (\<lambda>(digest, s2).
         if (case aq_expected q of None \<Rightarrow> False | Some expected \<Rightarrow> expected \<noteq> digest)
         then Inl (CellUpdateError ''cell_update_conflict'')
         else
           let a = new_action c now q (last_seq + 1); op = with_revision digest a
           in and_then (insert_action a s2) (\<lambda>(_, s3).
              and_then (record_idempotency c w (aq_actor q) (aq_key q) ''cell.operation.create''
                (operation_envelope q) (OperationBody op) s3) (\<lambda>(_, s4).
              Inr (op, s4)))))"

definition admission_tx :: "codec \<Rightarrow> int \<Rightarrow> operation_request \<Rightarrow> store \<Rightarrow> cell_operation stx" where
  "admission_tx c now q s =
     (let w = aq_workspace q
      in and_then (idempotent_response c operation_body w (aq_actor q) (aq_key q)
             ''cell.operation.create'' (operation_envelope q) s) (\<lambda>previous.
         case previous of
           Some op \<Rightarrow> and_then (operation_from w (ac_id op) s) (\<lambda>x. Inr (x, s))
         | None \<Rightarrow>
             (case operation_from w (aq_operation q) s of
                Inr existing \<Rightarrow>
                  if \<not> same_operation c q existing
                  then Inl (ConflictError ''operation'' (aq_operation q))
                  else and_then (record_idempotency c w (aq_actor q) (aq_key q)
                         ''cell.operation.create'' (operation_envelope q)
                         (OperationBody existing) s) (\<lambda>(_, s'). Inr (existing, s'))
              | Inl (NotFound _ _) \<Rightarrow>
                  if \<not> run_open w (aq_experiment q) (aq_instance q) s then Inl ValidationError
                  else if (case first_handle_phase w (aq_instance q) s of
                             None \<Rightarrow> False | Some phase \<Rightarrow> phase \<noteq> HandleOpen)
                  then Inl ValidationError
                  else admit_new c now q s
              | Inl e \<Rightarrow> Inl e)))"

definition normalize_request :: "string \<Rightarrow> json \<Rightarrow> json" where
  "normalize_request run request =
     (case request of
        JObject ms \<Rightarrow>
          JObject (map (\<lambda>(k, j). (k, if k = ''experiment_id'' \<or> k = ''run_id'' then JString run else j)) ms)
      | _ \<Rightarrow> request)"

definition resolve_run ::
  "codec \<Rightarrow> string \<Rightarrow> string \<Rightarrow> string \<Rightarrow> string \<Rightarrow> string \<Rightarrow> string sop" where
  "resolve_run c workspace actor i experiment operation =
     (if experiment \<noteq> [] then return_op experiment
      else bind_op (read_op (\<lambda>s. Inr (operation_from workspace operation s))) (\<lambda>found.
        case found of
          Inr previous \<Rightarrow>
            if ac_principal previous = actor \<and> ac_instance previous = i
            then return_op (ac_experiment previous)
            else implicit_run_id c workspace actor i
        | Inl (NotFound _ _) \<Rightarrow> implicit_run_id c workspace actor i
        | Inl e \<Rightarrow> fail_op e))"

definition create_operation ::
  "codec \<Rightarrow> int \<Rightarrow> string \<Rightarrow> string \<Rightarrow> string \<Rightarrow> string \<Rightarrow> string \<Rightarrow> string \<Rightarrow> string \<Rightarrow>
   operation_kind \<Rightarrow> json \<Rightarrow> string \<Rightarrow> capability \<Rightarrow> string option \<Rightarrow> cell_operation sop" where
  "create_operation c now context workspace actor i experiment requested_session operation kind
     raw key cap expected =
     bind_op (read_op (authorize workspace actor cap)) (\<lambda>_.
     if \<not> is_store_slug operation then fail_op ValidationError
     else
     bind_op (read_op (instance_unchecked workspace i)) (\<lambda>_.
     bind_op (resolve_run c workspace actor i experiment operation) (\<lambda>run.
     let q = \<lparr>aq_workspace = workspace, aq_actor = actor, aq_instance = i, aq_experiment = run,
              aq_requested_session = requested_session, aq_session = requested_session,
              aq_operation = operation, aq_kind = kind, aq_request = normalize_request run raw,
              aq_key = key, aq_capability = cap, aq_expected = expected\<rparr>
     in
     bind_op (read_op (idempotent_response c operation_body workspace actor key
                ''cell.operation.create'' (operation_envelope q))) (\<lambda>previous.
     case previous of
       Some op \<Rightarrow> read_op (operation_from workspace (ac_id op))
     | None \<Rightarrow>
         bind_op (read_op (authorize_operation_access c workspace actor i kind (aq_request q))) (\<lambda>_.
         bind_op (if experiment = [] then ensure_implicit_run c now workspace actor i run
                  else return_op ()) (\<lambda>_.
         bind_op (read_op (experiment_unchecked workspace run)) (\<lambda>e.
         if ex_instance e \<noteq> i \<or> ex_phase e \<noteq> RunActive then fail_op ValidationError
         else
         bind_op (track_session c now context workspace actor run requested_session) (\<lambda>x.
           tx_op (admission_tx c now (q\<lparr>aq_session := se_id x\<rparr>))))))))))"

section \<open>Reading operations\<close>

definition read_operation :: "string \<Rightarrow> string \<Rightarrow> string \<Rightarrow> cell_operation sop" where
  "read_operation workspace actor operation =
     bind_op (read_op (authorize workspace actor ArtifactRead)) (\<lambda>_.
       read_op (operation_from workspace operation))"

definition operation_for_cancel :: "string \<Rightarrow> string \<Rightarrow> string \<Rightarrow> cell_operation sop" where
  "operation_for_cancel workspace actor operation =
     bind_op (read_op (authorize workspace actor ActionCancel)) (\<lambda>_.
     bind_op (read_op (operation_from workspace operation)) (\<lambda>op.
       if ac_principal op \<noteq> actor
       then fail_op (OperationOwnerMismatch operation (ac_principal op) actor)
       else return_op op))"

definition operation_for_submission :: "codec \<Rightarrow> string \<Rightarrow> string \<Rightarrow> string \<Rightarrow> cell_operation sop" where
  "operation_for_submission c workspace actor operation =
     bind_op (read_op (operation_from workspace operation)) (\<lambda>op.
     bind_op (read_op (authorize workspace actor (ac_capability op))) (\<lambda>_.
     if ac_principal op \<noteq> actor
     then fail_op (OperationOwnerMismatch operation (ac_principal op) actor)
     else bind_op (if ac_phase op = OpPending
                   then read_op (authorize_operation_access c workspace actor (ac_instance op)
                          (ac_kind op) (ac_request op))
                   else return_op ()) (\<lambda>_. return_op op)))"

fun read_all :: "(string \<Rightarrow> cell_operation sresult) \<Rightarrow> string list \<Rightarrow> cell_operation list sresult" where
  "read_all f [] = Inr []"
| "read_all f (i # is) = and_then (f i) (\<lambda>x. and_then (read_all f is) (\<lambda>xs. Inr (x # xs)))"

definition run_actions ::
  "string \<Rightarrow> string \<Rightarrow> string \<Rightarrow> u64 \<Rightarrow> u32 \<Rightarrow> cell_operation list sop" where
  "run_actions workspace actor experiment after limit =
     bind_op (read_op (authorize workspace actor ExperimentRead)) (\<lambda>_.
     bind_op (read_op (experiment_unchecked workspace experiment)) (\<lambda>_.
     if \<not> (1 \<le> limit \<and> limit \<le> 100) then fail_op ValidationError
     else bind_op (read_op (\<lambda>_. sql_version after)) (\<lambda>seq.
       read_op (\<lambda>s. read_all (\<lambda>i. operation_from workspace i s)
         (take (unat limit) (map (\<lambda>((_, i), _). i) (sort_key (\<lambda>(_, a). ac_sequence a)
            (filter (\<lambda>((w, _), a). w = workspace \<and> ac_experiment a = experiment
                     \<and> seq < ac_sequence a) (t_actions s)))))))))"

definition active_operations :: "string \<Rightarrow> string \<Rightarrow> cell_operation list sop" where
  "active_operations workspace i =
     read_op (\<lambda>s. read_all (\<lambda>j. operation_from workspace j s)
       (map (\<lambda>((_, j), _). j) (sort_key (\<lambda>(_, a). (ac_experiment a, ac_sequence a))
          (filter (\<lambda>((w, _), a). w = workspace \<and> ac_instance a = i \<and> op_active (ac_phase a))
             (t_actions s)))))"

section \<open>Phases and results\<close>

definition finish_action :: "int \<Rightarrow> operation_phase \<Rightarrow> artifact \<Rightarrow> action_row \<Rightarrow> action_row" where
  "finish_action now phase af a =
     a\<lparr>ac_phase := phase, ac_artifact := Some af, ac_completed := Some now\<rparr>"

definition result_tx ::
  "int \<Rightarrow> string \<Rightarrow> string \<Rightarrow> operation_phase \<Rightarrow> artifact \<Rightarrow> string \<Rightarrow> store \<Rightarrow> unit stx" where
  "result_tx now workspace operation phase af sess s =
     (case bt_get (t_actions s) (workspace, operation) of
        Some a \<Rightarrow>
          if op_active (ac_phase a)
          then Inr ((), s\<lparr>t_actions := bt_insert (workspace, operation)
                         (finish_action now phase af a) (t_actions s),
                       t_sessions := set_at (workspace, sess) (touch_session now)
                         (t_sessions s)\<rparr>)
          else Inr ((), s)
      | None \<Rightarrow> Inr ((), s))"

definition record_operation_result ::
  "codec \<Rightarrow> int \<Rightarrow> string \<Rightarrow> string \<Rightarrow> operation_phase \<Rightarrow> json \<Rightarrow> cell_operation sop" where
  "record_operation_result c now workspace operation phase content =
     (if op_active phase then fail_op ValidationError
      else bind_op (read_op (operation_from workspace operation)) (\<lambda>existing.
        if \<not> op_active (ac_phase existing) then return_op existing
        else if json_size c content > MAX_ARTIFACT_BYTES
        then fail_op (ArtifactTooLarge (json_size c content) MAX_ARTIFACT_BYTES)
        else
          let af = \<lparr>af_media_type = ''application/json'', af_digest = digest_json c content,
                    af_byte_length = of_nat (json_size c content), af_content = content\<rparr>
          in bind_op (tx_op (result_tx now workspace operation phase af (ac_session existing))) (\<lambda>_.
               read_op (operation_from workspace operation))))"

definition running_stmt :: "int \<Rightarrow> string \<Rightarrow> string \<Rightarrow> store \<Rightarrow> unit stx" where
  "running_stmt now workspace operation s =
     (case bt_get (t_actions s) (workspace, operation) of
        Some a \<Rightarrow>
          if ac_phase a = OpPending
          then Inr ((), s\<lparr>t_actions := bt_insert (workspace, operation)
                 (a\<lparr>ac_phase := OpRunning,
                    ac_started := Some (the_default now (ac_started a))\<rparr>) (t_actions s)\<rparr>)
          else Inr ((), s)
      | None \<Rightarrow> Inr ((), s))"

definition update_operation_phase ::
  "int \<Rightarrow> string \<Rightarrow> string \<Rightarrow> operation_phase \<Rightarrow> cell_operation sop" where
  "update_operation_phase now workspace operation phase =
     (if phase \<noteq> OpRunning then fail_op ValidationError
      else bind_op (tx_op (running_stmt now workspace operation)) (\<lambda>_.
             read_op (operation_from workspace operation)))"

end
