(* ===== verification/Store_Drafts.thy ===== *)
theory Store_Drafts
  imports Store_Ledger Cell_Validation
begin

text \<open>
  Drafts and their publication (\<open>create_draft\<close> to \<open>revision\<close> of
  \<open>proofstorm-store/src/lib.rs\<close>). A draft carries a version every edit must name. Resolving a
  document against the release catalog is the argument \<open>catalog\<close>; \<open>to_vec\<close> and
  \<open>print\<close> are the JSON texts the validation measures.
\<close>

section \<open>Statements\<close>

definition insert_draft :: "string \<Rightarrow> string \<Rightarrow> cell_spec \<Rightarrow> store \<Rightarrow> bool stx" where
  "insert_draft workspace i cell s =
     (if bt_contains_key (t_drafts s) (workspace, i) then Inr (False, s)
      else if \<not> has_workspace s workspace then Inl DatabaseError
      else Inr (True, s\<lparr>t_drafts :=
             bt_insert (workspace, i) \<lparr>dw_version = 1, dw_cell = cell\<rparr> (t_drafts s)\<rparr>))"

definition clone_into :: "string \<Rightarrow> string \<Rightarrow> cell_spec \<Rightarrow> store \<Rightarrow> unit stx" where
  "clone_into workspace target cell s =
     and_then (insert_draft workspace target cell s)
       (\<lambda>(inserted, s'). if inserted then Inr ((), s') else Inl DatabaseError)"

definition update_draft ::
  "string \<Rightarrow> string \<Rightarrow> u64 \<Rightarrow> cell_spec \<Rightarrow> store \<Rightarrow> bool stx" where
  "update_draft workspace i expected cell s =
     and_then (sql_version expected) (\<lambda>version.
       case bt_get (t_drafts s) (workspace, i) of
         Some row \<Rightarrow>
           if dw_version row = version
           then Inr (True, s\<lparr>t_drafts :=
                  bt_insert (workspace, i) \<lparr>dw_version = dw_version row + 1, dw_cell = cell\<rparr>
                    (t_drafts s)\<rparr>)
           else Inr (False, s)
       | None \<Rightarrow> Inr (False, s))"

definition insert_revision ::
  "string \<Rightarrow> string \<Rightarrow> u64 \<Rightarrow> published_revision \<Rightarrow> store \<Rightarrow> unit stx" where
  "insert_revision workspace draft_id version revision s =
     and_then (sql_version version) (\<lambda>v.
       case bt_get (t_revisions s) (rv_digest revision) of
         None \<Rightarrow>
           if \<not> has_workspace s workspace then Inl DatabaseError
           else Inr ((), s\<lparr>t_revisions := bt_insert (rv_digest revision)
                  \<lparr>rw_draft = draft_id, rw_draft_version = v, rw_revision = revision\<rparr>
                  (t_revisions s)\<rparr>)
       | Some row \<Rightarrow>
           if bt_contains_key (t_drafts s) (rv_workspace (rw_revision row), rw_draft row)
           then Inr ((), s)
           else Inr ((), s\<lparr>t_revisions := bt_insert (rv_digest revision)
                  (row\<lparr>rw_draft := draft_id, rw_draft_version := v\<rparr>) (t_revisions s)\<rparr>))"

section \<open>Operations on drafts\<close>

definition create_request :: "codec \<Rightarrow> string \<Rightarrow> cell_spec \<Rightarrow> json" where
  "create_request c i cell = JObject [(''cell'', cell_json c cell), (''id'', JString i)]"

definition create_draft ::
  "codec \<Rightarrow> string \<Rightarrow> string \<Rightarrow> string \<Rightarrow> cell_spec \<Rightarrow> string \<Rightarrow> draft sop" where
  "create_draft c workspace actor i cell key =
     bind_op (read_op (authorize workspace actor CellCreate)) (\<lambda>_.
     bind_op (read_op (idempotent_response c draft_body workspace actor key ''cell.create''
                (create_request c i cell))) (\<lambda>previous.
     case previous of
       Some response \<Rightarrow> return_op response
     | None \<Rightarrow>
         let d = \<lparr>dr_id = i, dr_workspace = workspace, dr_version = 1, dr_cell = cell\<rparr>
         in bind_op (tx_op (insert_draft workspace i cell)) (\<lambda>inserted.
            if \<not> inserted then fail_op (ConflictError ''draft'' i)
            else bind_op (tx_op (record_idempotency c workspace actor key ''cell.create''
                   (create_request c i cell) (DraftBody d))) (\<lambda>_. return_op d))))"

definition read_draft :: "string \<Rightarrow> string \<Rightarrow> string \<Rightarrow> draft sop" where
  "read_draft workspace actor i =
     bind_op (read_op (authorize workspace actor CellRead)) (\<lambda>_.
       read_op (read_draft_unchecked workspace i))"

definition edit_request :: "codec \<Rightarrow> string \<Rightarrow> u64 \<Rightarrow> cell_spec \<Rightarrow> json" where
  "edit_request c i expected cell =
     JObject [(''cell'', cell_json c cell), (''expectedVersion'', JNumber (uint expected)),
              (''id'', JString i)]"

definition edit_draft ::
  "codec \<Rightarrow> string \<Rightarrow> string \<Rightarrow> string \<Rightarrow> u64 \<Rightarrow> cell_spec \<Rightarrow> string \<Rightarrow> draft sop" where
  "edit_draft c workspace actor i expected cell key =
     bind_op (read_op (authorize workspace actor CellEdit)) (\<lambda>_.
     bind_op (read_op (idempotent_response c draft_body workspace actor key ''cell.edit''
                (edit_request c i expected cell))) (\<lambda>previous.
     case previous of
       Some response \<Rightarrow> return_op response
     | None \<Rightarrow>
         bind_op (tx_op (update_draft workspace i expected cell)) (\<lambda>changed.
         if \<not> changed
         then bind_op (read_op (read_draft_unchecked workspace i)) (\<lambda>current.
                fail_op (StaleDraft i expected (dr_version current)))
         else bind_op (read_op (read_draft_unchecked workspace i)) (\<lambda>d.
              bind_op (tx_op (record_idempotency c workspace actor key ''cell.edit''
                (edit_request c i expected cell) (DraftBody d))) (\<lambda>_. return_op d)))))"

definition clone_request :: "string \<Rightarrow> string \<Rightarrow> json" where
  "clone_request source target = JObject [(''source'', JString source), (''target'', JString target)]"

definition clone_draft ::
  "codec \<Rightarrow> string \<Rightarrow> string \<Rightarrow> string \<Rightarrow> string \<Rightarrow> string \<Rightarrow> draft sop" where
  "clone_draft c workspace actor source target key =
     bind_op (read_op (authorize workspace actor CellClone)) (\<lambda>_.
     bind_op (read_op (idempotent_response c draft_body workspace actor key ''cell.clone''
                (clone_request source target))) (\<lambda>previous.
     case previous of
       Some response \<Rightarrow> return_op response
     | None \<Rightarrow>
         bind_op (read_op (read_draft_unchecked workspace source)) (\<lambda>from.
         let d = \<lparr>dr_id = target, dr_workspace = workspace, dr_version = 1, dr_cell = dr_cell from\<rparr>
         in bind_op (tx_op (clone_into workspace target (dr_cell d))) (\<lambda>_.
            bind_op (tx_op (record_idempotency c workspace actor key ''cell.clone''
              (clone_request source target) (DraftBody d))) (\<lambda>_. return_op d)))))"

record draft_diff =
  df_from_version :: u64
  df_to_version :: u64
  df_added_components :: "string list"
  df_removed_components :: "string list"
  df_links_changed :: bool
  df_policy_changed :: bool

definition component_ids :: "cell_spec \<Rightarrow> string list" where
  "component_ids cell = sort (remdups (map c_id (components cell)))"

definition diff_drafts :: "string \<Rightarrow> string \<Rightarrow> string \<Rightarrow> string \<Rightarrow> draft_diff sop" where
  "diff_drafts workspace actor from to =
     bind_op (read_draft workspace actor from) (\<lambda>f.
     bind_op (read_draft workspace actor to) (\<lambda>t.
       let from_ids = component_ids (dr_cell f); to_ids = component_ids (dr_cell t)
       in return_op
         \<lparr>df_from_version = dr_version f, df_to_version = dr_version t,
          df_added_components = filter (\<lambda>i. i \<notin> set from_ids) to_ids,
          df_removed_components = filter (\<lambda>i. i \<notin> set to_ids) from_ids,
          df_links_changed = (links (dr_cell f) \<noteq> links (dr_cell t)),
          df_policy_changed = (policy (dr_cell f) \<noteq> policy (dr_cell t))\<rparr>))"

section \<open>Publication\<close>

definition publish_request :: "string \<Rightarrow> u64 \<Rightarrow> json" where
  "publish_request draft_id expected =
     JObject [(''draftId'', JString draft_id), (''expectedVersion'', JNumber (uint expected))]"

definition publication_digest :: "codec \<Rightarrow> string \<Rightarrow> cell_spec \<Rightarrow> resolved_lock \<Rightarrow> string" where
  "publication_digest c workspace cell lock =
     digest_json c (JArray [JString workspace, cell_json c cell, lock_json c lock])"

definition publish ::
  "codec \<Rightarrow> (config \<Rightarrow> string option) \<Rightarrow> (json \<Rightarrow> string) \<Rightarrow>
   (cell_spec \<Rightarrow> (cell_spec \<times> resolved_lock) option) \<Rightarrow>
   string \<Rightarrow> string \<Rightarrow> string \<Rightarrow> u64 \<Rightarrow> string \<Rightarrow> published_revision sop" where
  "publish c to_vec print catalog workspace actor draft_id expected key =
     bind_op (read_op (authorize workspace actor CellPublish)) (\<lambda>_.
     bind_op (read_op (idempotent_response c revision_body workspace actor key ''cell.publish''
                (publish_request draft_id expected))) (\<lambda>previous.
     case previous of
       Some response \<Rightarrow> return_op response
     | None \<Rightarrow>
         bind_op (read_op (read_draft_unchecked workspace draft_id)) (\<lambda>d.
         if dr_version d \<noteq> expected then fail_op (StaleDraft draft_id expected (dr_version d))
         else if \<not> rep_valid (validate_cell to_vec print (dr_cell d)) then fail_op ValidationError
         else case catalog (dr_cell d) of
                None \<Rightarrow> fail_op CatalogError
              | Some (effective, lock) \<Rightarrow>
                  let revision =
                        \<lparr>rv_workspace = workspace,
                         rv_digest = publication_digest c workspace effective lock,
                         rv_cell = effective, rv_lock = lock\<rparr>
                  in bind_op (tx_op (insert_revision workspace draft_id (dr_version d) revision))
                       (\<lambda>_.
                     bind_op (tx_op (record_idempotency c workspace actor key ''cell.publish''
                       (publish_request draft_id expected) (RevisionBody revision)))
                       (\<lambda>_. return_op revision)))))"

definition read_revision :: "string \<Rightarrow> string \<Rightarrow> string \<Rightarrow> published_revision sop" where
  "read_revision workspace actor digest =
     bind_op (read_op (authorize workspace actor CellRead)) (\<lambda>_.
       read_op (revision_unchecked workspace digest))"

end
