(* ===== verification/Store_Steps.thy ===== *)
theory Store_Steps
  imports Store_Operations Store_Drafts
begin

text \<open>
  The store one atomic write at a time. \<open>store_step\<close> lists the statements and transactions the
  operations are made of, each with the facts its callers have established; any number of
  connections interleave them. Every operation is a path of these steps, so what is proved of a
  step holds of every interleaving, and of a crash between two of them.
\<close>

section \<open>Receipts and their readers\<close>

text \<open>The response each operation records, which is the one its retry parses.\<close>

fun fits :: "string \<Rightarrow> receipt_body \<Rightarrow> bool" where
  "fits operation (DraftBody _) \<longleftrightarrow> operation \<in> {''cell.create'', ''cell.edit'', ''cell.clone''}"
| "fits operation (RevisionBody _) \<longleftrightarrow> operation = ''cell.publish''"
| "fits operation (InstanceBody _) \<longleftrightarrow> operation = ''cell.materialize''"
| "fits operation (ExperimentBody _) \<longleftrightarrow> operation \<in> {''experiment.create'', ''experiment.close''}"
| "fits operation (SessionBody _) \<longleftrightarrow> operation = ''session.start''"
| "fits operation (OperationBody _) \<longleftrightarrow> operation = ''cell.operation.create''"
| "fits operation (GrantBody _) \<longleftrightarrow> operation = ''private_access.issue''"
| "fits operation (PlanBody _) \<longleftrightarrow> operation = ''cell.update''"

section \<open>Atomic steps\<close>

inductive store_step :: "codec \<Rightarrow> store \<Rightarrow> store \<Rightarrow> bool" for c :: codec where
  put_workspace: "put_workspace w name s = Inr (x, s') \<Longrightarrow> store_step c s s'"
| put_principal: "put_principal actor s = Inr (x, s') \<Longrightarrow> store_step c s s'"
| grant: "grant_capability w actor cap s = Inr (x, s') \<Longrightarrow> store_step c s s'"
| revoke: "revoke_capability w actor cap s = Inr (x, s') \<Longrightarrow> store_step c s s'"
| replace: "replace_grants w actor caps s = Inr (x, s') \<Longrightarrow> store_step c s s'"
| receipt: "record_idempotency c w actor key operation request body s = Inr (x, s') \<Longrightarrow>
     operation \<noteq> ''cell.operation.create'' \<Longrightarrow> operation_body body = None \<Longrightarrow>
     plan_body body = None \<Longrightarrow> fits operation body \<Longrightarrow> store_step c s s'"
| insert_draft: "insert_draft w i cell s = Inr (b, s') \<Longrightarrow> store_step c s s'"
| clone_into: "clone_into w i cell s = Inr (x, s') \<Longrightarrow> store_step c s s'"
| update_draft: "update_draft w i version cell s = Inr (b, s') \<Longrightarrow> store_step c s s'"
| insert_revision: "insert_revision w i version r s = Inr (x, s') \<Longrightarrow> rv_workspace r = w \<Longrightarrow>
     store_step c s s'"
| reserve: "reserve_tx c nonce w actor name config_digest s = Inr (h, s') \<Longrightarrow> store_step c s s'"
| set_phase: "set_phase_tx w actor name generation phase s = Inr (x, s') \<Longrightarrow>
     phase \<noteq> HandleOpen \<Longrightarrow> store_step c s s'"
| insert_instance: "insert_instance row s = Inr (b, s') \<Longrightarrow> store_step c s s'"
| plan_use: "record_plan_use x plan s = Inr (y, s') \<Longrightarrow> store_step c s s'"
| bind_runtime: "bind_runtime x binding s = Inr (y, s') \<Longrightarrow> store_step c s s'"
| insert_experiment: "insert_experiment w i inst owner now s = Inr (b, s') \<Longrightarrow> store_step c s s'"
| ensure_run: "ensure_run_tx c now w actor inst i s = Inr (x, s') \<Longrightarrow> store_step c s s'"
| close_run: "close_run_tx now w i s = Inr (x, s') \<Longrightarrow> store_step c s s'"
| track: "track_tx c now w actor run i requested ctx j s = Inr (x, s') \<Longrightarrow>
     bt_get (t_experiments s) (w, i) = Some e \<Longrightarrow> ex_instance e = ex_instance run \<Longrightarrow>
     store_step c s s'"
| finish_session: "finish_session_stmt now w i s = Inr (x, s') \<Longrightarrow> store_step c s s'"
| finish_cell: "finish_cell_stmt now w inst s = Inr (x, s') \<Longrightarrow> store_step c s s'"
| save_plan: "save_plan_stmt w i p s = Inr (q, s') \<Longrightarrow> store_step c s s'"
| accept: "accept_tx c now w actor p new key s = Inr (x, s') \<Longrightarrow>
     rv_digest new = pl_target_revision p \<Longrightarrow> store_step c s s'"
| mark_applied: "mark_applied_tx w i g converged s = Inr (x, s') \<Longrightarrow> store_step c s s'"
| mark_closing: "close_stmt w i s = Inr (x, s') \<Longrightarrow> store_step c s s'"
| admit: "admission_tx c now q s = Inr (op, s') \<Longrightarrow>
     bt_get (t_sessions s) (aq_workspace q, aq_session q) = Some y \<Longrightarrow>
     se_principal y = aq_actor q \<Longrightarrow> se_experiment y = aq_experiment q \<Longrightarrow> store_step c s s'"
| result: "result_tx now w i phase af sess s = Inr (x, s') \<Longrightarrow> \<not> op_active phase \<Longrightarrow>
     unat (af_byte_length af) \<le> MAX_ARTIFACT_BYTES \<Longrightarrow> store_step c s s'"
| running: "running_stmt now w i s = Inr (x, s') \<Longrightarrow> store_step c s s'"
| private_grant: "insert_private_grant g s = Inr (x, s') \<Longrightarrow> store_step c s s'"
| private_revoke: "revoke_stmt w i g s = Inr (x, s') \<Longrightarrow> store_step c s s'"

inductive_cases store_stepE: "store_step c s s'"

definition store_reachable :: "codec \<Rightarrow> store \<Rightarrow> bool" where
  "store_reachable c s \<longleftrightarrow> (store_step c)\<^sup>*\<^sup>* empty_store s"

lemma store_reachable_star:
  "store_reachable c s \<Longrightarrow> (store_step c)\<^sup>*\<^sup>* s s' \<Longrightarrow> store_reachable c s'"
  unfolding store_reachable_def by (rule rtranclp_trans)

section \<open>What holds along a path\<close>

text \<open>The contract of a fact steps keep, and of a quantity they never lower.\<close>

locale kept_fact =
  fixes step :: "'s \<Rightarrow> 's \<Rightarrow> bool" and fact :: "'s \<Rightarrow> bool"
  assumes kept: "step s s' \<Longrightarrow> fact s \<Longrightarrow> fact s'"
begin

lemma kept_star: "step\<^sup>*\<^sup>* s s' \<Longrightarrow> fact s \<Longrightarrow> fact s'"
  by (induction rule: rtranclp_induct) (auto intro: kept)

end

locale rising =
  fixes step :: "'s \<Rightarrow> 's \<Rightarrow> bool" and inv :: "'s \<Rightarrow> bool" and below :: "'s \<Rightarrow> 's \<Rightarrow> bool"
  assumes inv_step: "step s s' \<Longrightarrow> inv s \<Longrightarrow> inv s'"
    and rise: "step s s' \<Longrightarrow> inv s \<Longrightarrow> below s s'"
    and below_refl: "below s s"
    and below_trans: "below s t \<Longrightarrow> below t u \<Longrightarrow> below s u"
begin

sublocale invariant: kept_fact step inv
  by unfold_locales (rule inv_step)

lemma rise_star: "step\<^sup>*\<^sup>* s s' \<Longrightarrow> inv s \<Longrightarrow> below s s'"
proof (induction rule: rtranclp_induct)
  case base
  show ?case by (rule below_refl)
next
  case (step t u)
  have "inv t" using step.hyps(1) step.prems by (rule invariant.kept_star)
  then show ?case using step.IH step.prems rise [OF step.hyps(2)] by (blast intro: below_trans)
qed

end

end
