(* ===== verification/Store_Changes.thy ===== *)
theory Store_Changes
  imports Store_Steps
begin

text \<open>
  What each transaction changes, as elimination rules, and from them what a step can do to one
  table: the journal of operations, the runs, the sessions, the names, the instances with their
  generations and updates, and the receipts. An invariant of a table is proved from its rule.
\<close>

section \<open>Admission\<close>


lemma admit_operation_Inr:
  "admit_operation w i operation request kind s = Inr (digest, s') \<longleftrightarrow>
     (\<exists>u row. state_of w i s = Inr u \<and> \<not> us_closing u
        \<and> \<not> list_ex (\<lambda>p. kind \<noteq> OpComponentLogs \<and> references request (affected p))
            (pending_plans w i (us_applied u) s)
        \<and> bt_get (t_instances s) (w, i) = Some row
        \<and> digest = the_default (in_revision row) (bt_get (t_operation_revisions s) (w, operation))
        \<and> s' = s\<lparr>t_operation_revisions :=
             insert_or_ignore (w, operation) (in_revision row) (t_operation_revisions s)\<rparr>)"
  by (auto simp: admit_operation_def and_then_Inr_iff Let_def bt_get_insert_or_ignore
      split: if_splits option.splits)

lemma last_sequence_cong: "t_actions s = t_actions s' \<Longrightarrow> last_sequence w i s = last_sequence w i s'"
  by (simp add: last_sequence_def cell_actions_def)

lemma state_of_cong: "t_update_state s = t_update_state s' \<Longrightarrow> state_of w i s = state_of w i s'"
  by (simp add: state_of_def)

lemma pending_plans_cong:
  "t_updates s = t_updates s' \<Longrightarrow> pending_plans w i g s = pending_plans w i g s'"
  by (simp add: pending_plans_def updates_of_def)

definition admitted :: "codec \<Rightarrow> int \<Rightarrow> operation_request \<Rightarrow> store \<Rightarrow> cell_operation \<Rightarrow> store \<Rightarrow> bool" where
  "admitted c now q s op s' \<longleftrightarrow>
     (\<exists>u row. let w = aq_workspace q; i = aq_instance q; k = (w, aq_operation q);
                n = last_sequence w i s; a = new_action c now q (n + 1);
                digest = the_default (in_revision row) (bt_get (t_operation_revisions s) k)
      in 0 \<le> n + 1 \<and> n + 1 \<le> I64_MAX
         \<and> state_of w i s = Inr u \<and> \<not> us_closing u
         \<and> \<not> list_ex (\<lambda>p. aq_kind q \<noteq> OpComponentLogs \<and> references (aq_request q) (affected p))
             (pending_plans w i (us_applied u) s)
         \<and> bt_get (t_instances s) (w, i) = Some row
         \<and> aq_expected q \<in> {None, Some digest}
         \<and> action_unique a s
         \<and> bt_get (t_experiments s) (w, aq_experiment q) \<noteq> None
         \<and> bt_get (t_sessions s) (w, aq_session q) \<noteq> None
         \<and> bt_get (t_idempotency s) (w, aq_actor q, aq_key q) = None
         \<and> op = with_revision digest a
         \<and> s' = s\<lparr>t_sessions := set_at (w, aq_session q) (touch_session now) (t_sessions s),
                  t_operation_revisions :=
                    insert_or_ignore k (in_revision row) (t_operation_revisions s),
                  t_actions := bt_insert k a (t_actions s),
                  t_idempotency := bt_insert (w, aq_actor q, aq_key q)
                    \<lparr>rc_operation = ''cell.operation.create'',
                     rc_hash = digest_json c (operation_envelope q),
                     rc_response = OperationBody op\<rparr> (t_idempotency s)\<rparr>)"

lemma insert_action_Inr:
  "insert_action a s = Inr (x, s') \<longleftrightarrow> action_unique a s
     \<and> bt_get (t_instances s) (ac_workspace a, ac_instance a) \<noteq> None
     \<and> bt_get (t_experiments s) (ac_workspace a, ac_experiment a) \<noteq> None
     \<and> bt_get (t_sessions s) (ac_workspace a, ac_session a) \<noteq> None
     \<and> s' = s\<lparr>t_actions := bt_insert (ac_workspace a, ac_id a) a (t_actions s)\<rparr>"
  by (auto simp: insert_action_def bt_contains_key_def)

lemma new_action_simps [simp]:
  "ac_workspace (new_action c now q n) = aq_workspace q"
  "ac_id (new_action c now q n) = aq_operation q"
  "ac_instance (new_action c now q n) = aq_instance q"
  "ac_experiment (new_action c now q n) = aq_experiment q"
  "ac_session (new_action c now q n) = aq_session q"
  "ac_principal (new_action c now q n) = aq_actor q"
  "ac_sequence (new_action c now q n) = n"
  "ac_kind (new_action c now q n) = aq_kind q"
  "ac_request (new_action c now q n) = aq_request q"
  "ac_phase (new_action c now q n) = OpPending"
  "ac_artifact (new_action c now q n) = None"
  "ac_completed (new_action c now q n) = None"
  by (simp_all add: new_action_def)

lemma action_unique_cong: "t_actions s = t_actions s' \<Longrightarrow> action_unique a s = action_unique a s'"
  by (simp add: action_unique_def)

lemma admit_new_Inr:
  assumes "admit_new c now q s = Inr (op, s')"
  shows "admitted c now q s op s'"
proof -
  let ?w = "aq_workspace q" and ?i = "aq_instance q"
  let ?s1 = "s\<lparr>t_sessions := set_at (?w, aq_session q) (touch_session now) (t_sessions s)\<rparr>"
  let ?n = "last_sequence ?w ?i s"
  have n: "last_sequence ?w ?i ?s1 = ?n" by (rule last_sequence_cong) simp
  let ?a = "new_action c now q (?n + 1)"
  have bounds: "0 \<le> ?n + 1" "?n + 1 \<le> I64_MAX"
    using assms by (auto simp: admit_new_def Let_def n split: if_splits)
  from assms obtain digest s2 s3 s4 where
    adm: "admit_operation ?w ?i (aq_operation q) (aq_request q) (aq_kind q) ?s1 = Inr (digest, s2)"
    and e: "aq_expected q \<in> {None, Some digest}"
    and op: "op = with_revision digest ?a"
    and ins: "insert_action ?a s2 = Inr ((), s3)"
    and rec: "record_idempotency c ?w (aq_actor q) (aq_key q) ''cell.operation.create''
              (operation_envelope q) (OperationBody op) s3 = Inr ((), s4)"
    and s': "s' = s4"
    by (auto simp: admit_new_def Let_def n and_then_Inr_iff split: if_splits option.splits)
  from adm obtain u row where
    checks: "state_of ?w ?i s = Inr u" "\<not> us_closing u"
      "\<not> list_ex (\<lambda>p. aq_kind q \<noteq> OpComponentLogs \<and> references (aq_request q) (affected p))
             (pending_plans ?w ?i (us_applied u) s)"
      "bt_get (t_instances s) (?w, ?i) = Some row"
      "digest = the_default (in_revision row)
         (bt_get (t_operation_revisions s) (?w, aq_operation q))"
      "s2 = ?s1\<lparr>t_operation_revisions :=
         insert_or_ignore (?w, aq_operation q) (in_revision row) (t_operation_revisions s)\<rparr>"
    by (auto simp: admit_operation_Inr state_of_cong [of ?s1 s] pending_plans_cong [of ?s1 s])
  have uniq: "action_unique ?a s2 = action_unique ?a s"
    using checks(6) by (intro action_unique_cong) simp
  have new: "action_unique ?a s" using ins uniq by (simp add: insert_action_Inr)
  show ?thesis
    unfolding admitted_def Let_def using bounds checks e op ins rec s' new
    by (intro exI [of _ u] exI [of _ row])
      (auto simp: insert_action_Inr record_idempotency_Inr bt_get_set_at)
qed


text \<open>The three ways an admission transaction ends well.\<close>

lemma admission_Inr:
  assumes "admission_tx c now q s = Inr (op, s')"
  obtains
    (replay) previous where
      "idempotent_response c operation_body (aq_workspace q) (aq_actor q) (aq_key q)
         ''cell.operation.create'' (operation_envelope q) s = Inr (Some previous)"
      "operation_from (aq_workspace q) (ac_id previous) s = Inr op" "s' = s"
  | (known)
      "idempotent_response c operation_body (aq_workspace q) (aq_actor q) (aq_key q)
         ''cell.operation.create'' (operation_envelope q) s = Inr None"
      "operation_from (aq_workspace q) (aq_operation q) s = Inr op" "same_operation c q op"
      "record_idempotency c (aq_workspace q) (aq_actor q) (aq_key q) ''cell.operation.create''
         (operation_envelope q) (OperationBody op) s = Inr ((), s')"
  | (fresh)
      "idempotent_response c operation_body (aq_workspace q) (aq_actor q) (aq_key q)
         ''cell.operation.create'' (operation_envelope q) s = Inr None"
      "bt_get (t_actions s) (aq_workspace q, aq_operation q) = None"
      "run_open (aq_workspace q) (aq_experiment q) (aq_instance q) s"
      "first_handle_phase (aq_workspace q) (aq_instance q) s \<in> {None, Some HandleOpen}"
      "admitted c now q s op s'"
proof -
  have none: "bt_get (t_actions s) (w, i) = None"
    if "operation_from w i s = Inl (NotFound x y)" for w i x y
    using that by (auto simp: operation_from_def split: option.splits if_splits)
  let ?r = "idempotent_response c operation_body (aq_workspace q) (aq_actor q) (aq_key q)
     ''cell.operation.create'' (operation_envelope q) s"
  from assms obtain previous where p: "?r = Inr previous"
    by (auto simp: admission_tx_def Let_def and_then_Inr_iff)
  show thesis
  proof (cases previous)
    case (Some x)
    then have "operation_from (aq_workspace q) (ac_id x) s = Inr op" "s' = s"
      using assms p by (auto simp: admission_tx_def Let_def and_then_def split: sum.splits)
    then show thesis using p Some by (intro replay) auto
  next
    case None
    show thesis
    proof (cases "operation_from (aq_workspace q) (aq_operation q) s")
      case (Inr existing)
      then have "same_operation c q existing" "existing = op"
        "record_idempotency c (aq_workspace q) (aq_actor q) (aq_key q) ''cell.operation.create''
           (operation_envelope q) (OperationBody existing) s = Inr ((), s')"
        using assms p None
        by (auto simp: admission_tx_def Let_def and_then_def split: sum.splits if_splits)
      then show thesis using p None Inr by (intro known) auto
    next
      case (Inl e)
      then obtain x y where e: "e = NotFound x y"
        using assms p None
        by (cases e) (simp_all add: admission_tx_def Let_def and_then_def)
      have "run_open (aq_workspace q) (aq_experiment q) (aq_instance q) s"
        "first_handle_phase (aq_workspace q) (aq_instance q) s \<in> {None, Some HandleOpen}"
        "admit_new c now q s = Inr (op, s')"
        using assms p None Inl e
        by (auto simp: admission_tx_def Let_def and_then_def split: if_splits option.splits)
      then show thesis
        using p None none [OF Inl [unfolded e]] by (intro fresh) (auto intro: admit_new_Inr)
    qed
  qed
qed


section \<open>The other transactions\<close>

lemma accept_Inr:
  assumes "accept_tx c now w actor p new key s = Inr (x, s')"
  obtains
    (same) "bt_get (t_idempotency s) (w, actor, key) \<noteq> None" "s' = s"
  | (noop) "is_noop p" "bt_get (t_idempotency s) (w, actor, key) = None"
      "s' = s\<lparr>t_idempotency := bt_insert (w, actor, key)
         \<lparr>rc_operation = ''cell.update'', rc_hash = digest_json c (plan_json p),
          rc_response = PlanBody p\<rparr> (t_idempotency s)\<rparr>"
  | (applied) row u s1 where
      "bt_get (t_instances s) (w, ut_instance (pl_target p)) = Some row"
      "in_key row = pl_instance_key p" "in_revision row = pl_base_revision p"
      "state_of w (ut_instance (pl_target p)) s = Inr u" "\<not> us_closing u"
      "us_generation u = uint (ut_expected_generation (pl_target p))"
      "us_generation u + 1 \<le> I64_MAX" "\<not> is_noop p"
      "\<not> active_conflicts w (ut_instance (pl_target p)) (affected p) s"
      "\<not> retained_conflict w p new s"
      "bt_get (t_idempotency s) (w, actor, key) = None"
      "apply_update c now w actor key p new (us_generation u + 1) s = Inr s1"
      "s' = s1\<lparr>t_idempotency := bt_insert (w, actor, key)
         \<lparr>rc_operation = ''cell.update'', rc_hash = digest_json c (plan_json p),
          rc_response = PlanBody p\<rparr> (t_idempotency s1)\<rparr>"
proof (cases "bt_get (t_idempotency s) (w, actor, key)")
  case None
  from assms obtain row where row:
    "bt_get (t_instances s) (w, ut_instance (pl_target p)) = Some row"
    "in_key row = pl_instance_key p"
    by (auto simp: accept_tx_def Let_def split: option.splits if_splits)
  from assms None row obtain u where u: "state_of w (ut_instance (pl_target p)) s = Inr u"
    by (auto simp: accept_tx_def Let_def and_then_Inr_iff)
  note facts = assms None row u
  have checks: "\<not> us_closing u" "us_generation u = uint (ut_expected_generation (pl_target p))"
    "in_revision row = pl_base_revision p"
    using facts by (auto simp: accept_tx_def Let_def and_then_def split: if_splits)
  show thesis
  proof (cases "is_noop p")
    case True
    then show thesis using facts checks noop
      by (auto simp: accept_tx_def Let_def and_then_def record_update_receipt_def
          record_idempotency_Inr)
  next
    case False
    then obtain s1 where
      "apply_update c now w actor key p new (us_generation u + 1) s = Inr s1"
      "record_update_receipt c w actor key p s1 = Inr (x, s')"
      using facts checks
      by (auto simp: accept_tx_def Let_def and_then_def split: if_splits sum.splits)
    then show thesis using False facts checks
      by (intro applied [of row u s1]) (auto simp: accept_tx_def Let_def and_then_def
          record_update_receipt_def record_idempotency_Inr split: if_splits sum.splits)
  qed
next
  case (Some r)
  then show thesis using assms same
    by (auto simp: accept_tx_def Let_def split: option.splits if_splits)
qed

lemma apply_update_Inr:
  "apply_update c now w actor key p new g s = Inr s1 \<longleftrightarrow>
     \<not> list_ex (\<lambda>((v, _, _), u). v = w \<and> au_principal u = actor \<and> au_key u = key) (t_updates s)
     \<and> bt_get (t_updates s) (w, ut_instance (pl_target p), g) = None
     \<and> s1 = s\<lparr>t_updates := bt_insert (w, ut_instance (pl_target p), g)
                \<lparr>au_principal = actor, au_key = key, au_plan = p, au_accepted = now\<rparr> (t_updates s),
          t_update_state := bt_insert (w, ut_instance (pl_target p))
            (set_generation g (bt_get (t_update_state s) (w, ut_instance (pl_target p))))
            (t_update_state s),
          t_instances := set_at (w, ut_instance (pl_target p))
            (\<lambda>r. r\<lparr>in_revision := rv_digest new, in_lock := lk_digest (rv_lock new)\<rparr>) (t_instances s),
          t_handles := update_where (\<lambda>(v, _) h. v = w \<and> ch_instance h = ut_instance (pl_target p))
            (\<lambda>h. h\<lparr>ch_config_digest := digest_json c (cell_json c (rv_cell new))\<rparr>) (t_handles s),
          t_retained := fold (\<lambda>y. List.insert (w, ut_instance (pl_target p), y))
            (cg_removed (pl_changes p)) (t_retained s)\<rparr>"
  by (auto simp: apply_update_def Let_def and_then_Inr_iff insert_new_Inr)

lemma grant_loop_frame:
  "grant_loop w actor caps s = Inr s' \<Longrightarrow> \<exists>g. s' = s\<lparr>t_grants := g\<rparr>"
proof (induction caps arbitrary: s)
  case Nil
  then have "s' = s\<lparr>t_grants := t_grants s\<rparr>" by simp
  then show ?case by blast
next
  case (Cons cap caps)
  then show ?case
    by (fastforce simp: and_then_Inr_iff grant_capability_def split: if_splits)
qed

lemma replace_grants_frame:
  "replace_grants w actor caps s = Inr (x, s') \<Longrightarrow> \<exists>g. s' = s\<lparr>t_grants := g\<rparr>"
  by (auto simp: replace_grants_def and_then_Inr_iff dest!: grant_loop_frame)

lemma insert_experiment_Inr:
  "insert_experiment w i inst owner now s = Inr (b, s') \<longleftrightarrow>
     (bt_get (t_experiments s) (w, i) \<noteq> None \<and> \<not> b \<and> s' = s
      \<or> bt_get (t_experiments s) (w, i) = None \<and> b \<and> has_workspace s w \<and> has_principal s owner
        \<and> bt_get (t_instances s) (w, inst) \<noteq> None
        \<and> s' = s\<lparr>t_experiments := bt_insert (w, i)
             \<lparr>ex_id = i, ex_workspace = w, ex_instance = inst, ex_owner = owner,
              ex_phase = RunActive, ex_created = now, ex_closed = None\<rparr> (t_experiments s)\<rparr>)"
  by (auto simp: insert_experiment_def bt_contains_key_def)

lemma ensure_run_Inr:
  assumes "ensure_run_tx c now w actor inst i s = Inr (x, s')"
  obtains row ordinal b s1 where
    "bt_get (t_instances s) (w, inst) = Some row"
    "next_run c w (in_key row) actor s = Inr (ordinal, i)"
    "\<not> handle_not_open w inst s" "\<not> marked_closing w inst s"
    "insert_experiment w i inst actor now s = Inr (b, s1)"
    "s' = s1\<lparr>t_automatic_runs := bt_insert (w, in_key row, actor) (ordinal, i) (t_automatic_runs s1)\<rparr>"
  using assms
  by (auto simp: ensure_run_tx_def and_then_Inr_iff split: option.splits if_splits)

lemma close_run_Inr:
  assumes "close_run_tx now w i s = Inr (x, s')"
  obtains e row r where
    "\<not> run_has_active w i s" "bt_get (t_experiments s) (w, i) = Some e"
    "bt_get (t_instances s) (w, ex_instance e) = Some row"
    "revision_unchecked w (in_revision row) s = Inr r"
    "s' = s\<lparr>t_run_seals := insert_or_ignore (w, i)
               (with_generation (generation_of w (ex_instance e) s) row, r) (t_run_seals s),
            t_experiments := bt_insert (w, i) (close_run_row now e) (t_experiments s)\<rparr>"
  using assms
  by (auto simp: close_run_tx_def and_then_Inr_iff generation_column_def
      split: option.splits if_splits sum.splits)

lemma track_Inr:
  assumes "track_tx c now w actor run i requested ctx j s = Inr (x, s')"
  obtains
    (continued) "track_target c w actor i requested ctx s (Suc (length (t_sessions s))) 0 j
        = Some (Inl x)" "s' = s"
  | (opened) k where
      "track_target c w actor i requested ctx s (Suc (length (t_sessions s))) 0 j = Some (Inr k)"
      "bt_get (t_experiments s) (w, i) \<noteq> None"
      "x = \<lparr>se_id = k, se_workspace = w, se_experiment = i, se_instance = ex_instance run,
            se_principal = actor, se_phase = SessionActive, se_started = now,
            se_last_activity = now, se_finished = None\<rparr>"
      "s' = s\<lparr>t_sessions := bt_insert (w, k) x (t_sessions s)\<rparr>"
  using assms
  by (auto simp: track_tx_def Let_def bt_contains_key_def
      split: option.splits sum.splits if_splits)

lemma mark_applied_Inr:
  assumes "mark_applied_tx w i g converged s = Inr (x, s')"
  obtains "s' = s"
  | u where "state_of w i s = Inr u" "us_generation u = uint g"
      "s' = s\<lparr>t_retained := filter (\<lambda>(v, j, y). \<not> (v = w \<and> j = i
                  \<and> y \<in> set (pending_deleted w i (us_applied u) s))) (t_retained s),
              t_update_state := set_at (w, i)
                (\<lambda>v. if us_generation v = uint g
                   then v\<lparr>us_applied := max (us_applied v) (uint g),
                          us_converged := (case converged of
                             None \<Rightarrow> us_converged v | Some r \<Rightarrow> Some r)\<rparr>
                   else v) (t_update_state s)\<rparr>"
  using assms by (auto simp: mark_applied_tx_def and_then_Inr_iff Let_def split: if_splits)

section \<open>Frames\<close>

text \<open>A transaction writes the tables it names and no other.\<close>

named_theorems frames

lemma put_workspace_frame [frames]:
  "put_workspace w name s = Inr (y, s') \<Longrightarrow> \<exists>t. s' = s\<lparr>t_workspaces := t\<rparr>"
  by (rule exI [of _ "t_workspaces s'"]) (auto simp: put_workspace_def split: if_splits option.splits sum.splits)

lemma put_principal_frame [frames]:
  "put_principal actor s = Inr (y, s') \<Longrightarrow> \<exists>t. s' = s\<lparr>t_principals := t\<rparr>"
  by (rule exI [of _ "t_principals s'"]) (auto simp: put_principal_def split: if_splits option.splits sum.splits)

lemma grant_capability_frame [frames]:
  "grant_capability w actor cap s = Inr (y, s') \<Longrightarrow> \<exists>t. s' = s\<lparr>t_grants := t\<rparr>"
  by (rule exI [of _ "t_grants s'"]) (auto simp: grant_capability_def split: if_splits option.splits sum.splits)

lemma revoke_capability_frame [frames]:
  "revoke_capability w actor cap s = Inr (y, s') \<Longrightarrow> \<exists>t. s' = s\<lparr>t_grants := t\<rparr>"
  by (rule exI [of _ "t_grants s'"]) (auto simp: revoke_capability_def split: if_splits option.splits sum.splits)

lemma record_idempotency_frame [frames]:
  "record_idempotency c w actor key operation request body s = Inr (y, s') \<Longrightarrow> \<exists>t. s' = s\<lparr>t_idempotency := t\<rparr>"
  by (rule exI [of _ "t_idempotency s'"]) (auto simp: record_idempotency_Inr split: if_splits option.splits sum.splits)

lemma insert_draft_frame [frames]:
  "insert_draft w i cell s = Inr (y, s') \<Longrightarrow> \<exists>t. s' = s\<lparr>t_drafts := t\<rparr>"
  by (rule exI [of _ "t_drafts s'"]) (auto simp: insert_draft_def split: if_splits option.splits sum.splits)

lemma clone_into_frame [frames]:
  "clone_into w i cell s = Inr (y, s') \<Longrightarrow> \<exists>t. s' = s\<lparr>t_drafts := t\<rparr>"
  by (rule exI [of _ "t_drafts s'"]) (auto simp: clone_into_def insert_draft_def and_then_Inr_iff split: if_splits option.splits sum.splits)

lemma update_draft_frame [frames]:
  "update_draft w i version cell s = Inr (y, s') \<Longrightarrow> \<exists>t. s' = s\<lparr>t_drafts := t\<rparr>"
  by (rule exI [of _ "t_drafts s'"]) (auto simp: update_draft_def and_then_Inr_iff split: if_splits option.splits sum.splits)

lemma insert_revision_frame [frames]:
  "insert_revision w i version r s = Inr (y, s') \<Longrightarrow> \<exists>t. s' = s\<lparr>t_revisions := t\<rparr>"
  by (rule exI [of _ "t_revisions s'"]) (auto simp: insert_revision_def and_then_Inr_iff split: if_splits option.splits sum.splits)

lemma reserve_frame [frames]:
  "reserve_tx c nonce w actor name digest s = Inr (y, s') \<Longrightarrow> \<exists>t. s' = s\<lparr>t_handles := t\<rparr>"
  by (rule exI [of _ "t_handles s'"]) (auto simp: reserve_tx_def and_then_Inr_iff Let_def split: if_splits option.splits sum.splits)

lemma set_phase_frame [frames]:
  "set_phase_tx w actor name g phase s = Inr (y, s') \<Longrightarrow> \<exists>t. s' = s\<lparr>t_handles := t\<rparr>"
  by (rule exI [of _ "t_handles s'"]) (auto simp: set_phase_tx_def split: if_splits option.splits sum.splits)

lemma insert_instance_frame [frames]:
  "insert_instance row s = Inr (y, s') \<Longrightarrow> \<exists>t. s' = s\<lparr>t_instances := t\<rparr>"
  by (rule exI [of _ "t_instances s'"]) (auto simp: insert_instance_def split: if_splits option.splits sum.splits)

lemma plan_use_frame [frames]:
  "record_plan_use x plan s = Inr (y, s') \<Longrightarrow> \<exists>t. s' = s\<lparr>t_plan_uses := t\<rparr>"
  by (rule exI [of _ "t_plan_uses s'"]) (auto simp: record_plan_use_def and_then_Inr_iff split: if_splits option.splits sum.splits)

lemma bind_runtime_frame [frames]:
  "bind_runtime x b s = Inr (y, s') \<Longrightarrow> \<exists>t. s' = s\<lparr>t_runtime_bindings := t\<rparr>"
  by (rule exI [of _ "t_runtime_bindings s'"]) (auto simp: bind_runtime_def and_then_Inr_iff Let_def split: if_splits option.splits sum.splits)

lemma insert_experiment_frame [frames]:
  "insert_experiment w i inst owner now s = Inr (y, s') \<Longrightarrow> \<exists>t. s' = s\<lparr>t_experiments := t\<rparr>"
  by (rule exI [of _ "t_experiments s'"]) (auto simp: insert_experiment_def split: if_splits option.splits sum.splits)

lemma finish_session_frame [frames]:
  "finish_session_stmt now w i s = Inr (y, s') \<Longrightarrow> \<exists>t. s' = s\<lparr>t_sessions := t\<rparr>"
  by (rule exI [of _ "t_sessions s'"]) (auto simp: finish_session_stmt_def split: if_splits option.splits sum.splits)

lemma finish_cell_frame [frames]:
  "finish_cell_stmt now w inst s = Inr (y, s') \<Longrightarrow> \<exists>t. s' = s\<lparr>t_sessions := t\<rparr>"
  by (rule exI [of _ "t_sessions s'"]) (auto simp: finish_cell_stmt_def split: if_splits option.splits sum.splits)

lemma track_frame [frames]:
  "track_tx c now w actor run i requested ctx j s = Inr (y, s') \<Longrightarrow> \<exists>t. s' = s\<lparr>t_sessions := t\<rparr>"
  by (rule exI [of _ "t_sessions s'"]) (auto simp: track_tx_def Let_def split: if_splits option.splits sum.splits)

lemma save_plan_frame [frames]:
  "save_plan_stmt w i p s = Inr (y, s') \<Longrightarrow> \<exists>t. s' = s\<lparr>t_update_plans := t\<rparr>"
  by (rule exI [of _ "t_update_plans s'"]) (auto simp: save_plan_stmt_def Let_def split: if_splits option.splits sum.splits)

lemma close_stmt_frame [frames]:
  "close_stmt w i s = Inr (y, s') \<Longrightarrow> \<exists>t. s' = s\<lparr>t_update_state := t\<rparr>"
  by (rule exI [of _ "t_update_state s'"]) (auto simp: close_stmt_def split: if_splits option.splits sum.splits)

lemma running_frame [frames]:
  "running_stmt now w i s = Inr (y, s') \<Longrightarrow> \<exists>t. s' = s\<lparr>t_actions := t\<rparr>"
  by (rule exI [of _ "t_actions s'"]) (auto simp: running_stmt_def split: if_splits option.splits sum.splits)

lemma insert_private_frame [frames]:
  "insert_private_grant g s = Inr (y, s') \<Longrightarrow> \<exists>t. s' = s\<lparr>t_private_grants := t\<rparr>"
  by (rule exI [of _ "t_private_grants s'"]) (auto simp: insert_private_grant_def split: if_splits option.splits sum.splits)

lemma revoke_private_frame [frames]:
  "revoke_stmt w i g s = Inr (y, s') \<Longrightarrow> \<exists>t. s' = s\<lparr>t_private_grants := t\<rparr>"
  by (rule exI [of _ "t_private_grants s'"]) (auto simp: revoke_stmt_def split: if_splits option.splits sum.splits)

lemma replace_frame [frames]:
  "replace_grants w actor caps s = Inr (y, s') \<Longrightarrow> \<exists>t. s' = s\<lparr>t_grants := t\<rparr>"
  by (rule replace_grants_frame)

lemma ensure_run_frame [frames]:
  "ensure_run_tx c now w actor inst i s = Inr (y, s') \<Longrightarrow>
     \<exists>t u. s' = s\<lparr>t_experiments := t, t_automatic_runs := u\<rparr>"
  by (rule exI [of _ "t_experiments s'"], rule exI [of _ "t_automatic_runs s'"])
    (auto elim!: ensure_run_Inr simp: insert_experiment_Inr)

lemma close_run_frame [frames]:
  "close_run_tx now w i s = Inr (y, s') \<Longrightarrow>
     \<exists>t u. s' = s\<lparr>t_experiments := t, t_run_seals := u\<rparr>"
  by (rule exI [of _ "t_experiments s'"], rule exI [of _ "t_run_seals s'"])
    (auto elim!: close_run_Inr)

lemma mark_applied_frame [frames]:
  "mark_applied_tx w i g converged s = Inr (y, s') \<Longrightarrow>
     \<exists>t u. s' = s\<lparr>t_retained := t, t_update_state := u\<rparr>"
  by (rule exI [of _ "t_retained s'"], rule exI [of _ "t_update_state s'"])
    (auto elim!: mark_applied_Inr)

lemma result_frame [frames]:
  "result_tx now w i phase af sess s = Inr (y, s') \<Longrightarrow>
     \<exists>t u. s' = s\<lparr>t_actions := t, t_sessions := u\<rparr>"
  by (rule exI [of _ "t_actions s'"], rule exI [of _ "t_sessions s'"])
    (auto simp: result_tx_def split: option.splits if_splits)

lemma accept_frame [frames]:
  "accept_tx c now w actor p new key s = Inr (y, s') \<Longrightarrow>
     \<exists>a b d e f g. s' = s\<lparr>t_updates := a, t_update_state := b, t_instances := d, t_handles := e,
       t_retained := f, t_idempotency := g\<rparr>"
  by (rule exI [of _ "t_updates s'"], rule exI [of _ "t_update_state s'"],
      rule exI [of _ "t_instances s'"], rule exI [of _ "t_handles s'"],
      rule exI [of _ "t_retained s'"], rule exI [of _ "t_idempotency s'"])
    (auto elim!: accept_Inr simp: apply_update_Inr)

lemma admission_frame [frames]:
  "admission_tx c now q s = Inr (y, s') \<Longrightarrow>
     \<exists>a b d e. s' = s\<lparr>t_actions := a, t_operation_revisions := b, t_sessions := d,
       t_idempotency := e\<rparr>"
  by (rule exI [of _ "t_actions s'"], rule exI [of _ "t_operation_revisions s'"],
      rule exI [of _ "t_sessions s'"], rule exI [of _ "t_idempotency s'"])
    (auto elim!: admission_Inr simp: admitted_def Let_def record_idempotency_Inr)

section \<open>One table at a time\<close>


lemma actions_step:
  assumes "store_step c s s'"
  obtains
    (same) "t_actions s' = t_actions s" "t_operation_revisions s' = t_operation_revisions s"
  | (admitted) now q op y where "admitted c now q s op s'"
      "bt_get (t_actions s) (aq_workspace q, aq_operation q) = None"
      "run_open (aq_workspace q) (aq_experiment q) (aq_instance q) s"
      "first_handle_phase (aq_workspace q) (aq_instance q) s \<in> {None, Some HandleOpen}"
      "bt_get (t_sessions s) (aq_workspace q, aq_session q) = Some y"
      "se_principal y = aq_actor q" "se_experiment y = aq_experiment q"
  | (finished) k now phase af a where "bt_get (t_actions s) k = Some a" "op_active (ac_phase a)"
      "\<not> op_active phase" "unat (af_byte_length af) \<le> MAX_ARTIFACT_BYTES"
      "t_actions s' = bt_insert k (finish_action now phase af a) (t_actions s)"
      "t_operation_revisions s' = t_operation_revisions s"
  | (started) k now a where "bt_get (t_actions s) k = Some a" "ac_phase a = OpPending"
      "t_actions s' = bt_insert k (a\<lparr>ac_phase := OpRunning,
         ac_started := Some (the_default now (ac_started a))\<rparr>) (t_actions s)"
      "t_operation_revisions s' = t_operation_revisions s"
  using assms
proof cases
  case (admit now q op y)
  from admit(1) show thesis
  proof (cases rule: admission_Inr)
    case fresh
    then show thesis using admit admitted by blast
  qed (use same in \<open>auto simp: record_idempotency_Inr\<close>)
next
  case (result now w i phase af sess x)
  then show thesis using same finished [of "(w, i)"]
    by (auto simp: result_tx_def split: option.splits if_splits)
next
  case (running now w i x)
  then show thesis using same started [of "(w, i)"]
    by (auto simp: running_stmt_def split: option.splits if_splits)
qed (use same in \<open>auto dest!: frames\<close>)

lemma experiments_step:
  assumes "store_step c s s'"
  obtains
    (same) "t_experiments s' = t_experiments s" "t_run_seals s' = t_run_seals s"
  | (inserted) w i inst owner now where "bt_get (t_experiments s) (w, i) = None"
      "bt_get (t_instances s) (w, inst) \<noteq> None" "has_principal s owner"
      "t_experiments s' = bt_insert (w, i)
         \<lparr>ex_id = i, ex_workspace = w, ex_instance = inst, ex_owner = owner,
          ex_phase = RunActive, ex_created = now, ex_closed = None\<rparr> (t_experiments s)"
      "t_actions s' = t_actions s" "t_run_seals s' = t_run_seals s"
  | (closed) w i now e row r where "bt_get (t_experiments s) (w, i) = Some e"
      "\<not> run_has_active w i s" "bt_get (t_instances s) (w, ex_instance e) = Some row"
      "revision_unchecked w (in_revision row) s = Inr r"
      "t_experiments s' = bt_insert (w, i) (close_run_row now e) (t_experiments s)"
      "t_run_seals s' = insert_or_ignore (w, i)
         (with_generation (generation_of w (ex_instance e) s) row, r) (t_run_seals s)"
      "t_actions s' = t_actions s"
  using assms
proof cases
  case (insert_experiment w i inst owner now b)
  then show thesis using same inserted [of w i inst owner now]
    by (auto simp: insert_experiment_Inr)
next
  case (ensure_run now w actor inst i x)
  then show thesis using same inserted [of w i inst actor now]
    by (elim ensure_run_Inr) (auto simp: insert_experiment_Inr)
next
  case (close_run now w i x)
  then show thesis using closed by (elim close_run_Inr) auto
qed (use same in \<open>auto dest!: frames\<close>)

text \<open>A session keeps whose it is, for which run, and once finished its end.\<close>

definition same_session :: "session \<Rightarrow> session \<Rightarrow> bool" where
  "same_session x y \<longleftrightarrow> se_id y = se_id x \<and> se_workspace y = se_workspace x
     \<and> se_experiment y = se_experiment x \<and> se_instance y = se_instance x
     \<and> se_principal y = se_principal x \<and> se_started y = se_started x
     \<and> se_last_activity x \<le> se_last_activity y
     \<and> (se_finished x \<noteq> None \<longrightarrow> se_finished y = se_finished x)"

lemma same_session_refl [simp]: "same_session x x"
  by (simp add: same_session_def)

lemma same_session_trans: "same_session x y \<Longrightarrow> same_session y z \<Longrightarrow> same_session x z"
  by (auto simp: same_session_def)

lemma touch_same [simp]: "same_session x (touch_session now x)"
  by (simp add: same_session_def touch_session_def)

lemma finish_same [simp]: "same_session x (finish_row now x)"
  by (auto simp: same_session_def finish_row_def split: option.splits)

lemma track_target_fresh:
  "track_target c w actor run requested ctx s n g i = Some (Inr k) \<Longrightarrow>
     bt_get (t_sessions s) (w, k) = None"
  by (induction n arbitrary: g i) (auto split: option.splits if_splits)

lemma track_target_own:
  "track_target c w actor run requested ctx s n g i = Some (Inl x) \<Longrightarrow>
     se_principal x = actor \<and> se_experiment x = run \<and> se_finished x = None
     \<and> (\<exists>k. bt_get (t_sessions s) (w, k) = Some x)"
  by (induction n arbitrary: g i) (auto split: option.splits if_splits)

definition sessions_kept :: "session table \<Rightarrow> session table \<Rightarrow> bool" where
  "sessions_kept t t' \<longleftrightarrow>
     (\<forall>k. case bt_get t k of
        None \<Rightarrow> bt_get t' k = None
      | Some x \<Rightarrow> (\<exists>y. bt_get t' k = Some y \<and> same_session x y))"

lemma sessions_kept_set_at:
  "(\<And>x. same_session x (f x)) \<Longrightarrow> sessions_kept t (set_at k f t)"
  by (auto simp: sessions_kept_def bt_get_set_at split: option.split)

lemma sessions_kept_update_where:
  "(\<And>x. same_session x (f x)) \<Longrightarrow> sessions_kept t (update_where p f t)"
  by (auto simp: sessions_kept_def bt_get_update_where split: option.split)

lemma sessions_kept_refl [simp]: "sessions_kept t t"
  by (auto simp: sessions_kept_def split: option.split)

lemma sessions_step:
  assumes "store_step c s s'"
  obtains
    (kept) "sessions_kept (t_sessions s) (t_sessions s')"
  | (opened) w k x e where "bt_get (t_sessions s) (w, k) = None"
      "bt_get (t_experiments s) (w, se_experiment x) = Some e" "se_instance x = ex_instance e"
      "se_id x = k" "se_workspace x = w" "se_finished x = None"
      "t_sessions s' = bt_insert (w, k) x (t_sessions s)" "t_actions s' = t_actions s"
  using assms
proof cases
  case (track now w actor run i requested ctx j x e)
  note into = opened
  from track(1) show thesis
  proof (cases rule: track_Inr)
    case continued
    then show thesis using kept by simp
  next
    case (opened k)
    then show thesis using track track_target_fresh [OF opened(1)] into [of w k x e] by simp
  qed
next
  case (admit now q op y)
  from admit(1) show thesis
    by (cases rule: admission_Inr)
      (use kept in \<open>auto simp: record_idempotency_Inr admitted_def Let_def
        sessions_kept_set_at\<close>)
next
  case (result now w i phase af sess x)
  then show thesis using kept
    by (auto simp: result_tx_def sessions_kept_set_at split: option.splits if_splits)
next
  case (finish_session now w i x)
  then show thesis using kept by (auto simp: finish_session_stmt_def sessions_kept_set_at)
next
  case (finish_cell now w inst x)
  then show thesis using kept by (auto simp: finish_cell_stmt_def sessions_kept_update_where)
qed (use kept in \<open>auto dest!: frames\<close>)


text \<open>The configuration of the cells: instances, generations and accepted updates.\<close>

lemma config_step:
  assumes "store_step c s s'"
  obtains
    (same) "t_instances s' = t_instances s" "t_updates s' = t_updates s"
      "\<And>w i. generation_of w i s' = generation_of w i s"
  | (inserted) row where "instance_unique row s"
      "t_instances s' = bt_insert (in_workspace row, in_id row) row (t_instances s)"
      "t_updates s' = t_updates s" "t_update_state s' = t_update_state s"
  | (applied) now w actor key p new row u s1 where
      "bt_get (t_instances s) (w, ut_instance (pl_target p)) = Some row"
      "in_key row = pl_instance_key p" "in_revision row = pl_base_revision p"
      "state_of w (ut_instance (pl_target p)) s = Inr u" "\<not> us_closing u"
      "us_generation u = uint (ut_expected_generation (pl_target p))"
      "us_generation u + 1 \<le> I64_MAX" "rv_digest new = pl_target_revision p"
      "apply_update c now w actor key p new (us_generation u + 1) s = Inr s1"
      "t_instances s' = t_instances s1" "t_updates s' = t_updates s1"
      "t_update_state s' = t_update_state s1"
      "\<not> active_conflicts w (ut_instance (pl_target p)) (affected p) s"
  using assms
proof cases
  case (insert_instance row b)
  then show thesis using same inserted by (auto simp: insert_instance_def split: if_splits)
next
  case (accept now w actor p new key x)
  note into = applied
  from accept(1) show thesis
  proof (cases rule: accept_Inr)
    case (applied row u s1)
    then show thesis using accept(2) into [of w p row u new now actor key s1] by simp
  qed (use same in \<open>auto simp: generation_of_def\<close>)
next
  case (mark_applied w i g converged x)
  then show thesis using same
    by (elim mark_applied_Inr)
      (auto simp: generation_of_def bt_get_set_at split: option.splits)
next
  case (mark_closing w i x)
  then show thesis using same
    by (auto simp: close_stmt_def generation_of_def initial_update_state_def split: option.splits)
qed (use same in \<open>auto dest!: frames simp: generation_of_def\<close>)

text \<open>The names.\<close>

lemma handles_step:
  assumes "store_step c s s'"
  obtains
    (same) "t_handles s' = t_handles s"
  | (reserved) w name actor h where "h = h\<lparr>ch_name := name, ch_owner := actor, ch_phase := HandleOpen\<rparr>"
      "next_handle_generation (handle_of w name s) = Inr (ch_generation h)"
      "case handle_of w name s of None \<Rightarrow> True
       | Some old \<Rightarrow> ch_owner old = actor \<and> ch_phase old = HandleClosed"
      "t_handles s' = bt_insert (w, name) h (t_handles s)"
  | (phase) w name h phase where "handle_of w name s = Some h" "ch_phase h \<noteq> HandleClosed"
      "phase \<noteq> HandleOpen"
      "t_handles s' = bt_insert (w, name) (handle_with_phase phase h) (t_handles s)"
  | (config) p d where
      "t_handles s' = update_where p (\<lambda>h. h\<lparr>ch_config_digest := d\<rparr>) (t_handles s)"
  using assms
proof cases
  case (reserve nonce w actor name config_digest h)
  show thesis
  proof (cases "t_handles s' = t_handles s")
    case True
    then show thesis by (rule same)
  next
    case False
    then show thesis using reserve
      by (intro reserved [where h = h and name = name and actor = actor and w = w])
        (auto simp: reserve_tx_def Let_def and_then_Inr_iff split: option.splits if_splits)
  qed
next
  case (set_phase w actor name generation ph x)
  then show thesis using same phase [of w name _ ph]
    by (auto simp: set_phase_tx_def split: option.splits if_splits)
next
  case (accept now w actor p new key x)
  from accept(1) show thesis
    by (cases rule: accept_Inr) (use same config in \<open>auto simp: apply_update_Inr\<close>)
qed (use same in \<open>auto dest!: frames\<close>)

text \<open>The receipts.\<close>

lemma receipts_step:
  assumes "store_step c s s'"
  obtains
    (same) "t_idempotency s' = t_idempotency s"
  | (plain) k r where "bt_get (t_idempotency s) k = None"
      "rc_operation r \<noteq> ''cell.operation.create''" "operation_body (rc_response r) = None"
      "t_idempotency s' = bt_insert k r (t_idempotency s)"
  | (known) w key op q where "bt_get (t_idempotency s) (w, ac_principal op, key) = None"
      "operation_from w (aq_operation q) s = Inr op" "t_actions s' = t_actions s"
      "same_operation c q op" "aq_actor q = ac_principal op"
      "t_idempotency s' = bt_insert (w, ac_principal op, key)
         \<lparr>rc_operation = ''cell.operation.create'', rc_hash = digest_json c (operation_envelope q),
          rc_response = OperationBody op\<rparr> (t_idempotency s)"
  | (admitted) now q op where "admitted c now q s op s'"
  using assms
proof cases
  case (receipt w actor key operation request body x)
  then show thesis
    by (intro plain [of "(w, actor, key)"
          "\<lparr>rc_operation = operation, rc_hash = digest_json c request, rc_response = body\<rparr>"])
      (auto simp: record_idempotency_Inr)
next
  case (accept now w actor p new key x)
  note into = plain [of "(w, actor, key)" "\<lparr>rc_operation = ''cell.update'',
          rc_hash = digest_json c (plan_json p), rc_response = PlanBody p\<rparr>"]
  from accept(1) show thesis
    by (cases rule: accept_Inr) (use same into in \<open>auto simp: apply_update_Inr\<close>)
next
  case (admit now q op y)
  note into = known
  from admit(1) show thesis
  proof (cases rule: admission_Inr)
    case replay
    then show thesis using same by simp
  next
    case known
    have who: "ac_principal op = aq_actor q" using known(3) by (simp add: same_operation_def)
    from known(4) have rec: "bt_get (t_idempotency s) (aq_workspace q, aq_actor q, aq_key q) = None"
      "t_actions s' = t_actions s"
      "t_idempotency s' = bt_insert (aq_workspace q, aq_actor q, aq_key q)
         \<lparr>rc_operation = ''cell.operation.create'', rc_hash = digest_json c (operation_envelope q),
          rc_response = OperationBody op\<rparr> (t_idempotency s)"
      by (simp_all add: record_idempotency_Inr)
    show thesis
      using rec known(2,3) who by (intro into [of "aq_workspace q" op "aq_key q" q]) simp_all
  next
    case fresh
    then show thesis using admitted by blast
  qed
qed (use same in \<open>auto dest!: frames\<close>)

text \<open>Drafts and revisions: a version moves by one, a published revision never moves.\<close>

lemma drafts_step:
  assumes "store_step c s s'"
  obtains
    (same) "t_drafts s' = t_drafts s"
  | (inserted) k cell where "bt_get (t_drafts s) k = None"
      "t_drafts s' = bt_insert k \<lparr>dw_version = 1, dw_cell = cell\<rparr> (t_drafts s)"
  | (edited) k row cell where "bt_get (t_drafts s) k = Some row" "dw_version row \<le> I64_MAX"
      "t_drafts s' = bt_insert k \<lparr>dw_version = dw_version row + 1, dw_cell = cell\<rparr> (t_drafts s)"
  using assms
proof cases
  case (insert_draft w i cell b)
  then show thesis using same inserted [of "(w, i)" cell]
    by (auto simp: insert_draft_def bt_contains_key_def split: if_splits)
next
  case (clone_into w i cell x)
  then show thesis using same inserted [of "(w, i)" cell]
    by (auto simp: clone_into_def insert_draft_def bt_contains_key_def and_then_Inr_iff
        split: if_splits)
next
  case (update_draft w i version cell b)
  then show thesis using same edited [of "(w, i)" _ cell]
    by (auto simp: update_draft_def and_then_Inr_iff sql_version_def
        split: if_splits option.splits)
qed (use same in \<open>auto dest!: frames\<close>)

lemma revision_kept:
  assumes "store_step c s s'" "bt_get (t_revisions s) d = Some r"
  shows "\<exists>r'. bt_get (t_revisions s') d = Some r' \<and> rw_revision r' = rw_revision r"
  using assms
proof cases
  case (insert_revision w i version rev x)
  then show ?thesis using assms(2)
    by (cases "bt_get (t_revisions s) (rv_digest rev)")
      (auto simp: insert_revision_def and_then_Inr_iff split: if_splits)
qed (auto dest!: frames)

lemma instance_kept:
  assumes "store_step c s s'" "bt_get (t_instances s) k = Some row"
  shows "\<exists>row'. bt_get (t_instances s') k = Some row' \<and> in_key row' = in_key row
    \<and> in_resource row' = in_resource row \<and> in_workspace row' = in_workspace row
    \<and> in_id row' = in_id row"
  using assms(1)
proof (cases rule: config_step)
  case same
  then show ?thesis using assms(2) by simp
next
  case (inserted row)
  then show ?thesis using assms(2)
    by (auto simp: instance_unique_def bt_contains_key_def)
next
  case (applied now w actor key p new row u s1)
  then show ?thesis using assms(2) by (auto simp: apply_update_Inr bt_get_set_at)
qed

end
