(* ===== verification/Store_Invariants.thy ===== *)
theory Store_Invariants
  imports Store_Changes "HOL-Library.Multiset"
begin

text \<open>
  The invariants of the store, each proved of one atomic step and so of every reachable store: the
  tables are well formed, the journal of a cell is numbered without gaps, every operation has its
  run, session and pinned revision, a closed run is quiet and sealed, receipts of operations are
  about operations of their owner, and the generations of a cell follow its accepted updates.
\<close>

section \<open>Tables as multisets\<close>

lemma mset_bt_insert_fresh:
  "bt_get t k = None \<Longrightarrow> mset (bt_insert k v t) = add_mset (k, v) (mset t)"
  by (induction k v t rule: bt_insert.induct) (auto simp: bt_get_def split: if_splits)

lemma mset_bt_insert_known:
  "bt_wf t \<Longrightarrow> bt_get t k = Some u \<Longrightarrow>
     mset (bt_insert k v t) = add_mset (k, v) (mset t - {#(k, u)#})"
proof (induction k v t rule: bt_insert.induct)
  case (2 k v a b m)
  have m: "bt_wf m" using 2(2) by (simp add: bt_wf_def)
  show ?case
  proof (cases "k = a")
    case True
    then show ?thesis using 2(3) by (simp add: bt_get_def)
  next
    case False
    then have g: "bt_get m k = Some u" using 2(3) by (simp add: bt_get_def)
    then have "(k, u) \<in> set m" using bt_get_iff [OF m] by blast
    then have "a < k" using 2(2) by (force simp: bt_wf_def)
    then show ?thesis using 2(1) [OF _ _ m g] False by (simp add: not_less_iff_gr_or_eq)
  qed
qed (simp add: bt_get_def)

lemma bt_wf_set_at [intro]: "bt_wf t \<Longrightarrow> bt_wf (set_at k f t)"
  by (auto simp: set_at_def split: option.split)

lemma bt_wf_insert_or_ignore [intro]: "bt_wf t \<Longrightarrow> bt_wf (insert_or_ignore k v t)"
  by (auto simp: insert_or_ignore_def)

lemma bt_wf_update_where [simp]: "bt_wf (update_where p f t) = bt_wf t"
proof -
  have "map fst (update_where p f t) = map fst t" by (auto simp: update_where_def)
  then show ?thesis by (simp add: bt_wf_def)
qed

lemma list_ex_table:
  "bt_wf t \<Longrightarrow> list_ex P t \<longleftrightarrow> (\<exists>k v. bt_get t k = Some v \<and> P (k, v))"
  by (auto simp: list_ex_iff bt_get_iff)

lemma list_all_table:
  "bt_wf t \<Longrightarrow> list_all P t \<longleftrightarrow> (\<forall>k v. bt_get t k = Some v \<longrightarrow> P (k, v))"
  by (auto simp: list_all_iff bt_get_iff)

section \<open>Well-formed tables\<close>

definition tables_wf :: "store \<Rightarrow> bool" where
  "tables_wf s \<longleftrightarrow> bt_wf (t_actions s) \<and> bt_wf (t_updates s) \<and> bt_wf (t_handles s)
     \<and> bt_wf (t_sessions s)"

lemma tables_wf_step:
  assumes "store_step c s s'" "tables_wf s"
  shows "tables_wf s'"
proof -
  have "bt_wf (t_actions s')"
    using assms(1) by (cases rule: actions_step)
      (use assms(2) in \<open>auto simp: tables_wf_def admitted_def Let_def\<close>)
  moreover have "bt_wf (t_updates s')"
    using assms(1) by (cases rule: config_step)
      (use assms(2) in \<open>auto simp: tables_wf_def apply_update_Inr\<close>)
  moreover have "bt_wf (t_handles s')"
    using assms(1) by (cases rule: handles_step) (use assms(2) in \<open>auto simp: tables_wf_def\<close>)
  moreover have "bt_wf (t_sessions s')"
    using assms(1)
  proof cases
    case (admit now q op y)
    from admit(1) show ?thesis
      by (cases rule: admission_Inr)
        (use assms(2) in \<open>auto simp: tables_wf_def admitted_def Let_def record_idempotency_Inr\<close>)
  next
    case (track now w actor run i requested ctx j x e)
    from track(1) show ?thesis
      by (cases rule: track_Inr) (use assms(2) in \<open>auto simp: tables_wf_def\<close>)
  next
    case (result now w i phase af sess x)
    then show ?thesis using assms(2)
      by (auto simp: tables_wf_def result_tx_def split: option.splits if_splits)
  next
    case (finish_session now w i x)
    then show ?thesis using assms(2) by (auto simp: tables_wf_def finish_session_stmt_def)
  next
    case (finish_cell now w inst x)
    then show ?thesis using assms(2) by (auto simp: tables_wf_def finish_cell_stmt_def)
  qed (use assms(2) in \<open>auto simp: tables_wf_def dest!: frames\<close>)
  ultimately show ?thesis by (simp add: tables_wf_def)
qed

section \<open>The journal\<close>

text \<open>The numbers of a cell's operations, and the numbers from one.\<close>

definition cell_numbers :: "string \<Rightarrow> string \<Rightarrow> store \<Rightarrow> int multiset" where
  "cell_numbers w i s = mset (map ac_sequence (cell_actions w i s))"

definition numbers_to :: "nat \<Rightarrow> int multiset" where
  "numbers_to n = mset (map int [1..<Suc n])"

lemma numbers_to_0 [simp]: "numbers_to 0 = {#}"
  by (simp add: numbers_to_def)

lemma numbers_to_Suc [simp]: "numbers_to (Suc n) = add_mset (int n + 1) (numbers_to n)"
  by (simp add: numbers_to_def)

lemma set_numbers_to [simp]: "set_mset (numbers_to n) = {1..int n}"
  by (induction n) auto

lemma size_numbers_to [simp]: "size (numbers_to n) = n"
  by (induction n) auto

definition numbered :: "store \<Rightarrow> bool" where
  "numbered s \<longleftrightarrow> (\<forall>w i. \<exists>n. cell_numbers w i s = numbers_to n)"

lemma fold_max_Max: "fold max ns (n :: int) = Max (set (n # ns))"
  by (metis Max.set_eq_fold)

lemma last_sequence_numbered:
  assumes "cell_numbers w i s = numbers_to n"
  shows "last_sequence w i s = int n"
proof (cases "map ac_sequence (cell_actions w i s)")
  case Nil
  then have "numbers_to n = {#}" using assms by (simp add: cell_numbers_def)
  then have "n = 0" using size_numbers_to [of n] by simp
  then show ?thesis using Nil by (auto simp: last_sequence_def)
next
  case (Cons m ms)
  have "set (m # ms) = set_mset (numbers_to n)"
    using assms unfolding cell_numbers_def Cons by (metis set_mset_mset)
  then have s: "set (m # ms) = {1..int n}" by simp
  then have "1 \<le> int n" by (metis atLeastAtMost_iff list.set_intros(1) order_trans)
  then have "Max (set (m # ms)) = int n" unfolding s by (intro Max_eqI) auto
  then show ?thesis by (simp only: last_sequence_def Cons fold_max_Max list.case)
qed

lemma cell_numbers_table:
  "cell_numbers w i s =
     image_mset (\<lambda>e. ac_sequence (snd e))
       (filter_mset (\<lambda>e. fst (fst e) = w \<and> ac_instance (snd e) = i) (mset (t_actions s)))"
  by (simp add: cell_numbers_def cell_actions_def case_prod_unfold multiset.map_comp comp_def
      flip: mset_filter)

text \<open>A row that keeps its cell and number leaves the numbers as they are.\<close>

lemma cell_numbers_update:
  assumes "bt_wf (t_actions s)" "bt_get (t_actions s) k = Some a"
    "t_actions s' = bt_insert k b (t_actions s)"
    "ac_instance b = ac_instance a" "ac_sequence b = ac_sequence a"
  shows "cell_numbers w i s' = cell_numbers w i s"
proof -
  have "(k, a) \<in># mset (t_actions s)" using assms(1,2) by (simp add: bt_get_iff)
  then obtain M where "mset (t_actions s) = add_mset (k, a) M" by (metis insert_DiffM)
  then show ?thesis
    using assms by (simp add: cell_numbers_table mset_bt_insert_known)
qed

lemma admitted_actions:
  "admitted c now q s op s' \<Longrightarrow>
     t_actions s' = bt_insert (aq_workspace q, aq_operation q)
       (new_action c now q (last_sequence (aq_workspace q) (aq_instance q) s + 1)) (t_actions s)"
  by (auto simp: admitted_def Let_def)

lemma numbered_step:
  assumes "store_step c s s'" "tables_wf s" "numbered s"
  shows "numbered s'"
  unfolding numbered_def
proof (intro allI)
  fix w i
  obtain n where n: "cell_numbers w i s = numbers_to n"
    using assms(3) unfolding numbered_def by blast
  have wf: "bt_wf (t_actions s)" using assms(2) by (simp add: tables_wf_def)
  from assms(1) show "\<exists>n. cell_numbers w i s' = numbers_to n"
  proof (cases rule: actions_step)
    case same
    then show ?thesis using n by (auto simp: cell_numbers_table)
  next
    case (admitted now q op y)
    note t = admitted_actions [OF admitted(1)]
    show ?thesis
    proof (cases "w = aq_workspace q \<and> i = aq_instance q")
      case True
      then have "cell_numbers w i s' = numbers_to (Suc n)"
        using n t admitted(2) last_sequence_numbered [OF n]
        by (simp add: cell_numbers_table mset_bt_insert_fresh)
      then show ?thesis by blast
    next
      case False
      then show ?thesis using n t admitted(2)
        by (auto simp: cell_numbers_table mset_bt_insert_fresh)
    qed
  next
    case (finished k now phase af a)
    then have "cell_numbers w i s' = cell_numbers w i s"
      by (intro cell_numbers_update [OF wf finished(1,5)]) (auto simp: finish_action_def)
    then show ?thesis using n by auto
  next
    case (started k now a)
    then have "cell_numbers w i s' = cell_numbers w i s"
      by (intro cell_numbers_update [OF wf started(1,3)]) auto
    then show ?thesis using n by auto
  qed
qed

section \<open>Rows that stay\<close>

text \<open>What a step leaves of a run, of a pinned revision and of an operation.\<close>

definition same_run :: "experiment_row \<Rightarrow> experiment_row \<Rightarrow> bool" where
  "same_run e f \<longleftrightarrow> ex_id f = ex_id e \<and> ex_workspace f = ex_workspace e
     \<and> ex_instance f = ex_instance e \<and> ex_owner f = ex_owner e \<and> ex_created f = ex_created e
     \<and> (ex_phase e = RunClosed \<longrightarrow> ex_phase f = RunClosed)
     \<and> (ex_closed e \<noteq> None \<longrightarrow> ex_closed f = ex_closed e)"

lemma same_run_refl [simp]: "same_run e e"
  by (simp add: same_run_def)

lemma experiment_kept:
  assumes "store_step c s s'" "bt_get (t_experiments s) k = Some e"
  shows "\<exists>f. bt_get (t_experiments s') k = Some f \<and> same_run e f"
  using assms(1)
proof (cases rule: experiments_step)
  case (closed w i now f row r)
  then show ?thesis using assms(2)
    by (auto simp: same_run_def close_run_row_def split: option.splits)
qed (use assms(2) in auto)

lemma session_kept:
  assumes "store_step c s s'" "bt_get (t_sessions s) k = Some x"
  shows "\<exists>y. bt_get (t_sessions s') k = Some y \<and> same_session x y"
  using assms(1)
proof (cases rule: sessions_step)
  case kept
  then show ?thesis using assms(2) by (cases k) (auto simp: sessions_kept_def split: option.splits)
qed (use assms(2) in auto)

lemma operation_revision_kept:
  assumes "store_step c s s'" "bt_get (t_operation_revisions s) k = Some d"
  shows "bt_get (t_operation_revisions s') k = Some d"
  using assms(1)
proof (cases rule: actions_step)
  case (admitted now q op y)
  then show ?thesis using assms(2)
    by (auto simp: admitted_def Let_def bt_get_insert_or_ignore)
qed (use assms(2) in auto)

fun phase_rank :: "operation_phase \<Rightarrow> nat" where
  "phase_rank OpPending = 0"
| "phase_rank OpRunning = 1"
| "phase_rank _ = 2"

lemma op_active_rank: "op_active p \<longleftrightarrow> phase_rank p < 2"
  by (cases p) (simp_all add: op_active_def)

definition action_core :: "action_row \<Rightarrow> action_row" where
  "action_core a =
     a\<lparr>ac_phase := OpPending, ac_artifact := None, ac_started := None, ac_completed := None\<rparr>"

definition same_action :: "action_row \<Rightarrow> action_row \<Rightarrow> bool" where
  "same_action a b \<longleftrightarrow>
     action_core b = action_core a
     \<and> phase_rank (ac_phase a) \<le> phase_rank (ac_phase b)
     \<and> (\<not> op_active (ac_phase a) \<longrightarrow> b = a)"

lemma same_action_refl [simp]: "same_action a a"
  by (simp add: same_action_def)

lemma same_action_trans: "same_action a b \<Longrightarrow> same_action b d \<Longrightarrow> same_action a d"
  unfolding same_action_def op_active_rank by (metis order_trans)

lemma same_action_fields:
  assumes "same_action a b"
  shows "ac_workspace b = ac_workspace a" "ac_id b = ac_id a" "ac_instance b = ac_instance a"
    "ac_experiment b = ac_experiment a" "ac_session b = ac_session a"
    "ac_principal b = ac_principal a" "ac_sequence b = ac_sequence a" "ac_kind b = ac_kind a"
    "ac_request b = ac_request a" "ac_capability b = ac_capability a"
    "ac_request_digest b = ac_request_digest a"
proof -
  have c: "action_core b = action_core a" using assms by (simp add: same_action_def)
  have "ac_workspace d = ac_workspace (action_core d)" "ac_id d = ac_id (action_core d)"
    "ac_instance d = ac_instance (action_core d)" "ac_experiment d = ac_experiment (action_core d)"
    "ac_session d = ac_session (action_core d)" "ac_principal d = ac_principal (action_core d)"
    "ac_sequence d = ac_sequence (action_core d)" "ac_kind d = ac_kind (action_core d)"
    "ac_request d = ac_request (action_core d)" "ac_capability d = ac_capability (action_core d)"
    "ac_request_digest d = ac_request_digest (action_core d)" for d
    by (simp_all add: action_core_def)
  note f = this
  show "ac_workspace b = ac_workspace a" "ac_id b = ac_id a" "ac_instance b = ac_instance a"
    "ac_experiment b = ac_experiment a" "ac_session b = ac_session a"
    "ac_principal b = ac_principal a" "ac_sequence b = ac_sequence a" "ac_kind b = ac_kind a"
    "ac_request b = ac_request a" "ac_capability b = ac_capability a"
    "ac_request_digest b = ac_request_digest a"
    using c f [of a] f [of b] by metis+
qed

lemma same_action_finish:
  "op_active (ac_phase a) \<Longrightarrow> \<not> op_active phase \<Longrightarrow> same_action a (finish_action now phase af a)"
  by (simp add: same_action_def action_core_def finish_action_def op_active_rank)

lemma same_action_start:
  "ac_phase a = OpPending \<Longrightarrow>
     same_action a (a\<lparr>ac_phase := OpRunning, ac_started := Some (the_default now (ac_started a))\<rparr>)"
  by (simp add: same_action_def action_core_def op_active_def)

lemma action_kept:
  assumes "store_step c s s'" "bt_get (t_actions s) k = Some a"
  shows "\<exists>b. bt_get (t_actions s') k = Some b \<and> same_action a b"
  using assms(1)
proof (cases rule: actions_step)
  case same
  then show ?thesis using assms(2) by simp
next
  case (admitted now q op y)
  then show ?thesis using assms(2) by (auto simp: admitted_actions)
next
  case (finished l now phase af b)
  then show ?thesis using assms(2) same_action_finish [OF finished(2,3)]
    by (cases "k = l") simp_all
next
  case (started l now b)
  then show ?thesis using assms(2) same_action_start [OF started(2)]
    by (cases "k = l") simp_all
qed

section \<open>Operations and their runs\<close>

definition action_linked :: "store \<Rightarrow> string \<times> string \<Rightarrow> action_row \<Rightarrow> bool" where
  "action_linked s k a \<longleftrightarrow> k = (ac_workspace a, ac_id a)
     \<and> 0 < ac_sequence a \<and> ac_sequence a \<le> I64_MAX
     \<and> bt_get (t_operation_revisions s) k \<noteq> None
     \<and> (\<exists>e. bt_get (t_experiments s) (ac_workspace a, ac_experiment a) = Some e
           \<and> ex_instance e = ac_instance a)
     \<and> (\<exists>x. bt_get (t_sessions s) (ac_workspace a, ac_session a) = Some x
           \<and> se_principal x = ac_principal a \<and> se_experiment x = ac_experiment a)"

definition journal_linked :: "store \<Rightarrow> bool" where
  "journal_linked s \<longleftrightarrow> (\<forall>k a. bt_get (t_actions s) k = Some a \<longrightarrow> action_linked s k a)"

lemma action_linked_kept:
  assumes "store_step c s s'" "action_linked s k a" "same_action a b"
  shows "action_linked s' k b"
proof -
  from assms(2) obtain d e x where
    "bt_get (t_operation_revisions s) k = Some d"
    "bt_get (t_experiments s) (ac_workspace a, ac_experiment a) = Some e"
    "ex_instance e = ac_instance a"
    "bt_get (t_sessions s) (ac_workspace a, ac_session a) = Some x"
    "se_principal x = ac_principal a" "se_experiment x = ac_experiment a"
    unfolding action_linked_def by auto
  moreover obtain f where "bt_get (t_experiments s') (ac_workspace a, ac_experiment a) = Some f"
    "same_run e f" using experiment_kept [OF assms(1) calculation(2)] by blast
  moreover obtain y where "bt_get (t_sessions s') (ac_workspace a, ac_session a) = Some y"
    "same_session x y" using session_kept [OF assms(1) calculation(4)] by blast
  moreover have "bt_get (t_operation_revisions s') k = Some d"
    using operation_revision_kept [OF assms(1) calculation(1)] .
  moreover have "k = (ac_workspace a, ac_id a)" "0 < ac_sequence a" "ac_sequence a \<le> I64_MAX"
    using assms(2) unfolding action_linked_def by auto
  ultimately show ?thesis
    unfolding action_linked_def same_action_fields [OF assms(3)] same_run_def same_session_def
    by (metis option.distinct(1))
qed

lemma admitted_new:
  assumes "admitted c now q s op s'"
  obtains n where "t_actions s' = bt_insert (aq_workspace q, aq_operation q) (new_action c now q n)
      (t_actions s)"
    "n = last_sequence (aq_workspace q) (aq_instance q) s + 1" "0 \<le> n" "n \<le> I64_MAX"
    "bt_get (t_operation_revisions s') (aq_workspace q, aq_operation q) \<noteq> None"
    "t_experiments s' = t_experiments s"
  using assms by (auto simp: admitted_def Let_def bt_get_insert_or_ignore)

lemma journal_linked_step:
  assumes "store_step c s s'" "numbered s" "journal_linked s"
  shows "journal_linked s'"
  unfolding journal_linked_def
proof (intro allI impI)
  fix k b
  assume b: "bt_get (t_actions s') k = Some b"
  show "action_linked s' k b"
  proof (cases "bt_get (t_actions s) k")
    case (Some a)
    then have "same_action a b" using action_kept [OF assms(1) Some] b by auto
    then show ?thesis using action_linked_kept [OF assms(1)] Some assms(3)
      unfolding journal_linked_def by blast
  next
    case None
    from assms(1) show ?thesis
    proof (cases rule: actions_step)
      case (admitted now q op y)
      from admitted(1) obtain n where n:
        "t_actions s' = bt_insert (aq_workspace q, aq_operation q) (new_action c now q n)
           (t_actions s)"
        "n = last_sequence (aq_workspace q) (aq_instance q) s + 1" "n \<le> I64_MAX"
        "bt_get (t_operation_revisions s') (aq_workspace q, aq_operation q) \<noteq> None"
        "t_experiments s' = t_experiments s"
        by (rule admitted_new)
      obtain m where "cell_numbers (aq_workspace q) (aq_instance q) s = numbers_to m"
        using assms(2) unfolding numbered_def by blast
      then have "0 < n" using n(2) last_sequence_numbered by fastforce
      moreover have k: "k = (aq_workspace q, aq_operation q)" "b = new_action c now q n"
        using n(1) b None by (auto split: if_splits)
      moreover obtain x where "bt_get (t_sessions s') (aq_workspace q, aq_session q) = Some x"
        "same_session y x"
        using session_kept [OF assms(1) admitted(5)] by blast
      ultimately show ?thesis using n(3,4,5) admitted(3,6,7)
        by (auto simp: action_linked_def run_open_def same_session_def split: option.splits)
    qed (use None b in \<open>auto split: if_splits\<close>)
  qed
qed

text \<open>A run that is closed has a seal, and every operation of it is done.\<close>

definition closed_quiet :: "store \<Rightarrow> bool" where
  "closed_quiet s \<longleftrightarrow>
     (\<forall>w i e. bt_get (t_experiments s) (w, i) = Some e \<longrightarrow>
        (ex_phase e = RunClosed \<longleftrightarrow> bt_get (t_run_seals s) (w, i) \<noteq> None)
        \<and> (ex_phase e = RunClosed \<longrightarrow> ex_closed e \<noteq> None
             \<and> (\<forall>j a. bt_get (t_actions s) (w, j) = Some a \<and> ac_experiment a = i \<longrightarrow>
                  \<not> op_active (ac_phase a))))
     \<and> (\<forall>k. bt_get (t_experiments s) k = None \<longrightarrow> bt_get (t_run_seals s) k = None)"

lemma run_has_active_table:
  "bt_wf (t_actions s) \<Longrightarrow>
     run_has_active w i s \<longleftrightarrow>
       (\<exists>j a. bt_get (t_actions s) (w, j) = Some a \<and> ac_experiment a = i \<and> op_active (ac_phase a))"
  unfolding run_has_active_def by (subst list_ex_table) auto

lemma closed_quiet_actions:
  assumes "closed_quiet s" "t_experiments s' = t_experiments s" "t_run_seals s' = t_run_seals s"
    and "\<And>w j b e. bt_get (t_actions s') (w, j) = Some b \<Longrightarrow> op_active (ac_phase b) \<Longrightarrow>
       bt_get (t_experiments s) (w, ac_experiment b) = Some e \<Longrightarrow> ex_phase e = RunClosed \<Longrightarrow> False"
  shows "closed_quiet s'"
  using assms unfolding closed_quiet_def by (metis (no_types, lifting))

lemma closed_quiet_step:
  assumes "store_step c s s'" "tables_wf s" "journal_linked s" "closed_quiet s"
  shows "closed_quiet s'"
  using assms(1)
proof (cases rule: experiments_step)
  case same
  show ?thesis
  proof (rule closed_quiet_actions [OF assms(4) same])
    fix w j b e
    assume b: "bt_get (t_actions s') (w, j) = Some b" "op_active (ac_phase b)"
      and e: "bt_get (t_experiments s) (w, ac_experiment b) = Some e" "ex_phase e = RunClosed"
    show False
    proof (cases "bt_get (t_actions s) (w, j)")
      case (Some a)
      then have "same_action a b" using action_kept [OF assms(1) Some] b by auto
      then have "op_active (ac_phase a)" "ac_experiment a = ac_experiment b"
        using b(2) same_action_fields(4) [OF \<open>same_action a b\<close>]
        by (auto simp: op_active_rank same_action_def)
      then show False using Some e assms(4) unfolding closed_quiet_def by blast
    next
      case None
      from assms(1) show False
      proof (cases rule: actions_step)
        case (admitted now q op y)
        then have "w = aq_workspace q" "ac_experiment b = aq_experiment q"
          using None b by (auto simp: admitted_actions split: if_splits)
        then show False using admitted(3) e by (simp add: run_open_def)
      qed (use None b in \<open>auto split: if_splits\<close>)
    qed
  qed
next
  case (inserted w i inst owner now)
  have "\<not> (bt_get (t_actions s) (w, j) = Some a \<and> ac_experiment a = i)" for j a
    using assms(3) inserted(1) unfolding journal_linked_def action_linked_def by fastforce
  then show ?thesis using assms(4) inserted unfolding closed_quiet_def by auto
next
  case (closed w i now e row r)
  have "\<not> op_active (ac_phase a)"
    if "bt_get (t_actions s) (w, j) = Some a" "ac_experiment a = i" for j a
    using that closed(2) assms(2) by (auto simp: run_has_active_table tables_wf_def)
  then show ?thesis using assms(4) closed unfolding closed_quiet_def
    by (auto simp: bt_get_insert_or_ignore close_run_row_def split: option.splits)
qed

section \<open>Receipts\<close>

text \<open>
  The receipt of an operation is kept under the key of the principal the operation belongs to, and
  only \<open>create_operation\<close> keeps such receipts.
\<close>

definition receipt_typed :: "store \<Rightarrow> string \<Rightarrow> string \<Rightarrow> receipt \<Rightarrow> bool" where
  "receipt_typed s w actor r \<longleftrightarrow>
     (case operation_body (rc_response r) of
        None \<Rightarrow> rc_operation r \<noteq> ''cell.operation.create''
      | Some op \<Rightarrow> rc_operation r = ''cell.operation.create'' \<and> ac_principal op = actor
          \<and> (\<exists>a. bt_get (t_actions s) (w, ac_id op) = Some a \<and> ac_principal a = actor
                 \<and> ac_instance a = ac_instance op \<and> ac_experiment a = ac_experiment op))"

definition receipts_typed :: "store \<Rightarrow> bool" where
  "receipts_typed s \<longleftrightarrow>
     (\<forall>w actor key r. bt_get (t_idempotency s) (w, actor, key) = Some r \<longrightarrow>
        receipt_typed s w actor r)"

lemma receipt_typed_kept:
  assumes "store_step c s s'" "receipt_typed s w actor r"
  shows "receipt_typed s' w actor r"
proof (cases "operation_body (rc_response r)")
  case None
  then show ?thesis using assms(2) by (simp add: receipt_typed_def)
next
  case (Some op)
  then obtain a where a: "bt_get (t_actions s) (w, ac_id op) = Some a" "ac_principal a = actor"
    "ac_instance a = ac_instance op" "ac_experiment a = ac_experiment op"
    using assms(2) by (auto simp: receipt_typed_def)
  obtain b where b: "bt_get (t_actions s') (w, ac_id op) = Some b" "same_action a b"
    using action_kept [OF assms(1) a(1)] by blast
  show ?thesis using Some assms(2) a b(1) same_action_fields(3,4,6) [OF b(2)]
    by (auto simp: receipt_typed_def)
qed

lemma with_revision_simps [simp]:
  "ac_id (with_revision d a) = ac_id a" "ac_principal (with_revision d a) = ac_principal a"
  "ac_instance (with_revision d a) = ac_instance a"
  "ac_experiment (with_revision d a) = ac_experiment a"
  "ac_session (with_revision d a) = ac_session a" "ac_kind (with_revision d a) = ac_kind a"
  "ac_phase (with_revision d a) = ac_phase a" "ac_sequence (with_revision d a) = ac_sequence a"
  "ac_artifact (with_revision d a) = ac_artifact a" "ac_request (with_revision d a) = ac_request a"
  "ac_revision (with_revision d a) = d" "ac_workspace (with_revision d a) = ac_workspace a"
  "ac_request_digest (with_revision d a) = ac_request_digest a"
  "ac_completed (with_revision d a) = ac_completed a"
  by (simp_all add: with_revision_def)

lemma operation_from_Inr:
  "operation_from w i s = Inr op \<longleftrightarrow>
     (\<exists>a d. bt_get (t_actions s) (w, i) = Some a \<and> bt_get (t_operation_revisions s) (w, i) = Some d
        \<and> 0 \<le> ac_sequence a \<and> op = with_revision d a)"
  by (auto simp: operation_from_def split: option.splits)

lemma admitted_receipt:
  assumes "admitted c now q s op s'"
  shows "bt_get (t_idempotency s) (aq_workspace q, aq_actor q, aq_key q) = None"
    "t_idempotency s' = bt_insert (aq_workspace q, aq_actor q, aq_key q)
       \<lparr>rc_operation = ''cell.operation.create'', rc_hash = digest_json c (operation_envelope q),
        rc_response = OperationBody op\<rparr> (t_idempotency s)"
    "\<exists>d n. op = with_revision d (new_action c now q n)
       \<and> bt_get (t_actions s') (aq_workspace q, aq_operation q) = Some (new_action c now q n)
       \<and> bt_get (t_operation_revisions s') (aq_workspace q, aq_operation q) = Some d \<and> 0 \<le> n"
  using assms by (auto simp: admitted_def Let_def bt_get_insert_or_ignore split: option.splits)

lemma receipts_typed_step:
  assumes "store_step c s s'" "journal_linked s" "receipts_typed s"
  shows "receipts_typed s'"
  unfolding receipts_typed_def
proof (intro allI impI)
  fix w actor key r
  assume r: "bt_get (t_idempotency s') (w, actor, key) = Some r"
  have old: "receipt_typed s' w actor r" if "bt_get (t_idempotency s) (w, actor, key) = Some r"
    using that assms(3) receipt_typed_kept [OF assms(1)] unfolding receipts_typed_def by blast
  from assms(1) show "receipt_typed s' w actor r"
  proof (cases rule: receipts_step)
    case same
    then show ?thesis using old r by simp
  next
    case (plain k v)
    then show ?thesis using old r
      by (cases "(w, actor, key) = k") (auto simp: receipt_typed_def split: option.splits)
  next
    case (known v l op q)
    show ?thesis
    proof (cases "(w, actor, key) = (v, ac_principal op, l)")
      case True
      from known(2) obtain a d where a0: "bt_get (t_actions s) (v, aq_operation q) = Some a"
        "op = with_revision d a"
        unfolding operation_from_Inr by blast
      then have a: "ac_id op = ac_id a" "ac_principal op = ac_principal a"
        "ac_instance op = ac_instance a" "ac_experiment op = ac_experiment a" by simp_all
      have "action_linked s (v, aq_operation q) a"
        using assms(2) a0(1) by (simp add: journal_linked_def)
      then have "ac_id a = aq_operation q" by (simp add: action_linked_def)
      then have "bt_get (t_actions s') (w, ac_id op) = Some a" using a a0(1) True known(3) by simp
      moreover have "rc_operation r = ''cell.operation.create''"
        "operation_body (rc_response r) = Some op" "ac_principal op = actor"
        using True r known(6) by (simp_all only: bt_get_insert) auto
      ultimately show ?thesis using a by (simp add: receipt_typed_def)
    next
      case False
      then show ?thesis using old r known(6) by (metis bt_get_insert)
    qed
  next
    case (admitted now q op)
    note new = admitted_receipt [OF admitted]
    show ?thesis
    proof (cases "(w, actor, key) = (aq_workspace q, aq_actor q, aq_key q)")
      case True
      then show ?thesis using r new(2,3) by (auto simp: receipt_typed_def)
    next
      case False
      then show ?thesis using old r new(2) by (metis bt_get_insert)
    qed
  qed
qed

lemma receipt_kept:
  assumes "store_step c s s'" "bt_get (t_idempotency s) k = Some r"
  shows "bt_get (t_idempotency s') k = Some r"
  using assms(1)
proof (cases rule: receipts_step)
  case (admitted now q op)
  then show ?thesis using assms(2) admitted_receipt(1,2) [OF admitted]
    by (metis bt_get_insert option.distinct(1))
qed (use assms(2) in auto)

text \<open>Every receipt is of the response its operation records.\<close>

definition receipts_fit :: "store \<Rightarrow> bool" where
  "receipts_fit s \<longleftrightarrow>
     (\<forall>k r. bt_get (t_idempotency s) k = Some r \<longrightarrow> fits (rc_operation r) (rc_response r))"

lemma receipts_fit_insert:
  "receipts_fit s \<Longrightarrow> fits (rc_operation r) (rc_response r) \<Longrightarrow>
     t_idempotency s' = bt_insert k r (t_idempotency s) \<Longrightarrow> receipts_fit s'"
  by (auto simp: receipts_fit_def split: if_splits)

lemma receipts_fit_same:
  "receipts_fit s \<Longrightarrow> t_idempotency s' = t_idempotency s \<Longrightarrow> receipts_fit s'"
  by (simp add: receipts_fit_def)

lemma receipts_fit_step:
  assumes "store_step c s s'" "receipts_fit s"
  shows "receipts_fit s'"
  using assms(1)
proof cases
  case (receipt w actor key operation request body x)
  then show ?thesis
    by (intro receipts_fit_insert [OF assms(2)]) (auto simp: record_idempotency_Inr)
next
  case (accept now w actor p new key x)
  from accept(1) show ?thesis
  proof (cases rule: accept_Inr)
    case same
    then show ?thesis using assms(2) by simp
  next
    case noop
    then show ?thesis by (intro receipts_fit_insert [OF assms(2)]) auto
  next
    case (applied row u s1)
    then have "t_idempotency s1 = t_idempotency s" by (auto simp: apply_update_Inr)
    then show ?thesis using applied(13) by (intro receipts_fit_insert [OF assms(2)]) auto
  qed
next
  case (admit now q op y)
  from admit(1) show ?thesis
  proof (cases rule: admission_Inr)
    case (replay previous)
    then show ?thesis using assms(2) by simp
  next
    case known
    then show ?thesis
      by (intro receipts_fit_insert [OF assms(2)]) (auto simp: record_idempotency_Inr)
  next
    case fresh
    show ?thesis
      by (rule receipts_fit_insert [OF assms(2) _ admitted_receipt(2) [OF fresh(5)]]) simp
  qed
qed (use assms(2) in \<open>auto dest!: frames intro: receipts_fit_same\<close>)

section \<open>Generations\<close>

text \<open>
  The generation of a cell counts its accepted updates. Each update starts from the revision the
  one before it ended at, and the cell runs the revision of the last.
\<close>

definition update_linked :: "store \<Rightarrow> string \<Rightarrow> string \<Rightarrow> int \<Rightarrow> accepted_update \<Rightarrow> bool" where
  "update_linked s w i g u \<longleftrightarrow>
     ut_instance (pl_target (au_plan u)) = i
     \<and> uint (ut_expected_generation (pl_target (au_plan u))) = g - 1
     \<and> (2 < g \<longrightarrow> (\<exists>v. bt_get (t_updates s) (w, i, g - 1) = Some v
                     \<and> pl_target_revision (au_plan v) = pl_base_revision (au_plan u)))"

definition cell_history :: "store \<Rightarrow> string \<Rightarrow> string \<Rightarrow> bool" where
  "cell_history s w i \<longleftrightarrow>
     1 \<le> generation_of w i s \<and> generation_of w i s \<le> I64_MAX
     \<and> (\<forall>g. bt_get (t_updates s) (w, i, g) \<noteq> None \<longleftrightarrow> 2 \<le> g \<and> g \<le> generation_of w i s)
     \<and> (\<forall>g u. bt_get (t_updates s) (w, i, g) = Some u \<longrightarrow> update_linked s w i g u)
     \<and> (case bt_get (t_instances s) (w, i) of
          None \<Rightarrow> generation_of w i s = 1
        | Some row \<Rightarrow> 1 < generation_of w i s \<longrightarrow>
            (\<exists>u. bt_get (t_updates s) (w, i, generation_of w i s) = Some u
               \<and> pl_target_revision (au_plan u) = in_revision row))"

definition histories :: "store \<Rightarrow> bool" where
  "histories s \<longleftrightarrow> (\<forall>w i. cell_history s w i)"

lemma state_of_generation: "state_of w i s = Inr u \<Longrightarrow> us_generation u = generation_of w i s"
  by (auto simp: state_of_def generation_of_def and_then_Inr_iff initial_update_state_def
      generation_column_def split: option.splits if_splits)

lemma cell_history_cong:
  assumes "cell_history s w i" "generation_of w i s' = generation_of w i s"
    "\<And>g. bt_get (t_updates s') (w, i, g) = bt_get (t_updates s) (w, i, g)"
    "bt_get (t_instances s') (w, i) = bt_get (t_instances s) (w, i)"
  shows "cell_history s' w i"
  using assms by (cases "bt_get (t_instances s) (w, i)") (simp_all add: cell_history_def update_linked_def)

text \<open>What an accepted update leaves of the tables, for its cell and for the others.\<close>

lemma applied_tables:
  assumes "apply_update c now w actor key p new g s = Inr s1"
    "t_instances s' = t_instances s1" "t_updates s' = t_updates s1"
    "t_update_state s' = t_update_state s1"
  shows "bt_get (t_updates s') k =
      (if k = (w, ut_instance (pl_target p), g)
       then Some \<lparr>au_principal = actor, au_key = key, au_plan = p, au_accepted = now\<rparr>
       else bt_get (t_updates s) k)"
    "generation_of v j s' = (if v = w \<and> j = ut_instance (pl_target p) then g
       else generation_of v j s)"
    "bt_get (t_instances s') l = (if l = (w, ut_instance (pl_target p))
       then map_option (\<lambda>r. r\<lparr>in_revision := rv_digest new, in_lock := lk_digest (rv_lock new)\<rparr>)
              (bt_get (t_instances s) l)
       else bt_get (t_instances s) l)"
  using assms
  by (auto simp: apply_update_Inr bt_get_set_at generation_of_def set_generation_def
      split: option.splits)

lemma histories_step:
  assumes "store_step c s s'" "histories s"
  shows "histories s'"
  unfolding histories_def
proof (intro allI)
  fix w i
  have h: "cell_history s w i" using assms(2) by (simp add: histories_def)
  from assms(1) show "cell_history s' w i"
  proof (cases rule: config_step)
    case same
    then show ?thesis using h by (auto intro: cell_history_cong)
  next
    case (inserted row)
    show ?thesis
    proof (cases "(w, i) = (in_workspace row, in_id row)")
      case True
      then have "bt_get (t_instances s) (w, i) = None"
        using inserted(1) by (auto simp: instance_unique_def bt_contains_key_def)
      then show ?thesis using h inserted True
        by (simp add: cell_history_def update_linked_def generation_of_def)
    next
      case False
      then show ?thesis using h inserted
        by (auto intro!: cell_history_cong [OF h] simp: generation_of_def)
    qed
  next
    case (applied now v actor key p new row u s1)
    let ?i = "ut_instance (pl_target p)"
    note t = applied_tables [OF applied(9-12)]
    show ?thesis
    proof (cases "w = v \<and> i = ?i")
      case False
      then show ?thesis using h t by (auto intro!: cell_history_cong [OF h])
    next
      case True
      let ?g = "generation_of w i s"
      have g: "us_generation u = ?g" using state_of_generation [OF applied(4)] True by simp
      have bounds: "1 \<le> ?g" "?g + 1 \<le> I64_MAX" using h applied(7) g by (auto simp: cell_history_def)
      have new: "update_linked s' w i (?g + 1)
          \<lparr>au_principal = actor, au_key = key, au_plan = p, au_accepted = now\<rparr>"
        using h True t g applied(1,3,6) by (auto simp: update_linked_def cell_history_def)
      have old: "update_linked s' w i k x" if "bt_get (t_updates s) (w, i, k) = Some x" for k x
      proof -
        from that have "update_linked s w i k x" "k \<le> ?g"
          using h by (auto simp: cell_history_def)
        then show ?thesis using True t g by (auto simp: update_linked_def)
      qed
      show ?thesis
        unfolding cell_history_def
        using h True t g bounds new old applied(1,8)
        by (auto simp: cell_history_def split: option.splits if_splits)
    qed
  qed
qed

section \<open>Pinned revisions\<close>

definition pinned :: "store \<Rightarrow> bool" where
  "pinned s \<longleftrightarrow>
     (\<forall>k. bt_get (t_operation_revisions s) k \<noteq> None \<longrightarrow> bt_get (t_actions s) k \<noteq> None)"

lemma pinned_step:
  assumes "store_step c s s'" "pinned s"
  shows "pinned s'"
  unfolding pinned_def
proof (intro allI impI)
  fix k
  assume k: "bt_get (t_operation_revisions s') k \<noteq> None"
  show "bt_get (t_actions s') k \<noteq> None"
  proof (cases "bt_get (t_operation_revisions s) k")
    case (Some d)
    then obtain a where "bt_get (t_actions s) k = Some a"
      using assms(2) unfolding pinned_def by fastforce
    then show ?thesis using action_kept [OF assms(1)] by blast
  next
    case None
    from assms(1) show ?thesis
    proof (cases rule: actions_step)
      case (admitted now q op y)
      then show ?thesis using k None
        by (auto simp: admitted_def Let_def bt_get_insert_or_ignore split: if_splits)
    qed (use k None in auto)
  qed
qed

section \<open>Sessions by their identifier\<close>

definition sessions_keyed :: "store \<Rightarrow> bool" where
  "sessions_keyed s \<longleftrightarrow> (\<forall>w k x. bt_get (t_sessions s) (w, k) = Some x \<longrightarrow> se_id x = k)"

lemma sessions_keyed_step:
  assumes "store_step c s s'" "sessions_keyed s"
  shows "sessions_keyed s'"
  using assms(1)
proof (cases rule: sessions_step)
  case kept
  show ?thesis
    unfolding sessions_keyed_def
  proof (intro allI impI)
    fix w k y
    assume y: "bt_get (t_sessions s') (w, k) = Some y"
    then obtain x where "bt_get (t_sessions s) (w, k) = Some x" "same_session x y"
      using kept unfolding sessions_kept_def
      by (cases "bt_get (t_sessions s) (w, k)") (fastforce dest: spec [of _ "(w, k)"])+
    then show "se_id y = k" using assms(2) by (auto simp: sessions_keyed_def same_session_def)
  qed
next
  case (opened w k x e)
  then show ?thesis using assms(2) by (auto simp: sessions_keyed_def)
qed

section \<open>The invariant of the store\<close>

definition store_inv :: "store \<Rightarrow> bool" where
  "store_inv s \<longleftrightarrow> tables_wf s \<and> numbered s \<and> journal_linked s \<and> closed_quiet s
     \<and> receipts_typed s \<and> histories s \<and> pinned s \<and> sessions_keyed s
     \<and> receipts_fit s"

lemma store_inv_empty: "store_inv empty_store"
  by (auto simp: store_inv_def tables_wf_def numbered_def journal_linked_def closed_quiet_def
      receipts_typed_def histories_def pinned_def sessions_keyed_def receipts_fit_def
      cell_history_def generation_of_def empty_store_def
      cell_numbers_def cell_actions_def I64_MAX_def intro: exI [of _ 0])

lemma store_inv_step: "store_step c s s' \<Longrightarrow> store_inv s \<Longrightarrow> store_inv s'"
  unfolding store_inv_def
  by (blast intro: tables_wf_step numbered_step journal_linked_step closed_quiet_step
      receipts_typed_step histories_step pinned_step sessions_keyed_step receipts_fit_step)

interpretation store_invariant: kept_fact "store_step c" store_inv for c
  by unfold_locales (rule store_inv_step)

lemma reachable_inv: "store_reachable c s \<Longrightarrow> store_inv s"
  unfolding store_reachable_def by (rule store_invariant.kept_star [OF _ store_inv_empty])

section \<open>What never goes back\<close>

text \<open>Rows persist, up to a reflexive and transitive relation on them.\<close>

definition kept_rows :: "('v \<Rightarrow> 'v \<Rightarrow> bool) \<Rightarrow> ('k, 'v) btree \<Rightarrow> ('k, 'v) btree \<Rightarrow> bool" where
  "kept_rows r t t' \<longleftrightarrow>
     (\<forall>k v. bt_get t k = Some v \<longrightarrow> (\<exists>w. bt_get t' k = Some w \<and> r v w))"

lemma kept_rowsI:
  "(\<And>k v. bt_get t k = Some v \<Longrightarrow> \<exists>w. bt_get t' k = Some w \<and> r v w) \<Longrightarrow> kept_rows r t t'"
  by (simp add: kept_rows_def)

lemma kept_rowsD: "kept_rows r t t' \<Longrightarrow> bt_get t k = Some v \<Longrightarrow> \<exists>w. bt_get t' k = Some w \<and> r v w"
  unfolding kept_rows_def by blast

lemma kept_rows_eqD: "kept_rows (=) t t' \<Longrightarrow> bt_get t k = Some v \<Longrightarrow> bt_get t' k = Some v"
  using kept_rowsD by fastforce

lemma kept_rows_refl: "(\<And>v. r v v) \<Longrightarrow> kept_rows r t t"
  by (auto simp: kept_rows_def)

lemma kept_rows_trans:
  assumes "\<And>u v w. r u v \<Longrightarrow> r v w \<Longrightarrow> r u w" "kept_rows r t t'" "kept_rows r t' t''"
  shows "kept_rows r t t''"
  using assms unfolding kept_rows_def by meson

lemma same_run_trans: "same_run e f \<Longrightarrow> same_run f g \<Longrightarrow> same_run e g"
  by (auto simp: same_run_def)

text \<open>The journal, the receipts, the runs, the sessions and the instances along a path.\<close>

definition store_below :: "store \<Rightarrow> store \<Rightarrow> bool" where
  "store_below s s' \<longleftrightarrow>
     kept_rows same_action (t_actions s) (t_actions s')
     \<and> kept_rows (=) (t_idempotency s) (t_idempotency s')
     \<and> kept_rows (=) (t_operation_revisions s) (t_operation_revisions s')
     \<and> kept_rows same_run (t_experiments s) (t_experiments s')
     \<and> kept_rows same_session (t_sessions s) (t_sessions s')
     \<and> kept_rows (\<lambda>r q. in_key q = in_key r) (t_instances s) (t_instances s')
     \<and> kept_rows (\<lambda>r q. rw_revision q = rw_revision r) (t_revisions s) (t_revisions s')"

lemma store_below_step:
  assumes "store_step c s s'"
  shows "store_below s s'"
  unfolding store_below_def
  using action_kept [OF assms] receipt_kept [OF assms] operation_revision_kept [OF assms]
    experiment_kept [OF assms] session_kept [OF assms] instance_kept [OF assms]
    revision_kept [OF assms]
  by (intro conjI kept_rowsI) blast+

interpretation history: rising "store_step c" "\<lambda>_. True" store_below for c
proof
  fix s t u
  show "store_step c s t \<Longrightarrow> True \<Longrightarrow> store_below s t" by (rule store_below_step)
  show "store_below s s" by (simp add: store_below_def kept_rows_refl)
  assume "store_below s t" "store_below t u"
  then show "store_below s u"
    unfolding store_below_def
    by (intro conjI; elim conjE)
      (rule kept_rows_trans; (assumption | fastforce intro: same_action_trans same_run_trans
        same_session_trans))+
qed

end
