(* ===== verification/Store_Paths.thy ===== *)
theory Store_Paths
  imports Store_Invariants
begin

text \<open>
  Every operation of the store is a path of atomic steps from a store that satisfies the invariant,
  so the stores the operations build are reachable ones, whatever they are interleaved with.
\<close>

section \<open>Results of composed operations\<close>

lemma bind_op_Inr:
  "bind_op f g s = (Inr x, s') \<longleftrightarrow> (\<exists>y t. f s = (Inr y, t) \<and> g y t = (Inr x, s'))"
  by (auto simp: bind_op_def split: prod.split sum.split)

lemma read_op_result: "read_op f s = (Inr x, s') \<longleftrightarrow> f s = Inr x \<and> s' = s"
  by (auto simp: read_op_def)

lemma tx_op_result: "tx_op f s = (Inr x, s') \<longleftrightarrow> f s = Inr (x, s')"
  by (auto simp: tx_op_def split: sum.split)

lemma fail_op_result [simp]: "fail_op e s \<noteq> (Inr x, s')"
  by simp

lemmas sop_Inr = bind_op_Inr read_op_result tx_op_result

section \<open>Paths\<close>

definition runs :: "('s \<Rightarrow> 's \<Rightarrow> bool) \<Rightarrow> ('s \<Rightarrow> bool) \<Rightarrow> ('s \<Rightarrow> 'r \<times> 's) \<Rightarrow> bool" where
  "runs step ok f \<longleftrightarrow> (\<forall>s. ok s \<longrightarrow> step\<^sup>*\<^sup>* s (snd (f s)))"

named_theorems path

lemma runsI: "(\<And>s. ok s \<Longrightarrow> step\<^sup>*\<^sup>* s (snd (f s))) \<Longrightarrow> runs step ok f"
  by (simp add: runs_def)

lemma runs_read [path]: "runs step ok (read_op f)"
  by (simp add: runs_def read_op_def)

lemma runs_return [path]: "runs step ok (return_op x)"
  by (simp add: runs_def)

lemma runs_fail [path]: "runs step ok (fail_op e)"
  by (simp add: runs_def)

lemma runs_tx: "(\<And>s x s'. f s = Inr (x, s') \<Longrightarrow> step s s') \<Longrightarrow> runs step ok (tx_op f)"
  unfolding runs_def tx_op_def by (auto split: sum.split)

lemma runs_if [path]:
  "(b \<Longrightarrow> runs step ok f) \<Longrightarrow> (\<not> b \<Longrightarrow> runs step ok g) \<Longrightarrow> runs step ok (if b then f else g)"
  by simp

lemma runs_option [path]:
  "(x = None \<Longrightarrow> runs step ok f) \<Longrightarrow> (\<And>y. x = Some y \<Longrightarrow> runs step ok (g y)) \<Longrightarrow>
   runs step ok (case x of None \<Rightarrow> f | Some y \<Rightarrow> g y)"
  by (cases x) auto

lemma runs_prod [path]: "(\<And>a b. runs step ok (f a b)) \<Longrightarrow> runs step ok (case p of (a, b) \<Rightarrow> f a b)"
  by (cases p) auto

lemma runs_let [path]: "(\<And>x. x = y \<Longrightarrow> runs step ok (f x)) \<Longrightarrow> runs step ok (let x = y in f x)"
  by simp

text \<open>A read does not move the store, so what follows it may use what it found.\<close>

lemma runs_bind_read:
  "(\<And>s x. ok s \<Longrightarrow> f s = Inr x \<Longrightarrow> step\<^sup>*\<^sup>* s (snd (g x s))) \<Longrightarrow>
   runs step ok (bind_op (read_op f) g)"
  unfolding runs_def bind_read_cases by (auto split: sum.split)

abbreviation store_runs :: "codec \<Rightarrow> 'a sop \<Rightarrow> bool" where
  "store_runs c \<equiv> runs (store_step c) store_inv"

lemma store_runs_bind [path]: "store_runs c f \<Longrightarrow> (\<And>x. store_runs c (g x)) \<Longrightarrow> store_runs c (bind_op f g)"
  unfolding runs_def bind_op_def
proof (intro allI impI)
  fix s
  assume f: "\<forall>s. store_inv s \<longrightarrow> (store_step c)\<^sup>*\<^sup>* s (snd (f s))"
    and g: "\<And>x. \<forall>s. store_inv s \<longrightarrow> (store_step c)\<^sup>*\<^sup>* s (snd (g x s))" and s: "store_inv s"
  obtain r t where r: "f s = (r, t)" by (cases "f s")
  then have t: "(store_step c)\<^sup>*\<^sup>* s t" using f s by force
  then have "store_inv t" using s by (rule store_invariant.kept_star)
  then show "(store_step c)\<^sup>*\<^sup>* s (snd (case f s of (Inl e, s') \<Rightarrow> (Inl e, s') | (Inr x, s') \<Rightarrow> g x s'))"
    using t g r by (cases r) (auto intro: rtranclp_trans)
qed

text \<open>What the first part leaves may be used by the second.\<close>

lemma store_runs_bind_post:
  assumes "store_runs c f"
    and "\<And>s x t. store_inv s \<Longrightarrow> f s = (Inr x, t) \<Longrightarrow> store_inv t \<Longrightarrow> (store_step c)\<^sup>*\<^sup>* t (snd (g x t))"
  shows "store_runs c (bind_op f g)"
  unfolding runs_def bind_op_def
proof (intro allI impI)
  fix s
  assume s: "store_inv s"
  obtain r t where r: "f s = (r, t)" by (cases "f s")
  then have t: "(store_step c)\<^sup>*\<^sup>* s t" using assms(1) s unfolding runs_def by force
  then have "store_inv t" using s by (rule store_invariant.kept_star)
  then show "(store_step c)\<^sup>*\<^sup>* s (snd (case f s of (Inl e, s') \<Rightarrow> (Inl e, s') | (Inr x, s') \<Rightarrow> g x s'))"
    using t s assms(2) [of s _ t] r by (cases r) (auto intro: rtranclp_trans)
qed

lemma store_runs_reachable:
  "store_runs c f \<Longrightarrow> store_reachable c s \<Longrightarrow> store_reachable c (snd (f s))"
  unfolding runs_def using reachable_inv store_reachable_star by blast

lemma store_runs_star: "store_runs c f \<Longrightarrow> store_inv s \<Longrightarrow> f s = (r, s') \<Longrightarrow> (store_step c)\<^sup>*\<^sup>* s s'"
  unfolding runs_def by (metis snd_conv)

section \<open>The statements as paths\<close>

lemma receipt_runs [path]:
  "operation \<noteq> ''cell.operation.create'' \<Longrightarrow> operation_body body = None \<Longrightarrow> plan_body body = None \<Longrightarrow>
   fits operation body \<Longrightarrow> store_runs c (tx_op (record_idempotency c w actor key operation request body))"
  by (rule runs_tx) (rule store_step.receipt)

lemma statement_runs [path]:
  "store_runs c (tx_op (put_workspace w name))"
  "store_runs c (tx_op (put_principal actor))"
  "store_runs c (tx_op (grant_capability w actor cap))"
  "store_runs c (tx_op (revoke_capability w actor cap))"
  "store_runs c (tx_op (replace_grants w actor caps))"
  "store_runs c (tx_op (insert_draft w i cell))"
  "store_runs c (tx_op (clone_into w i cell))"
  "store_runs c (tx_op (update_draft w i version cell))"
  "rv_workspace r = w \<Longrightarrow> store_runs c (tx_op (insert_revision w i version r))"
  "store_runs c (tx_op (reserve_tx c nonce w actor name d))"
  "phase \<noteq> HandleOpen \<Longrightarrow> store_runs c (tx_op (set_phase_tx w actor name generation phase))"
  "store_runs c (tx_op (insert_instance row))"
  "store_runs c (tx_op (record_plan_use x plan))"
  "store_runs c (tx_op (bind_runtime x binding))"
  "store_runs c (tx_op (insert_experiment w i inst actor now))"
  "store_runs c (tx_op (ensure_run_tx c now w actor inst i))"
  "store_runs c (tx_op (close_run_tx now w i))"
  "store_runs c (tx_op (finish_session_stmt now w i))"
  "store_runs c (tx_op (finish_cell_stmt now w inst))"
  "store_runs c (tx_op (save_plan_stmt w i p))"
  "rv_digest new = pl_target_revision p \<Longrightarrow> store_runs c (tx_op (accept_tx c now w actor p new key))"
  "store_runs c (tx_op (mark_applied_tx w i generation' converged))"
  "store_runs c (tx_op (close_stmt w i))"
  "\<not> op_active final \<Longrightarrow> unat (af_byte_length af) \<le> MAX_ARTIFACT_BYTES \<Longrightarrow>
     store_runs c (tx_op (result_tx now w i final af sess))"
  "store_runs c (tx_op (running_stmt now w i))"
  "store_runs c (tx_op (insert_private_grant grant))"
  "store_runs c (tx_op (revoke_stmt w i grant))"
  by (rule runs_tx, erule store_step.intros; assumption)+

section \<open>The operations as paths\<close>

lemma draft_operations_run [path]:
  "store_runs c (create_draft c w actor i cell key)"
  "store_runs c (edit_draft c w actor i expected cell key)"
  "store_runs c (clone_draft c w actor source target key)"
  "store_runs c (publish c to_vec print catalog w actor i expected key)"
  unfolding create_draft_def edit_draft_def clone_draft_def publish_def
  by (intro path; simp)+

lemma cell_operations_run [path]:
  "store_runs c (reserve_cell c nonce w actor name d)"
  "store_runs c (set_cell_phase w actor h phase)"
  "store_runs c (materialize c versions_ok nonce w actor i digest key)"
  unfolding reserve_cell_def set_cell_phase_def materialize_def materialize_new_def
  by (intro path; simp split: sum.split add: path)+

lemma ensure_implicit_run_runs [path]: "store_runs c (ensure_implicit_run c now w actor inst i)"
  unfolding ensure_implicit_run_def by (intro path)

lemma implicit_run_id_runs [path]: "store_runs c (implicit_run_id c w actor i)"
  unfolding implicit_run_id_def by (intro path)

lemma run_operations_run [path]:
  "store_runs c (create_experiment c now w actor i inst key)"
  "store_runs c (close_experiment c now w actor i key)"
  "store_runs c (ensure_default_run c now w actor inst cap)"
  unfolding create_experiment_def close_experiment_def ensure_default_run_def
  by (intro path; simp)+

text \<open>A session is tracked in a run that exists, and is the session found afterwards.\<close>

lemma track_session_Inr:
  assumes "track_session c now context w actor run requested s = (Inr x, s')"
  obtains e i where "bt_get (t_experiments s) (w, run) = Some e"
    "track_tx c now w actor e run requested (session_context c w actor run context) i s = Inr (x, s')"
  using assms
  by (auto simp: track_session_def sop_Inr experiment_unchecked_def Let_def
      split: option.splits if_splits)

lemma track_session_runs [path]: "store_runs c (track_session c now context w actor run requested)"
  unfolding track_session_def
  by (rule runs_bind_read)
    (auto simp: Let_def experiment_unchecked_def tx_op_def split: option.splits sum.splits
      intro!: r_into_rtranclp store_step.track)

lemma tracked_session:
  assumes "track_session c now context w actor run requested s = (Inr x, s')" "sessions_keyed s"
  shows "bt_get (t_sessions s') (w, se_id x) = Some x" "se_principal x = actor"
    "se_experiment x = run" "se_finished x = None"
    "\<exists>t. s' = s\<lparr>t_sessions := t\<rparr>"
proof -
  from assms(1) obtain e i where
    "track_tx c now w actor e run requested (session_context c w actor run context) i s = Inr (x, s')"
    by (rule track_session_Inr)
  then have "bt_get (t_sessions s') (w, se_id x) = Some x \<and> se_principal x = actor
    \<and> se_experiment x = run \<and> se_finished x = None \<and> (\<exists>t. s' = s\<lparr>t_sessions := t\<rparr>)"
  proof (cases rule: track_Inr)
    case continued
    from track_target_own [OF continued(1)] obtain k where
      own: "bt_get (t_sessions s) (w, k) = Some x" "se_principal x = actor" "se_experiment x = run"
        "se_finished x = None" by blast
    moreover have "\<exists>t. s' = s\<lparr>t_sessions := t\<rparr>"
      using continued(2) by (intro exI [of _ "t_sessions s"]) simp
    ultimately show ?thesis using assms(2) continued(2) unfolding sessions_keyed_def by metis
  qed auto
  then show "bt_get (t_sessions s') (w, se_id x) = Some x" "se_principal x = actor"
    "se_experiment x = run" "se_finished x = None" "\<exists>t. s' = s\<lparr>t_sessions := t\<rparr>"
    by blast+
qed

lemma session_operations_run [path]:
  "store_runs c (start_session c now context w actor run i key)"
  "store_runs c (finish_session now w actor i)"
  "store_runs c (finish_cell_sessions now w actor inst)"
  unfolding start_session_def finish_session_def finish_cell_sessions_def session_for_finish_def
  by (intro path; simp)+

lemma update_operations_run [path]:
  "store_runs c (save_update_plan w actor i p)"
  "store_runs c (begin_instance_close w actor i)"
  unfolding save_update_plan_def begin_instance_close_def by (intro path; simp)+

lemma new_plan_target: "new_plan c target old new = Some p \<Longrightarrow> pl_target_revision p = rv_digest new"
  by (auto simp: new_plan_def seal_plan_def Let_def split: option.splits)

lemma bind_instance_target: "bind_instance c key p = q \<Longrightarrow> pl_target_revision q = pl_target_revision p"
  by (auto simp: bind_instance_def seal_plan_def)

lemma accept_update_runs [path]: "store_runs c (accept_update c now w actor p key)"
  unfolding accept_update_def
  by (intro path) (auto dest!: new_plan_target bind_instance_target)

lemma private_operations_run [path]:
  "store_runs c (issue_private_access c now w actor recipient i inst scope key)"
  "store_runs c (revoke_private_access now w actor i)"
  unfolding issue_private_access_def revoke_private_access_def private_access_def
    operation_context_def
  by (intro path; simp)+

lemma result_operations_run [path]:
  "store_runs c (record_operation_result c now w i final content)"
  "store_runs c (update_operation_phase now w i phase)"
  unfolding record_operation_result_def update_operation_phase_def
  by (intro path; simp add: MAX_ARTIFACT_BYTES_def unat_of_nat)+

text \<open>An operation is admitted under the session tracked for it.\<close>

lemma tracked_admission_runs:
  assumes "aq_workspace q = w" "aq_actor q = actor" "aq_experiment q = run"
  shows "store_runs c (bind_op (track_session c now context w actor run requested)
     (\<lambda>x. tx_op (admission_tx c now (q\<lparr>aq_session := se_id x\<rparr>))))"
proof (rule store_runs_bind_post [OF track_session_runs])
  fix s x t
  assume "store_inv s" "track_session c now context w actor run requested s = (Inr x, t)"
  then have "bt_get (t_sessions t) (w, se_id x) = Some x" "se_principal x = actor"
    "se_experiment x = run"
    using tracked_session by (auto simp: store_inv_def)
  then show "(store_step c)\<^sup>*\<^sup>* t (snd (tx_op (admission_tx c now (q\<lparr>aq_session := se_id x\<rparr>)) t))"
    using assms
    by (auto simp: tx_op_def split: sum.split intro!: r_into_rtranclp store_step.admit)
qed

lemma resolve_run_runs [path]: "store_runs c (resolve_run c w actor i e operation)"
  unfolding resolve_run_def
  by (intro path) (auto split: sum.split store_error.split intro!: path)

lemma create_operation_runs [path]:
  "store_runs c (create_operation c now context w actor i e sess operation kind raw key cap expected)"
  unfolding create_operation_def
  by (intro path tracked_admission_runs; simp)

end
