(* ===== verification/Store_Histories.thy ===== *)
theory Store_Histories
  imports Store_Paths "HOL-Library.Sublist"
begin

text \<open>
  What holds along every path of steps: accepted updates and running operations keep out of each
  other's way, a closed run is frozen, a name never reopens under the same generation, a draft never
  loses an edit, and the configuration of a cell is a log that only grows.
\<close>

section \<open>Updates and active operations\<close>

definition applied_of :: "string \<Rightarrow> string \<Rightarrow> store \<Rightarrow> int" where
  "applied_of w i s =
     (case bt_get (t_update_state s) (w, i) of None \<Rightarrow> 1 | Some u \<Rightarrow> us_applied u)"

lemma state_of_applied: "state_of w i s = Inr u \<Longrightarrow> us_applied u = applied_of w i s"
  by (auto simp: state_of_def applied_of_def and_then_Inr_iff initial_update_state_def
      split: option.splits)

lemma applied_rises:
  assumes "store_step c s s'"
  shows "applied_of w i s \<le> applied_of w i s'"
  using assms
proof cases
  case (accept now v actor p new key x)
  from accept(1) show ?thesis
    by (cases rule: accept_Inr)
      (auto simp: applied_of_def apply_update_Inr set_generation_def split: option.splits)
next
  case (mark_applied v j g converged x)
  then show ?thesis
    by (elim mark_applied_Inr)
      (auto simp: applied_of_def bt_get_set_at split: option.splits)
next
  case (mark_closing v j x)
  then show ?thesis
    by (cases "w = v \<and> i = j")
      (auto simp: close_stmt_def applied_of_def initial_update_state_def split: option.splits)
qed (auto dest!: frames simp: applied_of_def)

text \<open>
  No update that still has to be applied restarts or removes a component an active operation names;
  reading logs is not counted.
\<close>

definition undisturbed :: "store \<Rightarrow> bool" where
  "undisturbed s \<longleftrightarrow>
     (\<forall>w k a g u. bt_get (t_actions s) (w, k) = Some a \<and> op_active (ac_phase a)
        \<and> ac_kind a \<noteq> OpComponentLogs
        \<and> bt_get (t_updates s) (w, ac_instance a, g) = Some u
        \<and> applied_of w (ac_instance a) s < g \<longrightarrow>
        \<not> references (ac_request a) (affected (au_plan u)))"

lemma pending_plans_table:
  "bt_wf (t_updates s) \<Longrightarrow>
     p \<in> set (pending_plans w i after s) \<longleftrightarrow>
       (\<exists>g u. bt_get (t_updates s) (w, i, g) = Some u \<and> after < g \<and> au_plan u = p)"
  by (force simp: pending_plans_def updates_of_def bt_get_iff)

lemma active_conflicts_table:
  "bt_wf (t_actions s) \<Longrightarrow>
     active_conflicts w i ids s \<longleftrightarrow>
       (\<exists>k a. bt_get (t_actions s) (w, k) = Some a \<and> ac_instance a = i \<and> op_active (ac_phase a)
          \<and> references (ac_request a) ids)"
  unfolding active_conflicts_def op_active_def by (subst list_ex_table) auto

text \<open>An update after a step is an old one, or one accepted over no active conflict.\<close>

lemma updates_step:
  assumes "store_step c s s'" "bt_get (t_updates s') (w, i, g) = Some u"
  obtains "bt_get (t_updates s) (w, i, g) = Some u"
  | "\<not> active_conflicts w i (affected (au_plan u)) s"
  using assms(1)
proof (cases rule: config_step)
  case (applied now v actor key p new row x s1)
  then show thesis using that assms(2)
    by (auto simp: apply_update_Inr split: if_splits)
qed (use that assms(2) in auto)

text \<open>An action after a step is an old one that moved on, or a newly admitted one.\<close>

lemma actions_after:
  assumes "store_step c s s'" "bt_get (t_actions s') k = Some b"
  obtains a where "bt_get (t_actions s) k = Some a" "same_action a b"
  | now q op where "admitted c now q s op s'" "k = (aq_workspace q, aq_operation q)"
      "b = new_action c now q (last_sequence (aq_workspace q) (aq_instance q) s + 1)"
      "bt_get (t_actions s) k = None"
      "run_open (aq_workspace q) (aq_experiment q) (aq_instance q) s"
proof (cases "bt_get (t_actions s) k")
  case (Some a)
  then show thesis using that(1) action_kept [OF assms(1)] assms(2) by fastforce
next
  case None
  from assms(1) show thesis
  proof (cases rule: actions_step)
    case (admitted now q op y)
    then show thesis using that(2) [OF admitted(1)] None assms(2)
      by (auto simp: admitted_actions split: if_splits)
  qed (use None assms(2) in \<open>auto split: if_splits\<close>)
qed

lemma undisturbed_step:
  assumes "store_step c s s'" "tables_wf s" "undisturbed s"
  shows "undisturbed s'"
  unfolding undisturbed_def
proof (intro allI impI, elim conjE)
  fix w k b g u
  assume b: "bt_get (t_actions s') (w, k) = Some b" "op_active (ac_phase b)"
      "ac_kind b \<noteq> OpComponentLogs"
    and u: "bt_get (t_updates s') (w, ac_instance b, g) = Some u"
      "applied_of w (ac_instance b) s' < g"
  have applied: "applied_of w (ac_instance b) s < g"
    using applied_rises [OF assms(1)] u(2) by (rule order.strict_trans1)
  from assms(1) b(1) show "\<not> references (ac_request b) (affected (au_plan u))"
  proof (cases rule: actions_after)
    case (1 a)
    then have a: "op_active (ac_phase a)" "ac_kind a \<noteq> OpComponentLogs"
      "ac_request a = ac_request b" "ac_instance a = ac_instance b"
      using b same_action_fields [OF 1(2)] by (auto simp: same_action_def op_active_rank)
    from assms(1) u(1) show ?thesis
    proof (cases rule: updates_step)
      case 1
      then show ?thesis using assms(3) \<open>bt_get (t_actions s) (w, k) = Some a\<close> a applied
        unfolding undisturbed_def by metis
    next
      case 2
      then have "\<not> references (ac_request a) (affected (au_plan u))"
        using active_conflicts_table assms(2) \<open>bt_get (t_actions s) (w, k) = Some a\<close> a(1,4)
        unfolding tables_wf_def by blast
      then show ?thesis using a(3) by simp
    qed
  next
    case (2 now q op)
    then obtain x where x: "state_of w (ac_instance b) s = Inr x"
      "\<not> list_ex (\<lambda>p. references (ac_request b) (affected p))
         (pending_plans w (ac_instance b) (us_applied x) s)" "t_updates s' = t_updates s"
      using b(3) by (auto simp: admitted_def Let_def)
    then have "au_plan u \<in> set (pending_plans w (ac_instance b) (us_applied x) s)"
      using u(1) applied assms(2) state_of_applied [OF x(1)]
      by (auto simp: pending_plans_table tables_wf_def)
    then show ?thesis using x(2) by (auto simp: list_ex_iff)
  qed
qed

interpretation updates_apart: kept_fact "store_step c" "\<lambda>s. store_inv s \<and> undisturbed s" for c
  by unfold_locales (use store_inv_step undisturbed_step store_inv_def in blast)

lemma reachable_undisturbed: "store_reachable c s \<Longrightarrow> undisturbed s"
  unfolding store_reachable_def
  by (drule updates_apart.kept_star)
    (auto simp: store_inv_empty undisturbed_def, simp_all add: empty_store_def)

section \<open>Closed runs\<close>

definition same_closed ::
  "string \<Rightarrow> string \<Rightarrow> experiment_row \<Rightarrow> store \<Rightarrow> store \<Rightarrow> bool" where
  "same_closed w i e s s' \<longleftrightarrow>
     (\<exists>f. bt_get (t_experiments s') (w, i) = Some f \<and> ex_phase f = RunClosed
          \<and> ex_closed f = ex_closed e)
     \<and> bt_get (t_run_seals s') (w, i) = bt_get (t_run_seals s) (w, i)
     \<and> (\<forall>k a. ac_experiment a = i \<longrightarrow>
          (bt_get (t_actions s') (w, k) = Some a \<longleftrightarrow> bt_get (t_actions s) (w, k) = Some a))"

definition run_kept :: "store \<Rightarrow> store \<Rightarrow> bool" where
  "run_kept s s' \<longleftrightarrow>
     (\<forall>w i e. bt_get (t_experiments s) (w, i) = Some e \<and> ex_phase e = RunClosed \<longrightarrow>
        same_closed w i e s s')"

lemma run_kept_trans:
  assumes "run_kept s t" "run_kept t u"
  shows "run_kept s u"
  unfolding run_kept_def
proof (intro allI impI)
  fix w i e
  assume e: "bt_get (t_experiments s) (w, i) = Some e \<and> ex_phase e = RunClosed"
  then have st: "same_closed w i e s t" using assms(1) unfolding run_kept_def by blast
  then obtain f where f: "bt_get (t_experiments t) (w, i) = Some f" "ex_phase f = RunClosed"
    "ex_closed f = ex_closed e" unfolding same_closed_def by blast
  then have tu: "same_closed w i f t u" using assms(2) unfolding run_kept_def by blast
  show "same_closed w i e s u"
    unfolding same_closed_def
  proof (intro conjI)
    show "\<exists>f. bt_get (t_experiments u) (w, i) = Some f \<and> ex_phase f = RunClosed
        \<and> ex_closed f = ex_closed e"
      using tu f(3) unfolding same_closed_def by metis
    show "bt_get (t_run_seals u) (w, i) = bt_get (t_run_seals s) (w, i)"
      using st tu unfolding same_closed_def by metis
    show "\<forall>k a. ac_experiment a = i \<longrightarrow>
        (bt_get (t_actions u) (w, k) = Some a \<longleftrightarrow> bt_get (t_actions s) (w, k) = Some a)"
      using st tu unfolding same_closed_def by blast
  qed
qed

lemma run_kept_step:
  assumes "store_step c s s'" "store_inv s"
  shows "run_kept s s'"
  unfolding run_kept_def same_closed_def
proof (intro allI impI, elim conjE, intro conjI)
  fix w i e
  assume e: "bt_get (t_experiments s) (w, i) = Some e" "ex_phase e = RunClosed"
  have quiet: "bt_get (t_run_seals s) (w, i) \<noteq> None" "ex_closed e \<noteq> None"
    "\<And>j a. bt_get (t_actions s) (w, j) = Some a \<Longrightarrow> ac_experiment a = i \<Longrightarrow> \<not> op_active (ac_phase a)"
    using assms(2) e unfolding store_inv_def closed_quiet_def by blast+
  show "\<exists>f. bt_get (t_experiments s') (w, i) = Some f \<and> ex_phase f = RunClosed
      \<and> ex_closed f = ex_closed e"
    using experiment_kept [OF assms(1) e(1)] e(2) quiet(2) by (auto simp: same_run_def)
  from assms(1) show "bt_get (t_run_seals s') (w, i) = bt_get (t_run_seals s) (w, i)"
    by (cases rule: experiments_step)
      (use quiet(1) in \<open>auto simp: bt_get_insert_or_ignore split: option.splits\<close>)
  show "\<forall>k a. ac_experiment a = i \<longrightarrow>
      (bt_get (t_actions s') (w, k) = Some a \<longleftrightarrow> bt_get (t_actions s) (w, k) = Some a)"
  proof (intro allI impI iffI)
    fix k a
    assume a: "ac_experiment a = i" "bt_get (t_actions s) (w, k) = Some a"
    then obtain b where "bt_get (t_actions s') (w, k) = Some b" "same_action a b"
      using action_kept [OF assms(1)] by blast
    then show "bt_get (t_actions s') (w, k) = Some a"
      using quiet(3) [OF a(2,1)] by (simp add: same_action_def)
  next
    fix k b
    assume b: "ac_experiment b = i" "bt_get (t_actions s') (w, k) = Some b"
    from assms(1) b(2) show "bt_get (t_actions s) (w, k) = Some b"
    proof (cases rule: actions_after)
      case (1 a)
      then show ?thesis using quiet(3) [OF 1(1)] b(1) same_action_fields(4) [OF 1(2)]
        by (simp add: same_action_def)
    next
      case (2 now q op)
      then show ?thesis using b(1) e by (auto simp: run_open_def)
    qed
  qed
qed

interpretation runs_frozen: rising "store_step c" store_inv run_kept for c
proof
  fix s t u
  show "store_step c s t \<Longrightarrow> store_inv s \<Longrightarrow> store_inv t" by (rule store_inv_step)
  show "store_step c s t \<Longrightarrow> store_inv s \<Longrightarrow> run_kept s t" by (rule run_kept_step)
  show "run_kept s s" by (simp add: run_kept_def same_closed_def)
  show "run_kept s t \<Longrightarrow> run_kept t u \<Longrightarrow> run_kept s u" by (rule run_kept_trans)
qed

section \<open>Names\<close>

fun handle_rank :: "cell_handle_phase \<Rightarrow> nat" where
  "handle_rank HandleOpen = 0"
| "handle_rank HandleClosing = 1"
| "handle_rank HandleClosed = 2"

text \<open>A name keeps its owner; within a generation it keeps its instance and only closes.\<close>

definition handle_below :: "cell_handle \<Rightarrow> cell_handle \<Rightarrow> bool" where
  "handle_below h h' \<longleftrightarrow> ch_owner h' = ch_owner h
     \<and> (ch_generation h < ch_generation h'
        \<or> ch_generation h' = ch_generation h \<and> ch_instance h' = ch_instance h
           \<and> handle_rank (ch_phase h) \<le> handle_rank (ch_phase h'))"

lemma handle_below_refl [simp]: "handle_below h h"
  by (simp add: handle_below_def)

lemma handle_below_trans: "handle_below h i \<Longrightarrow> handle_below i j \<Longrightarrow> handle_below h j"
  unfolding handle_below_def by (elim conjE disjE) (auto dest: order.strict_trans)

lemma next_generation_rises:
  "next_handle_generation (Some h) = Inr g \<Longrightarrow> ch_generation h < g"
  by (auto simp: next_handle_generation_def word_less_def checked_add_uint split: option.splits)

lemma closing_rank: "phase \<noteq> HandleOpen \<Longrightarrow> old \<noteq> HandleClosed \<Longrightarrow> handle_rank old \<le> handle_rank phase"
  by (cases phase; cases old) auto

lemma handle_kept:
  assumes "store_step c s s'" "bt_get (t_handles s) k = Some h"
  shows "\<exists>h'. bt_get (t_handles s') k = Some h' \<and> handle_below h h'"
  using assms(1)
proof (cases rule: handles_step)
  case same
  then show ?thesis using assms(2) by simp
next
  case (reserved w name actor g)
  show ?thesis
  proof (cases "k = (w, name)")
    case True
    then have "next_handle_generation (Some h) = Inr (ch_generation g)" "ch_owner h = actor"
      using reserved(2,3) assms(2) by (simp_all add: handle_of_def)
    moreover have "ch_owner g = actor" using reserved(1) by (metis cell_handle.select_convs(3)
        cell_handle.surjective cell_handle.update_convs(1,3,5))
    ultimately show ?thesis
      using True reserved(4) next_generation_rises by (auto simp: handle_below_def)
  next
    case False
    then show ?thesis using reserved(4) assms(2) by simp
  qed
next
  case (phase w name g ph)
  then show ?thesis using assms(2)
    by (cases "k = (w, name)")
      (auto simp: handle_of_def handle_below_def handle_with_phase_def closing_rank)
next
  case (config p d)
  then show ?thesis using assms(2) by (auto simp: bt_get_update_where handle_below_def)
qed

section \<open>Drafts\<close>

text \<open>A draft's version rises with every edit, so a version has one content.\<close>

definition draft_below :: "draft_row \<Rightarrow> draft_row \<Rightarrow> bool" where
  "draft_below d e \<longleftrightarrow> d = e \<or> dw_version d < dw_version e"

lemma draft_below_refl [simp]: "draft_below d d"
  by (simp add: draft_below_def)

lemma draft_below_trans: "draft_below d e \<Longrightarrow> draft_below e f \<Longrightarrow> draft_below d f"
  by (auto simp: draft_below_def)

lemma draft_kept:
  assumes "store_step c s s'" "bt_get (t_drafts s) k = Some d"
  shows "\<exists>e. bt_get (t_drafts s') k = Some e \<and> draft_below d e"
  using assms(1)
proof (cases rule: drafts_step)
  case same
  then show ?thesis using assms(2) by simp
next
  case (inserted l cell)
  then show ?thesis using assms(2) by (cases "k = l") auto
next
  case (edited l row cell)
  then show ?thesis using assms(2) by (cases "k = l") (auto simp: draft_below_def)
qed

definition names_below :: "store \<Rightarrow> store \<Rightarrow> bool" where
  "names_below s s' \<longleftrightarrow>
     kept_rows handle_below (t_handles s) (t_handles s')
     \<and> kept_rows draft_below (t_drafts s) (t_drafts s')"

interpretation names: rising "store_step c" "\<lambda>_. True" names_below for c
proof
  fix s t u
  show "store_step c s t \<Longrightarrow> True \<Longrightarrow> names_below s t"
    unfolding names_below_def
    by (intro conjI kept_rowsI) (blast intro: handle_kept draft_kept)+
  show "names_below s s" by (simp add: names_below_def kept_rows_refl)
  assume "names_below s t" "names_below t u"
  then show "names_below s u"
    unfolding names_below_def
    by (intro conjI; elim conjE)
      (rule kept_rows_trans; (assumption | fastforce intro: handle_below_trans draft_below_trans))+
qed simp

section \<open>The configuration of a cell\<close>

text \<open>
  The revisions a cell has run, from its first: the revision of a generation is the one its update
  ended at, which is where the next update starts.
\<close>

definition revision_at :: "string \<Rightarrow> string \<Rightarrow> store \<Rightarrow> instance_row \<Rightarrow> int \<Rightarrow> string" where
  "revision_at w i s row g =
     (case bt_get (t_updates s) (w, i, g + 1) of
        None \<Rightarrow> in_revision row | Some u \<Rightarrow> pl_base_revision (au_plan u))"

definition config_log :: "string \<Rightarrow> string \<Rightarrow> store \<Rightarrow> string list" where
  "config_log w i s =
     (case bt_get (t_instances s) (w, i) of
        None \<Rightarrow> []
      | Some row \<Rightarrow> map (revision_at w i s row) [1..generation_of w i s])"

text \<open>The abstract log: an update is appended by comparing and swapping.\<close>

definition log_append :: "nat \<Rightarrow> 'r \<Rightarrow> 'r \<Rightarrow> 'r list \<Rightarrow> 'r list option" where
  "log_append expected base target xs =
     (if xs \<noteq> [] \<and> length xs = expected \<and> last xs = base then Some (xs @ [target]) else None)"

lemma config_log_length:
  "cell_history s w i \<Longrightarrow> bt_get (t_instances s) (w, i) \<noteq> None \<Longrightarrow>
     length (config_log w i s) = nat (generation_of w i s) \<and> config_log w i s \<noteq> []"
  by (auto simp: config_log_def cell_history_def)

lemma no_later_update:
  assumes "cell_history s w i" "generation_of w i s < g"
  shows "bt_get (t_updates s) (w, i, g) = None"
proof (rule ccontr)
  assume "bt_get (t_updates s) (w, i, g) \<noteq> None"
  then have "g \<le> generation_of w i s" using assms(1) unfolding cell_history_def by blast
  then show False using assms(2) by simp
qed

lemma upto_snoc: "1 \<le> n \<Longrightarrow> [1..n + 1] = [1..n] @ [n + (1::int)]"
  by (simp add: upto_rec2)

lemma config_log_last:
  assumes "cell_history s w i" "bt_get (t_instances s) (w, i) = Some row"
  shows "last (config_log w i s) = in_revision row"
proof -
  let ?g = "generation_of w i s"
  have g: "1 \<le> ?g" "bt_get (t_updates s) (w, i, ?g + 1) = None"
    using assms(1) no_later_update [OF assms(1)] by (simp_all add: cell_history_def)
  then have "[1..?g] = [1..?g - 1] @ [?g]" by (simp add: upto_rec2)
  then show ?thesis using assms(2) g(2) by (simp add: config_log_def revision_at_def)
qed

lemma config_log_cong:
  assumes "bt_get (t_instances s') (w, i) = bt_get (t_instances s) (w, i)"
    "\<And>g. bt_get (t_updates s') (w, i, g) = bt_get (t_updates s) (w, i, g)"
    "generation_of w i s' = generation_of w i s"
  shows "config_log w i s' = config_log w i s"
  using assms by (simp add: config_log_def revision_at_def split: option.split)

lemma applied_log:
  assumes "bt_get (t_instances s) (w, ut_instance (pl_target p)) = Some row"
    "in_revision row = pl_base_revision p"
    "state_of w (ut_instance (pl_target p)) s = Inr u"
    "us_generation u = uint (ut_expected_generation (pl_target p))"
    "rv_digest new = pl_target_revision p"
    "apply_update c now w actor key p new (us_generation u + 1) s = Inr s1"
    "t_instances s' = t_instances s1" "t_updates s' = t_updates s1"
    "t_update_state s' = t_update_state s1"
    "cell_history s w (ut_instance (pl_target p))"
  shows "log_append (nat (uint (ut_expected_generation (pl_target p)))) (pl_base_revision p)
      (pl_target_revision p) (config_log w (ut_instance (pl_target p)) s)
    = Some (config_log w (ut_instance (pl_target p)) s')"
proof -
  let ?i = "ut_instance (pl_target p)"
  note t = applied_tables [OF assms(6-9)] and h = assms(10)
  let ?g = "generation_of w ?i s"
  have g: "us_generation u = ?g" using state_of_generation [OF assms(3)] by simp
  have lower: "1 \<le> ?g" "bt_get (t_updates s) (w, ?i, ?g + 1) = None"
    "bt_get (t_updates s) (w, ?i, 2 + ?g) = None"
    using h no_later_update [OF h] by (simp_all add: cell_history_def)
  let ?r = "row\<lparr>in_revision := rv_digest new, in_lock := lk_digest (rv_lock new)\<rparr>"
  have row: "bt_get (t_instances s) (w, ?i) = Some row" "bt_get (t_instances s') (w, ?i) = Some ?r"
    using assms(1) t(3) [of "(w, ?i)"] by simp_all
  have old: "revision_at w ?i s' ?r k = revision_at w ?i s row k" if k: "k \<in> set [1..?g]" for k
  proof (cases "k = ?g")
    case False
    then have "2 \<le> k + 1" "k + 1 \<le> ?g" using k by auto
    then obtain x where "bt_get (t_updates s) (w, ?i, k + 1) = Some x"
      using h unfolding cell_history_def by (metis not_None_eq)
    then show ?thesis using t(1) g False by (auto simp: revision_at_def)
  qed (use t(1) g assms(2) lower(2) in \<open>auto simp: revision_at_def\<close>)
  have new: "revision_at w ?i s' ?r (?g + 1) = pl_target_revision p"
    using t(1) g lower(3) assms(5) by (auto simp: revision_at_def)
  have "config_log w ?i s' = config_log w ?i s @ [pl_target_revision p]"
    using row t(2) g lower(1) old new by (simp add: config_log_def upto_snoc)
  moreover have "length (config_log w ?i s) = nat ?g" "config_log w ?i s \<noteq> []"
    "last (config_log w ?i s) = pl_base_revision p"
    using config_log_length [OF h] config_log_last [OF h row(1)] row(1) assms(2) by auto
  ultimately show ?thesis using assms(4) g by (simp add: log_append_def)
qed

lemma config_log_step:
  assumes "store_step c s s'" "histories s"
  obtains "config_log w i s' = config_log w i s"
  | r where "config_log w i s = []" "config_log w i s' = [r]"
  | p :: update_plan where "log_append (nat (uint (ut_expected_generation (pl_target p)))) (pl_base_revision p)
      (pl_target_revision p) (config_log w i s) = Some (config_log w i s')"
proof -
  have h: "cell_history s w i" using assms(2) by (simp add: histories_def)
  from assms(1) show thesis
  proof (cases rule: config_step)
    case same
    then show thesis using that(1) config_log_cong by metis
  next
    case (inserted row)
    show thesis
    proof (cases "(w, i) = (in_workspace row, in_id row)")
      case True
      then have none: "bt_get (t_instances s) (w, i) = None"
        using inserted(1) by (auto simp: instance_unique_def bt_contains_key_def)
      then have "generation_of w i s = 1" using h by (simp add: cell_history_def)
      then have "generation_of w i s' = 1" using inserted(4) by (simp add: generation_of_def)
      then have "config_log w i s' = [revision_at w i s' row 1]"
        using inserted(2) True by (simp add: config_log_def)
      then show thesis using that(2) none by (simp add: config_log_def)
    next
      case False
      then show thesis using inserted
        by (intro that(1) config_log_cong) (auto simp: generation_of_def)
    qed
  next
    case (applied now v actor key p new row u s1)
    let ?i = "ut_instance (pl_target p)"
    note t = applied_tables [OF applied(9-12)]
    show thesis
    proof (cases "w = v \<and> i = ?i")
      case False
      then show thesis using t by (intro that(1) config_log_cong) auto
    next
      case True
      then show thesis
        using that(3) [of p] applied_log [OF applied(1,3,4,6,8,9-12)] h True by simp
    qed
  qed
qed

lemma log_append_prefix: "log_append n b r xs = Some ys \<Longrightarrow> ys = xs @ [r] \<and> xs \<noteq> []"
  by (auto simp: log_append_def split: if_splits)

definition logs_below :: "store \<Rightarrow> store \<Rightarrow> bool" where
  "logs_below s s' \<longleftrightarrow> (\<forall>w i. prefix (config_log w i s) (config_log w i s'))"

lemma logs_below_step:
  assumes "store_step c s s'" "store_inv s"
  shows "logs_below s s'"
  unfolding logs_below_def
proof (intro allI)
  fix w i
  have "histories s" using assms(2) by (simp add: store_inv_def)
  then show "prefix (config_log w i s) (config_log w i s')"
    by (rule config_log_step [OF assms(1), of w i]) (auto dest!: log_append_prefix)
qed

interpretation logs: rising "store_step c" store_inv logs_below for c
proof
  fix s t u
  show "store_step c s t \<Longrightarrow> store_inv s \<Longrightarrow> store_inv t" by (rule store_inv_step)
  show "store_step c s t \<Longrightarrow> store_inv s \<Longrightarrow> logs_below s t" by (rule logs_below_step)
  show "logs_below s s" by (simp add: logs_below_def)
  show "logs_below s t \<Longrightarrow> logs_below t u \<Longrightarrow> logs_below s u"
    unfolding logs_below_def by (blast intro: prefix_order.trans)
qed

text \<open>Every operation runs on a configuration of its cell's log.\<close>

definition pinned_in_log :: "store \<Rightarrow> bool" where
  "pinned_in_log s \<longleftrightarrow>
     (\<forall>w k a d. bt_get (t_actions s) (w, k) = Some a
        \<and> bt_get (t_operation_revisions s) (w, k) = Some d \<longrightarrow>
        d \<in> set (config_log w (ac_instance a) s))"

text \<open>An operation is pinned to the configuration its cell has at its admission.\<close>

lemma admitted_revision:
  assumes "admitted c now q s op s'" "pinned s"
    "bt_get (t_actions s) (aq_workspace q, aq_operation q) = None"
  obtains row where "bt_get (t_instances s) (aq_workspace q, aq_instance q) = Some row"
    "ac_revision op = in_revision row"
    "bt_get (t_operation_revisions s') (aq_workspace q, aq_operation q) = Some (in_revision row)"
proof -
  have "bt_get (t_operation_revisions s) (aq_workspace q, aq_operation q) = None"
    using assms(2,3) unfolding pinned_def by blast
  then show thesis using assms(1) that
    by (auto simp: admitted_def Let_def bt_get_insert_or_ignore)
qed

lemma pinned_in_log_step:
  assumes "store_step c s s'" "store_inv s" "pinned_in_log s"
  shows "pinned_in_log s'"
  unfolding pinned_in_log_def
proof (intro allI impI, elim conjE)
  fix w k b d
  assume b: "bt_get (t_actions s') (w, k) = Some b"
    "bt_get (t_operation_revisions s') (w, k) = Some d"
  have grow: "set (config_log v i s) \<subseteq> set (config_log v i s')" for v i
    using logs_below_step [OF assms(1,2)] unfolding logs_below_def by (meson set_mono_prefix)
  from assms(1) b(1) show "d \<in> set (config_log w (ac_instance b) s')"
  proof (cases rule: actions_after)
    case (1 a)
    obtain e where e: "bt_get (t_operation_revisions s) (w, k) = Some e"
      using assms(2) 1(1) unfolding store_inv_def journal_linked_def action_linked_def by blast
    then have "e = d" using operation_revision_kept [OF assms(1) e] b(2) by simp
    then have "d \<in> set (config_log w (ac_instance a) s)"
      using assms(3) 1(1) e unfolding pinned_in_log_def by blast
    then show ?thesis using grow same_action_fields(3) [OF 1(2)] by auto
  next
    case (2 now q op)
    have p: "pinned s" "histories s" using assms(2) by (simp_all add: store_inv_def)
    from 2(1) p(1) obtain row where
      row: "bt_get (t_instances s) (aq_workspace q, aq_instance q) = Some row"
        "bt_get (t_operation_revisions s') (aq_workspace q, aq_operation q) = Some (in_revision row)"
      using 2(2,4) by (auto elim: admitted_revision)
    have h: "cell_history s (aq_workspace q) (aq_instance q)" using p(2) by (simp add: histories_def)
    have "in_revision row \<in> set (config_log (aq_workspace q) (aq_instance q) s)"
      using config_log_last [OF h row(1)] config_log_length [OF h] row(1) last_in_set
      by (metis option.distinct(1))
    then show ?thesis using grow 2(2,3) row(2) b(2) by auto
  qed
qed

interpretation pins: kept_fact "store_step c" "\<lambda>s. store_inv s \<and> pinned_in_log s" for c
  by unfold_locales (use store_inv_step pinned_in_log_step in blast)

lemma reachable_pinned: "store_reachable c s \<Longrightarrow> pinned_in_log s"
  unfolding store_reachable_def
  by (drule pins.kept_star)
    (auto simp: store_inv_empty pinned_in_log_def, simp_all add: empty_store_def)

end
