(* ===== verification/Store_Requests.thy ===== *)
theory Store_Requests
  imports Store_Histories
begin

text \<open>
  What a request that succeeds leaves behind, and what the same request finds later: the receipt, the
  row of its operation, and the run it was grouped in.
\<close>

section \<open>The stages of a request\<close>

definition requested ::
  "string \<Rightarrow> string \<Rightarrow> string \<Rightarrow> string \<Rightarrow> string \<Rightarrow> string \<Rightarrow> operation_kind \<Rightarrow> json \<Rightarrow> string \<Rightarrow>
   capability \<Rightarrow> string option \<Rightarrow> operation_request" where
  "requested w actor i run sess operation kind raw key cap expected =
     \<lparr>aq_workspace = w, aq_actor = actor, aq_instance = i, aq_experiment = run,
      aq_requested_session = sess, aq_session = sess, aq_operation = operation, aq_kind = kind,
      aq_request = normalize_request run raw, aq_key = key, aq_capability = cap,
      aq_expected = expected\<rparr>"

lemma requested_simps [simp]:
  "aq_workspace (requested w actor i run sess operation kind raw key cap expected) = w"
  "aq_actor (requested w actor i run sess operation kind raw key cap expected) = actor"
  "aq_instance (requested w actor i run sess operation kind raw key cap expected) = i"
  "aq_experiment (requested w actor i run sess operation kind raw key cap expected) = run"
  "aq_operation (requested w actor i run sess operation kind raw key cap expected) = operation"
  "aq_kind (requested w actor i run sess operation kind raw key cap expected) = kind"
  "aq_key (requested w actor i run sess operation kind raw key cap expected) = key"
  "aq_request (requested w actor i run sess operation kind raw key cap expected)
     = normalize_request run raw"
  by (simp_all add: requested_def)

text \<open>The receipt of a request does not depend on the session it is given nor on expectations.\<close>

lemma envelope_simps [simp]:
  "operation_envelope (q\<lparr>aq_session := x\<rparr>) = operation_envelope q"
  "operation_envelope (requested w actor i run sess operation kind raw key cap (Some d))
     = operation_envelope (requested w actor i run sess operation kind raw key cap None)"
  by (simp_all add: operation_envelope_def requested_def)

lemma envelope_expected:
  "operation_envelope (requested w actor i run sess operation kind raw key cap x)
     = operation_envelope (requested w actor i run sess operation kind raw key cap y)"
  by (simp add: operation_envelope_def requested_def)

lemma authorize_Inr: "authorize w actor cap s = Inr x \<longleftrightarrow> granted s w actor cap"
  by (simp add: authorize_granted)

lemma resolve_run_reads:
  assumes "resolve_run c w actor i e operation s = (Inr run, s')"
  shows "s' = s"
  using assms
  by (auto simp: resolve_run_def implicit_run_id_def sop_Inr
      split: if_splits sum.splits store_error.splits prod.splits)

lemma resolve_run_known:
  assumes "operation_from w operation s = Inr op" "ac_principal op = actor" "ac_instance op = i"
  shows "resolve_run c w actor i e operation s =
    (Inr (if e = [] then ac_experiment op else e), s)"
  using assms by (simp add: resolve_run_def bind_op_def read_op_def)

text \<open>Making sure of the implicit run and tracking the session touch neither journal nor receipts.\<close>

lemma ensure_implicit_run_frame:
  "ensure_implicit_run c now w actor inst i s = (Inr x, s') \<Longrightarrow>
     t_actions s' = t_actions s \<and> t_idempotency s' = t_idempotency s \<and> t_sessions s' = t_sessions s"
  by (auto simp: ensure_implicit_run_def sop_Inr insert_experiment_Inr
      elim!: ensure_run_Inr split: if_splits)

text \<open>
  What a request does before its admission: without a run of the caller's it may add the implicit
  one, and it may add the session it is tracked in. No row that was there changes.
\<close>

definition entered ::
  "string \<Rightarrow> string \<Rightarrow> string \<Rightarrow> string \<Rightarrow> string \<Rightarrow> session \<Rightarrow> store \<Rightarrow> store \<Rightarrow> bool" where
  "entered w actor i e run x s s1 \<longleftrightarrow>
     (\<exists>es rs xs. s1 = s\<lparr>t_experiments := es, t_automatic_runs := rs, t_sessions := xs\<rparr>)
     \<and> (e \<noteq> [] \<longrightarrow> t_experiments s1 = t_experiments s \<and> t_automatic_runs s1 = t_automatic_runs s)
     \<and> (\<forall>k. k \<noteq> (w, run) \<or> bt_get (t_experiments s) k \<noteq> None \<longrightarrow>
          bt_get (t_experiments s1) k = bt_get (t_experiments s) k)
     \<and> (\<forall>k. k \<noteq> (w, se_id x) \<or> bt_get (t_sessions s) k \<noteq> None \<longrightarrow>
          bt_get (t_sessions s1) k = bt_get (t_sessions s) k)
     \<and> (\<forall>row k. bt_get (t_instances s) (w, i) = Some row \<and> k \<noteq> (w, in_key row, actor) \<longrightarrow>
          bt_get (t_automatic_runs s1) k = bt_get (t_automatic_runs s) k)
     \<and> bt_get (t_sessions s1) (w, se_id x) = Some x
     \<and> se_principal x = actor \<and> se_experiment x = run \<and> se_finished x = None"

lemma track_target_free:
  "track_target c w actor run sess ctx s n g i = Some (Inr k) \<Longrightarrow>
     bt_get (t_sessions s) (w, k) = None"
  by (induction n arbitrary: g i) (auto split: option.splits if_splits)

lemma track_session_adds:
  assumes "track_session c now context w actor run sess s = (Inr x, s')" "sessions_keyed s"
    "k \<noteq> (w, se_id x) \<or> bt_get (t_sessions s) k \<noteq> None"
  shows "bt_get (t_sessions s') k = bt_get (t_sessions s) k"
proof -
  from assms(1) obtain e i where
    "track_tx c now w actor e run sess (session_context c w actor run context) i s = (Inr (x, s'))"
    by (rule track_session_Inr)
  then show ?thesis
  proof (cases rule: track_Inr)
    case (opened j)
    then show ?thesis using assms(3) track_target_free [OF opened(1)] by auto
  qed simp
qed

lemma ensure_implicit_run_adds:
  assumes "ensure_implicit_run c now w actor inst i s = (Inr u, s')"
  shows "(\<exists>es rs. s' = s\<lparr>t_experiments := es, t_automatic_runs := rs\<rparr>)
    \<and> (\<forall>k. k \<noteq> (w, i) \<or> bt_get (t_experiments s) k \<noteq> None \<longrightarrow>
         bt_get (t_experiments s') k = bt_get (t_experiments s) k)
    \<and> (\<forall>row k. bt_get (t_instances s) (w, inst) = Some row \<and> k \<noteq> (w, in_key row, actor) \<longrightarrow>
         bt_get (t_automatic_runs s') k = bt_get (t_automatic_runs s) k)"
proof -
  from assms obtain v where "ensure_run_tx c now w actor inst i s = Inr (v, s')"
    by (auto simp: ensure_implicit_run_def sop_Inr split: if_splits)
  then show ?thesis
  proof (cases rule: ensure_run_Inr)
    case (1 row ordinal b s1)
    have "\<exists>es. s1 = s\<lparr>t_experiments := es\<rparr>"
      using 1(5) by (auto simp: insert_experiment_Inr intro: exI [of _ "t_experiments s"])
    moreover have "t_automatic_runs s1 = t_automatic_runs s" using calculation by auto
    moreover have "\<forall>k. k \<noteq> (w, i) \<or> bt_get (t_experiments s) k \<noteq> None \<longrightarrow>
        bt_get (t_experiments s1) k = bt_get (t_experiments s) k"
      using 1(5) by (auto simp: insert_experiment_Inr split: if_splits)
    ultimately show ?thesis using 1(1,6) by auto
  qed
qed

lemma entering:
  assumes "(if e = [] then ensure_implicit_run c now w actor i run else return_op ()) s = (Inr (), s0)"
    and "track_session c now context w actor run sess s0 = (Inr x, s1)" "sessions_keyed s"
  shows "entered w actor i e run x s s1"
proof -
  have "(\<exists>es rs. s0 = s\<lparr>t_experiments := es, t_automatic_runs := rs\<rparr>)
    \<and> (e \<noteq> [] \<longrightarrow> s0 = s)
    \<and> (\<forall>k. k \<noteq> (w, run) \<or> bt_get (t_experiments s) k \<noteq> None \<longrightarrow>
         bt_get (t_experiments s0) k = bt_get (t_experiments s) k)
    \<and> (\<forall>row k. bt_get (t_instances s) (w, i) = Some row \<and> k \<noteq> (w, in_key row, actor) \<longrightarrow>
         bt_get (t_automatic_runs s0) k = bt_get (t_automatic_runs s) k)"
  proof (cases "e = []")
    case True
    then have "ensure_implicit_run c now w actor i run s = (Inr (), s0)" using assms(1) by simp
    from ensure_implicit_run_adds [OF this] True show ?thesis by blast
  next
    case False
    then have "s0 = s" using assms(1) by simp
    then show ?thesis by (intro conjI exI [of _ "t_experiments s"] exI [of _ "t_automatic_runs s"]) simp_all
  qed
  then obtain es rs where s0: "s0 = s\<lparr>t_experiments := es, t_automatic_runs := rs\<rparr>"
    and own: "e \<noteq> [] \<longrightarrow> s0 = s"
    and adds: "\<forall>k. k \<noteq> (w, run) \<or> bt_get (t_experiments s) k \<noteq> None \<longrightarrow>
         bt_get (t_experiments s0) k = bt_get (t_experiments s) k"
      "\<forall>row k. bt_get (t_instances s) (w, i) = Some row \<and> k \<noteq> (w, in_key row, actor) \<longrightarrow>
         bt_get (t_automatic_runs s0) k = bt_get (t_automatic_runs s) k"
    by blast
  have same: "t_sessions s0 = t_sessions s" unfolding s0 by simp
  then have keyed: "sessions_keyed s0" using assms(3) by (simp add: sessions_keyed_def)
  note x = tracked_session [OF assms(2) keyed]
  obtain t where t: "s1 = s0\<lparr>t_sessions := t\<rparr>" using x(5) by blast
  have kept: "t_experiments s1 = t_experiments s0" "t_automatic_runs s1 = t_automatic_runs s0"
    unfolding t by simp_all
  have "\<exists>es rs xs. s1 = s\<lparr>t_experiments := es, t_automatic_runs := rs, t_sessions := xs\<rparr>"
    unfolding t s0 by blast
  moreover have "\<forall>k. k \<noteq> (w, se_id x) \<or> bt_get (t_sessions s) k \<noteq> None \<longrightarrow>
      bt_get (t_sessions s1) k = bt_get (t_sessions s) k"
    using track_session_adds [OF assms(2) keyed] unfolding same by blast
  ultimately show ?thesis
    unfolding entered_def kept using own adds x(1-4) by blast
qed

lemma create_operation_Inr:
  assumes "create_operation c now context w actor i e sess operation kind raw key cap expected s
      = (Inr op, s')" "sessions_keyed s"
  obtains run x q p where "q = requested w actor i run sess operation kind raw key cap expected"
      "granted s w actor cap" "is_store_slug operation" "instance_unchecked w i s = Inr x"
      "resolve_run c w actor i e operation s = (Inr run, s)"
      "idempotent_response c operation_body w actor key ''cell.operation.create''
         (operation_envelope q) s = Inr (Some p)"
      "operation_from w (ac_id p) s = Inr op" "s' = s"
  | run x q s1 y where "q = requested w actor i run sess operation kind raw key cap expected"
      "granted s w actor cap" "is_store_slug operation" "instance_unchecked w i s = Inr x"
      "resolve_run c w actor i e operation s = (Inr run, s)"
      "idempotent_response c operation_body w actor key ''cell.operation.create''
         (operation_envelope q) s = Inr None"
      "authorize_operation_access c w actor i kind (aq_request q) s = Inr ()"
      "t_actions s1 = t_actions s" "t_idempotency s1 = t_idempotency s"
      "bt_get (t_sessions s1) (w, se_id y) = Some y" "se_principal y = actor"
      "admission_tx c now (q\<lparr>aq_session := se_id y\<rparr>) s1 = Inr (op, s')"
      "entered w actor i e run y s s1"
proof -
  have slug: "is_store_slug operation"
    by (rule ccontr) (use assms(1) in \<open>auto simp: create_operation_def bind_op_Inr\<close>)
  from assms(1) obtain x run t where
    first: "granted s w actor cap" "is_store_slug operation" "instance_unchecked w i s = Inr x"
      and read: "resolve_run c w actor i e operation s = (Inr run, t)"
    and rest: "(let q = requested w actor i run sess operation kind raw key cap expected
      in bind_op (read_op (idempotent_response c operation_body w actor key
           ''cell.operation.create'' (operation_envelope q))) (\<lambda>previous.
         case previous of
           Some op \<Rightarrow> read_op (operation_from w (ac_id op))
         | None \<Rightarrow>
           bind_op (read_op (authorize_operation_access c w actor i kind (aq_request q))) (\<lambda>_.
           bind_op (if e = [] then ensure_implicit_run c now w actor i run else return_op ()) (\<lambda>_.
           bind_op (read_op (experiment_unchecked w run)) (\<lambda>row.
           if ex_instance row \<noteq> i \<or> ex_phase row \<noteq> RunActive then fail_op ValidationError
           else bind_op (track_session c now context w actor run sess) (\<lambda>y.
             tx_op (admission_tx c now (q\<lparr>aq_session := se_id y\<rparr>)))))))) t = (Inr op, s')"
    unfolding create_operation_def requested_def [symmetric]
    using slug by (auto simp: bind_op_Inr read_op_result authorize_Inr)
  have t: "t = s" using resolve_run_reads [OF read] .
  note run = read [unfolded t]
  let ?q = "requested w actor i run sess operation kind raw key cap expected"
  from rest obtain previous where previous:
    "idempotent_response c operation_body w actor key ''cell.operation.create''
       (operation_envelope ?q) s = Inr previous"
    using t by (auto simp: Let_def bind_op_Inr read_op_result)
  show thesis
  proof (cases previous)
    case (Some p)
    then show thesis using that(1) [OF refl first run, of p] rest [unfolded t] previous
      by (auto simp: Let_def bind_op_Inr read_op_result)
  next
    case None
    with rest [unfolded t] previous obtain s0 row s1 y where
      access: "authorize_operation_access c w actor i kind (aq_request ?q) s = Inr ()"
      and ensured: "(if e = [] then ensure_implicit_run c now w actor i run else return_op ()) s
          = (Inr (), s0)"
      and tracked: "track_session c now context w actor run sess s0 = (Inr y, s1)"
      and admitted: "admission_tx c now (?q\<lparr>aq_session := se_id y\<rparr>) s1 = Inr (op, s')"
      by (auto simp: Let_def bind_op_Inr read_op_result tx_op_result split: if_splits)
    have s0: "t_actions s0 = t_actions s" "t_idempotency s0 = t_idempotency s"
      "t_sessions s0 = t_sessions s"
      using ensured ensure_implicit_run_frame by (auto split: if_splits)
    then have "sessions_keyed s0" using assms(2) by (simp add: sessions_keyed_def)
    note y = tracked_session [OF tracked this]
    show thesis
      using that(2) [OF refl first run, of s1 y] previous None access admitted s0(1,2) y
        entering [OF ensured tracked assms(2)] by auto
  qed
qed

section \<open>What a request leaves\<close>

text \<open>
  After a request for an operation returned it, its receipt and its row say so; when the request left
  the run \<open>e\<close> open, the row names the run it resolves to.
\<close>

definition settled ::
  "codec \<Rightarrow> string \<Rightarrow> string \<Rightarrow> string \<Rightarrow> string \<Rightarrow> string \<Rightarrow> string \<Rightarrow> string \<Rightarrow>
   json \<Rightarrow> store \<Rightarrow> bool" where
  "settled c w actor i e run operation key envelope s \<longleftrightarrow>
     (\<exists>r p a. bt_get (t_idempotency s) (w, actor, key) = Some r
        \<and> rc_operation r = ''cell.operation.create'' \<and> rc_hash r = digest_json c envelope
        \<and> operation_body (rc_response r) = Some p \<and> ac_id p = operation
        \<and> bt_get (t_actions s) (w, operation) = Some a
        \<and> ac_principal a = actor \<and> ac_instance a = i \<and> (e = [] \<longrightarrow> ac_experiment a = run))"

lemma settled_kept:
  assumes "settled c w actor i e run operation key envelope s" "store_below s s'"
  shows "settled c w actor i e run operation key envelope s'"
proof -
  from assms(1) obtain r p a where r: "bt_get (t_idempotency s) (w, actor, key) = Some r"
    "rc_operation r = ''cell.operation.create''" "rc_hash r = digest_json c envelope"
    "operation_body (rc_response r) = Some p" "ac_id p = operation"
    and a: "bt_get (t_actions s) (w, operation) = Some a" "ac_principal a = actor"
      "ac_instance a = i" "e = [] \<longrightarrow> ac_experiment a = run"
    unfolding settled_def by blast
  have "kept_rows (=) (t_idempotency s) (t_idempotency s')"
    "kept_rows same_action (t_actions s) (t_actions s')"
    using assms(2) by (simp_all add: store_below_def)
  note rows = kept_rows_eqD [OF this(1) r(1)] kept_rowsD [OF this(2) a(1)]
  then obtain b where b: "bt_get (t_actions s') (w, operation) = Some b" "same_action a b" by blast
  show ?thesis
    unfolding settled_def
    using rows(1) r(2-5) b(1) a(2-4) same_action_fields(3,4,6) [OF b(2)] by auto
qed

definition actions_keyed :: "store \<Rightarrow> bool" where
  "actions_keyed s \<longleftrightarrow>
     (\<forall>w k a. bt_get (t_actions s) (w, k) = Some a \<longrightarrow> ac_workspace a = w \<and> ac_id a = k)"

lemma linked_keyed: "journal_linked s \<Longrightarrow> actions_keyed s"
  by (fastforce simp: journal_linked_def action_linked_def actions_keyed_def)

lemma operation_from_id:
  assumes "actions_keyed s" "operation_from w k s = Inr op"
  shows "ac_id op = k"
  using assms by (auto simp: operation_from_Inr actions_keyed_def)

lemma operation_from_cong:
  "t_actions s' = t_actions s \<Longrightarrow> t_operation_revisions s' = t_operation_revisions s \<Longrightarrow>
     operation_from w k s' = operation_from w k s"
  by (simp add: operation_from_def cong: option.case_cong)

lemma receipt_found:
  "idempotent_response c operation_body w actor key ''cell.operation.create'' envelope s
      = Inr (Some p) \<longleftrightarrow>
     (\<exists>r. bt_get (t_idempotency s) (w, actor, key) = Some r
        \<and> rc_operation r = ''cell.operation.create'' \<and> rc_hash r = digest_json c envelope
        \<and> operation_body (rc_response r) = Some p)"
  by (auto simp: idempotent_response_def split: option.splits if_splits)

lemma receipt_missing:
  "idempotent_response c parse w actor key operation request s = Inr None \<longleftrightarrow>
     bt_get (t_idempotency s) (w, actor, key) = None"
  by (auto simp: idempotent_response_def split: option.splits if_splits)

lemma create_operation_settles:
  assumes "create_operation c now context w actor i e sess operation kind raw key cap expected s
      = (Inr op, s')" "store_inv s" "ac_id op = operation" "ac_instance op = i"
  obtains run where "settled c w actor i e run operation key
      (operation_envelope (requested w actor i run sess operation kind raw key cap None)) s'"
    "e \<noteq> [] \<Longrightarrow> run = e" "is_store_slug operation"
    "bt_get (t_instances s) (w, i) \<noteq> None"
proof -
  have inv: "sessions_keyed s" "actions_keyed s" "receipts_typed s"
    using assms(2) by (simp_all add: store_inv_def linked_keyed)
  have inst: "bt_get (t_instances s) (w, i) \<noteq> None" if "instance_unchecked w i s = Inr x" for x
    using that by (auto simp: instance_unchecked_def split: option.splits)
  have run_e: "run = e" if "resolve_run c w actor i e operation s = (Inr run, s)" "e \<noteq> []" for run
    using that by (simp add: resolve_run_def)
  from assms(1) inv(1) show thesis
  proof (cases rule: create_operation_Inr)
    case (1 run x q p)
    from 1(6) obtain r where r: "bt_get (t_idempotency s) (w, actor, key) = Some r"
      "rc_operation r = ''cell.operation.create''" "rc_hash r = digest_json c (operation_envelope q)"
      "operation_body (rc_response r) = Some p" unfolding receipt_found by blast
    have p: "ac_id p = operation" using operation_from_id [OF inv(2) 1(7)] assms(3) by simp
    have "receipt_typed s w actor r" using inv(3) r(1) unfolding receipts_typed_def by blast
    then have who: "ac_principal op = actor"
      using r(4) 1(7) by (auto simp: receipt_typed_def operation_from_Inr)
    from 1(7) obtain a d where a: "bt_get (t_actions s) (w, operation) = Some a"
      "op = with_revision d a" unfolding operation_from_Inr p by blast
    have "resolve_run c w actor i e operation s = (Inr (if e = [] then ac_experiment op else e), s)"
      using resolve_run_known 1(7) p who assms(4) by metis
    then have run: "run = (if e = [] then ac_experiment op else e)" using 1(5) by simp
    then have "settled c w actor i e run operation key (operation_envelope q) s"
      using r p a who assms(4) unfolding settled_def by auto
    then show thesis using that [of run] 1(1,3,4,5,8) inst run_e envelope_expected by metis
  next
    case (2 run x q s1 y)
    let ?q = "q\<lparr>aq_session := se_id y\<rparr>"
    have q: "aq_workspace ?q = w" "aq_actor ?q = actor" "aq_instance ?q = i"
      "aq_experiment ?q = run" "aq_operation ?q = operation" "aq_key ?q = key"
      using 2(1) by (simp_all add: requested_def)
    have "settled c w actor i e run operation key (operation_envelope ?q) s'"
      using 2(12)
    proof (cases rule: admission_Inr)
      case (replay previous)
      then show ?thesis using 2(6,9) unfolding q receipt_found receipt_missing by auto
    next
      case known
      then show ?thesis
        using assms(3) unfolding q
        by (auto simp: settled_def record_idempotency_Inr operation_from_Inr same_operation_def q)
    next
      case fresh
      from admitted_receipt(2,3) [OF fresh(5)] show ?thesis
        using assms(3) unfolding q by (auto simp: settled_def q)
    qed
    then show thesis
      using that [of run] 2(1,3,4,5) inst run_e envelope_expected envelope_simps(1) by metis
  qed
qed

text \<open>What the same request finds later.\<close>

lemma settled_request:
  assumes "settled c w actor i e run operation key
      (operation_envelope (requested w actor i run sess operation kind raw key cap None)) s"
    "e \<noteq> [] \<Longrightarrow> run = e" "is_store_slug operation" "bt_get (t_instances s) (w, i) \<noteq> None"
    "store_inv s" "granted s w actor cap"
  shows "\<exists>op. create_operation c now context w actor i e sess operation kind raw key cap expected s
        = (Inr op, s) \<and> operation_from w operation s = Inr op"
proof -
  from assms(1) obtain r p a where r:
    "bt_get (t_idempotency s) (w, actor, key) = Some r" "rc_operation r = ''cell.operation.create''"
    "rc_hash r = digest_json c
       (operation_envelope (requested w actor i run sess operation kind raw key cap None))"
    "operation_body (rc_response r) = Some p" "ac_id p = operation"
    and a: "bt_get (t_actions s) (w, operation) = Some a" "ac_principal a = actor"
      "ac_instance a = i" "e = [] \<longrightarrow> ac_experiment a = run"
    unfolding settled_def by blast
  have "action_linked s (w, operation) a"
    using assms(5) a(1) by (simp add: store_inv_def journal_linked_def)
  then obtain op where op: "operation_from w operation s = Inr op" "ac_principal op = actor"
    "ac_instance op = i" "e = [] \<longrightarrow> ac_experiment op = run"
    using a by (auto simp: action_linked_def operation_from_Inr)
  have run: "resolve_run c w actor i e operation s = (Inr run, s)"
    using resolve_run_known [OF op(1-3)] op(4) assms(2) by auto
  have "cell_history s w i" using assms(5) by (simp add: store_inv_def histories_def)
  then obtain x where x: "instance_unchecked w i s = Inr x"
    using assms(4)
    by (auto simp: instance_unchecked_def cell_history_def and_then_def generation_column_def
        split: option.splits sum.splits)
  have found: "idempotent_response c operation_body w actor key ''cell.operation.create''
      (operation_envelope (requested w actor i run sess operation kind raw key cap expected)) s
      = Inr (Some p)"
    using r(1-4) envelope_expected unfolding receipt_found by metis
  show ?thesis
    using run x found assms(3,6) r(5) op(1)
    unfolding create_operation_def requested_def [symmetric]
    by (simp add: bind_op_def read_op_def authorize_granted Let_def)
qed

text \<open>What a request returns is the operation as the journal has it.\<close>

lemma admission_row:
  assumes "admission_tx c now q s = Inr (op, s')" "actions_keyed s"
  shows "operation_from (aq_workspace q) (ac_id op) s' = Inr op"
  using assms(1)
proof (cases rule: admission_Inr)
  case (replay previous)
  then show ?thesis using operation_from_id [OF assms(2)] by simp
next
  case known
  then have "t_actions s' = t_actions s" "t_operation_revisions s' = t_operation_revisions s"
    by (simp_all add: record_idempotency_Inr)
  then have "operation_from (aq_workspace q) (aq_operation q) s' = Inr op"
    using known(2) operation_from_cong by metis
  then show ?thesis using operation_from_id [OF assms(2) known(2)] by simp
next
  case fresh
  then show ?thesis
    by (auto simp: admitted_def Let_def operation_from_Inr bt_get_insert_or_ignore
        split: option.splits)
qed

lemma create_operation_row:
  assumes "create_operation c now context w actor i e sess operation kind raw key cap expected s
      = (Inr op, s')" "store_inv s"
  shows "operation_from w (ac_id op) s' = Inr op"
proof -
  have inv: "sessions_keyed s" "actions_keyed s"
    using assms(2) by (simp_all add: store_inv_def linked_keyed)
  from assms(1) inv(1) show ?thesis
  proof (cases rule: create_operation_Inr)
    case (1 run x q p)
    then show ?thesis using operation_from_id [OF inv(2) 1(7)] by simp
  next
    case (2 run x q s1 y)
    have "actions_keyed s1" using inv(2) 2(8) by (simp add: actions_keyed_def)
    then show ?thesis using admission_row [OF 2(12)] 2(1) by simp
  qed
qed

text \<open>An operation read back later is the same operation, further along.\<close>

lemma operation_from_later:
  assumes "operation_from w k s = Inr op" "store_below s s'" "operation_from w k s' = Inr op'"
  shows "ac_sequence op' = ac_sequence op \<and> ac_request op' = ac_request op
    \<and> ac_experiment op' = ac_experiment op \<and> ac_session op' = ac_session op
    \<and> ac_revision op' = ac_revision op \<and> ac_principal op' = ac_principal op
    \<and> ac_kind op' = ac_kind op \<and> phase_rank (ac_phase op) \<le> phase_rank (ac_phase op')
    \<and> (op_active (ac_phase op) \<or> op' = op)"
proof -
  from assms(1) obtain a d where a: "bt_get (t_actions s) (w, k) = Some a"
    "bt_get (t_operation_revisions s) (w, k) = Some d" "op = with_revision d a"
    unfolding operation_from_Inr by blast
  from assms(3) obtain b d' where b: "bt_get (t_actions s') (w, k) = Some b"
    "bt_get (t_operation_revisions s') (w, k) = Some d'" "op' = with_revision d' b"
    unfolding operation_from_Inr by blast
  have below: "kept_rows same_action (t_actions s) (t_actions s')"
    "kept_rows (=) (t_operation_revisions s) (t_operation_revisions s')"
    using assms(2) by (simp_all add: store_below_def)
  have "same_action a b" using kept_rowsD [OF below(1) a(1)] b(1) by simp
  moreover have "d' = d" using kept_rows_eqD [OF below(2) a(2)] b(2) by simp
  ultimately show ?thesis using a(3) b(3) same_action_fields [of a b] by (auto simp: same_action_def)
qed

section \<open>A request for a new operation\<close>

lemma new_request:
  assumes "create_operation c now context w actor i e sess operation kind raw key cap expected s
      = (Inr op, s')" "store_inv s"
    "bt_get (t_actions s) (w, operation) = None" "bt_get (t_idempotency s) (w, actor, key) = None"
  obtains run y s1 where "granted s w actor cap" "e \<noteq> [] \<longrightarrow> run = e"
    "authorize_operation_access c w actor i kind (normalize_request run raw) s = Inr ()"
    "entered w actor i e run y s s1" "run_open w run i s1"
    "first_handle_phase w i s1 \<in> {None, Some HandleOpen}"
    "admitted c now ((requested w actor i run sess operation kind raw key cap expected)
       \<lparr>aq_session := se_id y\<rparr>) s1 op s'"
proof -
  have keyed: "sessions_keyed s" using assms(2) by (simp add: store_inv_def)
  from assms(1) keyed show thesis
  proof (cases rule: create_operation_Inr)
    case (1 run x q p)
    then show thesis using assms(4) unfolding receipt_found by simp
  next
    case (2 run x q s1 y)
    have run: "e \<noteq> [] \<longrightarrow> run = e"
      by (rule impI) (use 2(5) in \<open>simp add: resolve_run_def\<close>)
    from 2(12) show thesis
    proof (cases rule: admission_Inr)
      case (replay previous)
      then show thesis using 2(1,9) assms(4) by (simp add: receipt_found)
    next
      case known
      then show thesis using 2(1,8) assms(3) by (simp add: operation_from_Inr)
    next
      case fresh
      then show thesis using that [of run y s1] 2(1,2,7,13) run by simp
    qed
  qed
qed

definition admitted_row ::
  "codec \<Rightarrow> int \<Rightarrow> string \<Rightarrow> string \<Rightarrow> string \<Rightarrow> string \<Rightarrow> string \<Rightarrow> string \<Rightarrow> operation_kind \<Rightarrow> json \<Rightarrow>
   string \<Rightarrow> capability \<Rightarrow> string option \<Rightarrow> string \<Rightarrow> int \<Rightarrow> action_row" where
  "admitted_row c now w actor i run sess operation kind raw key cap expected x n =
     new_action c now ((requested w actor i run sess operation kind raw key cap expected)
       \<lparr>aq_session := x\<rparr>) n"

lemma admitted_row_simps:
  "ac_workspace (admitted_row c now w actor i run sess operation kind raw key cap expected x n) = w"
  "ac_id (admitted_row c now w actor i run sess operation kind raw key cap expected x n) = operation"
  "ac_instance (admitted_row c now w actor i run sess operation kind raw key cap expected x n) = i"
  "ac_principal (admitted_row c now w actor i run sess operation kind raw key cap expected x n) = actor"
  "ac_kind (admitted_row c now w actor i run sess operation kind raw key cap expected x n) = kind"
  "ac_capability (admitted_row c now w actor i run sess operation kind raw key cap expected x n) = cap"
  "ac_phase (admitted_row c now w actor i run sess operation kind raw key cap expected x n) = OpPending"
  "ac_accepted (admitted_row c now w actor i run sess operation kind raw key cap expected x n) = now"
  "ac_request (admitted_row c now w actor i run sess operation kind raw key cap expected x n)
     = normalize_request run raw"
  "ac_experiment (admitted_row c now w actor i run sess operation kind raw key cap expected x n) = run"
  "ac_session (admitted_row c now w actor i run sess operation kind raw key cap expected x n) = x"
  "ac_sequence (admitted_row c now w actor i run sess operation kind raw key cap expected x n) = n"
  by (simp_all add: admitted_row_def new_action_def requested_def)

lemma admitted_entered:
  assumes "admitted c now ((requested w actor i run sess operation kind raw key cap expected)
       \<lparr>aq_session := x\<rparr>) s1 op s'"
    and s1: "s1 = s\<lparr>t_experiments := es, t_automatic_runs := rs, t_sessions := xs\<rparr>"
    and "bt_get (t_operation_revisions s) (w, operation) = None"
  obtains u row where "state_of w i s = Inr u" "\<not> us_closing u"
    "bt_get (t_instances s) (w, i) = Some row" "expected \<in> {None, Some (in_revision row)}"
    "kind = OpComponentLogs
       \<or> \<not> list_ex (\<lambda>p. references (normalize_request run raw) (affected p)) (pending_plans w i (us_applied u) s)"
    "op = with_revision (in_revision row) (admitted_row c now w actor i run sess operation kind raw key
       cap expected x (last_sequence w i s + 1))"
    "s' = s\<lparr>t_experiments := es, t_automatic_runs := rs, t_sessions := set_at (w, x) (touch_session now) xs,
       t_operation_revisions := bt_insert (w, operation) (in_revision row) (t_operation_revisions s),
       t_actions := bt_insert (w, operation) (admitted_row c now w actor i run sess operation kind raw key
         cap expected x (last_sequence w i s + 1)) (t_actions s),
       t_idempotency := bt_insert (w, actor, key)
         \<lparr>rc_operation = ''cell.operation.create'',
          rc_hash = digest_json c (operation_envelope
            (requested w actor i run sess operation kind raw key cap expected)),
          rc_response = OperationBody op\<rparr> (t_idempotency s)\<rparr>"
proof -
  have same: "state_of w i s1 = state_of w i s" "last_sequence w i s1 = last_sequence w i s"
    "pending_plans w i n s1 = pending_plans w i n s" "t_instances s1 = t_instances s"
    "t_operation_revisions s1 = t_operation_revisions s" for n
    by (simp_all add: s1 state_of_def last_sequence_def cell_actions_def pending_plans_def updates_of_def)
  have put: "insert_or_ignore (w, operation) d (t_operation_revisions s)
      = bt_insert (w, operation) d (t_operation_revisions s)" for d
    using assms(3) by (simp add: insert_or_ignore_def bt_contains_key_def)
  let ?q = "(requested w actor i run sess operation kind raw key cap expected)\<lparr>aq_session := x\<rparr>"
  let ?a = "new_action c now ?q (last_sequence w i s1 + 1)"
  have q: "aq_workspace ?q = w" "aq_actor ?q = actor" "aq_instance ?q = i" "aq_operation ?q = operation"
    "aq_kind ?q = kind" "aq_key ?q = key" "aq_request ?q = normalize_request run raw"
    "aq_session ?q = x" "aq_expected ?q = expected"
    by (simp_all add: requested_def)
  from assms(1) obtain u row where r: "state_of w i s1 = Inr u" "\<not> us_closing u"
    "\<not> list_ex (\<lambda>p. kind \<noteq> OpComponentLogs \<and> references (normalize_request run raw) (affected p))
       (pending_plans w i (us_applied u) s1)"
    "bt_get (t_instances s1) (w, i) = Some row"
    "expected \<in> {None, Some (the_default (in_revision row) (bt_get (t_operation_revisions s1) (w, operation)))}"
    "op = with_revision (the_default (in_revision row)
       (bt_get (t_operation_revisions s1) (w, operation))) ?a"
    "s' = s1\<lparr>t_sessions := set_at (w, x) (touch_session now) (t_sessions s1),
       t_operation_revisions := insert_or_ignore (w, operation) (in_revision row) (t_operation_revisions s1),
       t_actions := bt_insert (w, operation) ?a (t_actions s1),
       t_idempotency := bt_insert (w, actor, key)
         \<lparr>rc_operation = ''cell.operation.create'', rc_hash = digest_json c (operation_envelope ?q),
          rc_response = OperationBody op\<rparr> (t_idempotency s1)\<rparr>"
    unfolding admitted_def Let_def q by blast
  have row: "?a = admitted_row c now w actor i run sess operation kind raw key cap expected x
      (last_sequence w i s + 1)"
    by (simp only: admitted_row_def same(2))
  have digest: "the_default (in_revision row) (bt_get (t_operation_revisions s1) (w, operation))
      = in_revision row"
    using assms(3) by (simp add: same(5))
  show thesis
  proof (rule that)
    show "kind = OpComponentLogs \<or> \<not> list_ex (\<lambda>p. references (normalize_request run raw) (affected p))
        (pending_plans w i (us_applied u) s)"
      using r(3) unfolding same(3) by (auto simp: list_ex_iff)
    show "op = with_revision (in_revision row) (admitted_row c now w actor i run sess operation kind
        raw key cap expected x (last_sequence w i s + 1))"
      using r(6) unfolding digest row .
    show "s' = s\<lparr>t_experiments := es, t_automatic_runs := rs,
       t_sessions := set_at (w, x) (touch_session now) xs,
       t_operation_revisions := bt_insert (w, operation) (in_revision row) (t_operation_revisions s),
       t_actions := bt_insert (w, operation) (admitted_row c now w actor i run sess operation kind raw key
         cap expected x (last_sequence w i s + 1)) (t_actions s),
       t_idempotency := bt_insert (w, actor, key)
         \<lparr>rc_operation = ''cell.operation.create'',
          rc_hash = digest_json c (operation_envelope
            (requested w actor i run sess operation kind raw key cap expected)),
          rc_response = OperationBody op\<rparr> (t_idempotency s)\<rparr>"
      using r(7) unfolding row same(5) put envelope_simps(1) by (simp add: s1)
    show "expected \<in> {None, Some (in_revision row)}" using r(5) unfolding digest .
  qed (use r(1,2,4) in \<open>simp_all add: same(1,4)\<close>)
qed

section \<open>Access\<close>

lemma private_admission:
  assumes "authorize_operation_access c w actor i kind request s = Inr ()"
    "\<not> granted s w actor CellOperate"
  shows "\<exists>k g. ((w, k), g) \<in> set (t_private_grants s) \<and> pg_principal g = actor
    \<and> pg_instance g = i \<and> pg_revoked g = None \<and> permits c (pg_scope g) kind request"
proof -
  have "matching_access c w actor i kind request s \<noteq> None"
    using assms by (auto simp: authorize_operation_access_def authorize_granted split: if_splits)
  then obtain g where g: "find (\<lambda>g. permits c (pg_scope g) kind request)
      (map snd (filter (\<lambda>((v, _), g). v = w \<and> pg_principal g = actor \<and> pg_instance g = i
                         \<and> pg_revoked g = None) (t_private_grants s))) = Some g"
    by (auto simp: matching_access_def)
  then show ?thesis using find_SomeD [OF g] by fastforce
qed

lemma create_operation_denied:
  "\<not> granted s w actor cap \<Longrightarrow>
     create_operation c now context w actor i e sess operation kind raw key cap expected s
       = (Inl (AccessDenied w actor cap), s)"
  by (simp add: create_operation_def authorize_granted read_op_def bind_op_def)

lemma implicit_run_id_reads: "snd (implicit_run_id c w actor i s) = s"
  by (auto simp: implicit_run_id_def op_cases split: sum.splits)

lemma resolve_run_keeps: "snd (resolve_run c w actor i e operation s) = s"
  by (simp add: resolve_run_def implicit_run_id_reads bind_op_def read_op_def
      split: sum.splits store_error.splits)

text \<open>
  No private permission of the actor on the cell that is not revoked permits the request, in any run
  it may resolve to.
\<close>

definition undelegated ::
  "codec \<Rightarrow> string \<Rightarrow> string \<Rightarrow> string \<Rightarrow> string \<Rightarrow> operation_kind \<Rightarrow> json \<Rightarrow> store \<Rightarrow> bool" where
  "undelegated c w actor i e kind raw s \<longleftrightarrow>
     (\<forall>run k g. (e \<noteq> [] \<longrightarrow> run = e) \<and> ((w, k), g) \<in> set (t_private_grants s)
        \<and> pg_principal g = actor \<and> pg_instance g = i \<and> pg_revoked g = None \<longrightarrow>
        \<not> permits c (pg_scope g) kind (normalize_request run raw))"

lemma undelegated_access:
  assumes "\<not> granted s w actor CellOperate" "undelegated c w actor i e kind raw s" "e \<noteq> [] \<longrightarrow> run = e"
  shows "authorize_operation_access c w actor i kind (normalize_request run raw) s
    = Inl (AccessDenied w actor CellOperate)"
proof -
  have "authorize_operation_access c w actor i kind (normalize_request run raw) s \<noteq> Inr ()"
    using private_admission [OF _ assms(1)] assms(2,3) unfolding undelegated_def by metis
  then show ?thesis by (auto simp: authorize_operation_access_def split: if_splits)
qed

lemma undelegated_cases:
  assumes "granted s w actor cap" "\<not> granted s w actor CellOperate"
    "undelegated c w actor i e kind raw s"
    and call: "create_operation c now context w actor i e sess operation kind raw key cap expected s = (r, s')"
  shows "s' = s \<and> (bt_get (t_idempotency s) (w, actor, key) = None \<longrightarrow>
      (\<exists>err. r = Inl err)
      \<and> (is_store_slug operation \<and> (\<exists>x. instance_unchecked w i s = Inr x) \<and> e \<noteq> [] \<longrightarrow>
          r = Inl (AccessDenied w actor CellOperate)))"
proof (cases "is_store_slug operation \<and> (\<exists>x. instance_unchecked w i s = Inr x)")
  case False
  then show ?thesis
    using call assms(1) by (auto simp: create_operation_def op_cases authorize_granted split: sum.splits if_splits)
next
  case True
  then obtain x where x: "is_store_slug operation" "instance_unchecked w i s = Inr x" by blast
  obtain found where found: "resolve_run c w actor i e operation s = (found, s)"
    using resolve_run_keeps by (metis prod.collapse)
  show ?thesis
  proof (cases found)
    case (Inl err)
    have "e = []" by (rule ccontr) (use found Inl in \<open>simp add: resolve_run_def\<close>)
    then show ?thesis using call assms(1) x found Inl
      by (auto simp: create_operation_def bind_op_def read_op_def authorize_granted)
  next
    case (Inr run)
    have run: "e \<noteq> [] \<longrightarrow> run = e" by (rule impI) (use found Inr in \<open>simp add: resolve_run_def\<close>)
    note access = undelegated_access [OF assms(2,3) run]
    show ?thesis
    proof (cases "idempotent_response c operation_body w actor key ''cell.operation.create''
        (operation_envelope (requested w actor i run sess operation kind raw key cap expected)) s")
      case none: (Inl err)
      then have "bt_get (t_idempotency s) (w, actor, key) \<noteq> None"
        by (auto simp: idempotent_response_def split: option.splits)
      then show ?thesis using call assms(1) x found Inr none
        unfolding create_operation_def requested_def [symmetric]
        by (auto simp: bind_op_def read_op_def authorize_granted Let_def)
    next
      case response: (Inr previous)
      show ?thesis
      proof (cases previous)
        case None
        then show ?thesis using call assms(1) x found Inr response access
          unfolding create_operation_def requested_def [symmetric]
          by (auto simp: bind_op_def read_op_def authorize_granted Let_def)
      next
        case (Some op)
        then have "bt_get (t_idempotency s) (w, actor, key) \<noteq> None"
          using response by (auto simp: idempotent_response_def split: option.splits)
        then show ?thesis using call assms(1) x found Inr response Some
          unfolding create_operation_def requested_def [symmetric]
          by (auto simp: bind_op_def read_op_def authorize_granted Let_def)
      qed
    qed
  qed
qed

end
