(* ===== verification/Store_Examples.thy ===== *)
theory Store_Examples
  imports Store_Paths
begin

text \<open>
  A small laboratory: one workspace with two actors, one published revision and its successor, one
  named cell with a run and a session, and an operation that is admitted and finished. Each store is
  the one after a transaction of the model, and each is reachable. The codec of the laboratory
  stands in for SHA-256: its digests are texts of 64 characters.
\<close>

section \<open>A codec\<close>

fun weight :: "json \<Rightarrow> nat"
  and weights :: "json list \<Rightarrow> nat"
  and member_weights :: "(string \<times> json) list \<Rightarrow> nat" where
  "weight (JString s) = length s"
| "weight (JNumber n) = nat \<bar>n\<bar>"
| "weight (JArray js) = weights js"
| "weight (JObject ms) = member_weights ms"
| "weight JNull = 0"
| "weight (JBool b) = (if b then 1 else 0)"
| "weight (JFloat s) = length s"
| "weights [] = 0"
| "weights (j # js) = weight j + weights js"
| "member_weights [] = 0"
| "member_weights ((k, j) # ms) = weight j + member_weights ms"

definition lab_digest :: "json \<Rightarrow> string" where
  "lab_digest j = (let n = weight j mod 17 in replicate n CHR ''a'' @ replicate (64 - n) CHR ''b'')"

definition lab :: codec where
  "lab = \<lparr>sha256_hex = lab_digest, cell_json = (\<lambda>cell. JString (cell_name cell)),
          lock_json = (\<lambda>l. JString (lk_digest l)), json_size = weight,
          receive_digest = (\<lambda>_. None)\<rparr>"

section \<open>Documents\<close>

definition lab_component :: "string \<Rightarrow> component_spec" where
  "lab_component i =
     \<lparr>c_id = i, c_kind = Wallet, c_implementation = ''nutshell-wallet'', c_version = Some ''1'',
      c_config_version = ''nutshell-wallet/1/v1'', c_control = CellControl, c_config = []\<rparr>"

definition lab_cell :: "string \<Rightarrow> string list \<Rightarrow> cell_spec" where
  "lab_cell name is =
     \<lparr>api_version = API_VERSION, cell_name = name, components = map lab_component is, links = [],
      policy = default_cell_policy\<rparr>"

definition lab_entry :: "string \<Rightarrow> lock_entry" where
  "lab_entry i =
     \<lparr>le_component = i, le_catalog = ''nutshell-wallet'', le_adapter = ''a'',
      le_action_adapter = None, le_version = ''1'', le_config_version = ''v1'',
      le_schema_digest = ''s'', le_features = {}, le_dependencies = [], le_config_digest = ''c'',
      le_rollout = ''r'', le_image = ''wallet@sha256:1'', le_source_digest = ''d'',
      le_source = None, le_provenance = None, le_overrides = []\<rparr>"

definition lab_revision :: "string \<Rightarrow> string list \<Rightarrow> published_revision" where
  "lab_revision digest is =
     \<lparr>rv_workspace = ''lab'', rv_digest = digest, rv_cell = lab_cell ''cell'' is,
      rv_lock = \<lparr>lk_api = ''v'', lk_digest = digest @ ''-lock'', lk_entries = map lab_entry is\<rparr>\<rparr>"

definition first_revision :: published_revision where
  "first_revision = lab_revision ''rev-1'' [''alice'', ''bob'']"

definition second_revision :: published_revision where
  "second_revision = lab_revision ''rev-2'' [''alice'']"

section \<open>Stores\<close>

definition committed :: "'a stx \<Rightarrow> bool" where
  "committed r \<longleftrightarrow> (case r of Inl _ \<Rightarrow> False | Inr _ \<Rightarrow> True)"

definition after :: "'a stx \<Rightarrow> store" where
  "after r = (case r of Inl _ \<Rightarrow> empty_store | Inr (x, s) \<Rightarrow> s)"

definition result_of :: "'a stx \<Rightarrow> 'a" where
  "result_of r = (case r of Inr (x, s) \<Rightarrow> x)"

lemma committed_result: "committed r \<Longrightarrow> r = Inr (result_of r, after r)"
  by (auto simp: committed_def after_def result_of_def split: sum.splits)

definition lab_workspace :: store where
  "lab_workspace = after (put_workspace ''lab'' ''Laboratory'' empty_store)"

definition lab_actor :: store where
  "lab_actor = after (put_principal ''ann'' lab_workspace)"

definition lab_granted :: store where
  "lab_granted =
     after (replace_grants ''lab'' ''ann''
       [CellCreate, CellEdit, CellOperate, CellMaterialize, ExperimentRead, ComponentExecLive]
       lab_actor)"

definition lab_draft :: store where
  "lab_draft = after (insert_draft ''lab'' ''plan'' (lab_cell ''cell'' [''alice'']) lab_granted)"

definition lab_published :: store where
  "lab_published = after (insert_revision ''lab'' ''plan'' 1 first_revision lab_draft)"

definition lab_revised :: store where
  "lab_revised = after (insert_revision ''lab'' ''plan'' 1 second_revision lab_published)"

definition lab_named :: store where
  "lab_named = after (reserve_tx lab ''00'' ''lab'' ''ann'' ''demo'' ''config'' lab_revised)"

definition lab_instance :: instance_row where
  "lab_instance =
     \<lparr>in_workspace = ''lab'', in_id = ''cell-1'', in_revision = ''rev-1'',
      in_lock = ''rev-1-lock'', in_key = ''key-1'', in_resource = ''cell-key-1''\<rparr>"

definition lab_running :: store where
  "lab_running = after (insert_instance lab_instance lab_named)"

definition lab_run :: store where
  "lab_run = after (insert_experiment ''lab'' ''run-1'' ''cell-1'' ''ann'' 5 lab_running)"

definition lab_run_row :: experiment_row where
  "lab_run_row =
     \<lparr>ex_id = ''run-1'', ex_workspace = ''lab'', ex_instance = ''cell-1'', ex_owner = ''ann'',
      ex_phase = RunActive, ex_created = 5, ex_closed = None\<rparr>"

definition lab_session :: store where
  "lab_session = after (track_tx lab 6 ''lab'' ''ann'' lab_run_row ''run-1'' ''work'' [] ''work'' lab_run)"

definition lab_session_row :: session where
  "lab_session_row =
     \<lparr>se_id = ''work'', se_workspace = ''lab'', se_experiment = ''run-1'',
      se_instance = ''cell-1'', se_principal = ''ann'', se_phase = SessionActive, se_started = 6,
      se_last_activity = 6, se_finished = None\<rparr>"

definition lab_request :: json where
  "lab_request = JObject [(''component'', JString ''alice''), (''run_id'', JString ''run-1'')]"

definition lab_admission :: operation_request where
  "lab_admission =
     \<lparr>aq_workspace = ''lab'', aq_actor = ''ann'', aq_instance = ''cell-1'',
      aq_experiment = ''run-1'', aq_requested_session = ''work'', aq_session = ''work'',
      aq_operation = ''op-1'', aq_kind = OpComponentExecLive, aq_request = lab_request,
      aq_key = ''key-a'', aq_capability = ComponentExecLive, aq_expected = None\<rparr>"

definition lab_admitted :: store where
  "lab_admitted = after (admission_tx lab 7 lab_admission lab_session)"

definition lab_artifact :: artifact where
  "lab_artifact =
     \<lparr>af_media_type = ''application/json'', af_digest = ''sha256:0'', af_byte_length = 2,
      af_content = JObject []\<rparr>"

definition lab_finished :: store where
  "lab_finished = after (result_tx 9 ''lab'' ''op-1'' OpSucceeded lab_artifact ''work'' lab_admitted)"

definition lab_closed :: store where
  "lab_closed = after (close_run_tx 10 ''lab'' ''run-1'' lab_finished)"

text \<open>While the operation runs on \<open>alice\<close>, an update removes \<open>bob\<close>.\<close>

definition lab_target :: update_target where
  "lab_target =
     \<lparr>ut_instance = ''cell-1'', ut_expected_generation = 1, ut_delete_data = False,
      ut_delete_retained = []\<rparr>"

definition lab_plan :: update_plan where
  "lab_plan = bind_instance lab ''key-1''
     (the (new_plan lab lab_target first_revision second_revision))"

definition lab_updated :: store where
  "lab_updated = after (accept_tx lab 8 ''lab'' ''ann'' lab_plan second_revision ''key-u'' lab_admitted)"

text \<open>A second actor who may not operate on the cell is given one private transfer.\<close>

definition lab_scope :: private_scope where
  "lab_scope =
     \<lparr>ps_receive_command_digest = ''sha256:0'', ps_issuer = ''ann'', ps_component = ''bob'',
      ps_mint = ''mint'', ps_reference = ''note-1''\<rparr>"

definition lab_grant :: private_grant where
  "lab_grant =
     \<lparr>pg_id = ''grant-1'', pg_workspace = ''lab'', pg_instance = ''cell-1'',
      pg_principal = ''ben'', pg_scope = lab_scope, pg_created = 8, pg_revoked = None\<rparr>"

definition lab_guest :: store where
  "lab_guest = after (put_principal ''ben'' lab_session)"

definition lab_admits_guest :: store where
  "lab_admits_guest =
     after (replace_grants ''lab'' ''ben'' [ExperimentRead, ComponentExecLive] lab_guest)"

definition lab_shared :: store where
  "lab_shared = after (insert_private_grant lab_grant lab_admits_guest)"

definition lab_transfer :: json where
  "lab_transfer =
     JObject [(''transfer'', JObject [(''component'', JString ''bob''),
       (''reference'', JString ''note-1''), (''transferMethod'', JString ''deliver'')])]"

section \<open>They are reachable\<close>

lemma reach_step: "store_reachable c s \<Longrightarrow> store_step c s s' \<Longrightarrow> store_reachable c s'"
  by (meson r_into_rtranclp store_reachable_star)

lemma lab_setup_reachable: "store_reachable lab lab_granted"
proof -
  have "store_reachable lab empty_store" by (simp add: store_reachable_def)
  then have "store_reachable lab lab_workspace"
    by (rule reach_step) (unfold lab_workspace_def, rule store_step.put_workspace,
      rule committed_result, code_simp)
  then have "store_reachable lab lab_actor"
    by (rule reach_step) (unfold lab_actor_def, rule store_step.put_principal,
      rule committed_result, code_simp)
  then show ?thesis
    by (rule reach_step) (unfold lab_granted_def, rule store_step.replace,
      rule committed_result, code_simp)
qed

lemma lab_published_reachable: "store_reachable lab lab_revised"
proof -
  have "store_reachable lab lab_draft"
    by (rule reach_step [OF lab_setup_reachable]) (unfold lab_draft_def,
      rule store_step.insert_draft, rule committed_result, code_simp)
  then have "store_reachable lab lab_published"
    by (rule reach_step) (unfold lab_published_def, rule store_step.insert_revision,
      rule committed_result, code_simp, code_simp)
  then show ?thesis
    by (rule reach_step) (unfold lab_revised_def, rule store_step.insert_revision,
      rule committed_result, code_simp, code_simp)
qed

lemma lab_running_reachable: "store_reachable lab lab_running"
proof -
  have "store_reachable lab lab_named"
    by (rule reach_step [OF lab_published_reachable]) (unfold lab_named_def,
      rule store_step.reserve, rule committed_result, code_simp)
  then show ?thesis
    by (rule reach_step) (unfold lab_running_def, rule store_step.insert_instance,
      rule committed_result, code_simp)
qed

lemma lab_session_reachable: "store_reachable lab lab_session"
proof -
  have "store_reachable lab lab_run"
    by (rule reach_step [OF lab_running_reachable]) (unfold lab_run_def,
      rule store_step.insert_experiment, rule committed_result, code_simp)
  then show ?thesis
    by (rule reach_step) (unfold lab_session_def, rule store_step.track [where e = lab_run_row],
      rule committed_result, code_simp, code_simp, simp)
qed

lemma lab_session_found:
  "bt_get (t_sessions lab_session) (''lab'', ''work'') = Some lab_session_row"
  by code_simp

lemma lab_admitted_reachable: "store_reachable lab lab_admitted"
  by (rule reach_step [OF lab_session_reachable], unfold lab_admitted_def,
      rule store_step.admit [where y = lab_session_row], rule committed_result, code_simp)
    (simp_all add: lab_admission_def lab_session_found, simp_all add: lab_session_row_def)

lemma lab_finished_reachable: "store_reachable lab lab_finished"
  by (rule reach_step [OF lab_admitted_reachable], unfold lab_finished_def,
      rule store_step.result, rule committed_result; code_simp)

lemma lab_closed_reachable: "store_reachable lab lab_closed"
  by (rule reach_step [OF lab_finished_reachable], unfold lab_closed_def,
      rule store_step.close_run, rule committed_result; code_simp)

lemma lab_updated_reachable: "store_reachable lab lab_updated"
  by (rule reach_step [OF lab_admitted_reachable], unfold lab_updated_def,
      rule store_step.accept, rule committed_result; code_simp)

lemma lab_shared_reachable: "store_reachable lab lab_shared"
proof -
  have "store_reachable lab lab_guest"
    by (rule reach_step [OF lab_session_reachable]) (unfold lab_guest_def,
      rule store_step.put_principal, rule committed_result, code_simp)
  then have "store_reachable lab lab_admits_guest"
    by (rule reach_step) (unfold lab_admits_guest_def, rule store_step.replace,
      rule committed_result, code_simp)
  then show ?thesis
    by (rule reach_step) (unfold lab_shared_def, rule store_step.private_grant,
      rule committed_result, code_simp)
qed

end
