(* ===== verification/Store_Properties.thy ===== *)
theory Store_Properties
  imports Store_Requests Store_Examples
begin

text \<open>
  What the store guarantees, of every store its operations can reach under any interleaving of their
  statements and transactions, and of the operations as their callers see them. The purge of a
  deleted cell, which removes its rows, is outside the model.
\<close>

section \<open>Operations as paths\<close>




section \<open>The journal\<close>

text \<open>
  C20: The journal of a cell is numbered without gaps or repeats: its operations, of all its runs and
  actors, carry exactly the numbers from one to their count.
\<close>

theorem journal_numbered:
  assumes "store_reachable c s"
  shows "mset (map ac_sequence (cell_actions w i s))
    = mset (map int [1..<Suc (length (cell_actions w i s))])"
proof -
  obtain n where n: "cell_numbers w i s = numbers_to n"
    using reachable_inv [OF assms] unfolding store_inv_def numbered_def by blast
  have "length (cell_actions w i s) = n"
    using arg_cong [OF n, of size] by (simp add: cell_numbers_def)
  then show ?thesis using n by (simp add: cell_numbers_def numbers_to_def)
qed

theorem journal_numbered_witness:
  "mset (map ac_sequence (cell_actions ''lab'' ''cell-1'' lab_admitted))
     = mset (map int [1..<Suc (length (cell_actions ''lab'' ''cell-1'' lab_admitted))])
   \<and> length (cell_actions ''lab'' ''cell-1'' lab_admitted) = 1"
  by (rule conjI [OF journal_numbered [OF lab_admitted_reachable]]) code_simp

text \<open>
  Every operation of the journal belongs to a run on its own cell, is attributed to a session of its
  own actor in that run, and is pinned to a configuration its cell has run.
\<close>

theorem journal_attributed:
  assumes "store_reachable c s" "bt_get (t_actions s) (w, k) = Some a"
  shows "(\<exists>e. bt_get (t_experiments s) (w, ac_experiment a) = Some e \<and> ex_instance e = ac_instance a)
    \<and> (\<exists>x. bt_get (t_sessions s) (w, ac_session a) = Some x
           \<and> se_principal x = ac_principal a \<and> se_experiment x = ac_experiment a)
    \<and> (\<exists>d. bt_get (t_operation_revisions s) (w, k) = Some d
           \<and> d \<in> set (config_log w (ac_instance a) s))"
proof -
  have l: "action_linked s (w, k) a"
    using reachable_inv [OF assms(1)] assms(2) unfolding store_inv_def journal_linked_def by blast
  moreover from l obtain d where d: "bt_get (t_operation_revisions s) (w, k) = Some d"
    unfolding action_linked_def by blast
  moreover have "d \<in> set (config_log w (ac_instance a) s)"
    using reachable_pinned [OF assms(1)] assms(2) d unfolding pinned_in_log_def by blast
  ultimately show ?thesis unfolding action_linked_def by auto
qed

theorem journal_attributed_witness:
  "\<exists>d. bt_get (t_operation_revisions lab_admitted) (''lab'', ''op-1'') = Some d
     \<and> d \<in> set (config_log ''lab'' ''cell-1'' lab_admitted)"
proof -
  have "bt_get (t_actions lab_admitted) (''lab'', ''op-1'') = Some (new_action lab 7 lab_admission 1)"
    by code_simp
  from journal_attributed [OF lab_admitted_reachable this] show ?thesis
    by (simp add: lab_admission_def)
qed

text \<open>
  C23: An operation only moves forward from pending over running to one final phase, and keeps what it is
  about; once it is final, its whole row (phase, artifact and times) never changes again.
\<close>

theorem operation_final:
  assumes "(store_step c)\<^sup>*\<^sup>* s s'" "bt_get (t_actions s) k = Some a"
  shows "\<exists>b. bt_get (t_actions s') k = Some b
    \<and> phase_rank (ac_phase a) \<le> phase_rank (ac_phase b)
    \<and> ac_sequence b = ac_sequence a \<and> ac_request b = ac_request a \<and> ac_kind b = ac_kind a
    \<and> (op_active (ac_phase a) \<or> b = a)"
proof -
  have "kept_rows same_action (t_actions s) (t_actions s')"
    using history.rise_star [OF assms(1)] by (simp add: store_below_def)
  then obtain b where "bt_get (t_actions s') k = Some b" "same_action a b"
    using kept_rowsD assms(2) by metis
  then show ?thesis using same_action_fields [of a b] by (auto simp: same_action_def)
qed

lemma lab_finishing: "(store_step lab)\<^sup>*\<^sup>* lab_finished lab_closed"
  by (rule r_into_rtranclp, unfold lab_closed_def,
      rule store_step.close_run, rule committed_result, code_simp)

theorem operation_final_witness:
  "bt_get (t_actions lab_closed) (''lab'', ''op-1'')
     = bt_get (t_actions lab_finished) (''lab'', ''op-1'')"
proof -
  have a: "bt_get (t_actions lab_finished) (''lab'', ''op-1'')
      = Some (finish_action 9 OpSucceeded lab_artifact (new_action lab 7 lab_admission 1))"
    by code_simp
  from operation_final [OF lab_finishing a] show ?thesis
    using a by (auto simp: finish_action_def op_active_def)
qed

text \<open>
  C24: A closed run is frozen. It stays closed at the time it was closed, with the configuration sealed
  then, and no operation is added to it, removed from it or changed.
\<close>

theorem closed_run_frozen:
  assumes "store_reachable c s" "(store_step c)\<^sup>*\<^sup>* s s'"
    "bt_get (t_experiments s) (w, i) = Some e" "ex_phase e = RunClosed"
  shows "(\<exists>f. bt_get (t_experiments s') (w, i) = Some f \<and> ex_phase f = RunClosed
        \<and> ex_closed f = ex_closed e)
    \<and> bt_get (t_run_seals s') (w, i) = bt_get (t_run_seals s) (w, i)
    \<and> (\<forall>k a. ac_experiment a = i \<longrightarrow>
        (bt_get (t_actions s') (w, k) = Some a \<longleftrightarrow> bt_get (t_actions s) (w, k) = Some a))"
  using runs_frozen.rise_star [OF assms(2) reachable_inv [OF assms(1)]] assms(3,4)
  unfolding run_kept_def same_closed_def by blast

lemma lab_after_close:
  "(store_step lab)\<^sup>*\<^sup>* lab_closed (after (put_principal ''bob'' lab_closed))"
  by (rule r_into_rtranclp, rule store_step.put_principal, rule committed_result, code_simp)

theorem closed_run_frozen_witness:
  "bt_get (t_run_seals (after (put_principal ''bob'' lab_closed))) (''lab'', ''run-1'')
     = bt_get (t_run_seals lab_closed) (''lab'', ''run-1'')"
proof -
  have "bt_get (t_experiments lab_closed) (''lab'', ''run-1'') = Some (close_run_row 10 lab_run_row)"
    by code_simp
  from closed_run_frozen [OF lab_closed_reachable lab_after_close this] show ?thesis
    by (simp add: close_run_row_def)
qed

text \<open>
  C25: No active operation, unless it reads logs, names a component that an accepted update still has to restart or remove: an
  update is not accepted over such an operation, and no such operation is admitted while the update
  is pending. Reading the logs of a component is let through: an operation of that one kind may be
  admitted while an update of its component is pending.
\<close>

theorem updates_spare_operations:
  assumes "store_reachable c s" "bt_get (t_actions s) (w, k) = Some a" "op_active (ac_phase a)"
    "ac_kind a \<noteq> OpComponentLogs" "state_of w (ac_instance a) s = Inr u"
    "p \<in> set (pending_plans w (ac_instance a) (us_applied u) s)"
  shows "\<not> references (ac_request a) (affected p)"
proof -
  have wf: "bt_wf (t_updates s)"
    using reachable_inv [OF assms(1)] by (simp add: store_inv_def tables_wf_def)
  obtain g x where "bt_get (t_updates s) (w, ac_instance a, g) = Some x"
    "applied_of w (ac_instance a) s < g" "au_plan x = p"
    using assms(5,6) state_of_applied pending_plans_table [OF wf] by metis
  then show ?thesis
    using reachable_undisturbed [OF assms(1)] assms(2-4) unfolding undisturbed_def by metis
qed

theorem updates_spare_operations_witness:
  "\<not> references lab_request (affected lab_plan) \<and> affected lab_plan = [''bob'']"
proof
  have a: "bt_get (t_actions lab_updated) (''lab'', ''op-1'') = Some (new_action lab 7 lab_admission 1)"
    by code_simp
  have u: "state_of ''lab'' ''cell-1'' lab_updated
      = Inr \<lparr>us_generation = 2, us_applied = 1, us_converged = None, us_closing = False\<rparr>"
    by code_simp
  have p: "pending_plans ''lab'' ''cell-1'' 1 lab_updated = [lab_plan]"
    by code_simp
  show "\<not> references lab_request (affected lab_plan)"
    using updates_spare_operations [OF lab_updated_reachable a, of _ lab_plan] u p
    by (simp add: lab_admission_def op_active_def)
  show "affected lab_plan = [''bob'']" by code_simp
qed

section \<open>Admission\<close>

text \<open>
  C21: What a new operation is admitted on, and all it writes. When \<open>create_operation\<close> returns and
  neither the operation nor a receipt under the key was there, then the caller holds the capability
  and may operate the cell (or was delegated just this request); the cell is not closing, its handle
  is open, and no pending update touches what the request names, unless it reads logs; the run is the
  one the caller named (or the implicit one), is open and on that cell, and the session is an open
  one of the caller in it. The row carries exactly what was asked for, is pending, is the next number
  of its cell and is pinned to the configuration the cell has, which is the one the caller expected
  if it named one. The call adds this row with its pin and its receipt, may add the implicit run with
  its ordinal and the session, marks the session active, and changes nothing else.
\<close>

theorem admission_guarded:
  assumes "store_reachable c s"
    "create_operation c now context w actor i e sess operation kind raw key cap expected s
      = (Inr op, s')"
    "bt_get (t_actions s) (w, operation) = None"
    "bt_get (t_idempotency s) (w, actor, key) = None"
  shows "\<exists>a row u f x es rs xs.
      op = with_revision (in_revision row) a
    \<and> ac_workspace a = w \<and> ac_id a = operation \<and> ac_instance a = i \<and> ac_principal a = actor
    \<and> ac_kind a = kind \<and> ac_capability a = cap \<and> ac_phase a = OpPending \<and> ac_accepted a = now
    \<and> ac_request a = normalize_request (ac_experiment a) raw \<and> (e \<noteq> [] \<longrightarrow> ac_experiment a = e)
    \<and> ac_sequence a = int (length (cell_actions w i s)) + 1
    \<and> granted s w actor cap
    \<and> authorize_operation_access c w actor i kind (ac_request a) s = Inr ()
    \<and> bt_get es (w, ac_experiment a) = Some f \<and> ex_instance f = i \<and> ex_phase f = RunActive
    \<and> bt_get xs (w, ac_session a) = Some x \<and> se_principal x = actor
    \<and> se_experiment x = ac_experiment a \<and> se_finished x = None
    \<and> (\<forall>y. bt_get (t_sessions s) (w, ac_session a) = Some y \<longrightarrow> x = touch_session now y)
    \<and> first_handle_phase w i s \<in> {None, Some HandleOpen}
    \<and> state_of w i s = Inr u \<and> \<not> us_closing u
    \<and> (kind = OpComponentLogs
       \<or> \<not> list_ex (\<lambda>p. references (ac_request a) (affected p)) (pending_plans w i (us_applied u) s))
    \<and> bt_get (t_instances s) (w, i) = Some row \<and> expected \<in> {None, Some (in_revision row)}
    \<and> s' = s\<lparr>t_experiments := es, t_automatic_runs := rs, t_sessions := xs,
             t_operation_revisions :=
               bt_insert (w, operation) (in_revision row) (t_operation_revisions s),
             t_actions := bt_insert (w, operation) a (t_actions s),
             t_idempotency := bt_insert (w, actor, key)
               \<lparr>rc_operation = ''cell.operation.create'',
                rc_hash = digest_json c (operation_envelope
                  (requested w actor i (ac_experiment a) sess operation kind raw key cap expected)),
                rc_response = OperationBody op\<rparr> (t_idempotency s)\<rparr>
    \<and> (e \<noteq> [] \<longrightarrow> es = t_experiments s \<and> rs = t_automatic_runs s)
    \<and> (\<forall>k. k \<noteq> (w, ac_experiment a) \<or> bt_get (t_experiments s) k \<noteq> None \<longrightarrow>
         bt_get es k = bt_get (t_experiments s) k)
    \<and> (\<forall>k. k \<noteq> (w, in_key row, actor) \<longrightarrow> bt_get rs k = bt_get (t_automatic_runs s) k)
    \<and> (\<forall>k. k \<noteq> (w, ac_session a) \<longrightarrow> bt_get xs k = bt_get (t_sessions s) k)"
proof -
  have inv: "store_inv s" by (rule reachable_inv [OF assms(1)])
  then obtain n where n: "cell_numbers w i s = numbers_to n"
    unfolding store_inv_def numbered_def by blast
  have count: "last_sequence w i s = int (length (cell_actions w i s))"
    using last_sequence_numbered [OF n] arg_cong [OF n, of size] by (simp add: cell_numbers_def)
  have free: "bt_get (t_operation_revisions s) (w, operation) = None"
    using inv assms(3) unfolding store_inv_def pinned_def by blast
  obtain run y s1 where got: "granted s w actor cap" "e \<noteq> [] \<longrightarrow> run = e"
    "authorize_operation_access c w actor i kind (normalize_request run raw) s = Inr ()"
    "entered w actor i e run y s s1" "run_open w run i s1"
    "first_handle_phase w i s1 \<in> {None, Some HandleOpen}"
    "admitted c now ((requested w actor i run sess operation kind raw key cap expected)
       \<lparr>aq_session := se_id y\<rparr>) s1 op s'"
    using new_request [OF assms(2) inv assms(3,4)] by blast
  obtain es rs xs where s1: "s1 = s\<lparr>t_experiments := es, t_automatic_runs := rs, t_sessions := xs\<rparr>"
    using got(4) unfolding entered_def by blast
  have s1_sel: "t_experiments s1 = es" "t_automatic_runs s1 = rs" "t_sessions s1 = xs"
    by (simp_all add: s1)
  have rows: "e \<noteq> [] \<longrightarrow> es = t_experiments s \<and> rs = t_automatic_runs s"
    "\<forall>k. k \<noteq> (w, run) \<or> bt_get (t_experiments s) k \<noteq> None \<longrightarrow> bt_get es k = bt_get (t_experiments s) k"
    "\<forall>k. k \<noteq> (w, se_id y) \<or> bt_get (t_sessions s) k \<noteq> None \<longrightarrow> bt_get xs k = bt_get (t_sessions s) k"
    "\<forall>row k. bt_get (t_instances s) (w, i) = Some row \<and> k \<noteq> (w, in_key row, actor) \<longrightarrow>
       bt_get rs k = bt_get (t_automatic_runs s) k"
    "bt_get xs (w, se_id y) = Some y" "se_principal y = actor" "se_experiment y = run"
    "se_finished y = None"
    using got(4) unfolding entered_def s1_sel by blast+
  obtain f where f: "bt_get es (w, run) = Some f" "ex_instance f = i" "ex_phase f = RunActive"
    using got(5) unfolding run_open_def s1 by (auto split: option.splits)
  let ?xs = "set_at (w, se_id y) (touch_session now) xs"
  have xs: "bt_get ?xs (w, se_id y) = Some (touch_session now y)"
    "\<forall>k. k \<noteq> (w, se_id y) \<longrightarrow> bt_get ?xs k = bt_get (t_sessions s) k"
    "\<forall>z. bt_get (t_sessions s) (w, se_id y) = Some z \<longrightarrow> touch_session now y = touch_session now z"
    using rows(3,5) by (auto simp: bt_get_set_at)
  obtain u row where w: "state_of w i s = Inr u" "\<not> us_closing u"
    "bt_get (t_instances s) (w, i) = Some row" "expected \<in> {None, Some (in_revision row)}"
    "kind = OpComponentLogs
       \<or> \<not> list_ex (\<lambda>p. references (normalize_request run raw) (affected p)) (pending_plans w i (us_applied u) s)"
    "op = with_revision (in_revision row) (admitted_row c now w actor i run sess operation kind raw key
       cap expected (se_id y) (last_sequence w i s + 1))"
    "s' = s\<lparr>t_experiments := es, t_automatic_runs := rs, t_sessions := ?xs,
       t_operation_revisions := bt_insert (w, operation) (in_revision row) (t_operation_revisions s),
       t_actions := bt_insert (w, operation) (admitted_row c now w actor i run sess operation kind raw key
         cap expected (se_id y) (last_sequence w i s + 1)) (t_actions s),
       t_idempotency := bt_insert (w, actor, key)
         \<lparr>rc_operation = ''cell.operation.create'',
          rc_hash = digest_json c (operation_envelope
            (requested w actor i run sess operation kind raw key cap expected)),
          rc_response = OperationBody op\<rparr> (t_idempotency s)\<rparr>"
    using admitted_entered [OF got(7) s1 free] by blast
  show ?thesis
    by (rule exI [of _ "admitted_row c now w actor i run sess operation kind raw key cap expected
          (se_id y) (last_sequence w i s + 1)"], rule exI [of _ row], rule exI [of _ u],
        rule exI [of _ f], rule exI [of _ "touch_session now y"], rule exI [of _ es],
        rule exI [of _ rs], rule exI [of _ ?xs], unfold admitted_row_simps,
        intro conjI refl w got(1,2,3) f xs rows)
      (use got(6) rows(4,6-8) w(3) in \<open>auto simp: count touch_session_def s1 first_handle_phase_def\<close>)
qed

lemma lab_fresh:
  "bt_get (t_actions lab_session) (''lab'', ''op-1'') = None"
  "bt_get (t_idempotency lab_session) (''lab'', ''ann'', ''key-a'') = None"
  by code_simp+

definition lab_call :: "cell_operation sresult \<times> store" where
  "lab_call = create_operation lab 7 ''process'' ''lab'' ''ann'' ''cell-1'' ''run-1'' ''work''
     ''op-1'' OpComponentExecLive lab_request ''key-a'' ComponentExecLive None lab_session"

lemma lab_call_result: "fst lab_call = Inr (with_revision ''rev-1'' (new_action lab 7 lab_admission 1))"
  by code_simp

lemma lab_call_pair:
  "lab_call = (Inr (with_revision ''rev-1'' (new_action lab 7 lab_admission 1)), snd lab_call)"
  using lab_call_result by (metis prod.collapse)

theorem admission_guarded_witness:
  "granted lab_session ''lab'' ''ann'' ComponentExecLive
   \<and> t_experiments (snd lab_call) = t_experiments lab_session
   \<and> t_handles (snd lab_call) = t_handles lab_session"
proof -
  note call = admission_guarded [OF lab_session_reachable lab_call_pair [unfolded lab_call_def] lab_fresh]
  then show ?thesis unfolding lab_call_def by (elim exE conjE) simp
qed

text \<open>
  C22: A request for an operation is exactly once. After it returned the operation it asked for, the same
  request in any later store, by whatever process and whatever happened in between, returns that same
  operation (its number, request, run, session and configuration, at its phase of the moment) and
  changes nothing, as long as its actor keeps the capability.
\<close>

theorem create_operation_retry:
  assumes "store_reachable c s"
    "create_operation c now context w actor i e sess operation kind raw key cap expected s
      = (Inr op, s1)"
    "ac_id op = operation" "ac_instance op = i" "(store_step c)\<^sup>*\<^sup>* s1 s2" "granted s2 w actor cap"
  shows "\<exists>op'. create_operation c now' context' w actor i e sess operation kind raw key cap
        expected' s2 = (Inr op', s2)
    \<and> ac_id op' = operation \<and> ac_sequence op' = ac_sequence op \<and> ac_request op' = ac_request op
    \<and> ac_experiment op' = ac_experiment op \<and> ac_session op' = ac_session op
    \<and> ac_revision op' = ac_revision op \<and> phase_rank (ac_phase op) \<le> phase_rank (ac_phase op')"
proof -
  note inv = reachable_inv [OF assms(1)]
  obtain run where run: "settled c w actor i e run operation key
      (operation_envelope (requested w actor i run sess operation kind raw key cap None)) s1"
    "e \<noteq> [] \<Longrightarrow> run = e" "is_store_slug operation" "bt_get (t_instances s) (w, i) \<noteq> None"
    using create_operation_settles [OF assms(2) inv assms(3,4)] by blast
  have s1: "(store_step c)\<^sup>*\<^sup>* s s1"
    using store_runs_star [OF create_operation_runs inv assms(2)] .
  then have s2: "(store_step c)\<^sup>*\<^sup>* s s2" using assms(5) by (rule rtranclp_trans)
  have below: "store_below s1 s2" "store_below s s2"
    using history.rise_star [OF assms(5)] history.rise_star [OF s2] by simp_all
  have inst: "bt_get (t_instances s2) (w, i) \<noteq> None"
    using run(4) below(2) kept_rowsD unfolding store_below_def by fastforce
  have inv2: "store_inv s2"
    using reachable_inv [OF store_reachable_star [OF assms(1) s2]] .
  obtain op' where op': "create_operation c now' context' w actor i e sess operation kind raw key
      cap expected' s2 = (Inr op', s2)" "operation_from w operation s2 = Inr op'"
    using settled_request [OF settled_kept [OF run(1) below(1)] run(2,3) inst inv2 assms(6)]
    by blast
  have "operation_from w operation s1 = Inr op"
    using create_operation_row [OF assms(2) inv] assms(3) by simp
  then have "ac_sequence op' = ac_sequence op \<and> ac_request op' = ac_request op
    \<and> ac_experiment op' = ac_experiment op \<and> ac_session op' = ac_session op
    \<and> ac_revision op' = ac_revision op \<and> phase_rank (ac_phase op) \<le> phase_rank (ac_phase op')"
    using operation_from_later below(1) op'(2) by blast
  moreover have "ac_id op' = operation"
    using operation_from_id [OF linked_keyed op'(2)] inv2 by (simp add: store_inv_def)
  ultimately show ?thesis using op'(1) by blast
qed

theorem create_operation_retry_witness:
  "\<exists>op. create_operation lab 50 ''restarted'' ''lab'' ''ann'' ''cell-1'' ''run-1'' ''work'' ''op-1''
       OpComponentExecLive lab_request ''key-a'' ComponentExecLive None (snd lab_call)
     = (Inr op, snd lab_call) \<and> ac_sequence op = 1"
proof -
  have "granted (snd lab_call) ''lab'' ''ann'' ComponentExecLive" by code_simp
  with create_operation_retry [OF lab_session_reachable lab_call_pair [unfolded lab_call_def] _ _
      rtranclp.rtrancl_refl]
  show ?thesis unfolding lab_call_def by (fastforce simp: lab_admission_def)
qed

section \<open>Access\<close>

text \<open>
  An actor without the capability to operate on cells gets an operation admitted only under a private
  permission: one that was issued to it for this cell, has not been revoked, and permits this kind of
  operation with this request.
\<close>

theorem delegated_admission:
  assumes "create_operation c now context w actor i e sess operation kind raw key cap expected s
      = (Inr op, s')"
    "store_reachable c s" "\<not> granted s w actor CellOperate"
    "bt_get (t_idempotency s) (w, actor, key) = None"
  shows "\<exists>run k g. ((w, k), g) \<in> set (t_private_grants s) \<and> pg_principal g = actor
    \<and> pg_instance g = i \<and> pg_revoked g = None
    \<and> permits c (pg_scope g) kind (normalize_request run raw)"
proof -
  have keyed: "sessions_keyed s" using reachable_inv [OF assms(2)] by (simp add: store_inv_def)
  from assms(1) keyed show ?thesis
  proof (cases rule: create_operation_Inr)
    case (1 run x q p)
    then show ?thesis using assms(4) by (simp add: receipt_found)
  next
    case (2 run x q s1 y)
    then have "authorize_operation_access c w actor i kind (normalize_request run raw) s = Inr ()"
      by simp
    from private_admission [OF this assms(3)] show ?thesis by blast
  qed
qed

definition lab_delivery :: "cell_operation sresult \<times> store" where
  "lab_delivery = create_operation lab 9 ''process'' ''lab'' ''ben'' ''cell-1'' ''run-1'' ''guest''
     ''op-2'' OpPrivateTransfer lab_transfer ''key-b'' ComponentExecLive None lab_shared"

theorem delegated_admission_witness:
  "\<exists>k g. ((''lab'', k), g) \<in> set (t_private_grants lab_shared) \<and> pg_principal g = ''ben''
     \<and> pg_revoked g = None"
proof -
  have "(case fst lab_delivery of Inl _ \<Rightarrow> False | Inr _ \<Rightarrow> True)" by code_simp
  then obtain op where "lab_delivery = (Inr op, snd lab_delivery)"
    by (cases "fst lab_delivery") (simp_all, metis prod.collapse)
  moreover have "\<not> granted lab_shared ''lab'' ''ben'' CellOperate"
    "bt_get (t_idempotency lab_shared) (''lab'', ''ben'', ''key-b'') = None" by code_simp+
  ultimately show ?thesis
    using delegated_admission [OF _ lab_shared_reachable] unfolding lab_delivery_def by metis
qed

section \<open>The configuration of a cell\<close>

text \<open>
  C26: Accepting an update is a compare-and-swap on the configuration log of its cell. It succeeds only if
  the log has as many entries as the plan expects and ends at the revision the plan starts from, and
  then appends the plan's target; otherwise it is refused as a conflict and nothing changes.
\<close>

theorem accept_compare_and_swap:
  assumes "store_reachable c s" "i = ut_instance (pl_target p)"
    "bt_get (t_instances s) (w, i) = Some row" "in_key row = pl_instance_key p"
    "bt_get (t_idempotency s) (w, actor, key) = None"
    "state_of w i s = Inr u" "\<not> us_closing u" "\<not> is_noop p" "rv_digest new = pl_target_revision p"
  shows "(case log_append (nat (uint (ut_expected_generation (pl_target p)))) (pl_base_revision p)
            (pl_target_revision p) (config_log w i s) of
        None \<Rightarrow> accept_tx c now w actor p new key s = Inl (CellUpdateError ''cell_update_conflict'')
      | Some xs \<Rightarrow> (case accept_tx c now w actor p new key s of
            Inl e \<Rightarrow> e \<noteq> CellUpdateError ''cell_update_conflict''
          | Inr (x, s') \<Rightarrow> config_log w i s' = xs))"
proof -
  have h: "cell_history s w i" using reachable_inv [OF assms(1)] by (simp add: store_inv_def histories_def)
  have g: "us_generation u = generation_of w i s" "1 \<le> generation_of w i s"
    using state_of_generation [OF assms(6)] h by (simp_all add: cell_history_def)
  have log: "config_log w i s \<noteq> []" "length (config_log w i s) = nat (generation_of w i s)"
    "last (config_log w i s) = in_revision row"
    using config_log_length [OF h] config_log_last [OF h assms(3)] assms(3) by auto
  show ?thesis
  proof (cases "us_generation u = uint (ut_expected_generation (pl_target p))
      \<and> in_revision row = pl_base_revision p")
    case False
    then have "log_append (nat (uint (ut_expected_generation (pl_target p)))) (pl_base_revision p)
        (pl_target_revision p) (config_log w i s) = None"
      using log g by (auto simp: log_append_def nat_eq_iff2)
    moreover have "accept_tx c now w actor p new key s = Inl (CellUpdateError ''cell_update_conflict'')"
      using False assms by (auto simp: accept_tx_def Let_def and_then_def)
    ultimately show ?thesis by simp
  next
    case True
    let ?l = "log_append (nat (uint (ut_expected_generation (pl_target p)))) (pl_base_revision p)
        (pl_target_revision p) (config_log w i s)"
    have l: "?l \<noteq> None" using True log g by (auto simp: log_append_def)
    show ?thesis
    proof (cases "accept_tx c now w actor p new key s")
      case (Inl e)
      have "e \<noteq> CellUpdateError ''cell_update_conflict''"
        using Inl True assms
        by (auto simp: accept_tx_def Let_def and_then_def apply_update_def insert_new_def
            record_update_receipt_def record_idempotency_def split: if_splits sum.splits)
      then show ?thesis using Inl l by auto
    next
      case (Inr r)
      obtain x s' where r: "accept_tx c now w actor p new key s = Inr (x, s')"
        using Inr by (cases r) simp
      from r have "?l = Some (config_log w i s')"
      proof (cases rule: accept_Inr)
        case (applied row' u' s1)
        then show ?thesis
          using applied_log [OF applied(1,3,4,6) assms(9) applied(12), of s'] h assms(2) by simp
      qed (use assms in auto)
      then show ?thesis using r by simp
    qed
  qed
qed

theorem accept_compare_and_swap_witness:
  "config_log ''lab'' ''cell-1'' lab_updated = [''rev-1'', ''rev-2'']"
proof -
  let ?u = "\<lparr>us_generation = 1, us_applied = 1, us_converged = None, us_closing = False\<rparr>"
  have facts: "ut_instance (pl_target lab_plan) = ''cell-1''"
    "bt_get (t_instances lab_admitted) (''lab'', ''cell-1'') = Some lab_instance"
    "in_key lab_instance = pl_instance_key lab_plan"
    "bt_get (t_idempotency lab_admitted) (''lab'', ''ann'', ''key-u'') = None"
    "state_of ''lab'' ''cell-1'' lab_admitted = Inr ?u" "\<not> us_closing ?u" "\<not> is_noop lab_plan"
    "rv_digest second_revision = pl_target_revision lab_plan"
    "log_append (nat (uint (ut_expected_generation (pl_target lab_plan))))
       (pl_base_revision lab_plan) (pl_target_revision lab_plan)
       (config_log ''lab'' ''cell-1'' lab_admitted) = Some [''rev-1'', ''rev-2'']"
    by code_simp+
  have "committed (accept_tx lab 8 ''lab'' ''ann'' lab_plan second_revision ''key-u'' lab_admitted)"
    by code_simp
  from committed_result [OF this, folded lab_updated_def] obtain y where
    x: "accept_tx lab 8 ''lab'' ''ann'' lab_plan second_revision ''key-u'' lab_admitted
      = Inr (y, lab_updated)" by blast
  from accept_compare_and_swap [OF lab_admitted_reachable facts(1)[symmetric] facts(2-8), where now = 8]
  show ?thesis by (simp only: facts(9) x option.case sum.case prod.case)
qed

section \<open>Names and drafts\<close>

text \<open>
  A cell name is a latch. It keeps its owner; its generation never falls; and within one generation
  it stands for one instance and only closes, so a name that is closing or closed never reopens
  except as a later generation, with another instance.
\<close>

theorem cell_name_latch:
  assumes "(store_step c)\<^sup>*\<^sup>* s s'" "handle_of w name s = Some h"
  shows "\<exists>h'. handle_of w name s' = Some h' \<and> ch_owner h' = ch_owner h
    \<and> (ch_generation h < ch_generation h'
       \<or> ch_generation h' = ch_generation h \<and> ch_instance h' = ch_instance h
          \<and> handle_rank (ch_phase h) \<le> handle_rank (ch_phase h'))"
proof -
  have "kept_rows handle_below (t_handles s) (t_handles s')"
    using names.rise_star [OF assms(1)] by (simp add: names_below_def)
  from kept_rowsD [OF this] show ?thesis
    using assms(2) unfolding handle_of_def handle_below_def by blast
qed

definition lab_closing :: store where
  "lab_closing = after (set_phase_tx ''lab'' ''ann'' ''demo'' 1 HandleClosing lab_named)"

theorem cell_name_latch_witness:
  "\<exists>h. handle_of ''lab'' ''demo'' lab_closing = Some h \<and> ch_owner h = ''ann''"
proof -
  have "(store_step lab)\<^sup>*\<^sup>* lab_named lab_closing"
    by (rule r_into_rtranclp, unfold lab_closing_def, rule store_step.set_phase,
        rule committed_result; code_simp)
  moreover have "handle_of ''lab'' ''demo'' lab_named
      = Some (result_of (reserve_tx lab ''00'' ''lab'' ''ann'' ''demo'' ''config'' lab_revised))"
    "ch_owner (result_of (reserve_tx lab ''00'' ''lab'' ''ann'' ''demo'' ''config'' lab_revised))
      = ''ann''"
    by code_simp+
  ultimately show ?thesis using cell_name_latch by metis
qed

text \<open>
  No edit of a draft is lost. Once an edit that expected a version has been made, no other edit that
  expects the same version ever succeeds: it is refused as stale with the version it should have read,
  and changes nothing.
\<close>

theorem draft_no_lost_update:
  assumes "edit_draft c w actor i version cell key s = (Inr d, s1)"
    "bt_get (t_idempotency s) (w, actor, key) = None" "(store_step c)\<^sup>*\<^sup>* s1 s2"
    "granted s2 w other CellEdit" "bt_get (t_idempotency s2) (w, other, key') = None"
    "read_draft_unchecked w i s2 = Inr current"
  shows "edit_draft c w other i version cell' key' s2
      = (Inl (StaleDraft i version (dr_version current)), s2)
    \<and> version < dr_version current"
proof -
  from assms(1,2) obtain t where t: "update_draft w i version cell s = Inr (True, t)"
    and rec: "record_idempotency c w actor key ''cell.edit'' (edit_request c i version cell)
       (DraftBody d) t = Inr ((), s1)"
    by (auto simp: edit_draft_def sop_Inr idempotent_response_def split: option.splits if_splits)
  from t obtain row where row: "uint version \<le> I64_MAX"
    "bt_get (t_drafts t) (w, i) = Some \<lparr>dw_version = uint version + 1, dw_cell = cell\<rparr>"
    by (auto simp: update_draft_def and_then_Inr_iff sql_version_def split: option.splits if_splits)
  then have s1: "bt_get (t_drafts s1) (w, i) = Some \<lparr>dw_version = uint version + 1, dw_cell = cell\<rparr>"
    using rec by (simp add: record_idempotency_Inr)
  have "kept_rows draft_below (t_drafts s1) (t_drafts s2)"
    using names.rise_star [OF assms(3)] by (simp add: names_below_def)
  from kept_rowsD [OF this s1] obtain e where e: "bt_get (t_drafts s2) (w, i) = Some e"
    "uint version < dw_version e" by (auto simp: draft_below_def)
  have current: "uint (dr_version current) = dw_version e"
    using assms(6) e
    by (auto simp: read_draft_unchecked_def stored_u64_def and_then_Inr_iff uint_word_of_int
        I64_MAX_def split: if_splits)
  have "update_draft w i version cell' s2 = Inr (False, s2)"
    using e row(1) by (simp add: update_draft_def sql_version_def and_then_def)
  then have "edit_draft c w other i version cell' key' s2
      = (Inl (StaleDraft i version (dr_version current)), s2)"
    using assms(4-6)
    by (simp add: edit_draft_def bind_op_def read_op_def tx_op_def authorize_granted
        idempotent_response_def)
  then show ?thesis using current e(2) by (simp add: word_less_def)
qed

definition lab_edit :: "draft sresult \<times> store" where
  "lab_edit = edit_draft lab ''lab'' ''ann'' ''plan'' 1 (lab_cell ''cell'' [''bob'']) ''key-d'' lab_draft"

theorem draft_no_lost_update_witness:
  "edit_draft lab ''lab'' ''ann'' ''plan'' 1 (lab_cell ''cell'' []) ''key-e'' (snd lab_edit)
     = (Inl (StaleDraft ''plan'' 1 2), snd lab_edit)"
proof -
  have "fst lab_edit = Inr \<lparr>dr_id = ''plan'', dr_workspace = ''lab'', dr_version = 2,
      dr_cell = lab_cell ''cell'' [''bob'']\<rparr>" (is "_ = Inr ?d")
    by code_simp
  then have call: "lab_edit = (Inr ?d, snd lab_edit)" by (metis prod.collapse)
  have facts: "bt_get (t_idempotency lab_draft) (''lab'', ''ann'', ''key-d'') = None"
    "granted (snd lab_edit) ''lab'' ''ann'' CellEdit"
    "bt_get (t_idempotency (snd lab_edit)) (''lab'', ''ann'', ''key-e'') = None"
    "read_draft_unchecked ''lab'' ''plan'' (snd lab_edit) = Inr ?d"
    by code_simp+
  from draft_no_lost_update [OF call [unfolded lab_edit_def] facts(1) rtranclp.rtrancl_refl]
  show ?thesis using facts(2-4) unfolding lab_edit_def by fastforce
qed

section \<open>Receipts and refusals\<close>

text \<open>
  C28: A receipt is of the type its readers expect. Every receipt of the modelled operations carries the
  name of one of them, and decodes as the type that operation answers with, the plan of an accepted
  update included; so the retry of an operation under a recorded key is answered or refused as a
  different request, but never fails to decode what was recorded.
\<close>

theorem receipts_decode:
  assumes "store_reachable c s"
  shows "(\<forall>k r. bt_get (t_idempotency s) k = Some r \<longrightarrow>
      (let o' = rc_operation r; b = rc_response r in
         o' \<in> {''cell.create'', ''cell.edit'', ''cell.clone''} \<and> draft_body b \<noteq> None
         \<or> o' = ''cell.publish'' \<and> revision_body b \<noteq> None
         \<or> o' = ''cell.materialize'' \<and> instance_body b \<noteq> None
         \<or> o' \<in> {''experiment.create'', ''experiment.close''} \<and> experiment_body b \<noteq> None
         \<or> o' = ''session.start'' \<and> session_body b \<noteq> None
         \<or> o' = ''cell.operation.create'' \<and> operation_body b \<noteq> None
         \<or> o' = ''private_access.issue'' \<and> grant_body b \<noteq> None
         \<or> o' = ''cell.update'' \<and> plan_body b \<noteq> None))
    \<and> idempotent_response c draft_body w actor key ''cell.create'' request s
      \<noteq> Inl SerializationError
    \<and> idempotent_response c draft_body w actor key ''cell.edit'' request s \<noteq> Inl SerializationError
    \<and> idempotent_response c draft_body w actor key ''cell.clone'' request s \<noteq> Inl SerializationError
    \<and> idempotent_response c revision_body w actor key ''cell.publish'' request s
      \<noteq> Inl SerializationError
    \<and> idempotent_response c instance_body w actor key ''cell.materialize'' request s
      \<noteq> Inl SerializationError
    \<and> idempotent_response c experiment_body w actor key ''experiment.create'' request s
      \<noteq> Inl SerializationError
    \<and> idempotent_response c experiment_body w actor key ''experiment.close'' request s
      \<noteq> Inl SerializationError
    \<and> idempotent_response c session_body w actor key ''session.start'' request s
      \<noteq> Inl SerializationError
    \<and> idempotent_response c operation_body w actor key ''cell.operation.create'' request s
      \<noteq> Inl SerializationError
    \<and> idempotent_response c grant_body w actor key ''private_access.issue'' request s
      \<noteq> Inl SerializationError"
proof -
  have decode: "idempotent_response c parse w actor key operation request s \<noteq> Inl SerializationError"
    if "\<And>b. fits operation b \<Longrightarrow> parse b \<noteq> None" for parse :: "receipt_body \<Rightarrow> 'r option" and operation
    using that reachable_inv [OF assms]
    by (fastforce simp: idempotent_response_def store_inv_def receipts_fit_def
        split: option.splits if_splits)
  have draft: "fits ''cell.create'' b \<Longrightarrow> draft_body b \<noteq> None"
    "fits ''cell.edit'' b \<Longrightarrow> draft_body b \<noteq> None" "fits ''cell.clone'' b \<Longrightarrow> draft_body b \<noteq> None"
    for b by (cases b; simp)+
  have others: "fits ''cell.publish'' b \<Longrightarrow> revision_body b \<noteq> None"
    "fits ''cell.materialize'' b \<Longrightarrow> instance_body b \<noteq> None"
    "fits ''experiment.create'' b \<Longrightarrow> experiment_body b \<noteq> None"
    "fits ''experiment.close'' b \<Longrightarrow> experiment_body b \<noteq> None"
    "fits ''session.start'' b \<Longrightarrow> session_body b \<noteq> None"
    "fits ''cell.operation.create'' b \<Longrightarrow> operation_body b \<noteq> None"
    "fits ''private_access.issue'' b \<Longrightarrow> grant_body b \<noteq> None"
    for b by (cases b; simp)+
  have typed: "fits o' b \<Longrightarrow>
      o' \<in> {''cell.create'', ''cell.edit'', ''cell.clone''} \<and> draft_body b \<noteq> None
      \<or> o' = ''cell.publish'' \<and> revision_body b \<noteq> None
      \<or> o' = ''cell.materialize'' \<and> instance_body b \<noteq> None
      \<or> o' \<in> {''experiment.create'', ''experiment.close''} \<and> experiment_body b \<noteq> None
      \<or> o' = ''session.start'' \<and> session_body b \<noteq> None
      \<or> o' = ''cell.operation.create'' \<and> operation_body b \<noteq> None
      \<or> o' = ''private_access.issue'' \<and> grant_body b \<noteq> None
      \<or> o' = ''cell.update'' \<and> plan_body b \<noteq> None" for o' b
    by (cases b) simp_all
  have "receipts_fit s" using reachable_inv [OF assms] by (simp add: store_inv_def)
  then show ?thesis
    unfolding Let_def receipts_fit_def by (intro conjI decode draft others allI impI typed) blast
qed

theorem receipts_decode_witness:
  "idempotent_response lab operation_body ''lab'' ''ann'' ''key-a'' ''cell.operation.create''
     (operation_envelope lab_admission) lab_admitted \<noteq> Inl SerializationError"
  using receipts_decode [OF lab_admitted_reachable] by blast






section \<open>Retries that are not answered\<close>

text \<open>
  Cloning onto a draft that exists fails as a failure of the store, where creating that draft is
  refused as a conflict.
\<close>

lemma clone_onto_existing:
  assumes "granted s w actor CellClone" "granted s w actor CellCreate"
    "bt_get (t_idempotency s) (w, actor, key) = None"
    "read_draft_unchecked w source s = Inr d" "bt_get (t_drafts s) (w, target) \<noteq> None"
  shows "clone_draft c w actor source target key s = (Inl DatabaseError, s)
    \<and> create_draft c w actor target cell key s = (Inl (ConflictError ''draft'' target), s)
    \<and> store_error_code DatabaseError = ''store_failure''
    \<and> store_error_code (ConflictError ''draft'' target) = ''conflict''"
  using assms
  by (auto simp: clone_draft_def create_draft_def op_cases authorize_granted idempotent_response_def
      clone_into_def insert_draft_def bt_contains_key_def and_then_def Let_def)

text \<open>
  A draft and the receipt of its creation are two transactions. When the process stops between them,
  the identical request is refused as a conflict, where the request of an operation, recorded in one
  transaction with its receipt, is answered.
\<close>

lemma create_retry_after_crash:
  assumes "insert_draft w i cell s = Inr (True, s')" "granted s' w actor CellCreate"
    "bt_get (t_idempotency s') (w, actor, key) = None"
  shows "create_draft c w actor i cell key s' = (Inl (ConflictError ''draft'' i), s')"
proof -
  have "bt_contains_key (t_drafts s') (w, i)"
    using assms(1) by (auto simp: insert_draft_def bt_contains_key_def split: if_splits)
  then show ?thesis
    using assms(2,3)
    by (simp add: create_draft_def op_cases authorize_granted idempotent_response_def
        insert_draft_def Let_def)
qed

end
