(* ===== verification/Store_Plans.thy ===== *)
theory Store_Plans
  imports Store_Examples
begin

text \<open>
  The plan of an update says exactly what it does to each component of the cell.
\<close>

section \<open>The loop over the components\<close>

definition cell_ids :: "published_revision \<Rightarrow> string set" where
  "cell_ids r = c_id ` set (components (rv_cell r))"

definition same_rollout :: "published_revision \<Rightarrow> published_revision \<Rightarrow> string \<Rightarrow> bool" where
  "same_rollout old new i \<longleftrightarrow>
     map_option le_rollout (locked old i) = map_option le_rollout (locked new i)"

lemma find_component:
  "find (\<lambda>x. c_id x = i) xs = None \<longleftrightarrow> i \<notin> c_id ` set xs"
  by (auto simp: find_None_iff)

lemma add_component_Some:
  assumes "add_component old new x g = Some g'"
  shows "set (cg_added g') = set (cg_added g) \<union> (if c_id x \<in> cell_ids old then {} else {c_id x})"
    "set (cg_unchanged g') = set (cg_unchanged g)
       \<union> (if c_id x \<in> cell_ids old \<and> same_rollout old new (c_id x) then {c_id x} else {})"
    "set (cg_restarted g') = set (cg_restarted g)
       \<union> (if c_id x \<in> cell_ids old \<and> \<not> same_rollout old new (c_id x) then {c_id x} else {})"
    "c_id x \<in> cell_ids old \<Longrightarrow> c_id x \<in> cell_ids new \<Longrightarrow> locked old (c_id x) \<noteq> None"
    "locked new (c_id x) \<noteq> None"
proof -
  have old: "find (\<lambda>y. c_id y = c_id x) (components (rv_cell old)) = None
      \<longleftrightarrow> c_id x \<notin> cell_ids old"
    by (simp add: find_component cell_ids_def)
  obtain n where n: "locked new (c_id x) = Some n"
    using assms by (auto simp: add_component_def split: option.splits)
  then show "locked new (c_id x) \<noteq> None" by simp
  show "set (cg_added g') = set (cg_added g) \<union> (if c_id x \<in> cell_ids old then {} else {c_id x})"
    "set (cg_unchanged g') = set (cg_unchanged g)
       \<union> (if c_id x \<in> cell_ids old \<and> same_rollout old new (c_id x) then {c_id x} else {})"
    "set (cg_restarted g') = set (cg_restarted g)
       \<union> (if c_id x \<in> cell_ids old \<and> \<not> same_rollout old new (c_id x) then {c_id x} else {})"
    "c_id x \<in> cell_ids old \<Longrightarrow> c_id x \<in> cell_ids new \<Longrightarrow> locked old (c_id x) \<noteq> None"
    using assms n old
    by (auto simp: add_component_def same_rollout_def Let_def split: option.splits if_splits)
qed

lemma change_loop_Some:
  assumes "change_loop old new xs g = Some g'"
  shows "set (cg_added g') = set (cg_added g) \<union> (c_id ` set xs - cell_ids old)
    \<and> set (cg_unchanged g') = set (cg_unchanged g)
        \<union> {i \<in> c_id ` set xs \<inter> cell_ids old. same_rollout old new i}
    \<and> set (cg_restarted g') = set (cg_restarted g)
        \<union> {i \<in> c_id ` set xs \<inter> cell_ids old. \<not> same_rollout old new i}"
  using assms
proof (induction xs arbitrary: g)
  case (Cons x xs)
  then obtain h where h: "add_component old new x g = Some h" "change_loop old new xs h = Some g'"
    by (auto split: option.splits)
  from Cons.IH [OF h(2)] add_component_Some(1-3) [OF h(1)] show ?case by auto
qed simp

section \<open>The plan\<close>

lemma set_sort_dedup [simp]: "set (sort_dedup xs) = set xs"
  by (simp add: sort_dedup_def)

lemma sorted_dedup: "sorted_wrt (<) (sort_dedup (xs :: string list))"
proof -
  have "sorted_wrt (<) (remdups_adj xs)" if "sorted xs" for xs :: "string list"
    using that
    by (induction xs rule: remdups_adj.induct) (auto simp: less_le)
  then show ?thesis by (simp add: sort_dedup_def)
qed

lemma new_plan_Some:
  assumes "new_plan c target old new = Some p"
  obtains g where "change_loop old new (components (rv_cell new)) no_changes = Some g"
    "cg_added (pl_changes p) = sort_dedup (cg_added g)"
    "cg_unchanged (pl_changes p) = sort_dedup (cg_unchanged g)"
    "cg_restarted (pl_changes p) = sort_dedup (cg_restarted g)"
    "cg_removed (pl_changes p) = sort_dedup (removed_components old new)"
    "cg_deleted_data (pl_changes p) = sort_dedup (ut_delete_retained target
       @ (if ut_delete_data target then removed_components old new else []))"
    "pl_base_revision p = rv_digest old" "pl_target_revision p = rv_digest new"
proof -
  from assms obtain g where "change_loop old new (components (rv_cell new)) no_changes = Some g"
    by (auto simp: new_plan_def split: option.splits)
  then show thesis using assms
    by (intro that [of g]) (auto simp: new_plan_def seal_plan_def sort_changes_def Let_def)
qed

text \<open>
  C27: The plan of an update partitions the components. The added ones are those only the new revision
  has, the removed ones those only the old one has; the others are unchanged when the digest of what
  they roll out is the same in both locks and restarted when it is not. The data deleted is what the
  target names, with that of the removed components if it asks for it. Each list is sorted and has
  no repeats, and the plan is for these two revisions.
\<close>

theorem update_plan_exact:
  assumes "new_plan c target old new = Some p"
  shows "set (cg_added (pl_changes p)) = cell_ids new - cell_ids old
    \<and> set (cg_removed (pl_changes p)) = cell_ids old - cell_ids new
    \<and> set (cg_unchanged (pl_changes p)) = {i \<in> cell_ids new \<inter> cell_ids old. same_rollout old new i}
    \<and> set (cg_restarted (pl_changes p)) = {i \<in> cell_ids new \<inter> cell_ids old. \<not> same_rollout old new i}
    \<and> set (cg_deleted_data (pl_changes p)) = set (ut_delete_retained target)
        \<union> (if ut_delete_data target then cell_ids old - cell_ids new else {})
    \<and> sorted_wrt (<) (cg_added (pl_changes p)) \<and> sorted_wrt (<) (cg_removed (pl_changes p))
    \<and> sorted_wrt (<) (cg_unchanged (pl_changes p)) \<and> sorted_wrt (<) (cg_restarted (pl_changes p))
    \<and> pl_base_revision p = rv_digest old \<and> pl_target_revision p = rv_digest new"
proof -
  from assms obtain g where g: "change_loop old new (components (rv_cell new)) no_changes = Some g"
    "cg_added (pl_changes p) = sort_dedup (cg_added g)"
    "cg_unchanged (pl_changes p) = sort_dedup (cg_unchanged g)"
    "cg_restarted (pl_changes p) = sort_dedup (cg_restarted g)"
    "cg_removed (pl_changes p) = sort_dedup (removed_components old new)"
    "cg_deleted_data (pl_changes p) = sort_dedup (ut_delete_retained target
       @ (if ut_delete_data target then removed_components old new else []))"
    "pl_base_revision p = rv_digest old" "pl_target_revision p = rv_digest new"
    by (rule new_plan_Some)
  have diff: "f ` {x \<in> A. f x \<notin> B} = f ` A - B" for f :: "component_spec \<Rightarrow> string" and A B by auto
  have named: "list_ex (\<lambda>y. c_id y = i) xs \<longleftrightarrow> i \<in> c_id ` set xs" for i xs
    by (induction xs) auto
  have "set (removed_components old new)
      = c_id ` {x \<in> set (components (rv_cell old)). c_id x \<notin> cell_ids new}"
    by (simp only: removed_components_def cell_ids_def named set_map set_filter)
  then have removed: "set (removed_components old new) = cell_ids old - cell_ids new"
    unfolding diff cell_ids_def by simp
  show ?thesis
    using change_loop_Some [OF g(1)] removed
    by (simp add: g(2-8) sorted_dedup no_changes_def flip: cell_ids_def) blast
qed

theorem update_plan_exact_witness:
  "set (cg_removed (pl_changes (the (new_plan lab lab_target first_revision second_revision))))
     = cell_ids first_revision - cell_ids second_revision"
proof -
  have "new_plan lab lab_target first_revision second_revision
      = Some (the (new_plan lab lab_target first_revision second_revision))"
    by code_simp
  from update_plan_exact [OF this] show ?thesis by blast
qed

end
