(* ===== verification/Store_Sessions.thy ===== *)
theory Store_Sessions
  imports Store_Examples
begin

text \<open>
  Sessions: tracking one returns, with fuel enough, and reading them page by page misses none.
\<close>

section \<open>Tracking\<close>

text \<open>The identifiers the loop of \<open>track_session\<close> tries: the first, then one per generation.\<close>

definition session_candidate :: "codec \<Rightarrow> string \<Rightarrow> string \<Rightarrow> string \<Rightarrow> nat \<Rightarrow> string" where
  "session_candidate c wanted ctx i g = (if g = 0 then i else continued_id c wanted ctx g)"

lemma track_target_taken:
  assumes "track_target c w actor run wanted ctx s n g (session_candidate c wanted ctx i g) = None"
    "j < n"
  shows "bt_get (t_sessions s) (w, session_candidate c wanted ctx i (g + j)) \<noteq> None"
  using assms
proof (induction n arbitrary: g j)
  case (Suc n)
  from Suc.prems(1) have "bt_get (t_sessions s) (w, session_candidate c wanted ctx i g) \<noteq> None"
    by (auto split: option.splits)
  moreover have "track_target c w actor run wanted ctx s n (Suc g)
      (session_candidate c wanted ctx i (Suc g)) = None"
    using Suc.prems(1) by (auto simp: session_candidate_def split: option.splits if_splits)
  ultimately show ?case using Suc.IH [of "Suc g" "j - 1"] Suc.prems(2) by (cases j) auto
qed simp

lemma track_target_returns:
  assumes "inj_on (session_candidate c wanted ctx i) {..length (t_sessions s)}"
  shows "track_target c w actor run wanted ctx s (Suc (length (t_sessions s))) 0 i \<noteq> None"
proof
  let ?n = "length (t_sessions s)"
  assume "track_target c w actor run wanted ctx s (Suc ?n) 0 i = None"
  then have "track_target c w actor run wanted ctx s (Suc ?n) 0
      (session_candidate c wanted ctx i 0) = None"
    by (simp add: session_candidate_def)
  from track_target_taken [OF this]
  have "(\<lambda>g. (w, session_candidate c wanted ctx i g)) ` {..?n} \<subseteq> fst ` set (t_sessions s)"
    by (fastforce simp: bt_get_def map_of_eq_None_iff)
  moreover have "inj_on (\<lambda>g. (w, session_candidate c wanted ctx i g)) {..?n}"
    using assms by (auto simp: inj_on_def)
  ultimately have "card {..?n} \<le> card (fst ` set (t_sessions s))"
    by (metis card_image card_mono finite_imageI finite_set)
  also have "\<dots> \<le> ?n" by (meson card_image_le card_length finite_set le_trans)
  finally show False by simp
qed

text \<open>
  C30: Tracking a session returns. If the identifiers it would try are distinct (they are digests), then
  for a run that exists it ends, after at most one try per session there is and one more, with a
  session of this actor for this run that is not finished and that the store holds.
\<close>

theorem track_session_returns:
  assumes "store_reachable c s" "bt_get (t_experiments s) (w, run) = Some e"
    "bt_get (t_instances s) (w, ex_instance e) \<noteq> None" "has_workspace s w" "has_principal s actor"
    "i = (if wanted = [] then ''session-'' @ slice 7 39 (session_context c w actor run context)
          else wanted)" "is_store_slug i"
    "inj_on (session_candidate c wanted (session_context c w actor run context) i)
       {..length (t_sessions s)}"
  shows "\<exists>x s'. track_session c now context w actor run wanted s = (Inr x, s')
    \<and> se_principal x = actor \<and> se_experiment x = run \<and> se_finished x = None
    \<and> bt_get (t_sessions s') (w, se_id x) = Some x"
proof -
  let ?ctx = "session_context c w actor run context"
  obtain r where r: "track_target c w actor run wanted ?ctx s (Suc (length (t_sessions s))) 0 i
      = Some r" using track_target_returns [OF assms(8)] by blast
  have "\<exists>x s'. track_tx c now w actor e run wanted ?ctx i s = Inr (x, s')"
    using assms(2-5) r
    by (cases r) (auto simp: track_tx_def bt_contains_key_def Let_def simp del: track_target.simps)
  then obtain x s' where "track_session c now context w actor run wanted s = (Inr x, s')"
    using assms(2,6,7)
    by (auto simp: track_session_def bind_op_def read_op_def tx_op_def experiment_unchecked_def Let_def)
  then show ?thesis
    using tracked_session reachable_inv [OF assms(1)] unfolding store_inv_def by metis
qed

theorem track_session_returns_witness:
  "\<exists>x s'. track_session lab 20 ''process'' ''lab'' ''ann'' ''run-1'' [] lab_session = (Inr x, s')"
proof -
  have "inj_on (session_candidate lab [] (session_context lab ''lab'' ''ann'' ''run-1'' ''process'')
      (''session-'' @ slice 7 39 (session_context lab ''lab'' ''ann'' ''run-1'' ''process'')))
      {..length (t_sessions lab_session)}"
  proof -
    have "length (t_sessions lab_session) = 1" by code_simp
    then have "{..length (t_sessions lab_session)} = {0, 1}" by auto
    then show ?thesis by (simp add: inj_on_def) code_simp
  qed
  moreover have "bt_get (t_experiments lab_session) (''lab'', ''run-1'') = Some lab_run_row"
    "bt_get (t_instances lab_session) (''lab'', ex_instance lab_run_row) \<noteq> None"
    "has_workspace lab_session ''lab''" "has_principal lab_session ''ann''"
    "is_store_slug (''session-'' @ slice 7 39
       (session_context lab ''lab'' ''ann'' ''run-1'' ''process''))"
    by code_simp+
  ultimately show ?thesis
    using track_session_returns [OF lab_session_reachable, of "''lab''" "''run-1''" lab_run_row
        "''ann''" _ "[]" "''process''" 20] by fastforce
qed

section \<open>Pages\<close>

text \<open>The sessions past a cursor, and all the pages a reader follows from it.\<close>

definition sessions_past ::
  "string \<Rightarrow> (session \<Rightarrow> bool) \<Rightarrow> (string \<Rightarrow> bool) \<Rightarrow> string \<Rightarrow> store \<Rightarrow>
   ((string \<times> string) \<times> session) list" where
  "sessions_past w p q cursor s =
     filter (\<lambda>((v, i), x). v = w \<and> p x \<and> q i \<and> cursor < i) (t_sessions s)"

fun follow_pages ::
  "int \<Rightarrow> string \<Rightarrow> u32 \<Rightarrow> (session \<Rightarrow> bool) \<Rightarrow> (string \<Rightarrow> bool) \<Rightarrow> store \<Rightarrow> nat \<Rightarrow> string \<Rightarrow>
   session list" where
  "follow_pages now w limit p q s 0 cursor = []"
| "follow_pages now w limit p q s (Suc n) cursor =
     (let page = session_window now w limit p q cursor s
      in sp_sessions page
         @ (case sp_next_cursor page of None \<Rightarrow> [] | Some k \<Rightarrow> follow_pages now w limit p q s n k))"

lemma page_limit_bounds: "1 \<le> page_limit limit" "page_limit limit \<le> 100"
proof -
  have "1 \<le> max 1 (min limit 100)" "max 1 (min limit 100) \<le> (100 :: u32)" by auto
  then show "1 \<le> page_limit limit" "page_limit limit \<le> 100"
    unfolding page_limit_def by (simp_all add: word_le_nat_alt)
qed

lemma filter_after:
  assumes "sorted_wrt (\<lambda>x y. f x < (f y :: 'k :: linorder)) xs" "0 < n" "n \<le> length xs"
  shows "filter (\<lambda>x. f (xs ! (n - 1)) < f x) xs = drop n xs"
proof -
  have lower: "\<not> f (xs ! (n - 1)) < f x" if "x \<in> set (take n xs)" for x
  proof -
    from that obtain j where "j < length (take n xs)" "take n xs ! j = x"
      unfolding in_set_conv_nth by blast
    then have j: "j < n" "x = xs ! j" by auto
    show ?thesis
    proof (cases "j = n - 1")
      case False
      then have "f (xs ! j) < f (xs ! (n - 1))"
        using assms j by (intro sorted_wrt_nth_less [OF assms(1)]) auto
      then show ?thesis using j by simp
    qed (use j in simp)
  qed
  have upper: "f (xs ! (n - 1)) < f x" if "x \<in> set (drop n xs)" for x
  proof -
    from that obtain j where "j < length (drop n xs)" "drop n xs ! j = x"
      unfolding in_set_conv_nth by blast
    then have "j < length xs - n" "x = xs ! (n + j)" using assms(3) by auto
    then show ?thesis using assms(2,3) sorted_wrt_nth_less [OF assms(1), of "n - 1" "n + j"] by simp
  qed
  have "filter (\<lambda>x. f (xs ! (n - 1)) < f x) (take n xs) = []"
    "filter (\<lambda>x. f (xs ! (n - 1)) < f x) (drop n xs) = drop n xs"
    using lower upper by (auto simp: filter_empty_conv filter_id_conv)
  then show ?thesis by (metis append_Nil append_take_drop_id filter_append)
qed

lemma sessions_past_sorted:
  assumes "bt_wf (t_sessions s)"
  shows "sorted_wrt (\<lambda>x y. snd (fst x) < snd (fst y)) (sessions_past w p q cursor s)"
proof -
  have "sorted_wrt (\<lambda>x y. fst x < fst y) (t_sessions s)"
    using assms by (simp add: bt_wf_def sorted_wrt_map)
  then have "sorted_wrt (\<lambda>x y. fst x < fst y) (sessions_past w p q cursor s)"
    by (simp add: sessions_past_def sorted_wrt_filter)
  then show ?thesis
    by (rule sorted_wrt_mono_rel [rotated]) (auto simp: sessions_past_def)
qed

lemma follow_pages_all:
  assumes "bt_wf (t_sessions s)" "length (sessions_past w p q cursor s) < n"
  shows "follow_pages now w limit p q s n cursor = map snd (sessions_past w p q cursor s)"
  using assms(2)
proof (induction n arbitrary: cursor)
  case (Suc n)
  let ?found = "sessions_past w p q cursor s" and ?l = "page_limit limit"
  have page: "session_window now w limit p q cursor s =
     \<lparr>sp_sessions = map snd (take ?l ?found),
      sp_next_cursor = (if ?l < length ?found then Some (snd (fst (?found ! (?l - 1)))) else None),
      sp_observed = now\<rparr>"
    using page_limit_bounds(1) [of limit]
    by (auto simp: session_window_def sessions_past_def Let_def min_def)
  show ?case
  proof (cases "?l < length ?found")
    case False
    then show ?thesis by (simp add: page)
  next
    case True
    let ?k = "snd (fst (?found ! (?l - 1)))"
    have "?found ! (?l - 1) \<in> set ?found" using True by simp
    then have "cursor < ?k" by (auto simp: sessions_past_def)
    then have "sessions_past w p q ?k s = filter (\<lambda>x. ?k < snd (fst x)) ?found"
      by (auto simp: sessions_past_def intro!: filter_cong)
    also have "\<dots> = drop ?l ?found"
      using filter_after [OF sessions_past_sorted [OF assms(1)]] page_limit_bounds(1) [of limit] True
      by simp
    finally have rest: "sessions_past w p q ?k s = drop ?l ?found" .
    then have "follow_pages now w limit p q s n ?k = map snd (drop ?l ?found)"
      using Suc.IH Suc.prems page_limit_bounds(1) [of limit] True by simp
    then show ?thesis using True by (simp add: page flip: map_append)
  qed
qed simp

text \<open>
  Following the pages of the sessions of a cell lists each session past the cursor once, in order,
  whatever limit the reader asks for; a page holds between one and a hundred of them at most.
\<close>

theorem session_pages_complete:
  assumes "store_reachable c s" "length (t_sessions s) < n"
  shows "follow_pages now w limit p q s n cursor = map snd (sessions_past w p q cursor s)
    \<and> length (sp_sessions (session_window now w limit p q cursor s)) \<le> 100"
proof
  have wf: "bt_wf (t_sessions s)"
    using reachable_inv [OF assms(1)] by (simp add: store_inv_def tables_wf_def)
  have "length (sessions_past w p q cursor s) < n"
    using assms(2) by (auto simp: sessions_past_def intro: le_less_trans [OF length_filter_le])
  with wf show "follow_pages now w limit p q s n cursor = map snd (sessions_past w p q cursor s)"
    by (rule follow_pages_all)
  show "length (sp_sessions (session_window now w limit p q cursor s)) \<le> 100"
    using page_limit_bounds(2) [of limit] by (simp add: session_window_def Let_def)
qed

theorem session_pages_complete_witness:
  "follow_pages 9 ''lab'' 1 (\<lambda>_. True) (\<lambda>_. True) lab_session 2 [] = [lab_session_row]"
proof -
  have "length (t_sessions lab_session) = 1"
    "map snd (sessions_past ''lab'' (\<lambda>_. True) (\<lambda>_. True) [] lab_session) = [lab_session_row]"
    by code_simp+
  then show ?thesis using session_pages_complete [OF lab_session_reachable, of 2] by simp
qed

end
