(* ===== verification/Catalog_Contracts.thy ===== *)
theory Catalog_Contracts
  imports Catalog_Model Cell_Native Complex_Main
begin

text \<open>
  What a backend declares about the configuration and the workload of its components, and the
  checks and defaults the registry applies (\<open>proofstorm-core/src/backend.rs\<close>). The contracts of
  the installed backends are data: everything here holds of any registry.

  An error is the code its diagnostic begins with. A configuration number that is not an integer
  is the text of its digits; \<open>fl\<close> is the \<open>f64\<close> it parses to. An integer is compared to a bound
  as it is, which is what its conversion to \<open>f64\<close> gives for bounds up to \<open>2 ^ 53\<close>.
\<close>

section \<open>Contracts\<close>

datatype config_default = LiteralDefault json | ComponentIdDefault

datatype value_kind =
  KindBoolean | KindNumber | KindInteger | KindString | KindStringSet | KindObject

datatype setting_class =
  AgentAuthorable | TopologyDerived | GeneratedInstanceSecret | ImportedSecretReference
  | RuntimePolicy

record field_contract =
  fc_description :: string
  fc_kind :: value_kind
  fc_class :: setting_class
  fc_default :: "config_default option"
  fc_enum :: "json list"
  fc_minimum :: "rat option"
  fc_maximum :: "rat option"
  fc_min_length :: "nat option"
  fc_max_length :: "nat option"
  fc_required :: bool

datatype config_rule =
  MutuallyExclusive "string list"
  | RequiredWhen string json string
  | LessThanOrEqual string string

datatype workload_kind = DeploymentWorkload | StatefulSetWorkload

datatype storage_template = StatefulClaimTemplate string | ComponentClaim string

datatype mount_template_source =
  StatefulTemplate | PersistentTemplate | ConfigTemplate
  | LinkedTemplate link_kind dependency_binding string

datatype mount_requirement = RequiredMount | AtLeastOne string

record mount_template =
  mt_name :: string
  mt_path :: string
  mt_read_only :: bool
  mt_requirement :: mount_requirement
  mt_source :: mount_template_source

datatype protocol_probe = TcpProbe string | HttpGetProbe string string

text \<open>The conditions and admission tables of a contract are only copied and are left out.\<close>

record backend_contract =
  bc_id :: string
  bc_kind :: component_kind
  bc_config_version :: string
  bc_fields :: "(string, field_contract) btree"
  bc_rules :: "config_rule list"
  bc_ports :: "(string, u16) btree"
  bc_state_contract :: string
  bc_mounts :: "mount_template list"
  bc_environment :: "(string, string) btree"
  bc_workload :: workload_kind
  bc_storage :: "storage_template list"
  bc_probe :: "protocol_probe option"

type_synonym registry = "(string, backend_contract) btree"

definition is_agent_authorable :: "setting_class \<Rightarrow> bool" where
  "is_agent_authorable k \<longleftrightarrow> k = AgentAuthorable \<or> k = ImportedSecretReference"

section \<open>Values\<close>

definition is_u64 :: "json \<Rightarrow> nat option" where
  "is_u64 v = (case v of JNumber n \<Rightarrow> if 0 \<le> n \<and> n < 2 ^ 64 then Some (nat n) else None | _ \<Rightarrow> None)"

definition json_f64 :: "(string \<Rightarrow> rat) \<Rightarrow> json \<Rightarrow> rat option" where
  "json_f64 fl v = (case v of JNumber n \<Rightarrow> Some (of_int n) | JFloat s \<Rightarrow> Some (fl s) | _ \<Rightarrow> None)"

definition type_matches :: "value_kind \<Rightarrow> json \<Rightarrow> bool" where
  "type_matches k v \<longleftrightarrow>
     (case k of
        KindBoolean \<Rightarrow> json_bool v \<noteq> None
      | KindNumber \<Rightarrow> (case v of JNumber _ \<Rightarrow> True | JFloat _ \<Rightarrow> True | _ \<Rightarrow> False)
      | KindInteger \<Rightarrow> (case v of JNumber n \<Rightarrow> - (2 ^ 63) \<le> n \<and> n < 2 ^ 64 | _ \<Rightarrow> False)
      | KindString \<Rightarrow> json_str v \<noteq> None
      | KindStringSet \<Rightarrow>
          (case json_array v of None \<Rightarrow> False | Some items \<Rightarrow> list_all (\<lambda>j. json_str j \<noteq> None) items)
      | KindObject \<Rightarrow> json_object v \<noteq> None)"

definition validate_config_value ::
  "(string \<Rightarrow> rat) \<Rightarrow> json \<Rightarrow> field_contract \<Rightarrow> unit coded" where
  "validate_config_value fl v f =
     (if \<not> type_matches (fc_kind f) v then Inl ''config_wrong_type''
      else case json_array v of
        Some items \<Rightarrow>
          if items = [] \<or> length (remdups (List.map_filter json_str items)) \<noteq> length items
          then Inl ''config_string_set_violation''
          else ensure (fc_enum f = [] \<or> list_all (\<lambda>j. j \<in> set (fc_enum f)) items)
                 ''config_enum_violation''
      | None \<Rightarrow>
          if fc_enum f \<noteq> [] \<and> v \<notin> set (fc_enum f) then Inl ''config_enum_violation''
          else if (case json_f64 fl v of
                     None \<Rightarrow> False
                   | Some n \<Rightarrow>
                       (case fc_minimum f of None \<Rightarrow> False | Some b \<Rightarrow> n < b)
                       \<or> (case fc_maximum f of None \<Rightarrow> False | Some b \<Rightarrow> b < n))
          then Inl ''config_numeric_bound_violation''
          else case json_str v of
                 None \<Rightarrow> Inr ()
               | Some text \<Rightarrow>
                   let n = length (utf8_chars text)
                   in ensure (\<not> (case fc_min_length f of None \<Rightarrow> False | Some b \<Rightarrow> n < b)
                             \<and> \<not> (case fc_max_length f of None \<Rightarrow> False | Some b \<Rightarrow> b < n))
                        ''config_string_length_violation'')"

section \<open>Rules\<close>

definition rule_violations :: "config \<Rightarrow> config_rule \<Rightarrow> string list" where
  "rule_violations cfg r =
     (case r of
        MutuallyExclusive names \<Rightarrow>
          (if length (filter (bt_contains_key cfg) names) > 1
           then [''config_mutually_exclusive''] else [])
      | RequiredWhen field equals required \<Rightarrow>
          (if bt_get cfg field = Some equals \<and> \<not> bt_contains_key cfg required
           then [''config_conditional_required_field_missing''] else [])
      | LessThanOrEqual low high \<Rightarrow>
          (case (Option.bind (bt_get cfg low) is_u64, Option.bind (bt_get cfg high) is_u64) of
             (Some m, Some n) \<Rightarrow> if n < m then [''config_order_violation''] else []
           | _ \<Rightarrow> []))"

text \<open>Every violated rule is reported.\<close>

definition validate_config_rules :: "config \<Rightarrow> config_rule list \<Rightarrow> unit coded" where
  "validate_config_rules cfg rules =
     (let violations = concat (map (rule_violations cfg) rules)
      in if violations = [] then Inr () else Inl (join ''; '' violations))"

section \<open>Configurations\<close>

text \<open>\<open>workspace.rs\<close>: a registry reference pinned by digest.\<close>

definition is_runtime_image :: "string \<Rightarrow> bool" where
  "is_runtime_image img \<longleftrightarrow>
     (case split_at_first ''@sha256:'' img of
        None \<Rightarrow> False
      | Some (repository, digest) \<Rightarrow>
          (let host = hd (split_on CHR ''/'' repository)
           in (CHR ''.'' \<in> set host \<or> CHR '':'' \<in> set host \<or> host = ''localhost'')
              \<and> length img \<le> 512
              \<and> CHR ''/'' \<in> set repository
              \<and> \<not> (starts_with repository CHR ''/'' \<or> starts_with repository CHR ''-'')
              \<and> list_all (\<lambda>b. is_ascii_alphanumeric b \<or> b \<in> set ''./:_-'') repository
              \<and> is_hex64 digest))"

definition is_discovery_url :: "string \<Rightarrow> bool" where
  "is_discovery_url url \<longleftrightarrow>
     (string_starts_with url ''http://'' \<or> string_starts_with url ''https://'')
     \<and> string_ends_with url ''/.well-known/openid-configuration''"

text \<open>A text setting of a backend that is set, not empty, and not what \<open>ok\<close> accepts.\<close>

definition refused_text :: "(string \<Rightarrow> bool) \<Rightarrow> config \<Rightarrow> string \<Rightarrow> bool" where
  "refused_text ok cfg name \<longleftrightarrow>
     (case Option.bind (bt_get cfg name) json_str of
        None \<Rightarrow> False | Some text \<Rightarrow> text \<noteq> [] \<and> \<not> ok text)"

definition validate_field ::
  "(string \<Rightarrow> rat) \<Rightarrow> backend_contract \<Rightarrow> string \<times> json \<Rightarrow> unit coded" where
  "validate_field fl b nv =
     (case bt_get (bc_fields b) (fst nv) of
        None \<Rightarrow> Inl ''config_unknown_field''
      | Some f \<Rightarrow>
          if \<not> is_agent_authorable (fc_class f) then Inl ''config_managed_field''
          else validate_config_value fl (snd nv) f)"

definition missing_field :: "config \<Rightarrow> string \<times> field_contract \<Rightarrow> bool" where
  "missing_field cfg nf \<longleftrightarrow>
     is_agent_authorable (fc_class (snd nf)) \<and> fc_required (snd nf)
     \<and> \<not> bt_contains_key cfg (fst nf)"

definition validate_config ::
  "(string \<Rightarrow> rat) \<Rightarrow> backend_contract \<Rightarrow> config \<Rightarrow> bool \<Rightarrow> unit coded" where
  "validate_config fl b cfg effective =
     and_then (each_ok (validate_field fl b) cfg) (\<lambda>_.
     if bc_id b = ''workspace'' \<and> refused_text is_runtime_image cfg ''runtime_image''
     then Inl ''config_image_digest_required''
     else if bc_id b = ''nutshell'' \<and> refused_text is_discovery_url cfg ''oidc_discovery_url''
     then Inl ''config_oidc_discovery_url_invalid''
     else if effective \<and> list_ex (missing_field cfg) (bc_fields b)
     then Inl ''config_required_field_missing''
     else validate_config_rules cfg (bc_rules b))"

section \<open>The registry\<close>

definition require :: "registry \<Rightarrow> string \<Rightarrow> backend_contract coded" where
  "require reg i =
     (case bt_get reg i of None \<Rightarrow> Inl ''backend_registry_missing'' | Some b \<Rightarrow> Inr b)"

definition validate_component_config ::
  "(string \<Rightarrow> rat) \<Rightarrow> registry \<Rightarrow> component_spec \<Rightarrow> unit coded" where
  "validate_component_config fl reg c =
     and_then (require reg (c_implementation c)) (\<lambda>b. validate_config fl b (c_config c) False)"

definition resolve_config_default :: "config_default \<Rightarrow> string \<Rightarrow> json" where
  "resolve_config_default d i =
     (case d of LiteralDefault v \<Rightarrow> v | ComponentIdDefault \<Rightarrow> JString i)"

text \<open>\<open>or_insert_with\<close>: a field the author set is kept.\<close>

definition fill_default :: "string \<Rightarrow> string \<times> field_contract \<Rightarrow> config \<Rightarrow> config" where
  "fill_default i nf cfg =
     (case fc_default (snd nf) of
        None \<Rightarrow> cfg
      | Some d \<Rightarrow>
          if is_agent_authorable (fc_class (snd nf)) \<and> \<not> bt_contains_key cfg (fst nf)
          then bt_insert (fst nf) (resolve_config_default d i) cfg else cfg)"

definition fill_defaults :: "backend_contract \<Rightarrow> component_spec \<Rightarrow> component_spec" where
  "fill_defaults b c = c\<lparr>c_config := fold (fill_default (c_id c)) (bc_fields b) (c_config c)\<rparr>"

definition resolve_effective_component ::
  "(string \<Rightarrow> rat) \<Rightarrow> registry \<Rightarrow> component_spec \<Rightarrow> component_spec coded" where
  "resolve_effective_component fl reg c =
     and_then (require reg (c_implementation c)) (\<lambda>b.
     if bc_kind b \<noteq> c_kind c then Inl ''backend_kind_mismatch''
     else and_then (validate_config fl b (c_config c) False) (\<lambda>_.
          let effective = fill_defaults b c
          in and_then (validate_config fl b (c_config effective) True) (\<lambda>_. Inr effective)))"

section \<open>The contracts of a registry\<close>

definition rule_fields :: "config_rule \<Rightarrow> string list" where
  "rule_fields r =
     (case r of
        MutuallyExclusive names \<Rightarrow> names
      | RequiredWhen field _ required \<Rightarrow> [field, required]
      | LessThanOrEqual low high \<Rightarrow> [low, high])"

definition validate_rule_field :: "backend_contract \<Rightarrow> string \<Rightarrow> unit coded" where
  "validate_rule_field b name =
     (case bt_get (bc_fields b) name of
        None \<Rightarrow> Inl ''backend_config_rule_field_missing''
      | Some f \<Rightarrow>
          ensure (is_agent_authorable (fc_class f)) ''backend_config_rule_managed_field'')"

fun selects :: "link_kind \<Rightarrow> dependency_binding \<Rightarrow> bool" where
  "selects ChainBackend (BindChain _) = True"
| "selects PaymentBackend (BindPayment _ _) = True"
| "selects _ _ = False"

definition validate_mount_source :: "mount_template \<Rightarrow> unit coded" where
  "validate_mount_source m =
     and_then
       (case mt_requirement m of
          RequiredMount \<Rightarrow> Inr ()
        | AtLeastOne g \<Rightarrow>
            if g = [] then Inl ''backend_execution_mount_group_missing''
            else case mt_source m of
                   LinkedTemplate _ _ _ \<Rightarrow> Inr ()
                 | _ \<Rightarrow> Inl ''backend_execution_mount_group_source_invalid'') (\<lambda>_.
       case mt_source m of
         LinkedTemplate k binding target \<Rightarrow>
           if target = [] then Inl ''backend_execution_selector_target_missing''
           else ensure (selects k binding) ''backend_execution_selector_incompatible''
       | _ \<Rightarrow> Inr ())"

fun validate_mounts :: "string list \<Rightarrow> string list \<Rightarrow> mount_template list \<Rightarrow> unit coded" where
  "validate_mounts names paths [] = Inr ()"
| "validate_mounts names paths (m # ms) =
     (if mt_name m \<in> set names \<or> mt_path m \<in> set paths
      then Inl ''backend_execution_mount_collision''
      else and_then (validate_mount_source m) (\<lambda>_.
             validate_mounts (mt_name m # names) (mt_path m # paths) ms))"

definition validate_backend_contract :: "backend_contract \<Rightarrow> unit coded" where
  "validate_backend_contract b =
     (if list_ex (\<lambda>(_, f). \<not> is_agent_authorable (fc_class f) \<and> fc_default f \<noteq> None) (bc_fields b)
      then Inl ''backend_managed_config_default_forbidden''
      else and_then (each_ok (validate_rule_field b) (concat (map rule_fields (bc_rules b)))) (\<lambda>_.
           validate_mounts [] [] (bc_mounts b)))"

fun registry_loop :: "registry \<Rightarrow> backend_contract list \<Rightarrow> registry coded" where
  "registry_loop reg [] = Inr reg"
| "registry_loop reg (b # bs) =
     and_then (validate_backend_contract b) (\<lambda>_.
     if bt_contains_key reg (bc_id b) then Inl ''backend_registry_duplicate''
     else registry_loop (bt_insert (bc_id b) b reg) bs)"

definition registry_of :: "backend_contract list \<Rightarrow> registry coded" where
  "registry_of bs = registry_loop [] bs"

end
