(* ===== verification/Catalog_Release.thy ===== *)
theory Catalog_Release
  imports Catalog_Model
begin

text \<open>
  Rolling support windows (\<open>proofstorm-core/src/release_policy.rs\<close>): which tags of an upstream
  project are releases, the family each belongs to, and the newest release of the newest families.
\<close>

section \<open>Policies\<close>

datatype scheme = MajorScheme | CalendarScheme | PreOneScheme | LndScheme

text \<open>A version, compared by major, minor and patch.\<close>

datatype release_version = ReleaseVersion (rel_major: u32) (rel_minor: u32) (rel_patch: u32)

instantiation release_version :: linorder
begin

definition less_eq_release_version :: "release_version \<Rightarrow> release_version \<Rightarrow> bool" where
  "less_eq_release_version a b \<longleftrightarrow>
     (rel_major a, rel_minor a, rel_patch a) \<le> (rel_major b, rel_minor b, rel_patch b)"

definition less_release_version :: "release_version \<Rightarrow> release_version \<Rightarrow> bool" where
  "less_release_version a b \<longleftrightarrow>
     (rel_major a, rel_minor a, rel_patch a) < (rel_major b, rel_minor b, rel_patch b)"

instance
  by standard
    (auto simp: less_eq_release_version_def less_release_version_def release_version.expand)

end

record release_policy =
  rp_families :: nat
  rp_minimum :: "release_version option"
  rp_scheme :: scheme

definition release_policy_of :: "string \<Rightarrow> release_policy option" where
  "release_policy_of i =
     (if i = ''bitcoin-core''
      then Some \<lparr>rp_families = 3, rp_minimum = None, rp_scheme = MajorScheme\<rparr>
      else if i = ''cln''
      then Some \<lparr>rp_families = 3, rp_minimum = None, rp_scheme = CalendarScheme\<rparr>
      else if i = ''lnd''
      then Some \<lparr>rp_families = 3, rp_minimum = None, rp_scheme = LndScheme\<rparr>
      else if i = ''nutshell'' \<or> i = ''nutshell-wallet''
      then Some \<lparr>rp_families = 2, rp_minimum = None, rp_scheme = PreOneScheme\<rparr>
      else if i = ''cdk'' \<or> i = ''cdk-cli-wallet''
      then Some \<lparr>rp_families = 2, rp_minimum = Some (ReleaseVersion 0 18 0), rp_scheme = PreOneScheme\<rparr>
      else None)"

definition parse_u32 :: "string \<Rightarrow> u32 option" where
  "parse_u32 s = map_option of_nat (parse_unsigned 32 s)"

definition parse_release :: "release_policy \<Rightarrow> string \<Rightarrow> release_version option" where
  "parse_release p tag =
     (let v = the_default tag (strip_prefix ''v'' tag);
          v = (if rp_scheme p = LndScheme then the_default v (strip_suffix ''-beta'' v) else v);
          parts = split_on CHR ''.'' v;
          valid_length =
            (if rp_scheme p = MajorScheme \<or> rp_scheme p = CalendarScheme
             then length parts = 2 \<or> length parts = 3 else length parts = 3)
      in if \<not> valid_length \<or> list_ex (\<lambda>part. part = [] \<or> \<not> list_all is_ascii_digit part) parts
         then None
         else Option.bind (parse_u32 (parts ! 0)) (\<lambda>major.
              Option.bind (parse_u32 (parts ! 1)) (\<lambda>minor.
              Option.bind (if length parts = 3 then parse_u32 (parts ! 2) else Some 0) (\<lambda>patch.
              if rp_scheme p = CalendarScheme \<and> \<not> (1 \<le> minor \<and> minor \<le> 12) then None
              else Some (ReleaseVersion major minor patch)))))"

definition is_eligible :: "release_policy \<Rightarrow> release_version \<Rightarrow> bool" where
  "is_eligible p v \<longleftrightarrow> (case rp_minimum p of None \<Rightarrow> True | Some least \<Rightarrow> least \<le> v)"

definition family :: "release_policy \<Rightarrow> release_version \<Rightarrow> u32 \<times> u32" where
  "family p v =
     (case v of ReleaseVersion major minor patch \<Rightarrow>
        if rp_scheme p = CalendarScheme then (major, minor)
        else if (rp_scheme p = PreOneScheme \<or> rp_scheme p = LndScheme) \<and> major = 0 then (0, minor)
        else (major, 0))"

section \<open>The window\<close>

type_synonym newest = "((u32 \<times> u32), (release_version \<times> string)) btree"

fun collect_families :: "release_policy \<Rightarrow> string list \<Rightarrow> newest \<Rightarrow> newest" where
  "collect_families p [] m = m"
| "collect_families p (tag # tags) m =
     (case parse_release p tag of
        None \<Rightarrow> collect_families p tags m
      | Some v \<Rightarrow>
          if \<not> is_eligible p v then collect_families p tags m
          else (let f = family p v
                in collect_families p tags
                     (case bt_get m f of
                        None \<Rightarrow> bt_insert f (v, tag) m
                      | Some (u, _) \<Rightarrow> if u < v then bt_insert f (v, tag) m else m)))"

definition proposed_window :: "release_policy \<Rightarrow> string list \<Rightarrow> string list" where
  "proposed_window p releases =
     map (\<lambda>(_, _, tag). tag) (take (rp_families p) (rev (collect_families p releases [])))"

section \<open>What the walk over the tags collects\<close>

text \<open>The eligible releases among the tags, with their versions.\<close>

definition eligible_release :: "release_policy \<Rightarrow> string list \<Rightarrow> release_version \<Rightarrow> string \<Rightarrow> bool" where
  "eligible_release p tags v tag \<longleftrightarrow>
     tag \<in> set tags \<and> parse_release p tag = Some v \<and> is_eligible p v"

definition newest_of ::
  "release_policy \<Rightarrow> string list \<Rightarrow> u32 \<times> u32 \<Rightarrow> release_version \<times> string \<Rightarrow> bool" where
  "newest_of p tags f r \<longleftrightarrow>
     eligible_release p tags (fst r) (snd r) \<and> family p (fst r) = f
     \<and> (\<forall>u other. eligible_release p tags u other \<longrightarrow> family p u = f \<longrightarrow> u \<le> fst r)"

definition collected :: "release_policy \<Rightarrow> string list \<Rightarrow> newest \<Rightarrow> bool" where
  "collected p tags m \<longleftrightarrow>
     bt_wf m
     \<and> (\<forall>f. case bt_get m f of
              None \<Rightarrow> \<forall>u other. eligible_release p tags u other \<longrightarrow> family p u \<noteq> f
            | Some r \<Rightarrow> newest_of p tags f r)"

lemma eligible_release_snoc:
  "eligible_release p (tags @ [tag]) v other \<longleftrightarrow>
     eligible_release p tags v other
     \<or> (other = tag \<and> parse_release p tag = Some v \<and> is_eligible p v)"
  by (auto simp: eligible_release_def)

lemma collected_skip:
  assumes "collected p seen m" "\<And>v. parse_release p tag = Some v \<Longrightarrow> \<not> is_eligible p v"
  shows "collected p (seen @ [tag]) m"
proof -
  have same: "eligible_release p (seen @ [tag]) = eligible_release p seen"
    using assms(2) by (intro ext) (auto simp: eligible_release_snoc)
  show ?thesis using assms(1) unfolding collected_def newest_of_def same .
qed

lemma collected_take:
  assumes "collected p seen m" "parse_release p tag = Some v" "is_eligible p v"
    "\<And>r. bt_get m (family p v) = Some r \<Longrightarrow> fst r < v"
  shows "collected p (seen @ [tag]) (bt_insert (family p v) (v, tag) m)"
proof -
  have at: "case bt_get m f of
      None \<Rightarrow> \<forall>u other. eligible_release p seen u other \<longrightarrow> family p u \<noteq> f
    | Some r \<Rightarrow> newest_of p seen f r" for f
    using assms(1) unfolding collected_def by blast
  have "case bt_get (bt_insert (family p v) (v, tag) m) f of
      None \<Rightarrow> \<forall>u other. eligible_release p (seen @ [tag]) u other \<longrightarrow> family p u \<noteq> f
    | Some r \<Rightarrow> newest_of p (seen @ [tag]) f r" for f
  proof (cases "f = family p v")
    case True
    have "u \<le> v" if "eligible_release p seen u other" "family p u = f" for u other
      using at [of f] that assms(4) True
      by (cases "bt_get m f") (auto simp: newest_of_def dest: order.strict_trans1)
    then show ?thesis
      using True assms(1-3)
      by (auto simp: collected_def bt_get_insert newest_of_def eligible_release_snoc)
  next
    case False
    then show ?thesis
      using at [of f] assms(1,2)
      by (auto simp: collected_def bt_get_insert newest_of_def eligible_release_snoc
          split: option.splits)
  qed
  then show ?thesis using assms(1) by (simp add: collected_def bt_insert_wf)
qed

lemma collected_keep:
  assumes "collected p seen m" "parse_release p tag = Some v" "is_eligible p v"
    "bt_get m (family p v) = Some r" "\<not> fst r < v"
  shows "collected p (seen @ [tag]) m"
proof -
  have "case bt_get m f of
      None \<Rightarrow> \<forall>u other. eligible_release p (seen @ [tag]) u other \<longrightarrow> family p u \<noteq> f
    | Some q \<Rightarrow> newest_of p (seen @ [tag]) f q" for f
  proof -
    have "case bt_get m f of
        None \<Rightarrow> \<forall>u other. eligible_release p seen u other \<longrightarrow> family p u \<noteq> f
      | Some q \<Rightarrow> newest_of p seen f q"
      using assms(1) unfolding collected_def by blast
    then show ?thesis
      using assms(2-5)
      by (cases "f = family p v")
        (auto simp: newest_of_def eligible_release_snoc split: option.splits)
  qed
  then show ?thesis using assms(1) by (simp add: collected_def)
qed

lemma collect_families_collected:
  "collected p seen m \<Longrightarrow> collected p (seen @ tags) (collect_families p tags m)"
proof (induction p tags m arbitrary: seen rule: collect_families.induct)
  case (2 p tag tags m)
  show ?case
  proof (cases "parse_release p tag")
    case None
    then show ?thesis using 2(1) [OF None, of "seen @ [tag]"] collected_skip [OF 2(4), of tag] by simp
  next
    case (Some v)
    show ?thesis
    proof (cases "is_eligible p v")
      case False
      then show ?thesis
        using Some 2(2) [OF Some False, of "seen @ [tag]"] collected_skip [OF 2(4), of tag] by simp
    next
      case True
      define m' where "m' = (case bt_get m (family p v) of
          None \<Rightarrow> bt_insert (family p v) (v, tag) m
        | Some (u, _) \<Rightarrow> if u < v then bt_insert (family p v) (v, tag) m else m)"
      have "collected p (seen @ [tag]) m'"
        using collected_take [OF 2(4) Some True] collected_keep [OF 2(4) Some True]
        by (auto simp: m'_def split: option.splits)
      then show ?thesis
        using 2(3) [OF Some _ refl, of "seen @ [tag]"] True Some by (simp add: m'_def Let_def)
    qed
  qed
qed simp

lemma collected_all: "collected p tags (collect_families p tags [])"
  using collect_families_collected [of p "[]" "[]" tags]
  by (simp add: collected_def eligible_release_def)

end
