(* ===== verification/Catalog_Rules.thy ===== *)
theory Catalog_Rules
  imports Catalog_Contracts Catalog_Release "HOL-Library.Option_ord"
begin

text \<open>
  The invariants of a release catalog and the choice of an entry for a component
  (\<open>proofstorm-core/src/catalog.rs\<close>). The entries themselves are data: everything here holds of
  any list of entries.
\<close>

text \<open>
  What the program compiles in: the backend contracts, the floating-point parser, the settings each
  Nutshell release reads, \<open>digest_json\<close>, the derived \<open>Serialize\<close> of lock entries, and the texts
  \<open>validate_cell\<close> measures.
\<close>

record builtin =
  bi_registry :: registry
  bi_float :: "string \<Rightarrow> rat"
  bi_settings :: "string \<Rightarrow> string list option"
  bi_digest :: "json \<Rightarrow> string"
  bi_lock :: "lock_entry list \<Rightarrow> json"
  bi_to_vec :: "config \<Rightarrow> string option"
  bi_print :: "json \<Rightarrow> string"

section \<open>Runtime endpoints\<close>

fun endpoint_loop :: "string list \<Rightarrow> runtime_endpoint list \<Rightarrow> string list coded" where
  "endpoint_loop ids [] = Inr ids"
| "endpoint_loop ids (e # es) =
     (if is_blank (ep_id e) \<or> is_blank (ep_kind e) then Inl ''catalog_runtime_endpoint_invalid''
      else if ep_id e \<in> set ids then Inl ''catalog_runtime_endpoint_duplicate''
      else if \<exists>k \<in> ep_controls e. is_blank k then Inl ''catalog_runtime_control_invalid''
      else endpoint_loop (ep_id e # ids) es)"

definition validate_runtime_endpoints :: "catalog_entry \<Rightarrow> unit coded" where
  "validate_runtime_endpoints e =
     and_then (endpoint_loop [] (ce_endpoints e)) (\<lambda>ids.
       ensure (list_all (\<lambda>b. eb_backend b \<in> set ids) (sm_embedded (ce_matrix e)))
         ''catalog_embedded_runtime_endpoint_missing'')"

section \<open>Payment bindings\<close>

definition validate_embedded_binding ::
  "catalog_entry \<Rightarrow> embedded_binding_support \<Rightarrow> unit coded" where
  "validate_embedded_binding e b =
     (if is_blank (eb_backend b) then Inl ''catalog_embedded_payment_binding_backend_empty''
      else ensure (\<not> list_ex (\<lambda>x. pb_method x = eb_method b \<and> pb_unit x = eb_unit b
                       \<and> vs_implementation (pb_backend x) = eb_backend b)
                   (sm_bindings (ce_matrix e))) ''catalog_payment_binding_ambiguous'')"

definition validate_embedded_payment_bindings :: "catalog_entry \<Rightarrow> unit coded" where
  "validate_embedded_payment_bindings e =
     (if sm_embedded (ce_matrix e) \<noteq> [] \<and> ce_kind e \<noteq> Mint
      then Inl ''catalog_embedded_payment_binding_kind''
      else each_ok (validate_embedded_binding e) (sm_embedded (ce_matrix e)))"

definition exact_projection :: "support_matrix \<Rightarrow> bool" where
  "exact_projection m \<longleftrightarrow>
     pb_method ` set (sm_bindings m) \<union> eb_method ` set (sm_embedded m) = sm_methods m
     \<and> pb_unit ` set (sm_bindings m) \<union> eb_unit ` set (sm_embedded m) = sm_units m
     \<and> (\<lambda>b. vs_implementation (pb_backend b)) ` set (sm_bindings m) \<union> eb_backend ` set (sm_embedded m)
         = sm_backends m"

definition payment_dependency :: "catalog_entry \<Rightarrow> string \<Rightarrow> dependency_support option" where
  "payment_dependency e i =
     find (\<lambda>d. ds_kind d = PaymentBackend \<and> ds_implementation d = i) (ce_dependencies e)"

definition entry_at :: "catalog_entry list \<Rightarrow> string \<Rightarrow> string \<Rightarrow> catalog_entry option" where
  "entry_at entries i v = find (\<lambda>e. ce_id e = i \<and> ce_version e = v) entries"

definition tuple_served :: "catalog_entry list \<Rightarrow> payment_binding_support \<Rightarrow> string \<Rightarrow> bool" where
  "tuple_served entries b v \<longleftrightarrow>
     (case entry_at entries (vs_implementation (pb_backend b)) v of
        None \<Rightarrow> False
      | Some target \<Rightarrow>
          pb_method b \<in> sm_methods (ce_matrix target) \<and> pb_unit b \<in> sm_units (ce_matrix target))"

definition validate_payment_binding ::
  "catalog_entry list \<Rightarrow> catalog_entry \<Rightarrow> payment_binding_support \<Rightarrow> unit coded" where
  "validate_payment_binding entries e b =
     (let versions = vs_versions (pb_backend b)
      in if versions = [] then Inl ''catalog_payment_binding_versions_empty''
         else if \<not> (case payment_dependency e (vs_implementation (pb_backend b)) of
                      None \<Rightarrow> False | Some d \<Rightarrow> set versions \<subseteq> ds_versions d)
         then Inl ''catalog_payment_binding_dependency_mismatch''
         else ensure (list_all (tuple_served entries b) versions)
                ''catalog_payment_binding_target_unsupported'')"

definition validate_payment_bindings :: "catalog_entry list \<Rightarrow> catalog_entry \<Rightarrow> unit coded" where
  "validate_payment_bindings entries e =
     and_then (validate_embedded_payment_bindings e) (\<lambda>_.
     if ce_kind e = Mint \<and> \<not> exact_projection (ce_matrix e)
     then Inl ''catalog_payment_binding_projection_mismatch''
     else each_ok (validate_payment_binding entries e) (sm_bindings (ce_matrix e)))"

section \<open>The support matrix\<close>

fun storage_feature :: "storage_backend \<Rightarrow> catalog_feature option" where
  "storage_feature PersistentVolume = Some PersistentState"
| "storage_feature Sqlite = Some FeatureSqlite"
| "storage_feature Postgres = Some FeaturePostgres"
| "storage_feature Ephemeral = None"

fun authentication_feature :: "authentication_mode \<Rightarrow> catalog_feature option" where
  "authentication_feature Unauthenticated = None"
| "authentication_feature Nut21Clear = Some ClearAuth"
| "authentication_feature Nut22Blind = Some BlindAuth"

definition has_feature :: "catalog_entry \<Rightarrow> catalog_feature option \<Rightarrow> bool" where
  "has_feature e f \<longleftrightarrow> (case f of None \<Rightarrow> True | Some x \<Rightarrow> x \<in> ce_features e)"

definition validate_wallet ::
  "catalog_entry list \<Rightarrow> catalog_entry \<Rightarrow> string \<Rightarrow> string \<Rightarrow> unit coded" where
  "validate_wallet entries e i v =
     (case find (\<lambda>w. ce_id w = i \<and> ce_version w = v \<and> ce_kind w = Wallet) entries of
        None \<Rightarrow> Inl ''catalog_wallet_adapter_version_missing''
      | Some w \<Rightarrow>
          ensure (sm_methods (ce_matrix e) \<inter> sm_methods (ce_matrix w) \<noteq> {}
                 \<and> sm_units (ce_matrix e) \<inter> sm_units (ce_matrix w) \<noteq> {})
            ''catalog_wallet_payment_incompatible'')"

definition validate_wallet_support :: "catalog_entry list \<Rightarrow> catalog_entry \<Rightarrow> unit coded" where
  "validate_wallet_support entries e =
     each_ok (\<lambda>w. each_ok (validate_wallet entries e (vs_implementation w)) (vs_versions w))
       (sm_wallets (ce_matrix e))"

definition validate_support_matrix :: "catalog_entry list \<Rightarrow> catalog_entry \<Rightarrow> unit coded" where
  "validate_support_matrix entries e =
     (let m = ce_matrix e
      in and_then (validate_runtime_endpoints e) (\<lambda>_.
         and_then (ensure ((\<forall>s \<in> sm_storage m. has_feature e (storage_feature s))
                \<and> (\<forall>p \<in> sm_methods m. has_feature e (for_payment_method p))
                \<and> (\<forall>a \<in> sm_authentication m. has_feature e (authentication_feature a)))
              ''catalog_support_feature_missing'') (\<lambda>_.
         and_then (ensure (list_all (\<lambda>d. \<forall>v \<in> ds_versions d.
                entry_at entries (ds_implementation d) v \<noteq> None) (ce_dependencies e))
              ''catalog_dependency_version_missing'') (\<lambda>_.
         and_then (validate_payment_bindings entries e) (\<lambda>_.
         and_then (ensure (\<forall>backend \<in> sm_backends m.
                backend \<in> eb_backend ` set (sm_embedded m) \<or> payment_dependency e backend \<noteq> None)
              ''catalog_payment_backend_dependency_missing'') (\<lambda>_.
         validate_wallet_support entries e))))))"

section \<open>Releases of one implementation\<close>

fun family_loop ::
  "release_policy \<Rightarrow> (u32 \<times> u32) list \<Rightarrow> catalog_entry list \<Rightarrow> unit coded" where
  "family_loop p seen [] = Inr ()"
| "family_loop p seen (e # es) =
     (case parse_release p (ce_version e) of
        None \<Rightarrow> Inl ''catalog_release_ineligible''
      | Some v \<Rightarrow>
          if \<not> is_eligible p v then Inl ''catalog_release_ineligible''
          else if family p v \<in> set seen then Inl ''catalog_release_family_duplicate''
          else if Suc (length seen) > rp_families p then Inl ''catalog_support_window_exceeded''
          else family_loop p (family p v # seen) es)"

text \<open>\<open>min_by\<close>: the first of the least elements.\<close>

fun least_by :: "('a \<Rightarrow> 'b::linorder) \<Rightarrow> 'a list \<Rightarrow> 'a option" where
  "least_by f [] = None"
| "least_by f (x # xs) =
     (case least_by f xs of None \<Rightarrow> Some x | Some y \<Rightarrow> if f x \<le> f y then Some x else Some y)"

definition implementation_row ::
  "string \<Rightarrow> catalog_entry list \<Rightarrow> implementation_support coded" where
  "implementation_row i entries =
     (let preferred = filter (\<lambda>e. ce_lifecycle e = Preferred) entries;
          supported = filter (\<lambda>e. is_supported (ce_lifecycle e)) entries;
          policy = release_policy_of i
      in if length preferred > 1 \<or> (preferred = [] \<and> supported \<noteq> [])
         then Inl ''catalog_preferred_version_ambiguous''
         else and_then (case policy of None \<Rightarrow> Inr () | Some p \<Rightarrow> family_loop p [] supported) (\<lambda>_.
           let least = (case policy of
                          None \<Rightarrow> least_by ce_version supported
                        | Some p \<Rightarrow> least_by (\<lambda>e. parse_release p (ce_version e)) supported)
           in Inr \<lparr>im_implementation = i, im_minimum = map_option ce_version least,
                   im_preferred = (case preferred of [] \<Rightarrow> None | e # _ \<Rightarrow> Some (ce_version e)),
                   im_supported = ce_version ` set supported\<rparr>))"

section \<open>The whole catalog\<close>

fun identity_loop ::
  "(json \<Rightarrow> string) \<Rightarrow> (string \<times> string) list \<Rightarrow> catalog_entry list \<Rightarrow> unit coded" where
  "identity_loop digest seen [] = Inr ()"
| "identity_loop digest seen (e # es) =
     (if (ce_id e, ce_version e) \<in> set seen then Inl ''catalog_version_duplicate''
      else if \<not> is_sha256_image (ce_image e) then Inl ''catalog_image_not_immutable''
      else if digest (ce_schema e) \<noteq> ce_schema_digest e
      then Inl ''catalog_config_schema_digest_mismatch''
      else identity_loop digest ((ce_id e, ce_version e) # seen) es)"

text \<open>The map \<open>grouped\<close>: each implementation, in order, with its entries as they are listed.\<close>

definition grouped :: "catalog_entry list \<Rightarrow> (string \<times> catalog_entry list) list" where
  "grouped entries =
     map (\<lambda>i. (i, filter (\<lambda>e. ce_id e = i) entries)) (sort (remdups (map ce_id entries)))"

definition implementation_support_of ::
  "(json \<Rightarrow> string) \<Rightarrow> catalog_entry list \<Rightarrow> implementation_support list coded" where
  "implementation_support_of digest entries =
     and_then (identity_loop digest [] entries) (\<lambda>_.
     and_then (each_ok (validate_support_matrix entries) entries) (\<lambda>_.
     collect_ok (\<lambda>(i, es). implementation_row i es) (grouped entries)))"

definition catalog_of :: "(json \<Rightarrow> string) \<Rightarrow> catalog_entry list \<Rightarrow> catalog coded" where
  "catalog_of digest entries =
     and_then (implementation_support_of digest entries) (\<lambda>rows.
       Inr \<lparr>ct_api = API_VERSION, ct_implementations = rows, ct_entries = entries\<rparr>)"

section \<open>The entry of a component\<close>

definition select_entry :: "component_spec \<Rightarrow> catalog \<Rightarrow> catalog_entry coded" where
  "select_entry c ct =
     (let candidates = filter (\<lambda>e. ce_id e = c_implementation c) (ct_entries ct)
      in if candidates = [] then Inl ''catalog entry is not installed''
         else case c_version c of
           Some requested \<Rightarrow>
             (case find (\<lambda>e. ce_version e = requested) candidates of
                None \<Rightarrow> Inl ''component requests a version that is not installed''
              | Some e \<Rightarrow> Inr e)
         | None \<Rightarrow>
             (case filter (\<lambda>e. ce_lifecycle e = Preferred) candidates of
                [e] \<Rightarrow> Inr e
              | _ \<Rightarrow> Inl ''catalog implementation has no single preferred version''))"

definition validate_release_names :: "builtin \<Rightarrow> component_spec \<Rightarrow> catalog_entry \<Rightarrow> unit coded" where
  "validate_release_names bi c e =
     ensure (unknown_release_names (bi_settings bi) c (ce_version e) (ce_source e \<noteq> None) = [])
       ''native_config_override_unknown''"

definition validate_catalog_component ::
  "builtin \<Rightarrow> component_spec \<Rightarrow> catalog \<Rightarrow> catalog_entry coded" where
  "validate_catalog_component bi c ct =
     and_then (select_entry c ct) (\<lambda>e.
     if c_kind c \<noteq> ce_kind e then Inl ''component kind does not match catalog kind''
     else if c_control c \<notin> set (ce_control e)
     then Inl ''component control class is not allowed''
     else if c_config_version c \<noteq> ce_config_version e
     then Inl ''component configuration version does not match''
     else and_then (validate_component_config (bi_float bi) (bi_registry bi) c) (\<lambda>_.
          and_then (validate_release_names bi c e) (\<lambda>_. Inr e)))"

definition validate_new_cell_versions :: "builtin \<Rightarrow> cell_spec \<Rightarrow> catalog \<Rightarrow> unit coded" where
  "validate_new_cell_versions bi cell ct =
     each_ok (\<lambda>c. and_then (validate_catalog_component bi c ct) (\<lambda>e.
         ensure (ce_lifecycle e \<noteq> Deprecated) ''catalog_version_retired'')) (components cell)"

end
