(* ===== verification/Candidate_Builds.thy ===== *)
theory Candidate_Builds
  imports Catalog_Rules Cell_Processors
begin

text \<open>
  Candidate builds (\<open>proofstorm-core/src/candidate.rs\<close>): the sources a build may be requested from,
  the evidence a build carries, and the entries successful builds add to the catalog.
\<close>

section \<open>Sources\<close>

definition is_github_repository :: "string \<Rightarrow> bool" where
  "is_github_repository name \<longleftrightarrow>
     (case split_at_first ''/'' name of
        None \<Rightarrow> False
      | Some (owner, repository) \<Rightarrow>
          list_all (\<lambda>(part, longest).
             1 \<le> length part \<and> length part \<le> longest \<and> part \<noteq> ''.'' \<and> part \<noteq> ''..''
             \<and> list_all (\<lambda>b. is_ascii_alphanumeric b \<or> b \<in> set ''._-'') part)
           [(owner, 39 :: nat), (repository, 100)])"

definition CANDIDATE_BUNDLE_MAX_BYTES :: nat where
  "CANDIDATE_BUNDLE_MAX_BYTES = 700 * 1024"

definition CANDIDATE_BUNDLE_MAX_PREREQUISITES :: nat where
  "CANDIDATE_BUNDLE_MAX_PREREQUISITES = 64"

definition github_prefix :: "string \<Rightarrow> string" where
  "github_prefix repository = ''https://github.com/'' @ repository @ ''/''"

definition pull_number :: "string \<Rightarrow> string \<Rightarrow> nat option" where
  "pull_number repository url =
     (case strip_prefix (github_prefix repository @ ''pull/'') (trim_end_matches CHR ''/'' url) of
        None \<Rightarrow> None
      | Some text \<Rightarrow>
          (case parse_unsigned 64 text of
             None \<Rightarrow> None | Some n \<Rightarrow> if n > 0 then Some n else None))"

definition commit_source ::
  "string option \<Rightarrow> string option \<Rightarrow> string option \<Rightarrow> (string \<times> string option) coded" where
  "commit_source sha url source =
     (case (sha, url, source) of
        (Some s, None, _) \<Rightarrow> Inr (s, source)
      | (None, Some u, None) \<Rightarrow>
          (case Option.bind (strip_prefix ''https://github.com/'' u) (split_at_last ''/commit/'') of
             None \<Rightarrow> Inl ''candidate_commit_url_invalid''
           | Some (repository, s) \<Rightarrow> Inr (s, Some repository))
      | _ \<Rightarrow> Inl ''candidate_source_invalid'')"

definition fork_of :: "string \<Rightarrow> string option \<Rightarrow> string option coded" where
  "fork_of repository source =
     (case source of
        None \<Rightarrow> Inr None
      | Some s \<Rightarrow>
          if \<not> is_github_repository s then Inl ''candidate_repository_invalid''
          else if eq_ignore_ascii_case s repository then Inr None
          else Inr (Some (to_ascii_lowercase s)))"

definition tag_ok :: "string \<Rightarrow> bool" where
  "tag_ok tag \<longleftrightarrow>
     tag \<noteq> [] \<and> length tag \<le> 256 \<and> \<not> starts_with tag CHR ''-'' \<and> \<not> contains_text ''..'' tag
     \<and> \<not> list_ex (\<lambda>ch. is_control ch \<or> is_whitespace ch) (utf8_chars tag)"

text \<open>\<open>collect\<close> into an optional \<open>BTreeSet\<close>: none when one of them is.\<close>

fun collect_some :: "'a option list \<Rightarrow> 'a list option" where
  "collect_some [] = Some []"
| "collect_some (None # _) = None"
| "collect_some (Some x # xs) = map_option (Cons x) (collect_some xs)"

definition prerequisite_set :: "string list \<Rightarrow> string list option" where
  "prerequisite_set shas =
     (case collect_some (map full_sha shas) of
        None \<Rightarrow> None
      | Some xs \<Rightarrow>
          let distinct = sort (remdups xs)
          in if length distinct \<le> CANDIDATE_BUNDLE_MAX_PREREQUISITES then Some distinct else None)"

fun normalized :: "string \<Rightarrow> candidate_input \<Rightarrow> candidate_input coded" where
  "normalized repository (PullRequestInput url) =
     (case pull_number repository url of
        None \<Rightarrow> Inl ''candidate_pr_url_invalid''
      | Some n \<Rightarrow> Inr (PullRequestInput (github_prefix repository @ ''pull/'' @ decimal n)))"
| "normalized repository (CommitInput sha url source) =
     and_then (commit_source sha url source) (\<lambda>(text, source).
     case full_sha text of
       None \<Rightarrow> Inl ''candidate_sha_invalid''
     | Some commit \<Rightarrow>
         and_then (fork_of repository source) (\<lambda>fork. Inr (CommitInput (Some commit) None fork)))"
| "normalized repository (TagInput tag) =
     (if tag_ok tag then Inr (TagInput tag) else Inl ''candidate_tag_invalid'')"
| "normalized repository (BundleInput path commit sha256 prerequisites) =
     (case (path, sha256) of
        (None, Some digest) \<Rightarrow>
          (case full_sha commit of
             None \<Rightarrow> Inl ''candidate_sha_invalid''
           | Some head \<Rightarrow>
               if \<not> is_hex64 digest then Inl ''candidate_bundle_invalid''
               else case prerequisite_set prerequisites of
                      None \<Rightarrow> Inl ''candidate_bundle_invalid''
                    | Some bases \<Rightarrow> Inr (BundleInput None head (Some (to_ascii_lowercase digest)) bases))
      | _ \<Rightarrow> Inl ''candidate_bundle_unread'')"

definition label :: "candidate_input \<Rightarrow> string" where
  "label i =
     (case i of
        PullRequestInput url \<Rightarrow> url
      | CommitInput sha url repository \<Rightarrow>
          (let commit = (case sha of Some s \<Rightarrow> s | None \<Rightarrow> the_default [] url)
           in case repository of None \<Rightarrow> commit | Some fork \<Rightarrow> fork @ ''@'' @ commit)
      | TagInput tag \<Rightarrow> tag
      | BundleInput _ commit sha256 _ \<Rightarrow>
          ''bundle:'' @ (case sha256 of None \<Rightarrow> [] | Some s \<Rightarrow> take 12 s) @ ''@'' @ commit)"

section \<open>Bundles\<close>

text \<open>The bytes of well-formed UTF-8.\<close>

definition continuation :: "nat \<Rightarrow> bool" where
  "continuation b \<longleftrightarrow> 128 \<le> b \<and> b < 192"

fun utf8 :: "nat list \<Rightarrow> bool" where
  "utf8 [] = True"
| "utf8 (a # bs) =
     (if a < 128 then utf8 bs
      else if 194 \<le> a \<and> a < 224
      then (case bs of b # cs \<Rightarrow> continuation b \<and> utf8 cs | _ \<Rightarrow> False)
      else if 224 \<le> a \<and> a < 240
      then (case bs of
              b # c # cs \<Rightarrow> continuation b \<and> continuation c \<and> (a = 224 \<longrightarrow> 160 \<le> b)
                \<and> (a = 237 \<longrightarrow> b < 160) \<and> utf8 cs
            | _ \<Rightarrow> False)
      else if 240 \<le> a \<and> a < 245
      then (case bs of
              b # c # d # cs \<Rightarrow> continuation b \<and> continuation c \<and> continuation d
                \<and> (a = 240 \<longrightarrow> 144 \<le> b) \<and> (a = 244 \<longrightarrow> b < 144) \<and> utf8 cs
            | _ \<Rightarrow> False)
      else False)"

text \<open>The first blank line among the first \<open>n\<close> positions.\<close>

fun header_end :: "nat \<Rightarrow> string \<Rightarrow> nat option" where
  "header_end 0 _ = None"
| "header_end (Suc n) (a # b # cs) =
     (if byte a = 10 \<and> byte b = 10 then Some 0 else map_option Suc (header_end n (b # cs)))"
| "header_end (Suc n) _ = None"

definition bundle_prerequisite :: "string \<Rightarrow> string option" where
  "bundle_prerequisite rest = full_sha (hd (split_on CHR '' '' rest))"

definition bundle_head :: "string \<Rightarrow> string option" where
  "bundle_head line =
     (case split_at_first '' '' line of
        None \<Rightarrow> None | Some (sha, name) \<Rightarrow> if name = [] then None else full_sha sha)"

fun bundle_lines ::
  "nat \<Rightarrow> string list \<Rightarrow> string list \<Rightarrow> string list \<Rightarrow> (string list \<times> string list) coded" where
  "bundle_lines version bases heads [] = Inr (bases, heads)"
| "bundle_lines version bases heads (line # lines) =
     (if starts_with line CHR ''@''
      then (if version \<noteq> 3 \<or> tl line \<noteq> ''object-format=sha1'' then Inl ''candidate_bundle_invalid''
            else bundle_lines version bases heads lines)
      else if starts_with line CHR ''-''
      then (case bundle_prerequisite (tl line) of
              None \<Rightarrow> Inl ''candidate_bundle_invalid''
            | Some sha \<Rightarrow> bundle_lines version (sha # bases) heads lines)
      else (case bundle_head line of
              None \<Rightarrow> Inl ''candidate_bundle_invalid''
            | Some sha \<Rightarrow> bundle_lines version bases (sha # heads) lines))"

definition bundle_version :: "string \<Rightarrow> nat option" where
  "bundle_version line =
     (if line = ''# v2 git bundle'' then Some 2
      else if line = ''# v3 git bundle'' then Some 3 else None)"

definition from_bundle ::
  "(string \<Rightarrow> string) \<Rightarrow> string \<Rightarrow> string \<Rightarrow> candidate_input coded" where
  "from_bundle sha256 bytes commit =
     (if length bytes > CANDIDATE_BUNDLE_MAX_BYTES then Inl ''candidate_bundle_too_large''
      else case header_end (64 * 1024) bytes of
             None \<Rightarrow> Inl ''candidate_bundle_invalid''
           | Some n \<Rightarrow>
      if \<not> string_starts_with (drop (n + 2) bytes) ''PACK'' then Inl ''candidate_bundle_invalid''
      else if \<not> utf8 (map byte (take n bytes)) then Inl ''candidate_bundle_invalid''
      else case text_lines (take n bytes) of
             [] \<Rightarrow> Inl ''candidate_bundle_invalid''
           | first # lines \<Rightarrow>
      (case bundle_version first of
         None \<Rightarrow> Inl ''candidate_bundle_invalid''
       | Some version \<Rightarrow>
           and_then (bundle_lines version [] [] lines) (\<lambda>(bases, heads).
           case full_sha commit of
             None \<Rightarrow> Inl ''candidate_sha_invalid''
           | Some head \<Rightarrow>
               if head \<notin> set heads then Inl ''candidate_bundle_invalid''
               else normalized [] (BundleInput None head (Some (sha256 bytes)) (sort (remdups bases))))))"

section \<open>Evidence\<close>

text \<open>
  The JSON texts and digests candidates carry, the recipes compiled in, and the prose of the
  limitation a Nutshell candidate is listed with.
\<close>

record recipes =
  rx_digest :: "json \<Rightarrow> string"
  rx_profile :: "build_profile \<Rightarrow> json"
  rx_provenance :: "provenance \<Rightarrow> json"
  rx_matrix :: "support_matrix \<Rightarrow> json"
  rx_dependencies :: "dependency_support list \<Rightarrow> json"
  rx_entry :: "catalog_entry \<Rightarrow> json"
  rx_input :: "candidate_input \<Rightarrow> json"
  rx_build_profile :: "string \<Rightarrow> build_profile option"
  rx_limitation :: string

definition CANDIDATE_BUILD_API_VERSION :: string where
  "CANDIDATE_BUILD_API_VERSION = ''proofstorm/candidate-build/v1alpha1''"

definition CANDIDATE_BUILD_MAX_CPU_MILLICORES :: u32 where
  "CANDIDATE_BUILD_MAX_CPU_MILLICORES = 4000"

definition CANDIDATE_BUILD_MAX_DEADLINE_SECONDS :: u32 where
  "CANDIDATE_BUILD_MAX_DEADLINE_SECONDS = 3600"

definition CDK_MINT_IMPLEMENTATIONS :: "string list" where
  "CDK_MINT_IMPLEMENTATIONS = [''cdk'']"

definition profile_digest :: "recipes \<Rightarrow> build_profile \<Rightarrow> string" where
  "profile_digest rx p = rx_digest rx (rx_profile rx p)"

definition validate_provenance :: "recipes \<Rightarrow> provenance \<Rightarrow> unit coded" where
  "validate_provenance rx p =
     (let f = pv_profile p; shared = bf_implementations f
      in ensure
           (\<not> (pv_schema p \<noteq> 1
               \<or> (shared \<noteq> []
                  \<and> (bf_id f \<noteq> ''cdk-mint-source'' \<or> bf_version f < 5
                     \<or> shared \<noteq> CDK_MINT_IMPLEMENTATIONS))
               \<or> bf_version f = 0
               \<or> pv_profile_digest p \<noteq> profile_digest rx f
               \<or> \<not> (pv_platform p = ''linux/amd64'' \<or> pv_platform p = ''linux/arm64'')
               \<or> pv_platform p \<notin> bf_platforms f
               \<or> \<not> (1 \<le> bf_cpu f \<and> bf_cpu f \<le> CANDIDATE_BUILD_MAX_CPU_MILLICORES)
               \<or> \<not> (1 \<le> bf_memory f \<and> bf_memory f \<le> 4096)
               \<or> \<not> (1 \<le> bf_deadline f \<and> bf_deadline f \<le> CANDIDATE_BUILD_MAX_DEADLINE_SECONDS)
               \<or> \<not> is_sha256_image (pv_source_image p)
               \<or> \<not> is_sha256_image (pv_builder_image p)))
           ''candidate_provenance_invalid'')"

section \<open>Entries of candidates\<close>

definition catalog_implementations :: "candidate_build \<Rightarrow> string list" where
  "catalog_implementations c =
     (case cb_provenance c of
        None \<Rightarrow> [cb_implementation c]
      | Some p \<Rightarrow>
          if bf_implementations (pv_profile p) = [] then [cb_implementation c]
          else bf_implementations (pv_profile p))"

definition build_source :: "candidate_build \<Rightarrow> candidate_source option" where
  "build_source c =
     Option.bind (cb_repository c) (\<lambda>repository.
     Option.bind (cb_commit c) (\<lambda>commit.
       Some \<lparr>cs_candidate = cb_id c, cs_pull_request = cb_pull_request c,
             cs_repository = repository, cs_commit = commit, cs_provenance = cb_provenance c\<rparr>))"

text \<open>The order of a set of payment bindings, and a set built from a list.\<close>

definition payment_key ::
  "payment_binding_support \<Rightarrow> (nat \<times> string) \<times> string \<times> string \<times> string list" where
  "payment_key b =
     (method_key (pb_method b), pb_unit b, vs_implementation (pb_backend b),
      vs_versions (pb_backend b))"

definition binding_set :: "payment_binding_support list \<Rightarrow> payment_binding_support list" where
  "binding_set bs = sort_key payment_key (remdups bs)"

definition processor_version :: "processor_profile \<Rightarrow> string" where
  "processor_version p =
     (case p of
        LdkServer \<Rightarrow> ''0.1.0-fe468ca'' | Bark \<Rightarrow> ''0.1.0-fe468ca'' | Spark \<Rightarrow> ''0.1.0-d7244e2'')"

definition processor_bindings ::
  "processor_profile \<Rightarrow> string \<Rightarrow> payment_binding_support list" where
  "processor_bindings p client =
     [\<lparr>pb_method = m, pb_unit = u,
       pb_backend = \<lparr>vs_implementation = profile_implementation p,
                     vs_versions = [processor_version p]\<rparr>\<rparr>.
        m \<leftarrow> filter (\<lambda>m. m \<in> supported_methods p) [Bolt11, Bolt12, Onchain, Custom BARK_ARKOOR],
        u \<leftarrow> filter (\<lambda>u. u \<in> binding_units p client) [''msat'', ''sat'']]"

definition bind_processor :: "recipes \<Rightarrow> processor_profile \<Rightarrow> catalog_entry \<Rightarrow> catalog_entry" where
  "bind_processor rx p e =
     (let m = ce_matrix e; new = processor_bindings p (ce_id e);
          matrix = m\<lparr>sm_backends := insert (profile_implementation p) (sm_backends m),
                     sm_methods := sm_methods m \<union> supported_methods p,
                     sm_units := sm_units m \<union> binding_units p (ce_id e),
                     sm_bindings := binding_set (sm_bindings m @ new)\<rparr>;
          dependencies = ce_dependencies e @
            [\<lparr>ds_kind = PaymentBackend, ds_implementation = profile_implementation p,
              ds_versions = {processor_version p}\<rparr>]
      in e\<lparr>ce_matrix := matrix, ce_dependencies := dependencies,
           ce_features := ce_features e \<union> Option.these (for_payment_method ` supported_methods p),
           ce_source_digest := rx_digest rx (JArray [JString (ce_source_digest e),
             rx_matrix rx matrix, rx_dependencies rx dependencies])\<rparr>)"

text \<open>\<open>runtime_endpoints[0]\<close>: an entry without endpoints panics.\<close>

definition bind_processors :: "recipes \<Rightarrow> catalog_entry \<Rightarrow> catalog_entry coded" where
  "bind_processors rx e =
     (if ce_id e \<noteq> ''nutshell'' then Inr e
      else let bound = bind_processor rx Bark (bind_processor rx LdkServer e)
           in case ce_endpoints bound of
                [] \<Rightarrow> Inl ''panicked''
              | p # ps \<Rightarrow> Inr (bound\<lparr>ce_endpoints :=
                   p\<lparr>ep_limitations := ep_limitations p @ [rx_limitation rx]\<rparr> # ps\<rparr>))"

definition packaged_features :: "candidate_build \<Rightarrow> catalog_feature set \<Rightarrow> catalog_feature set" where
  "packaged_features c fs = fs - ({MintManagementRpc, NativeCliEntrypoints} - cb_features c)"

definition candidate_description :: "catalog_entry \<Rightarrow> candidate_source \<Rightarrow> string" where
  "candidate_description base s =
     ce_description base @ '' candidate from '' @
       (case cs_provenance s of None \<Rightarrow> cs_pull_request s | Some p \<Rightarrow> label (pv_source p))"

definition candidate_source_digest ::
  "recipes \<Rightarrow> catalog_entry \<Rightarrow> candidate_source \<Rightarrow> string \<Rightarrow> string" where
  "candidate_source_digest rx base s img =
     (let plain = rx_digest rx (JArray (map JString [ce_source_digest base, cs_candidate s,
            cs_pull_request s, cs_repository s, cs_commit s, img]))
      in case cs_provenance s of
           None \<Rightarrow> plain
         | Some p \<Rightarrow> rx_digest rx (JArray [JString plain, rx_provenance rx p]))"

definition candidate_catalog_entry ::
  "recipes \<Rightarrow> catalog_entry \<Rightarrow> candidate_build \<Rightarrow> catalog_entry coded" where
  "candidate_catalog_entry rx base c =
     (if cb_api c \<noteq> CANDIDATE_BUILD_API_VERSION then Inl ''candidate_record_version_unsupported''
      else and_then (case cb_provenance c of None \<Rightarrow> Inr () | Some p \<Rightarrow> validate_provenance rx p) (\<lambda>_.
      if cb_phase c \<noteq> BuildSucceeded then Inl ''candidate_not_succeeded''
      else if cb_implementation c \<notin> set (catalog_implementations c)
              \<or> ce_id base \<notin> set (catalog_implementations c) \<or> cb_base_version c \<noteq> ce_version base
      then Inl ''candidate_base_mismatch''
      else case (cb_version c, cb_image c, build_source c) of
             (None, _, _) \<Rightarrow> Inl ''candidate_version_missing''
           | (_, None, _) \<Rightarrow> Inl ''candidate_image_missing''
           | (_, _, None) \<Rightarrow> Inl ''candidate_source_missing''
           | (Some version, Some img, Some source) \<Rightarrow>
               and_then (bind_processors rx
                 (base\<lparr>ce_description := candidate_description base source, ce_version := version,
                   ce_channel := Prerelease, ce_lifecycle := Experimental, ce_image := img,
                   ce_provenance := None, ce_features := packaged_features c (ce_features base)\<rparr>))
                 (\<lambda>e. Inr (e\<lparr>ce_source_digest := candidate_source_digest rx base source img,
                            ce_source := Some source\<rparr>))))"

section \<open>The effective catalog\<close>

definition based_on :: "catalog \<Rightarrow> candidate_build \<Rightarrow> bool" where
  "based_on built_in c \<longleftrightarrow>
     list_all (\<lambda>i. list_ex (\<lambda>e. ce_id e = i \<and> ce_version e = cb_base_version c)
       (ct_entries built_in)) (catalog_implementations c)"

definition successful :: "catalog \<Rightarrow> candidate_build list \<Rightarrow> candidate_build list" where
  "successful built_in cs =
     sort_key (\<lambda>c. (cb_implementation c, cb_version c, cb_id c))
       (filter (based_on built_in) (filter (\<lambda>c. cb_phase c = BuildSucceeded) cs))"

definition candidate_entry ::
  "recipes \<Rightarrow> catalog \<Rightarrow> candidate_build \<times> string \<Rightarrow> catalog_entry coded" where
  "candidate_entry rx built_in ci =
     (case find (\<lambda>e. ce_id e = snd ci \<and> ce_version e = cb_base_version (fst ci)) (ct_entries built_in) of
        None \<Rightarrow> Inl ''candidate_base_missing''
      | Some base \<Rightarrow> candidate_catalog_entry rx base (fst ci))"

definition extend_version :: "string list \<Rightarrow> string \<Rightarrow> string \<Rightarrow> version_support \<Rightarrow> version_support" where
  "extend_version is base v w =
     (if vs_implementation w \<in> set is \<and> base \<in> set (vs_versions w) \<and> v \<notin> set (vs_versions w)
      then w\<lparr>vs_versions := insort v (vs_versions w)\<rparr> else w)"

definition extend_dependency ::
  "string list \<Rightarrow> string \<Rightarrow> string \<Rightarrow> dependency_support \<Rightarrow> dependency_support" where
  "extend_dependency is base v d =
     (if ds_implementation d \<in> set is \<and> base \<in> ds_versions d
      then d\<lparr>ds_versions := insert v (ds_versions d)\<rparr> else d)"

definition extend_entry :: "string list \<Rightarrow> string \<Rightarrow> string \<Rightarrow> catalog_entry \<Rightarrow> catalog_entry" where
  "extend_entry is base v e =
     (let m = ce_matrix e
      in e\<lparr>ce_dependencies := map (extend_dependency is base v) (ce_dependencies e),
           ce_matrix := m\<lparr>
             sm_bindings := binding_set (map (\<lambda>b. b\<lparr>pb_backend := extend_version is base v (pb_backend b)\<rparr>)
               (sm_bindings m)),
             sm_wallets := map (extend_version is base v) (sm_wallets m)\<rparr>\<rparr>)"

fun extend_entries :: "candidate_build list \<Rightarrow> catalog_entry list \<Rightarrow> catalog_entry list coded" where
  "extend_entries [] entries = Inr entries"
| "extend_entries (c # cs) entries =
     (case cb_version c of
        None \<Rightarrow> Inl ''candidate_version_missing''
      | Some v \<Rightarrow>
          extend_entries cs
            (map (extend_entry (catalog_implementations c) (cb_base_version c) v) entries))"

definition effective_catalog ::
  "recipes \<Rightarrow> catalog \<Rightarrow> candidate_build list \<Rightarrow> catalog coded" where
  "effective_catalog rx built_in cs =
     (let chosen = successful built_in cs
      in and_then (collect_ok (candidate_entry rx built_in)
             (concat (map (\<lambda>c. map (Pair c) (catalog_implementations c)) chosen))) (\<lambda>new.
         and_then (extend_entries chosen (ct_entries built_in @ new)) (\<lambda>entries.
         catalog_of (rx_digest rx) entries)))"

end
