(* ===== verification/Publication.thy ===== *)
theory Publication
  imports Catalog_Rules Cell_Validation
begin

text \<open>
  Publication of a cell (\<open>proofstorm-core/src/publication.rs\<close>): its defaults are written out, its
  components and links put in their canonical order, and a lock is derived that pins each component
  to a catalog entry and to the digest of all its rollout depends on.
\<close>

section \<open>What is digested\<close>

text \<open>The derived \<open>Serialize\<close> of links, ports and mount templates, members in declaration order.\<close>

fun link_kind_name :: "link_kind \<Rightarrow> string" where
  "link_kind_name BitcoinPeer = ''bitcoin_peer''"
| "link_kind_name LightningPeer = ''lightning_peer''"
| "link_kind_name ChainBackend = ''chain_backend''"
| "link_kind_name ArkBackend = ''ark_backend''"
| "link_kind_name SparkBackend = ''spark_backend''"
| "link_kind_name PaymentBackend = ''payment_backend''"
| "link_kind_name DatabaseBackend = ''database_backend''"
| "link_kind_name AuthenticationBackend = ''authentication_backend''"
| "link_kind_name NetworkPath = ''network_path''"

definition optional_member :: "string \<Rightarrow> 'a option \<Rightarrow> ('a \<Rightarrow> json) \<Rightarrow> (string \<times> json) list" where
  "optional_member name v f = (case v of None \<Rightarrow> [] | Some x \<Rightarrow> [(name, f x)])"

fun binding_json :: "dependency_binding \<Rightarrow> json" where
  "binding_json (BindChain _) =
     JObject [(''type'', JString ''chain''), (''network'', JString ''regtest'')]"
| "binding_json (BindArk _) =
     JObject [(''type'', JString ''ark''), (''network'', JString ''regtest'')]"
| "binding_json (BindSpark _) =
     JObject [(''type'', JString ''spark''), (''network'', JString ''regtest'')]"
| "binding_json (BindPayment m u) =
     JObject [(''type'', JString ''payment''), (''method'', JString (method_str m)),
              (''unit'', JString u)]"
| "binding_json (BindDatabase r d) =
     JObject ([(''type'', JString ''database''), (''role'', JString (role_str r))]
              @ optional_member ''database'' d JString)"
| "binding_json (BindAuthentication _) =
     JObject [(''type'', JString ''authentication''), (''protocol'', JString ''oidc'')]"

definition link_json :: "link_spec \<Rightarrow> json" where
  "link_json l =
     JObject ([(''id'', JString (l_id l)), (''kind'', JString (link_kind_name (l_kind l))),
               (''from'', JString (l_from l)), (''to'', JString (l_to l))]
              @ optional_member ''binding'' (l_binding l) binding_json)"

definition ports_json :: "(string, u16) btree \<Rightarrow> json" where
  "ports_json ports = JObject (map (\<lambda>(name, port). (name, JNumber (uint port))) ports)"

definition environment_json :: "(string, string) btree \<Rightarrow> json" where
  "environment_json env = JObject (map (\<lambda>(name, v). (name, JString v)) env)"

fun requirement_json :: "mount_requirement \<Rightarrow> json" where
  "requirement_json RequiredMount = JObject [(''kind'', JString ''required'')]"
| "requirement_json (AtLeastOne g) =
     JObject [(''kind'', JString ''at_least_one''), (''group'', JString g)]"

fun mount_source_json :: "mount_template_source \<Rightarrow> json" where
  "mount_source_json StatefulTemplate = JObject [(''source'', JString ''stateful_data'')]"
| "mount_source_json PersistentTemplate =
     JObject [(''source'', JString ''component_persistent_data'')]"
| "mount_source_json ConfigTemplate = JObject [(''source'', JString ''component_config'')]"
| "mount_source_json (LinkedTemplate k b target) =
     JObject [(''source'', JString ''linked_stateful_data''),
              (''link_kind'', JString (link_kind_name k)), (''binding'', binding_json b),
              (''target_implementation'', JString target)]"

definition mount_json :: "mount_template \<Rightarrow> json" where
  "mount_json m =
     JObject [(''name'', JString (mt_name m)), (''mount_path'', JString (mt_path m)),
              (''read_only'', JBool (mt_read_only m)),
              (''requirement'', requirement_json (mt_requirement m)),
              (''source'', mount_source_json (mt_source m))]"

section \<open>The effective cell\<close>

definition effective_component ::
  "builtin \<Rightarrow> catalog \<Rightarrow> component_spec \<Rightarrow> component_spec coded" where
  "effective_component bi ct c =
     and_then (validate_catalog_component bi c ct) (\<lambda>_.
     and_then (resolve_effective_component (bi_float bi) (bi_registry bi) c) (\<lambda>d.
     and_then (validate_catalog_component bi d ct) (\<lambda>_. Inr d)))"

definition resolve_effective_cell :: "builtin \<Rightarrow> cell_spec \<Rightarrow> catalog \<Rightarrow> cell_spec coded" where
  "resolve_effective_cell bi cell ct =
     and_then (collect_ok (effective_component bi ct) (components cell)) (\<lambda>cs.
       Inr (cell\<lparr>components := sort_components cs, links := sort_links (links cell)\<rparr>))"

section \<open>Compatibility\<close>

definition mirror_image :: "string \<Rightarrow> string" where
  "mirror_image img =
     (if string_starts_with img ''docker.io/'' \<or> string_starts_with img ''quay.io/''
      then ''proofstorm-registry.localhost:5000/upstream/'' @ img else img)"

definition runtime_image :: "component_spec \<Rightarrow> catalog_entry \<Rightarrow> string" where
  "runtime_image c e =
     (if ce_id e = ''workspace''
      then (case Option.bind (bt_get (c_config c) ''runtime_image'') json_str of
              None \<Rightarrow> ce_image e
            | Some img \<Rightarrow> if img = [] then ce_image e else mirror_image img)
      else ce_image e)"

definition is_rollout_relevant_link :: "link_kind \<Rightarrow> bool" where
  "is_rollout_relevant_link k \<longleftrightarrow> is_backend k \<or> k = NetworkPath"

definition supports_authentication :: "catalog_entry \<Rightarrow> bool" where
  "supports_authentication e \<longleftrightarrow> (\<exists>a \<in> sm_authentication (ce_matrix e). a \<noteq> Unauthenticated)"

definition require_supported_embedded_bindings ::
  "component_spec \<Rightarrow> catalog_entry \<Rightarrow> unit coded" where
  "require_supported_embedded_bindings c e =
     ensure (c_implementation c \<noteq> ''cdk''
            \<or> list_all (\<lambda>(m, u, backend). list_ex (\<lambda>b. eb_method b = m \<and> eb_unit b = u
                  \<and> eb_backend b = backend) (sm_embedded (ce_matrix e)))
                (embedded_payment_tuples c))
       ''component does not support an embedded payment tuple''"

definition compatible :: "catalog_entry \<Rightarrow> link_kind \<Rightarrow> catalog_entry \<Rightarrow> bool" where
  "compatible e k target \<longleftrightarrow>
     list_ex (\<lambda>d. ds_kind d = k \<and> ds_implementation d = ce_id target
                 \<and> ce_version target \<in> ds_versions d) (ce_dependencies e)"

definition supports_payment ::
  "catalog_entry \<Rightarrow> payment_method \<Rightarrow> string \<Rightarrow> catalog_entry \<Rightarrow> bool" where
  "supports_payment e m u target \<longleftrightarrow>
     list_ex (\<lambda>b. pb_method b = m \<and> pb_unit b = u
                 \<and> vs_implementation (pb_backend b) = ce_id target
                 \<and> ce_version target \<in> set (vs_versions (pb_backend b)))
       (sm_bindings (ce_matrix e))"

definition supports_database_role :: "catalog_entry \<Rightarrow> database_role \<Rightarrow> catalog_entry \<Rightarrow> bool" where
  "supports_database_role e r target \<longleftrightarrow>
     (case r of
        Primary \<Rightarrow> ce_id target = ''postgresql''
      | Cache \<Rightarrow> ce_id e = ''nutshell'' \<and> ce_id target = ''redis''
      | Authentication \<Rightarrow> supports_authentication e \<and> ce_id target = ''postgresql'')"

definition require_payment :: "catalog_entry \<Rightarrow> link_spec \<Rightarrow> catalog_entry \<Rightarrow> unit coded" where
  "require_payment e l target =
     (if l_kind l \<noteq> PaymentBackend then Inr ()
      else case l_binding l of
        Some (BindPayment m u) \<Rightarrow>
          ensure (supports_payment e m u target) ''component does not support a payment tuple''
      | _ \<Rightarrow> Inl ''component binding lacks a typed payment method and unit'')"

definition require_database :: "catalog_entry \<Rightarrow> link_spec \<Rightarrow> catalog_entry \<Rightarrow> unit coded" where
  "require_database e l target =
     (if l_kind l \<noteq> DatabaseBackend then Inr ()
      else case l_binding l of
        Some (BindDatabase r _) \<Rightarrow>
          ensure (supports_database_role e r target) ''component does not support a database role''
      | _ \<Rightarrow> Inl ''component binding lacks a typed database role'')"

definition require_authentication :: "catalog_entry \<Rightarrow> link_spec \<Rightarrow> catalog_entry \<Rightarrow> unit coded" where
  "require_authentication e l target =
     (if l_kind l \<noteq> AuthenticationBackend then Inr ()
      else case l_binding l of
        Some (BindAuthentication _) \<Rightarrow>
          ensure (supports_authentication e \<and> ce_id target = ''keycloak'')
            ''component does not support an authentication protocol''
      | _ \<Rightarrow> Inl ''component binding lacks a typed authentication protocol'')"

definition require_compatible_dependency ::
  "catalog_entry \<Rightarrow> link_spec \<Rightarrow> catalog_entry \<Rightarrow> unit coded" where
  "require_compatible_dependency e l target =
     and_then (ensure (\<not> is_backend (l_kind l) \<or> compatible e (l_kind l) target)
                 ''component does not declare compatibility with its target'') (\<lambda>_.
     and_then (require_payment e l target) (\<lambda>_.
     and_then (require_database e l target) (\<lambda>_.
     require_authentication e l target)))"

section \<open>The lock\<close>

definition EFFECTIVE_CONFIG_DIGEST_VERSION :: string where
  "EFFECTIVE_CONFIG_DIGEST_VERSION = ''proofstorm/effective-config-digest/v1''"

definition ROLLOUT_DIGEST_VERSION :: string where
  "ROLLOUT_DIGEST_VERSION = ''proofstorm/rollout-digest/v1''"

definition LOCK_API_VERSION :: string where
  "LOCK_API_VERSION = ''proofstorm/lock/v2alpha1''"

definition config_inputs :: "component_spec \<Rightarrow> catalog_entry \<Rightarrow> json" where
  "config_inputs c e =
     JArray [JString EFFECTIVE_CONFIG_DIGEST_VERSION, JString (c_config_version c),
             JString (ce_schema_digest e), JObject (c_config c)]"

definition relevant_links :: "cell_spec \<Rightarrow> component_spec \<Rightarrow> link_spec list" where
  "relevant_links cell c =
     filter (\<lambda>l. l_from l = c_id c \<and> is_rollout_relevant_link (l_kind l)) (links cell)"

definition target_contract ::
  "builtin \<Rightarrow> catalog \<Rightarrow> cell_spec \<Rightarrow> catalog_entry \<Rightarrow> link_spec \<Rightarrow> json coded" where
  "target_contract bi ct cell e l =
     (case find (\<lambda>t. c_id t = l_to l) (components cell) of
        None \<Rightarrow> Inl ''component references a missing linked target''
      | Some target \<Rightarrow>
          and_then (validate_catalog_component bi target ct) (\<lambda>te.
          and_then (require (bi_registry bi) (ce_id te)) (\<lambda>tb.
          and_then (require_compatible_dependency e l te) (\<lambda>_.
          Inr (JArray [link_json l, JString (ce_id te), JString (ce_adapter te),
                       ports_json (bc_ports tb), JString (bc_state_contract tb)])))))"

definition rollout_inputs ::
  "catalog_entry \<Rightarrow> string \<Rightarrow> string \<Rightarrow> json list \<Rightarrow> backend_contract \<Rightarrow> json" where
  "rollout_inputs e img config_digest contracts b =
     JArray [JString ROLLOUT_DIGEST_VERSION, JString (ce_id e), JString (ce_adapter e),
             JString img, JString (ce_schema_digest e), JString config_digest, JArray contracts,
             JString (bc_state_contract b), JArray (map mount_json (bc_mounts b)),
             environment_json (bc_environment b)]"

definition new_lock_entry ::
  "builtin \<Rightarrow> component_spec \<Rightarrow> catalog_entry \<Rightarrow> backend_contract \<Rightarrow> json list \<Rightarrow> lock_entry" where
  "new_lock_entry bi c e b contracts =
     (let img = runtime_image c e;
          source = (if img = ce_image e then ce_source_digest e
                    else bi_digest bi (JArray [JString ''workspace-runtime/v1'', JString img]));
          config_digest = bi_digest bi (config_inputs c e)
      in \<lparr>le_component = c_id c, le_catalog = ce_id e, le_adapter = ce_adapter e,
          le_action_adapter = ce_action_adapter e, le_version = ce_version e,
          le_config_version = ce_config_version e, le_schema_digest = ce_schema_digest e,
          le_features = ce_features e, le_dependencies = ce_dependencies e,
          le_config_digest = config_digest,
          le_rollout = bi_digest bi (rollout_inputs e img config_digest contracts b),
          le_image = img, le_source_digest = source, le_source = ce_source e,
          le_provenance = ce_provenance e, le_overrides = override_keys c\<rparr>)"

definition lock_component ::
  "builtin \<Rightarrow> catalog \<Rightarrow> cell_spec \<Rightarrow> component_spec \<Rightarrow> lock_entry coded" where
  "lock_component bi ct cell c =
     and_then (validate_catalog_component bi c ct) (\<lambda>e.
     and_then (require (bi_registry bi) (ce_id e)) (\<lambda>b.
     and_then (require_supported_embedded_bindings c e) (\<lambda>_.
     and_then (collect_ok (target_contract bi ct cell e) (relevant_links cell c)) (\<lambda>contracts.
     Inr (new_lock_entry bi c e b contracts)))))"

definition sort_lock_entries :: "lock_entry list \<Rightarrow> lock_entry list" where
  "sort_lock_entries es = sort_key le_component es"

definition resolve_lock :: "builtin \<Rightarrow> cell_spec \<Rightarrow> catalog \<Rightarrow> resolved_lock coded" where
  "resolve_lock bi cell ct =
     (if \<not> rep_valid (validate_cell (bi_to_vec bi) (bi_print bi) cell)
      then Inl ''cell_validation_failed''
      else and_then (resolve_effective_cell bi cell ct) (\<lambda>effective.
           and_then (collect_ok (lock_component bi ct effective) (components effective)) (\<lambda>es.
           let entries = sort_lock_entries es
           in Inr \<lparr>lk_api = LOCK_API_VERSION, lk_digest = bi_digest bi (bi_lock bi entries),
                   lk_entries = entries\<rparr>)))"

section \<open>Publication of a document\<close>

text \<open>The two steps of \<open>Store::publish\<close> between the validation and the insert.\<close>

definition publish_document :: "builtin \<Rightarrow> catalog \<Rightarrow> cell_spec \<Rightarrow> (cell_spec \<times> resolved_lock) coded" where
  "publish_document bi ct cell =
     and_then (resolve_effective_cell bi cell ct) (\<lambda>effective.
     and_then (resolve_lock bi effective ct) (\<lambda>lock. Inr (effective, lock)))"

end
