(* ===== verification/Publication_Lemmas.thy ===== *)
theory Publication_Lemmas
  imports Publication Cell_Topology
begin

text \<open>
  Why publication is canonical: writing defaults out is idempotent and keeps what the author set,
  and neither the order of components nor that of links reaches the lock.
\<close>

section \<open>Defaults\<close>

lemma fill_default_keeps:
  "bt_get cfg k = Some v \<Longrightarrow> bt_get (fill_default i nf cfg) k = Some v"
  by (auto simp: fill_default_def bt_contains_key_def split: option.splits)

lemma fold_fill_default_keeps:
  "bt_get cfg k = Some v \<Longrightarrow> bt_get (fold (fill_default i) fs cfg) k = Some v"
  by (induction fs arbitrary: cfg) (auto intro: fill_default_keeps)

lemma fill_default_done: "fill_default i nf (fold (fill_default i) fs (fill_default i nf cfg))
    = fold (fill_default i) fs (fill_default i nf cfg)"
proof (cases "fc_default (snd nf)")
  case None
  then show ?thesis by (simp add: fill_default_def)
next
  case (Some d)
  show ?thesis
  proof (cases "is_agent_authorable (fc_class (snd nf))")
    case True
    obtain v where "bt_get (fill_default i nf cfg) (fst nf) = Some v"
      using Some True
      by (cases "bt_get cfg (fst nf)") (auto simp: fill_default_def bt_contains_key_def)
    then have "bt_get (fold (fill_default i) fs (fill_default i nf cfg)) (fst nf) = Some v"
      by (rule fold_fill_default_keeps)
    then show ?thesis using Some by (simp add: fill_default_def bt_contains_key_def)
  qed (simp add: fill_default_def Some)
qed

lemma fold_fill_default_fixed:
  "(\<And>nf. nf \<in> set fs \<Longrightarrow> fill_default i nf cfg = cfg) \<Longrightarrow> fold (fill_default i) fs cfg = cfg"
  by (induction fs) auto

lemma fill_default_in_fold:
  "nf \<in> set fs \<Longrightarrow> fill_default i nf (fold (fill_default i) fs cfg) = fold (fill_default i) fs cfg"
proof (induction fs arbitrary: cfg)
  case (Cons x fs)
  then show ?case using fill_default_done by (cases "nf \<in> set fs") auto
qed simp

lemma fold_fill_default_idem:
  "fold (fill_default i) fs (fold (fill_default i) fs cfg) = fold (fill_default i) fs cfg"
  by (rule fold_fill_default_fixed) (rule fill_default_in_fold)

lemma fill_defaults_idem: "fill_defaults b (fill_defaults b c) = fill_defaults b c"
  by (simp add: fill_defaults_def fold_fill_default_idem)

lemma fill_defaults_simps [simp]:
  "c_id (fill_defaults b c) = c_id c" "c_kind (fill_defaults b c) = c_kind c"
  "c_implementation (fill_defaults b c) = c_implementation c"
  "c_version (fill_defaults b c) = c_version c"
  by (simp_all add: fill_defaults_def)

lemma validate_config_effective:
  "validate_config fl b cfg True = Inr u \<Longrightarrow> validate_config fl b cfg False = Inr u"
  by (auto simp: validate_config_def and_then_Inr_iff split: if_splits)

lemma resolve_effective_component_Inr:
  "resolve_effective_component fl reg c = Inr d \<longleftrightarrow>
     (\<exists>b. require reg (c_implementation c) = Inr b \<and> bc_kind b = c_kind c
        \<and> validate_config fl b (c_config c) False = Inr ()
        \<and> validate_config fl b (c_config d) True = Inr () \<and> d = fill_defaults b c)"
  by (auto simp: resolve_effective_component_def and_then_Inr_iff Let_def)

lemma resolve_effective_component_idem:
  assumes "resolve_effective_component fl reg c = Inr d"
  shows "resolve_effective_component fl reg d = Inr d"
proof -
  obtain b where b: "require reg (c_implementation c) = Inr b" "bc_kind b = c_kind c"
      "validate_config fl b (c_config d) True = Inr ()" "d = fill_defaults b c"
    using assms unfolding resolve_effective_component_Inr by blast
  show ?thesis
    unfolding resolve_effective_component_Inr
    using b validate_config_effective [OF b(3)] by (auto simp: fill_defaults_idem)
qed

section \<open>Components\<close>

lemma effective_component_Inr:
  "effective_component bi ct c = Inr d \<longleftrightarrow>
     (\<exists>e. validate_catalog_component bi c ct = Inr e)
     \<and> resolve_effective_component (bi_float bi) (bi_registry bi) c = Inr d
     \<and> (\<exists>e. validate_catalog_component bi d ct = Inr e)"
  by (auto simp: effective_component_def and_then_Inr_iff)

lemma effective_component_idem:
  "effective_component bi ct c = Inr d \<Longrightarrow> effective_component bi ct d = Inr d"
  by (auto simp: effective_component_Inr dest: resolve_effective_component_idem)

lemma effective_component_same:
  assumes "effective_component bi ct c = Inr d"
  shows "c_id d = c_id c" "c_kind d = c_kind c" "c_implementation d = c_implementation c"
    "c_version d = c_version c"
  using assms by (auto simp: effective_component_Inr resolve_effective_component_Inr)

section \<open>Cells\<close>

lemma collect_ok_fixed: "(\<And>x. x \<in> set xs \<Longrightarrow> f x = Inr x) \<Longrightarrow> collect_ok f xs = Inr xs"
  using collect_ok_map [of xs f "\<lambda>x. x"] by simp

lemma sort_components_idem [simp]: "sort_components (sort_components cs) = sort_components cs"
  by (simp add: sort_components_def sort_key_id_if_sorted)

lemma resolve_effective_cell_Inr:
  "resolve_effective_cell bi cell ct = Inr e \<longleftrightarrow>
     (\<exists>ds. list_all2 (\<lambda>c d. effective_component bi ct c = Inr d) (components cell) ds
        \<and> e = cell\<lparr>components := sort_components ds, links := sort_links (links cell)\<rparr>)"
  by (auto simp: resolve_effective_cell_def and_then_Inr_iff collect_ok_iff)

lemma resolve_effective_cell_idem:
  assumes "resolve_effective_cell bi cell ct = Inr e"
  shows "resolve_effective_cell bi e ct = Inr e"
proof -
  obtain ds where ds: "list_all2 (\<lambda>c d. effective_component bi ct c = Inr d) (components cell) ds"
      "e = cell\<lparr>components := sort_components ds, links := sort_links (links cell)\<rparr>"
    using assms unfolding resolve_effective_cell_Inr by blast
  have "effective_component bi ct d = Inr d" if "d \<in> set ds" for d
    using ds(1) that effective_component_idem
    by (auto simp: in_set_conv_nth list_all2_conv_all_nth)
  then have "collect_ok (effective_component bi ct) (components e) = Inr (components e)"
    using ds(2) by (intro collect_ok_fixed) (simp add: sort_components_def)
  then show ?thesis by (simp add: resolve_effective_cell_def and_then_def ds(2))
qed

lemma sort_components_mset [simp]: "mset (sort_components cs) = mset cs"
  by (simp add: sort_components_def)

lemma components_links_update: "components (cell\<lparr>components := cs, links := ls\<rparr>) = cs"
  by simp

lemma effective_ids:
  assumes "resolve_effective_cell bi cell ct = Inr e"
  shows "mset (map c_id (components e)) = mset (map c_id (components cell))"
proof -
  obtain ds where ds: "list_all2 (\<lambda>c d. effective_component bi ct c = Inr d) (components cell) ds"
      "e = cell\<lparr>components := sort_components ds, links := sort_links (links cell)\<rparr>"
    using assms unfolding resolve_effective_cell_Inr by blast
  have "map c_id ds = map c_id (components cell)"
    using ds(1) by (induction rule: list_all2_induct) (auto dest: effective_component_same)
  then show ?thesis using ds(2) by (metis components_links_update mset_map sort_components_mset)
qed

section \<open>Order\<close>

text \<open>Two documents with the same components and the same links, in any order.\<close>

definition same_document :: "cell_spec \<Rightarrow> cell_spec \<Rightarrow> bool" where
  "same_document a b \<longleftrightarrow>
     mset (components a) = mset (components b) \<and> mset (links a) = mset (links b)
     \<and> api_version a = api_version b \<and> cell_name a = cell_name b \<and> policy a = policy b"

lemma collect_ok_permuted:
  assumes "collect_ok f xs = Inr ys" "mset xs' = mset xs"
  obtains ys' where "collect_ok f xs' = Inr ys'" "mset ys' = mset ys"
proof -
  define g where "g x = projr (f x)" for x
  have f: "f x = Inr (g x)" if "x \<in> set xs" for x
    using assms(1) that unfolding collect_ok_iff
    by (auto simp: g_def in_set_conv_nth list_all2_conv_all_nth)
  have "collect_ok f xs = Inr (map g xs)" using f by (rule collect_ok_map)
  then have ys: "ys = map g xs" using assms(1) by simp
  have "collect_ok f xs' = Inr (map g xs')"
    using f mset_eq_setD [OF assms(2)] by (intro collect_ok_map) auto
  moreover have "mset (map g xs') = mset ys" using assms(2) ys by simp
  ultimately show thesis by (rule that)
qed

lemma effective_cell_order:
  assumes "resolve_effective_cell bi a ct = Inr e" "same_document a b"
    "distinct (map c_id (components a))"
  shows "resolve_effective_cell bi b ct = Inr e"
proof -
  obtain ds where ds: "collect_ok (effective_component bi ct) (components a) = Inr ds"
      "e = a\<lparr>components := sort_components ds, links := sort_links (links a)\<rparr>"
    using assms(1) by (auto simp: resolve_effective_cell_def and_then_Inr_iff)
  obtain ds' where ds': "collect_ok (effective_component bi ct) (components b) = Inr ds'"
      "mset ds' = mset ds"
    using collect_ok_permuted [OF ds(1)] assms(2) unfolding same_document_def by metis
  have "map c_id ds = map c_id (components a)"
    using ds(1) unfolding collect_ok_iff
    by (induction rule: list_all2_induct) (auto dest: effective_component_same)
  then have "sort_components ds' = sort_components ds"
    using ds'(2) assms(3) sort_components_canonical [of ds ds'] by simp
  moreover have "sort_links (links b) = sort_links (links a)"
    using assms(2) by (intro sort_links_canonical) (simp add: same_document_def)
  ultimately show ?thesis
    using ds'(1) ds(2) assms(2)
    by (cases a; cases b) (simp add: resolve_effective_cell_def and_then_def same_document_def)
qed

lemma valid_distinct_components:
  "rep_valid (validate_cell to_vec print cell) \<Longrightarrow> distinct (map c_id (components cell))"
  by (simp add: validate_cell_document document_ok_def graph_ok_def)

section \<open>Locks\<close>

lemma validate_catalog_component_Inr:
  "validate_catalog_component bi c ct = Inr e \<longleftrightarrow>
     select_entry c ct = Inr e \<and> c_kind c = ce_kind e \<and> c_control c \<in> set (ce_control e)
     \<and> c_config_version c = ce_config_version e
     \<and> validate_component_config (bi_float bi) (bi_registry bi) c = Inr ()
     \<and> validate_release_names bi c e = Inr ()"
  by (auto simp: validate_catalog_component_def and_then_Inr_iff split: if_splits)

lemma select_entry_Inr:
  assumes "select_entry c ct = Inr e"
  shows "e \<in> set (ct_entries ct) \<and> ce_id e = c_implementation c
    \<and> (case c_version c of Some v \<Rightarrow> ce_version e = v | None \<Rightarrow> ce_lifecycle e = Preferred)"
proof (cases "c_version c")
  case None
  then have "[x \<leftarrow> ct_entries ct. ce_id x = c_implementation c \<and> ce_lifecycle x = Preferred] = [e]"
    using assms by (auto simp: select_entry_def Let_def conj_commute split: if_splits list.splits)
  then have "e \<in> set [x \<leftarrow> ct_entries ct. ce_id x = c_implementation c \<and> ce_lifecycle x = Preferred]"
    by simp
  then show ?thesis using None by simp
next
  case (Some v)
  then have "find (\<lambda>e. ce_version e = v) (filter (\<lambda>e. ce_id e = c_implementation c) (ct_entries ct))
      = Some e"
    using assms by (auto simp: select_entry_def Let_def split: if_splits option.splits)
  then show ?thesis using Some find_SomeD by fastforce
qed

lemma catalog_of_Inr:
  "catalog_of digest entries = Inr ct \<longleftrightarrow>
     identity_loop digest [] entries = Inr ()
     \<and> (\<forall>r \<in> set entries. validate_support_matrix entries r = Inr ())
     \<and> (\<exists>rows. list_all2 (\<lambda>g row. implementation_row (fst g) (snd g) = Inr row) (grouped entries) rows
          \<and> ct = \<lparr>ct_api = API_VERSION, ct_implementations = rows, ct_entries = entries\<rparr>)"
  by (auto simp: catalog_of_def implementation_support_of_def and_then_Inr_iff each_ok_iff
      collect_ok_iff case_prod_beta)

lemma catalog_of_entries: "catalog_of digest entries = Inr ct \<Longrightarrow> ct_entries ct = entries"
  by (auto simp: catalog_of_Inr)

lemma validated_entry:
  assumes "validate_catalog_component bi c ct = Inr r"
  shows "r \<in> set (ct_entries ct)" "ce_id r = c_implementation c"
  using select_entry_Inr [of c ct r] assms by (simp_all add: validate_catalog_component_Inr)

lemma lock_component_Inr:
  "lock_component bi ct cell c = Inr x \<longleftrightarrow>
     (\<exists>e b contracts. validate_catalog_component bi c ct = Inr e
        \<and> require (bi_registry bi) (ce_id e) = Inr b
        \<and> require_supported_embedded_bindings c e = Inr ()
        \<and> collect_ok (target_contract bi ct cell e) (relevant_links cell c) = Inr contracts
        \<and> x = new_lock_entry bi c e b contracts)"
  by (simp add: lock_component_def and_then_Inr_iff) blast

lemma new_lock_entry_simps [simp]:
  "le_component (new_lock_entry bi c e b js) = c_id c"
  "le_catalog (new_lock_entry bi c e b js) = ce_id e"
  "le_adapter (new_lock_entry bi c e b js) = ce_adapter e"
  "le_version (new_lock_entry bi c e b js) = ce_version e"
  "le_schema_digest (new_lock_entry bi c e b js) = ce_schema_digest e"
  "le_features (new_lock_entry bi c e b js) = ce_features e"
  "le_dependencies (new_lock_entry bi c e b js) = ce_dependencies e"
  "le_image (new_lock_entry bi c e b js) = runtime_image c e"
  "le_config_digest (new_lock_entry bi c e b js) = bi_digest bi (config_inputs c e)"
  "le_rollout (new_lock_entry bi c e b js) =
     bi_digest bi (rollout_inputs e (runtime_image c e) (bi_digest bi (config_inputs c e)) js b)"
  by (simp_all add: new_lock_entry_def Let_def)

lemma resolve_lock_Inr:
  assumes "resolve_lock bi cell ct = Inr lock"
  obtains e es where "rep_valid (validate_cell (bi_to_vec bi) (bi_print bi) cell)"
    "resolve_effective_cell bi cell ct = Inr e"
    "list_all2 (\<lambda>c x. lock_component bi ct e c = Inr x) (components e) es"
    "lk_entries lock = sort_lock_entries es"
    "lk_digest lock = bi_digest bi (bi_lock bi (lk_entries lock))"
  using assms
  by (auto simp: resolve_lock_def and_then_Inr_iff collect_ok_iff Let_def split: if_splits)

lemma publish_document_Inr:
  assumes "publish_document bi ct cell = Inr (e, lock)"
  obtains es where "resolve_effective_cell bi cell ct = Inr e"
    "rep_valid (validate_cell (bi_to_vec bi) (bi_print bi) e)"
    "list_all2 (\<lambda>c x. lock_component bi ct e c = Inr x) (components e) es"
    "lk_entries lock = sort_lock_entries es"
proof -
  have eff: "resolve_effective_cell bi cell ct = Inr e" and lock: "resolve_lock bi e ct = Inr lock"
    using assms by (auto simp: publish_document_def and_then_Inr_iff)
  obtain e' es where "rep_valid (validate_cell (bi_to_vec bi) (bi_print bi) e)"
      "resolve_effective_cell bi e ct = Inr e'"
      "list_all2 (\<lambda>c x. lock_component bi ct e' c = Inr x) (components e') es"
      "lk_entries lock = sort_lock_entries es"
    using resolve_lock_Inr [OF lock] by metis
  then show thesis using that eff resolve_effective_cell_idem [OF eff] by simp
qed

lemma target_contract_Inr:
  "target_contract bi ct cell e l = Inr j \<longleftrightarrow>
     (\<exists>t te tb. find (\<lambda>t. c_id t = l_to l) (components cell) = Some t
        \<and> validate_catalog_component bi t ct = Inr te
        \<and> require (bi_registry bi) (ce_id te) = Inr tb
        \<and> require_compatible_dependency e l te = Inr ()
        \<and> j = JArray [link_json l, JString (ce_id te), JString (ce_adapter te),
                      ports_json (bc_ports tb), JString (bc_state_contract tb)])"
  by (auto simp: target_contract_def and_then_Inr_iff split: option.splits)

lemma list_all2_left:
  "list_all2 P xs ys \<Longrightarrow> x \<in> set xs \<Longrightarrow> \<exists>y \<in> set ys. P x y"
  by (induction rule: list_all2_induct) auto

lemma list_all2_right:
  "list_all2 P xs ys \<Longrightarrow> y \<in> set ys \<Longrightarrow> \<exists>x \<in> set xs. P x y"
  by (induction rule: list_all2_induct) auto

section \<open>Digested values\<close>

lemma optional_member_inj:
  "(\<And>x y. f x = f y \<Longrightarrow> x = y) \<Longrightarrow> optional_member n a f = optional_member n b f \<Longrightarrow> a = b"
  by (auto simp: optional_member_def split: option.splits)

lemma link_kind_name_inj: "link_kind_name a = link_kind_name b \<Longrightarrow> a = b"
  by (cases a; cases b) auto

lemma role_str_inj: "role_str a = role_str b \<Longrightarrow> a = b"
  by (cases a; cases b) auto

lemma link_json_inj:
  "link_json a = link_json b \<Longrightarrow>
     l_id a = l_id b \<and> l_kind a = l_kind b \<and> l_from a = l_from b \<and> l_to a = l_to b"
  by (auto simp: link_json_def dest: link_kind_name_inj)

lemma ports_json_inj: "ports_json a = ports_json b \<Longrightarrow> a = b"
proof -
  have "inj (\<lambda>(name :: string, port :: u16). (name, JNumber (uint port)))"
    by (auto intro!: injI simp: word_uint_eq_iff)
  then show "ports_json a = ports_json b \<Longrightarrow> a = b"
    by (auto simp: ports_json_def dest: map_injective)
qed

lemma environment_json_inj: "environment_json a = environment_json b \<Longrightarrow> a = b"
proof -
  have "inj (\<lambda>(name :: string, v). (name, JString v))"
    by (auto intro!: injI)
  then show "environment_json a = environment_json b \<Longrightarrow> a = b"
    by (auto simp: environment_json_def dest: map_injective)
qed

end
