(* ===== verification/Candidate_Lemmas.thy ===== *)
theory Candidate_Lemmas
  imports Candidate_Builds Publication_Lemmas
begin

text \<open>
  Canonical forms of sources, and what a candidate's entry and the merge of candidates keep of the
  built-in catalog.
\<close>

section \<open>Canonical sources\<close>

lemma lower_byte_fixed:
  assumes "\<not> is_ascii_lowercase d" "\<not> is_ascii_uppercase d"
  shows "lower_byte c = d \<longleftrightarrow> c = d"
proof (cases "is_ascii_uppercase c")
  case True
  then have "is_ascii_lowercase (lower_byte c)"
    using byte_lower [OF True] by (auto simp: is_ascii_uppercase_def is_ascii_lowercase_def)
  then show ?thesis using True assms by auto
qed (simp add: lower_byte_def)

lemma lower_slash: "lower_byte c = CHR ''/'' \<longleftrightarrow> c = CHR ''/''"
  by (rule lower_byte_fixed) (simp_all add: is_ascii_lowercase_def is_ascii_uppercase_def byte_def)

lemma lower_dot: "lower_byte c = CHR ''.'' \<longleftrightarrow> c = CHR ''.''"
  by (rule lower_byte_fixed) (simp_all add: is_ascii_lowercase_def is_ascii_uppercase_def byte_def)

lemma starts_slash: "string_starts_with (x # xs) ''/'' \<longleftrightarrow> x = CHR ''/''"
  by (simp add: string_starts_with_def)

lemma split_lowercase:
  "split_at_first ''/'' (to_ascii_lowercase s) =
     map_option (map_prod to_ascii_lowercase to_ascii_lowercase) (split_at_first ''/'' s)"
proof (induction s)
  case (Cons x s)
  then show ?case
    by (cases "x = CHR ''/''")
      (auto simp: to_ascii_lowercase_def starts_slash lower_slash option.map_comp comp_def
        map_prod_def apfst_def split: option.splits intro!: option.map_cong)
qed (simp add: to_ascii_lowercase_def)

lemma repository_byte_lower:
  "is_ascii_alphanumeric b \<or> b \<in> set ''._-'' \<Longrightarrow>
     is_ascii_alphanumeric (lower_byte b) \<or> lower_byte b \<in> set ''._-''"
proof (cases "is_ascii_alphanumeric b")
  case False
  then have "\<not> is_ascii_uppercase b" by (simp add: is_ascii_alphanumeric_def)
  then have "lower_byte b = b" by (simp add: lower_byte_def)
  then show "is_ascii_alphanumeric b \<or> b \<in> set ''._-'' \<Longrightarrow>
      is_ascii_alphanumeric (lower_byte b) \<or> lower_byte b \<in> set ''._-''" by simp
qed (simp only: alphanumeric_lower simp_thms)

lemma list_all_lower:
  "list_all P s \<Longrightarrow> (\<And>b. P b \<Longrightarrow> P (lower_byte b)) \<Longrightarrow> list_all P (to_ascii_lowercase s)"
  by (simp add: list_all_iff to_ascii_lowercase_def)

lemma dot_lower: "to_ascii_lowercase s = ''.'' \<longleftrightarrow> s = ''.''"
  by (auto simp: to_ascii_lowercase_def map_eq_Cons_conv lower_dot)

lemma dots_lower: "to_ascii_lowercase s = ''..'' \<longleftrightarrow> s = ''..''"
  by (auto simp: to_ascii_lowercase_def map_eq_Cons_conv lower_dot)

lemma is_github_repository_lower:
  assumes "is_github_repository s"
  shows "is_github_repository (to_ascii_lowercase s)"
proof -
  obtain owner repository where parts: "split_at_first ''/'' s = Some (owner, repository)"
    using assms by (auto simp: is_github_repository_def split: option.splits)
  have bytes: "list_all (\<lambda>b. is_ascii_alphanumeric b \<or> b \<in> set ''._-'') (to_ascii_lowercase part)"
    if "list_all (\<lambda>b. is_ascii_alphanumeric b \<or> b \<in> set ''._-'') part" for part
    using that by (rule list_all_lower) (rule repository_byte_lower)
  show ?thesis
    using assms bytes [of owner] bytes [of repository]
    unfolding is_github_repository_def split_lowercase parts option.map option.case prod.case
      map_prod_simp list.pred_inject dot_lower dots_lower length_to_ascii_lowercase
    by blast
qed

definition canonical :: "string \<Rightarrow> candidate_input \<Rightarrow> bool" where
  "canonical repository i \<longleftrightarrow>
     (case i of
        PullRequestInput url \<Rightarrow>
          (\<exists>n. 0 < n \<and> n < 2 ^ 64 \<and> url = github_prefix repository @ ''pull/'' @ decimal n)
      | CommitInput (Some sha) None fork \<Rightarrow>
          full_sha sha = Some sha
          \<and> (case fork of
               None \<Rightarrow> True
             | Some s \<Rightarrow> is_github_repository s \<and> to_ascii_lowercase s = s
                 \<and> \<not> eq_ignore_ascii_case s repository)
      | TagInput tag \<Rightarrow> tag_ok tag
      | BundleInput None commit (Some digest) bases \<Rightarrow>
          full_sha commit = Some commit \<and> is_hex64 digest \<and> to_ascii_lowercase digest = digest
          \<and> sorted bases \<and> distinct bases \<and> (\<forall>sha \<in> set bases. full_sha sha = Some sha)
          \<and> length bases \<le> CANDIDATE_BUNDLE_MAX_PREREQUISITES
      | _ \<Rightarrow> False)"

lemma collect_some_Some: "collect_some xs = Some ys \<longleftrightarrow> xs = map Some ys"
  by (induction xs arbitrary: ys rule: collect_some.induct) auto

lemma parse_unsigned_bound: "parse_unsigned w s = Some n \<Longrightarrow> int n < 2 ^ w"
  by (auto simp: parse_unsigned_def parse_digits_def split: if_splits option.splits)

lemma pull_number_decimal:
  assumes "0 < n" "n < 2 ^ 64"
  shows "pull_number repository (github_prefix repository @ ''pull/'' @ decimal n) = Some n"
proof -
  have "last (decimal n) \<noteq> CHR ''/''"
    using decimal_digits [of "last (decimal n)" n] decimal_nonempty [of n] by (auto simp: byte_def)
  then have "trim_end_matches CHR ''/'' (github_prefix repository @ ''pull/'' @ decimal n)
      = github_prefix repository @ ''pull/'' @ decimal n"
    by (intro trim_end_matches_fixed) (simp add: decimal_nonempty)
  moreover have "strip_prefix (github_prefix repository @ ''pull/'')
      (github_prefix repository @ ''pull/'' @ decimal n) = Some (decimal n)"
    by (simp add: strip_prefix_Some)
  ultimately show ?thesis
    using assms parse_unsigned_decimal [of n 64] by (simp add: pull_number_def)
qed

lemma full_sha_twice: "full_sha s = Some t \<Longrightarrow> full_sha t = Some t"
  by (rule full_sha_idem)

lemma prerequisite_set_Some:
  assumes "prerequisite_set shas = Some bases"
  shows "sorted bases" "distinct bases" "\<forall>sha \<in> set bases. full_sha sha = Some sha"
    "length bases \<le> CANDIDATE_BUNDLE_MAX_PREREQUISITES"
proof -
  obtain xs where xs: "map full_sha shas = map Some xs" "bases = sort (remdups xs)"
      "length bases \<le> CANDIDATE_BUNDLE_MAX_PREREQUISITES"
    using assms by (auto simp: prerequisite_set_def Let_def collect_some_Some split: option.splits if_splits)
  then show "sorted bases" "distinct bases" "length bases \<le> CANDIDATE_BUNDLE_MAX_PREREQUISITES"
    by simp_all
  have "full_sha x = Some x" if x: "x \<in> set xs" for x
  proof -
    have "Some x \<in> set (map full_sha shas)" using x by (simp add: xs(1))
    then show ?thesis using full_sha_twice by auto
  qed
  then show "\<forall>sha \<in> set bases. full_sha sha = Some sha" using xs(2) by simp
qed

lemma prerequisite_set_fixed:
  assumes "sorted bases" "distinct bases" "\<forall>sha \<in> set bases. full_sha sha = Some sha"
    "length bases \<le> CANDIDATE_BUNDLE_MAX_PREREQUISITES"
  shows "prerequisite_set bases = Some bases"
proof -
  have "map full_sha bases = map Some bases" using assms(3) by simp
  then have "collect_some (map full_sha bases) = Some bases" by (simp only: collect_some_Some)
  then show ?thesis
    using assms by (simp add: prerequisite_set_def Let_def distinct_remdups_id sorted_sort_id)
qed

lemma is_hex64_lower: "is_hex64 s \<Longrightarrow> is_hex64 (to_ascii_lowercase s)"
  by (simp add: is_hex64_def hexdigits_lower)

lemma hexdigit_lower_iff: "is_ascii_hexdigit (lower_byte c) \<longleftrightarrow> is_ascii_hexdigit c"
proof (cases "is_ascii_uppercase c")
  case True
  then show ?thesis
    using byte_lower [OF True]
    by (auto simp: is_ascii_hexdigit_def is_ascii_uppercase_def is_ascii_digit_def)
qed (simp add: lower_byte_def)

lemma is_hex64_lower_iff: "is_hex64 (to_ascii_lowercase s) \<longleftrightarrow> is_hex64 s"
  by (simp add: is_hex64_def to_ascii_lowercase_def list_all_iff hexdigit_lower_iff)

lemma fork_of_Inr:
  "fork_of repository source = Inr fork \<Longrightarrow>
     (case fork of
        None \<Rightarrow> True
      | Some s \<Rightarrow> is_github_repository s \<and> to_ascii_lowercase s = s
          \<and> \<not> eq_ignore_ascii_case s repository)"
  by (auto simp: fork_of_def eq_ignore_ascii_case_def is_github_repository_lower
      split: option.splits if_splits)

lemma normalized_canonical:
  assumes "normalized repository i = Inr j"
  shows "canonical repository j"
proof (cases i)
  case (PullRequestInput url)
  then obtain n where n: "pull_number repository url = Some n"
      "j = PullRequestInput (github_prefix repository @ ''pull/'' @ decimal n)"
    using assms by (auto split: option.splits)
  then obtain digits where digits: "parse_unsigned 64 digits = Some n" and "0 < n"
    by (auto simp: pull_number_def split: option.splits if_splits)
  have "int n < 2 ^ 64" using digits by (rule parse_unsigned_bound)
  then have "n < 2 ^ 64" by simp
  then show ?thesis using n(2) \<open>0 < n\<close> by (auto simp: canonical_def)
next
  case (CommitInput sha url source)
  then obtain spelling src sha' fork where "full_sha spelling = Some sha'"
      and fork: "fork_of repository src = Inr fork" and j: "j = CommitInput (Some sha') None fork"
    using assms by (auto simp: and_then_Inr_iff split: option.splits)
  then have "full_sha sha' = Some sha'" using full_sha_twice by blast
  then show ?thesis using fork_of_Inr [OF fork] by (simp add: canonical_def j)
next
  case (TagInput tag)
  then show ?thesis using assms by (auto simp: canonical_def split: if_splits)
next
  case (BundleInput path commit sha256 prerequisites)
  then show ?thesis
    using assms full_sha_twice prerequisite_set_Some is_hex64_lower
    by (auto simp: canonical_def split: option.splits if_splits)
qed

lemma canonical_normalized:
  assumes "canonical repository j"
  shows "normalized repository j = Inr j"
proof (cases j)
  case (PullRequestInput url)
  then show ?thesis using assms pull_number_decimal by (auto simp: canonical_def)
next
  case (CommitInput sha url source)
  then show ?thesis
    using assms
    by (auto simp: canonical_def commit_source_def fork_of_def and_then_def split: option.splits)
next
  case (TagInput tag)
  then show ?thesis using assms by (simp add: canonical_def)
next
  case (BundleInput path commit sha256 prerequisites)
  then show ?thesis
    using assms prerequisite_set_fixed by (auto simp: canonical_def split: option.splits)
qed

section \<open>Spellings\<close>

lemma starts_Cons: "string_starts_with (x # xs) (y # ys) \<longleftrightarrow> x = y \<and> string_starts_with xs ys"
  by (simp add: string_starts_with_def)

lemma starts_Nil: "string_starts_with xs []"
  by (simp add: string_starts_with_def)

lemma commit_url_split:
  assumes "full_sha s = Some t"
  shows "split_at_last ''/commit/'' (repository @ ''/commit/'' @ s) = Some (repository, s)"
proof -
  have s: "CHR ''/'' \<notin> set s"
    using assms by (auto simp: full_sha_def list_all_iff is_ascii_hexdigit_def is_ascii_digit_def
        byte_def split: if_splits)
  have none: "split_at_last ''/commit/'' s = None" using s by (rule split_at_last_absent)
  have "\<not> string_starts_with s ''commit/''" using s by (auto simp: string_starts_with_iff)
  then have "split_at_last ''/commit/'' (''/commit/'' @ s) = Some ([], s)"
    using none by (simp add: starts_Cons starts_Nil)
  then show ?thesis using split_at_last_append [of _ _ "[]" s repository] by simp
qed

lemma commit_spellings:
  assumes "full_sha s = Some t" "is_github_repository fork"
  shows "normalized repository (CommitInput (Some s) None None) = Inr (CommitInput (Some t) None None)"
    "normalized repository (CommitInput (Some s) None (Some fork))
      = Inr (CommitInput (Some t) None
          (if eq_ignore_ascii_case fork repository then None else Some (to_ascii_lowercase fork)))"
    "normalized repository (CommitInput None (Some (''https://github.com/'' @ fork @ ''/commit/'' @ s)) None)
      = normalized repository (CommitInput (Some s) None (Some fork))"
proof -
  have "strip_prefix ''https://github.com/'' (''https://github.com/'' @ fork @ ''/commit/'' @ s)
      = Some (fork @ ''/commit/'' @ s)"
    by (rule strip_prefix_append)
  then have url: "commit_source None (Some (''https://github.com/'' @ fork @ ''/commit/'' @ s)) None
      = Inr (s, Some fork)"
    unfolding commit_source_def prod.case option.case
    by (simp only: bind.bind_lunit commit_url_split [OF assms(1)] option.case prod.case)
  have sha: "commit_source (Some s) None x = Inr (s, x)" for x by (simp add: commit_source_def)
  show "normalized repository (CommitInput (Some s) None None) = Inr (CommitInput (Some t) None None)"
    by (simp add: sha and_then_def assms(1) fork_of_def)
  show "normalized repository (CommitInput (Some s) None (Some fork))
      = Inr (CommitInput (Some t) None
          (if eq_ignore_ascii_case fork repository then None else Some (to_ascii_lowercase fork)))"
    by (simp add: sha and_then_def assms fork_of_def)
  show "normalized repository (CommitInput None (Some (''https://github.com/'' @ fork @ ''/commit/'' @ s)) None)
      = normalized repository (CommitInput (Some s) None (Some fork))"
    unfolding normalized.simps url sha and_then_def sum.case prod.case ..
qed

text \<open>A pull request may be spelt with any text of its number and any slashes after it.\<close>

lemma trim_end_matches_replicate:
  "trim_end_matches c (s @ replicate k c) = trim_end_matches c s"
  by (simp add: trim_end_matches_def dropWhile_append)

lemma parse_unsigned_last:
  assumes "parse_unsigned w s = Some n"
  shows "s \<noteq> [] \<and> is_ascii_digit (last s)"
proof -
  define r where "r = (case strip_prefix ''+'' s of Some r \<Rightarrow> r | None \<Rightarrow> s)"
  have r: "r \<noteq> []" "list_all is_ascii_digit r"
    using assms unfolding parse_unsigned_def parse_digits_def r_def [symmetric]
    by (auto split: if_splits)
  moreover have "r = s \<or> s = CHR ''+'' # r"
    unfolding r_def by (auto split: option.split simp: strip_prefix_Some)
  ultimately show ?thesis using last_in_set [of r] by (auto simp: list_all_iff)
qed

lemma pull_spellings:
  assumes "parse_unsigned 64 digits = Some n" "0 < n"
  shows "normalized repository
      (PullRequestInput (github_prefix repository @ ''pull/'' @ digits @ replicate k CHR ''/''))
    = Inr (PullRequestInput (github_prefix repository @ ''pull/'' @ decimal n))"
proof -
  have digits: "digits \<noteq> []" "last digits \<noteq> CHR ''/''"
    using parse_unsigned_last [OF assms(1)] by (auto simp: is_ascii_digit_def byte_def)
  have "trim_end_matches CHR ''/'' ((github_prefix repository @ ''pull/'' @ digits) @ replicate k CHR ''/'')
      = github_prefix repository @ ''pull/'' @ digits"
    unfolding trim_end_matches_replicate by (rule trim_end_matches_fixed) (simp add: digits)
  moreover have "strip_prefix (github_prefix repository @ ''pull/'')
      (github_prefix repository @ ''pull/'' @ digits) = Some digits"
    by (simp add: strip_prefix_Some)
  ultimately have "pull_number repository
      (github_prefix repository @ ''pull/'' @ digits @ replicate k CHR ''/'') = Some n"
    using assms by (simp add: pull_number_def)
  then show ?thesis unfolding normalized.simps by (simp only: option.case)
qed

text \<open>A bundle is spelt with any letter case of its digests and any list of its prerequisites.\<close>

lemma prerequisite_set_spellings:
  assumes "full_sha ` set ps = full_sha ` set qs"
  shows "prerequisite_set ps = prerequisite_set qs"
proof -
  have "prerequisite_set ps = prerequisite_set qs"
    if same: "full_sha ` set ps = full_sha ` set qs" and xs: "map full_sha ps = map Some xs" for ps qs xs
  proof -
    have image: "full_sha ` set qs = Some ` set xs"
      using same arg_cong [OF xs, of "\<lambda>l. set l"] by simp
    then have "None \<notin> full_sha ` set qs" by auto
    then have "\<forall>x \<in> set qs. full_sha x \<noteq> None" by (metis image_eqI)
    then have ys: "map full_sha qs = map Some (map (the \<circ> full_sha) qs)"
      unfolding map_map by (intro map_cong refl) fastforce
    define ys where "ys = map (the \<circ> full_sha) qs"
    have "Some ` set xs = Some ` set ys"
      using image arg_cong [OF ys, of "\<lambda>l. set l"] by (simp add: ys_def image_image)
    then have "set xs = set ys" by (simp add: inj_image_eq_iff)
    then have "sort (remdups xs) = sort (remdups ys)" by (simp add: sorted_distinct_set_unique)
    moreover have "collect_some (map full_sha ps) = Some xs" "collect_some (map full_sha qs) = Some ys"
      using xs ys unfolding ys_def by (simp_all only: collect_some_Some)
    ultimately show ?thesis by (simp add: prerequisite_set_def)
  qed
  note some = this
  show ?thesis
  proof (cases "collect_some (map full_sha ps)")
    case (Some xs)
    then show ?thesis using some [OF assms] unfolding collect_some_Some by blast
  next
    case none: None
    show ?thesis
    proof (cases "collect_some (map full_sha qs)")
      case (Some ys)
      then show ?thesis using some [OF assms [symmetric]] unfolding collect_some_Some by metis
    qed (use none in \<open>simp add: prerequisite_set_def\<close>)
  qed
qed

lemma bundle_spellings:
  assumes "full_sha commit' = full_sha commit" "to_ascii_lowercase digest' = to_ascii_lowercase digest"
    "full_sha ` set ps' = full_sha ` set ps"
  shows "normalized repository (BundleInput None commit' (Some digest') ps')
    = normalized repository (BundleInput None commit (Some digest) ps)"
proof -
  have hex: "is_hex64 digest' \<longleftrightarrow> is_hex64 digest"
    using is_hex64_lower_iff assms(2) by metis
  show ?thesis
    unfolding normalized.simps prod.case option.case assms(1,2) hex
      prerequisite_set_spellings [OF assms(3)] ..
qed

section \<open>The entry of a candidate\<close>

text \<open>What a candidate's entry shares with the release it is built from.\<close>

definition same_contract :: "catalog_entry \<Rightarrow> catalog_entry \<Rightarrow> bool" where
  "same_contract base e \<longleftrightarrow>
     ce_id e = ce_id base \<and> ce_kind e = ce_kind base \<and> ce_adapter e = ce_adapter base
     \<and> ce_action_adapter e = ce_action_adapter base \<and> ce_config_version e = ce_config_version base
     \<and> ce_schema e = ce_schema base \<and> ce_schema_digest e = ce_schema_digest base
     \<and> ce_control e = ce_control base
     \<and> sm_storage (ce_matrix e) = sm_storage (ce_matrix base)
     \<and> sm_authentication (ce_matrix e) = sm_authentication (ce_matrix base)
     \<and> sm_embedded (ce_matrix e) = sm_embedded (ce_matrix base)
     \<and> sm_wallets (ce_matrix e) = sm_wallets (ce_matrix base)"

lemma same_contract_refl: "same_contract base base"
  by (simp add: same_contract_def)

lemma same_contract_trans: "same_contract a b \<Longrightarrow> same_contract b d \<Longrightarrow> same_contract a d"
  by (simp add: same_contract_def)

lemma bind_processor_contract: "same_contract e (bind_processor rx p e)"
  by (simp add: bind_processor_def same_contract_def Let_def)

lemma bind_processor_keeps [simp]:
  "ce_lifecycle (bind_processor rx p e) = ce_lifecycle e"
  "ce_channel (bind_processor rx p e) = ce_channel e"
  "ce_version (bind_processor rx p e) = ce_version e"
  "ce_image (bind_processor rx p e) = ce_image e"
  "ce_provenance (bind_processor rx p e) = ce_provenance e"
  "ce_endpoints (bind_processor rx p e) = ce_endpoints e"
  by (simp_all add: bind_processor_def Let_def)

lemma bind_processors_Inr:
  assumes "bind_processors rx e = Inr e'"
  shows "same_contract e e'" "ce_lifecycle e' = ce_lifecycle e" "ce_channel e' = ce_channel e"
    "ce_version e' = ce_version e" "ce_image e' = ce_image e" "ce_provenance e' = ce_provenance e"
    "ce_id e \<noteq> ''nutshell'' \<Longrightarrow> e' = e"
proof -
  let ?bound = "bind_processor rx Bark (bind_processor rx LdkServer e)"
  have bound: "same_contract e ?bound"
    using bind_processor_contract same_contract_trans by blast
  show "ce_id e \<noteq> ''nutshell'' \<Longrightarrow> e' = e" using assms by (simp add: bind_processors_def)
  show "same_contract e e'"
    using assms bound
    by (auto simp: bind_processors_def Let_def same_contract_refl split: if_splits list.splits)
      (simp add: same_contract_def)
  show "ce_lifecycle e' = ce_lifecycle e" "ce_channel e' = ce_channel e"
    "ce_version e' = ce_version e" "ce_image e' = ce_image e" "ce_provenance e' = ce_provenance e"
    using assms by (auto simp: bind_processors_def Let_def split: if_splits list.splits)
qed

text \<open>
  The documented exception: a Nutshell mint is also bound to the two processors it can be paid
  through, and to nothing else.
\<close>

definition paid_through :: "processor_profile \<Rightarrow> dependency_support" where
  "paid_through p =
     \<lparr>ds_kind = PaymentBackend, ds_implementation = profile_implementation p,
      ds_versions = {processor_version p}\<rparr>"

definition nutshell_processors :: "processor_profile list" where
  "nutshell_processors = [LdkServer, Bark]"

definition processors_bound :: "recipes \<Rightarrow> catalog_entry \<Rightarrow> catalog_entry \<Rightarrow> bool" where
  "processors_bound rx e e' \<longleftrightarrow>
     ce_dependencies e' = ce_dependencies e @ map paid_through nutshell_processors
     \<and> ce_features e' = ce_features e
         \<union> (\<Union>p \<in> set nutshell_processors. Option.these (for_payment_method ` supported_methods p))
     \<and> sm_backends (ce_matrix e')
         = sm_backends (ce_matrix e) \<union> profile_implementation ` set nutshell_processors
     \<and> sm_methods (ce_matrix e')
         = sm_methods (ce_matrix e) \<union> (\<Union>p \<in> set nutshell_processors. supported_methods p)
     \<and> sm_units (ce_matrix e')
         = sm_units (ce_matrix e) \<union> (\<Union>p \<in> set nutshell_processors. binding_units p (ce_id e))
     \<and> set (sm_bindings (ce_matrix e'))
         = set (sm_bindings (ce_matrix e))
             \<union> (\<Union>p \<in> set nutshell_processors. set (processor_bindings p (ce_id e)))
     \<and> (\<exists>x xs. ce_endpoints e = x # xs
          \<and> ce_endpoints e' = x\<lparr>ep_limitations := ep_limitations x @ [rx_limitation rx]\<rparr> # xs)"

lemma bind_processors_bound:
  assumes "bind_processors rx e = Inr e'" "ce_id e = ''nutshell''"
  shows "processors_bound rx e e'"
proof -
  obtain x xs where x: "ce_endpoints e = x # xs"
    and e': "e' = (bind_processor rx Bark (bind_processor rx LdkServer e))
      \<lparr>ce_endpoints := x\<lparr>ep_limitations := ep_limitations x @ [rx_limitation rx]\<rparr> # xs\<rparr>"
    using assms by (auto simp: bind_processors_def Let_def split: list.splits)
  have id: "ce_id (bind_processor rx LdkServer e) = ce_id e"
    by (simp add: bind_processor_def Let_def)
  show ?thesis
    unfolding processors_bound_def
  proof (intro conjI)
    show "\<exists>x xs. ce_endpoints e = x # xs
        \<and> ce_endpoints e' = x\<lparr>ep_limitations := ep_limitations x @ [rx_limitation rx]\<rparr> # xs"
      using x by (simp add: e')
  qed (auto simp: e' bind_processor_def Let_def nutshell_processors_def paid_through_def
      binding_set_def)
qed

lemma candidate_catalog_entry_Inr:
  assumes "candidate_catalog_entry rx base c = Inr e"
  obtains version img source e' where "cb_phase c = BuildSucceeded" "cb_version c = Some version"
    "cb_image c = Some img" "build_source c = Some source" "cb_base_version c = ce_version base"
    "ce_id base \<in> set (catalog_implementations c)"
    "bind_processors rx (base\<lparr>ce_description := candidate_description base source,
       ce_version := version, ce_channel := Prerelease, ce_lifecycle := Experimental,
       ce_image := img, ce_provenance := None,
       ce_features := packaged_features c (ce_features base)\<rparr>) = Inr e'"
    "e = e'\<lparr>ce_source_digest := candidate_source_digest rx base source img, ce_source := Some source\<rparr>"
  using assms
  by (auto simp: candidate_catalog_entry_def and_then_Inr_iff split: if_splits option.splits)

lemma candidate_entry_contract:
  assumes "candidate_catalog_entry rx base c = Inr e"
  shows "same_contract base e" "ce_lifecycle e = Experimental" "ce_channel e = Prerelease"
    "cb_version c = Some (ce_version e)" "cb_image c = Some (ce_image e)"
    "ce_source e = build_source c" "ce_source e \<noteq> None" "ce_provenance e = None"
    "ce_id base \<noteq> ''nutshell'' \<Longrightarrow> ce_features e = packaged_features c (ce_features base)
       \<and> ce_dependencies e = ce_dependencies base \<and> ce_matrix e = ce_matrix base
       \<and> ce_endpoints e = ce_endpoints base"
    "ce_id base = ''nutshell'' \<Longrightarrow>
       processors_bound rx (base\<lparr>ce_features := packaged_features c (ce_features base)\<rparr>) e"
proof -
  obtain version img source e' where c: "cb_version c = Some version" "cb_image c = Some img"
      "build_source c = Some source"
    and bound: "bind_processors rx (base\<lparr>ce_description := candidate_description base source,
       ce_version := version, ce_channel := Prerelease, ce_lifecycle := Experimental,
       ce_image := img, ce_provenance := None,
       ce_features := packaged_features c (ce_features base)\<rparr>) = Inr e'"
    and e: "e = e'\<lparr>ce_source_digest := candidate_source_digest rx base source img, ce_source := Some source\<rparr>"
    using candidate_catalog_entry_Inr [OF assms] by metis
  note keeps = bind_processors_Inr [OF bound]
  show "same_contract base e" using keeps(1) by (simp add: same_contract_def e)
  show "ce_lifecycle e = Experimental" "ce_channel e = Prerelease"
    "cb_version c = Some (ce_version e)" "cb_image c = Some (ce_image e)"
    "ce_source e = build_source c" "ce_source e \<noteq> None" "ce_provenance e = None"
    using keeps(2-6) c by (simp_all add: e)
  show "ce_id base \<noteq> ''nutshell'' \<Longrightarrow> ce_features e = packaged_features c (ce_features base)
       \<and> ce_dependencies e = ce_dependencies base \<and> ce_matrix e = ce_matrix base
       \<and> ce_endpoints e = ce_endpoints base"
    using keeps(7) by (simp add: e)
  show "ce_id base = ''nutshell'' \<Longrightarrow>
       processors_bound rx (base\<lparr>ce_features := packaged_features c (ce_features base)\<rparr>) e"
    using bind_processors_bound [OF bound] by (simp add: e processors_bound_def)
qed

end
