(* ===== verification/Publication_Examples.thy ===== *)
theory Publication_Examples
  imports Publication_Lemmas "HOL-Library.Countable"
begin

text \<open>
  A small catalog of a chain, a node on it and a mint that pays through the node, with the
  contracts of their backends and a document that uses the chain and the node.
\<close>

section \<open>Contracts\<close>

definition flag_field :: field_contract where
  "flag_field = \<lparr>fc_description = ''d'', fc_kind = KindBoolean, fc_class = AgentAuthorable,
     fc_default = Some (LiteralDefault (JBool True)), fc_enum = [], fc_minimum = None,
     fc_maximum = None, fc_min_length = None, fc_max_length = None, fc_required = True\<rparr>"

definition shop_contract ::
  "string \<Rightarrow> component_kind \<Rightarrow> (string, field_contract) btree \<Rightarrow> backend_contract" where
  "shop_contract i kind fs =
     \<lparr>bc_id = i, bc_kind = kind, bc_config_version = ''v/1'', bc_fields = fs, bc_rules = [],
      bc_ports = [(''rpc'', 8332)], bc_state_contract = ''state/1'',
      bc_mounts = [\<lparr>mt_name = ''data'', mt_path = ''/data'', mt_read_only = False,
                    mt_requirement = RequiredMount, mt_source = StatefulTemplate\<rparr>],
      bc_environment = [], bc_workload = StatefulSetWorkload, bc_storage = [], bc_probe = None\<rparr>"

definition shop_contracts :: "backend_contract list" where
  "shop_contracts =
     [shop_contract ''bitcoin-core'' Bitcoin [(''txindex'', flag_field)],
      shop_contract ''ldk-server'' Lightning [(''gossip'', flag_field)],
      shop_contract ''cdk'' Mint []]"

definition shop_registry :: registry where
  "shop_registry = projr (registry_of shop_contracts)"

section \<open>Entries\<close>

definition empty_matrix :: support_matrix where
  "empty_matrix = \<lparr>sm_storage = {}, sm_methods = {}, sm_backends = {}, sm_units = {},
     sm_bindings = [], sm_embedded = [], sm_authentication = {}, sm_wallets = []\<rparr>"

definition shop_entry ::
  "string \<Rightarrow> component_kind \<Rightarrow> string \<Rightarrow> support_lifecycle \<Rightarrow> catalog_feature set \<Rightarrow>
   dependency_support list \<Rightarrow> support_matrix \<Rightarrow> catalog_entry" where
  "shop_entry i kind version lifecycle features deps m =
     \<lparr>ce_id = i, ce_kind = kind, ce_description = i, ce_adapter = ''a/1'', ce_action_adapter = None,
      ce_version = version, ce_channel = Stable, ce_lifecycle = lifecycle,
      ce_config_version = ''v/1'', ce_schema = JNull, ce_schema_digest = ''digest'',
      ce_features = features, ce_dependencies = deps, ce_matrix = m, ce_endpoints = [],
      ce_image = ''registry/img@sha256:'' @ replicate 64 (CHR ''a''),
      ce_source_digest = ''source'', ce_source = None, ce_provenance = None,
      ce_control = [CellControl]\<rparr>"

definition chain_entry :: "string \<Rightarrow> support_lifecycle \<Rightarrow> catalog_entry" where
  "chain_entry version lifecycle =
     shop_entry ''bitcoin-core'' Bitcoin version lifecycle {FeatureRegtest} [] empty_matrix"

definition node_entry :: catalog_entry where
  "node_entry = shop_entry ''ldk-server'' Lightning ''0.7.0'' Preferred {FeatureBolt11}
     [\<lparr>ds_kind = ChainBackend, ds_implementation = ''bitcoin-core'', ds_versions = {''30.0'', ''31.0''}\<rparr>]
     (empty_matrix\<lparr>sm_methods := {Bolt11}, sm_units := {''sat''}\<rparr>)"

definition mint_entry :: catalog_entry where
  "mint_entry = shop_entry ''cdk'' Mint ''0.18.2'' Preferred {FeatureBolt11, MintManagementRpc}
     [\<lparr>ds_kind = PaymentBackend, ds_implementation = ''ldk-server'', ds_versions = {''0.7.0''}\<rparr>]
     (empty_matrix\<lparr>sm_methods := {Bolt11}, sm_units := {''sat''}, sm_backends := {''ldk-server''},
        sm_bindings := [\<lparr>pb_method = Bolt11, pb_unit = ''sat'',
          pb_backend = \<lparr>vs_implementation = ''ldk-server'', vs_versions = [''0.7.0'']\<rparr>\<rparr>]\<rparr>)"

definition shop_entries :: "catalog_entry list" where
  "shop_entries =
     [chain_entry ''30.0'' Supported, chain_entry ''31.0'' Preferred,
      chain_entry ''29.0'' Deprecated, node_entry, mint_entry]"

definition shop_digest :: "json \<Rightarrow> string" where
  "shop_digest j = ''digest''"

definition shop_catalog :: catalog where
  "shop_catalog =
     \<lparr>ct_api = API_VERSION,
      ct_implementations =
        [\<lparr>im_implementation = ''bitcoin-core'', im_minimum = Some ''30.0'',
          im_preferred = Some ''31.0'', im_supported = {''30.0'', ''31.0''}\<rparr>,
         \<lparr>im_implementation = ''cdk'', im_minimum = Some ''0.18.2'',
          im_preferred = Some ''0.18.2'', im_supported = {''0.18.2''}\<rparr>,
         \<lparr>im_implementation = ''ldk-server'', im_minimum = Some ''0.7.0'',
          im_preferred = Some ''0.7.0'', im_supported = {''0.7.0''}\<rparr>],
      ct_entries = shop_entries\<rparr>"

definition shop :: builtin where
  "shop = \<lparr>bi_registry = shop_registry, bi_float = (\<lambda>_. 0), bi_settings = (\<lambda>_. None),
     bi_digest = shop_digest, bi_lock = (\<lambda>_. JNull), bi_to_vec = (\<lambda>_. Some []),
     bi_print = (\<lambda>_. [])\<rparr>"

lemma shop_registry_sound: "registry_of shop_contracts = Inr shop_registry"
proof -
  have "\<not> isl (registry_of shop_contracts)" by code_simp
  then show ?thesis by (simp add: shop_registry_def)
qed

lemma shop_identities: "identity_loop shop_digest [] shop_entries = Inr ()"
  by code_simp

lemma shop_matrices:
  "list_all (\<lambda>r. validate_support_matrix shop_entries r = Inr ()) shop_entries"
  by code_simp

lemma shop_rows:
  "collect_ok (\<lambda>(i, es). implementation_row i es) (grouped shop_entries)
     = Inr (ct_implementations shop_catalog)"
  by code_simp

lemma shop_catalog_sound: "catalog_of shop_digest shop_entries = Inr shop_catalog"
proof -
  have "each_ok (validate_support_matrix shop_entries) shop_entries = Inr ()"
    using shop_matrices by (simp add: each_ok_iff list_all_iff)
  then have "implementation_support_of shop_digest shop_entries = Inr (ct_implementations shop_catalog)"
    using shop_identities shop_rows by (simp add: implementation_support_of_def and_then_def)
  then show ?thesis by (simp add: catalog_of_def and_then_def shop_catalog_def)
qed

section \<open>A document\<close>

definition shop_component :: "string \<Rightarrow> component_kind \<Rightarrow> string \<Rightarrow> config \<Rightarrow> component_spec" where
  "shop_component i kind implementation cfg =
     \<lparr>c_id = i, c_kind = kind, c_implementation = implementation, c_version = None,
      c_config_version = ''v/1'', c_control = CellControl, c_config = cfg\<rparr>"

definition shop_node :: component_spec where
  "shop_node = shop_component ''node'' Lightning ''ldk-server'' [(''gossip'', JBool False)]"

definition shop_chain :: component_spec where
  "shop_chain = shop_component ''chain'' Bitcoin ''bitcoin-core'' []"

definition shop_link :: link_spec where
  "shop_link = \<lparr>l_id = ''node-chain'', l_kind = ChainBackend, l_from = ''node'', l_to = ''chain'',
     l_binding = Some (BindChain Regtest)\<rparr>"

definition shop_cell :: cell_spec where
  "shop_cell = \<lparr>api_version = API_VERSION, cell_name = ''shop'',
     components = [shop_node, shop_chain], links = [shop_link], policy = default_cell_policy\<rparr>"

definition shop_cell_reversed :: cell_spec where
  "shop_cell_reversed = shop_cell\<lparr>components := [shop_chain, shop_node]\<rparr>"

end
