(* ===== verification/Catalog_Properties.thy ===== *)
theory Catalog_Properties
  imports Publication_Examples
begin

text \<open>
  What a list of entries must satisfy to become the release catalog, what the catalog says of each
  implementation, and what the window of supported releases holds.
\<close>

section \<open>A catalog, declared\<close>

abbreviation entry_identity :: "catalog_entry \<Rightarrow> string \<times> string" where
  "entry_identity r \<equiv> (ce_id r, ce_version r)"

definition identities_ok :: "(json \<Rightarrow> string) \<Rightarrow> catalog_entry list \<Rightarrow> bool" where
  "identities_ok digest entries \<longleftrightarrow>
     distinct (map entry_identity entries)
     \<and> (\<forall>r \<in> set entries. is_sha256_image (ce_image r) \<and> digest (ce_schema r) = ce_schema_digest r)"

definition endpoints_ok :: "catalog_entry \<Rightarrow> bool" where
  "endpoints_ok r \<longleftrightarrow>
     distinct (map ep_id (ce_endpoints r))
     \<and> (\<forall>p \<in> set (ce_endpoints r). \<not> is_blank (ep_id p) \<and> \<not> is_blank (ep_kind p)
          \<and> (\<forall>k \<in> ep_controls p. \<not> is_blank k))
     \<and> eb_backend ` set (sm_embedded (ce_matrix r)) \<subseteq> ep_id ` set (ce_endpoints r)"

definition features_ok :: "catalog_entry \<Rightarrow> bool" where
  "features_ok r \<longleftrightarrow>
     (\<forall>s \<in> sm_storage (ce_matrix r). has_feature r (storage_feature s))
     \<and> (\<forall>m \<in> sm_methods (ce_matrix r). has_feature r (for_payment_method m))
     \<and> (\<forall>a \<in> sm_authentication (ce_matrix r). has_feature r (authentication_feature a))"

text \<open>A release other entries name is in the catalog.\<close>

definition installed :: "catalog_entry list \<Rightarrow> string \<Rightarrow> string \<Rightarrow> (catalog_entry \<Rightarrow> bool) \<Rightarrow> bool" where
  "installed entries i v P \<longleftrightarrow> (\<exists>t \<in> set entries. ce_id t = i \<and> ce_version t = v \<and> P t)"

definition dependencies_ok :: "catalog_entry list \<Rightarrow> catalog_entry \<Rightarrow> bool" where
  "dependencies_ok entries r \<longleftrightarrow>
     (\<forall>d \<in> set (ce_dependencies r). \<forall>v \<in> ds_versions d.
        installed entries (ds_implementation d) v (\<lambda>_. True))
     \<and> (\<forall>backend \<in> sm_backends (ce_matrix r).
          backend \<in> eb_backend ` set (sm_embedded (ce_matrix r)) \<or> payment_dependency r backend \<noteq> None)"

text \<open>
  A payment tuple is served inside a mint or by releases the mint depends on, never by both, and
  every one of those releases serves the method and the unit.
\<close>

definition bindings_ok :: "catalog_entry list \<Rightarrow> catalog_entry \<Rightarrow> bool" where
  "bindings_ok entries r \<longleftrightarrow>
     (\<forall>b \<in> set (sm_bindings (ce_matrix r)).
        vs_versions (pb_backend b) \<noteq> []
        \<and> (\<exists>d. payment_dependency r (vs_implementation (pb_backend b)) = Some d
             \<and> set (vs_versions (pb_backend b)) \<subseteq> ds_versions d)
        \<and> (\<forall>v \<in> set (vs_versions (pb_backend b)).
             installed entries (vs_implementation (pb_backend b)) v
               (\<lambda>t. pb_method b \<in> sm_methods (ce_matrix t) \<and> pb_unit b \<in> sm_units (ce_matrix t))))"

definition embedded_ok :: "catalog_entry \<Rightarrow> bool" where
  "embedded_ok r \<longleftrightarrow>
     (sm_embedded (ce_matrix r) = [] \<or> ce_kind r = Mint)
     \<and> (\<forall>b \<in> set (sm_embedded (ce_matrix r)). \<not> is_blank (eb_backend b)
          \<and> (\<forall>x \<in> set (sm_bindings (ce_matrix r)).
               (pb_method x, pb_unit x, vs_implementation (pb_backend x))
                 \<noteq> (eb_method b, eb_unit b, eb_backend b)))
     \<and> (ce_kind r \<noteq> Mint \<or> exact_projection (ce_matrix r))"

definition wallets_ok :: "catalog_entry list \<Rightarrow> catalog_entry \<Rightarrow> bool" where
  "wallets_ok entries r \<longleftrightarrow>
     (\<forall>w \<in> set (sm_wallets (ce_matrix r)). \<forall>v \<in> set (vs_versions w).
        installed entries (vs_implementation w) v
          (\<lambda>t. ce_kind t = Wallet
             \<and> sm_methods (ce_matrix r) \<inter> sm_methods (ce_matrix t) \<noteq> {}
             \<and> sm_units (ce_matrix r) \<inter> sm_units (ce_matrix t) \<noteq> {}))"

text \<open>
  The releases of one implementation: one is preferred when any is supported, and those supported are
  eligible releases of different families, not more than the window has.
\<close>

definition release_family :: "release_policy \<Rightarrow> catalog_entry \<Rightarrow> (u32 \<times> u32) option" where
  "release_family p r =
     (case parse_release p (ce_version r) of
        None \<Rightarrow> None | Some v \<Rightarrow> if is_eligible p v then Some (family p v) else None)"

definition window_ok :: "release_policy \<Rightarrow> catalog_entry list \<Rightarrow> bool" where
  "window_ok p supported \<longleftrightarrow>
     None \<notin> set (map (release_family p) supported) \<and> distinct (map (release_family p) supported)
     \<and> length supported \<le> rp_families p"

definition releases_ok :: "string \<Rightarrow> catalog_entry list \<Rightarrow> bool" where
  "releases_ok i mine \<longleftrightarrow>
     (let preferred = filter (\<lambda>r. ce_lifecycle r = Preferred) mine;
          supported = filter (\<lambda>r. is_supported (ce_lifecycle r)) mine
      in length preferred \<le> 1 \<and> (supported = [] \<or> length preferred = 1)
         \<and> (case release_policy_of i of None \<Rightarrow> True | Some p \<Rightarrow> window_ok p supported))"

definition catalog_ok :: "(json \<Rightarrow> string) \<Rightarrow> catalog_entry list \<Rightarrow> bool" where
  "catalog_ok digest entries \<longleftrightarrow>
     identities_ok digest entries
     \<and> (\<forall>r \<in> set entries. endpoints_ok r \<and> features_ok r \<and> dependencies_ok entries r
          \<and> embedded_ok r \<and> bindings_ok entries r \<and> wallets_ok entries r
          \<and> releases_ok (ce_id r) (filter (\<lambda>e. ce_id e = ce_id r) entries))"

section \<open>The loops\<close>

lemma identity_loop_iff:
  "identity_loop digest seen entries = Inr u \<longleftrightarrow>
     distinct (map entry_identity entries) \<and> set (map entry_identity entries) \<inter> set seen = {}
     \<and> (\<forall>r \<in> set entries. is_sha256_image (ce_image r) \<and> digest (ce_schema r) = ce_schema_digest r)"
  by (induction digest seen entries rule: identity_loop.induct) auto

lemma identity_loop_ok: "identity_loop digest [] entries = Inr u \<longleftrightarrow> identities_ok digest entries"
  by (simp add: identity_loop_iff identities_ok_def)

lemma endpoint_loop_iff:
  "endpoint_loop ids es = Inr out \<longleftrightarrow>
     distinct (map ep_id es) \<and> set (map ep_id es) \<inter> set ids = {}
     \<and> (\<forall>p \<in> set es. \<not> is_blank (ep_id p) \<and> \<not> is_blank (ep_kind p)
          \<and> (\<forall>k \<in> ep_controls p. \<not> is_blank k))
     \<and> out = rev (map ep_id es) @ ids"
  by (induction ids es rule: endpoint_loop.induct) auto

lemma validate_runtime_endpoints_ok: "validate_runtime_endpoints r = Inr u \<longleftrightarrow> endpoints_ok r"
  by (auto simp: validate_runtime_endpoints_def and_then_Inr_iff endpoint_loop_iff endpoints_ok_def
      list_all_iff)

lemma entry_at_Some:
  assumes "distinct (map entry_identity entries)"
  shows "entry_at entries i v = Some t \<longleftrightarrow> t \<in> set entries \<and> ce_id t = i \<and> ce_version t = v"
  using assms unfolding entry_at_def
  by (induction entries) (auto simp: image_iff)

lemma installed_unique:
  assumes "distinct (map entry_identity entries)" "t \<in> set entries" "ce_id t = i" "ce_version t = v"
  shows "installed entries i v P \<longleftrightarrow> P t"
proof -
  have "s = t" if "s \<in> set entries" "ce_id s = i" "ce_version s = v" for s
    using inj_onD [of entry_identity "set entries" s t] assms that by (simp add: distinct_map)
  then show ?thesis unfolding installed_def using assms(2-4) by blast
qed

lemma tuple_served_ok:
  assumes "distinct (map entry_identity entries)"
  shows "tuple_served entries b v \<longleftrightarrow>
    installed entries (vs_implementation (pb_backend b)) v
      (\<lambda>t. pb_method b \<in> sm_methods (ce_matrix t) \<and> pb_unit b \<in> sm_units (ce_matrix t))"
proof (cases "entry_at entries (vs_implementation (pb_backend b)) v")
  case None
  then have "\<not> (\<exists>t \<in> set entries. ce_id t = vs_implementation (pb_backend b) \<and> ce_version t = v)"
    by (auto simp: entry_at_def find_None_iff)
  then show ?thesis unfolding tuple_served_def None installed_def by auto
next
  case (Some t)
  then have t: "t \<in> set entries" "ce_id t = vs_implementation (pb_backend b)" "ce_version t = v"
    using entry_at_Some [OF assms] by auto
  show ?thesis unfolding tuple_served_def Some installed_unique [OF assms t] by simp
qed

lemma dependency_installed:
  "(entry_at entries i v \<noteq> None) \<longleftrightarrow> installed entries i v (\<lambda>_. True)"
  by (auto simp: entry_at_def installed_def find_None_iff)

lemma validate_wallet_ok:
  assumes "distinct (map entry_identity entries)"
  shows "validate_wallet entries r i v = Inr () \<longleftrightarrow>
    installed entries i v (\<lambda>t. ce_kind t = Wallet
      \<and> sm_methods (ce_matrix r) \<inter> sm_methods (ce_matrix t) \<noteq> {}
      \<and> sm_units (ce_matrix r) \<inter> sm_units (ce_matrix t) \<noteq> {})"
proof (cases "find (\<lambda>w. ce_id w = i \<and> ce_version w = v \<and> ce_kind w = Wallet) entries")
  case None
  then have "\<not> (\<exists>t \<in> set entries. ce_id t = i \<and> ce_version t = v \<and> ce_kind t = Wallet)"
    by (auto simp: find_None_iff)
  then show ?thesis unfolding validate_wallet_def None installed_def by auto
next
  case (Some t)
  then have t: "t \<in> set entries" "ce_id t = i" "ce_version t = v" "ce_kind t = Wallet"
    by (auto dest: find_SomeD)
  show ?thesis unfolding validate_wallet_def Some installed_unique [OF assms t(1-3)]
    using t(4) by simp
qed

lemma validate_embedded_ok:
  "(validate_embedded_payment_bindings r = Inr ()
    \<and> \<not> (ce_kind r = Mint \<and> \<not> exact_projection (ce_matrix r))) \<longleftrightarrow> embedded_ok r"
  by (auto simp: validate_embedded_payment_bindings_def embedded_ok_def each_ok_iff
      validate_embedded_binding_def list_ex_iff)

lemma validate_payment_binding_ok:
  assumes "distinct (map entry_identity entries)"
  shows "validate_payment_binding entries r b = Inr () \<longleftrightarrow>
    vs_versions (pb_backend b) \<noteq> []
    \<and> (\<exists>d. payment_dependency r (vs_implementation (pb_backend b)) = Some d
         \<and> set (vs_versions (pb_backend b)) \<subseteq> ds_versions d)
    \<and> (\<forall>v \<in> set (vs_versions (pb_backend b)).
         installed entries (vs_implementation (pb_backend b)) v
           (\<lambda>t. pb_method b \<in> sm_methods (ce_matrix t) \<and> pb_unit b \<in> sm_units (ce_matrix t)))"
  by (cases "payment_dependency r (vs_implementation (pb_backend b))")
    (simp_all add: validate_payment_binding_def Let_def list_all_iff tuple_served_ok [OF assms])

lemma validate_payment_bindings_ok:
  assumes "distinct (map entry_identity entries)"
  shows "validate_payment_bindings entries r = Inr () \<longleftrightarrow> embedded_ok r \<and> bindings_ok entries r"
  unfolding bindings_ok_def validate_embedded_ok [symmetric]
  using validate_payment_binding_ok [OF assms]
  by (simp add: validate_payment_bindings_def and_then_Inr_iff each_ok_iff)

lemma validate_support_matrix_ok:
  assumes "distinct (map entry_identity entries)"
  shows "validate_support_matrix entries r = Inr () \<longleftrightarrow>
    endpoints_ok r \<and> features_ok r \<and> dependencies_ok entries r \<and> embedded_ok r
    \<and> bindings_ok entries r \<and> wallets_ok entries r"
proof -
  have wallets: "validate_wallet_support entries r = Inr () \<longleftrightarrow> wallets_ok entries r"
    by (simp add: validate_wallet_support_def each_ok_iff wallets_ok_def validate_wallet_ok [OF assms])
  show ?thesis
    unfolding validate_support_matrix_def Let_def and_then_Inr_iff ensure_iff wallets
      validate_payment_bindings_ok [OF assms] validate_runtime_endpoints_ok dependency_installed
    by (auto simp: features_ok_def dependencies_ok_def list_all_iff validate_payment_bindings_ok [OF assms])
qed

lemma family_loop_iff:
  "family_loop p seen es = Inr u \<longleftrightarrow>
     None \<notin> set (map (release_family p) es) \<and> distinct (map (release_family p) es)
     \<and> set (map (release_family p) es) \<inter> Some ` set seen = {}
     \<and> (es = [] \<or> length seen + length es \<le> rp_families p)"
  by (induction p seen es rule: family_loop.induct)
    (auto simp: release_family_def split: option.splits)

section \<open>Rows\<close>

lemma implementation_row_Inr:
  "implementation_row i mine = Inr row \<longleftrightarrow>
     releases_ok i mine
     \<and> row = \<lparr>im_implementation = i,
         im_minimum = map_option ce_version
           (case release_policy_of i of
              None \<Rightarrow> least_by ce_version (filter (\<lambda>r. is_supported (ce_lifecycle r)) mine)
            | Some p \<Rightarrow> least_by (\<lambda>r. parse_release p (ce_version r))
                (filter (\<lambda>r. is_supported (ce_lifecycle r)) mine)),
         im_preferred = (case filter (\<lambda>r. ce_lifecycle r = Preferred) mine of
                           [] \<Rightarrow> None | r # _ \<Rightarrow> Some (ce_version r)),
         im_supported = ce_version ` set (filter (\<lambda>r. is_supported (ce_lifecycle r)) mine)\<rparr>"
proof -
  define preferred where "preferred = filter (\<lambda>r. ce_lifecycle r = Preferred) mine"
  define supported where "supported = filter (\<lambda>r. is_supported (ce_lifecycle r)) mine"
  have count: "\<not> (length preferred > 1 \<or> (preferred = [] \<and> supported \<noteq> [])) \<longleftrightarrow>
      length preferred \<le> 1 \<and> (supported = [] \<or> length preferred = 1)"
    by (cases preferred) auto
  have window: "family_loop p [] supported = Inr () \<longleftrightarrow> window_ok p supported" for p
    by (auto simp: family_loop_iff window_ok_def)
  show ?thesis
    unfolding implementation_row_def releases_ok_def Let_def preferred_def [symmetric]
      supported_def [symmetric] using count window
    by (cases "release_policy_of i") (auto simp: and_then_Inr_iff)
qed

lemma collect_ok_total: "(\<exists>ys. collect_ok f xs = Inr ys) \<longleftrightarrow> (\<forall>x \<in> set xs. \<exists>y. f x = Inr y)"
proof
  assume "\<exists>ys. collect_ok f xs = Inr ys"
  then show "\<forall>x \<in> set xs. \<exists>y. f x = Inr y"
    unfolding collect_ok_iff using list_all2_left by fast
next
  assume "\<forall>x \<in> set xs. \<exists>y. f x = Inr y"
  then have "f x = Inr (projr (f x))" if "x \<in> set xs" for x using that by force
  then have "collect_ok f xs = Inr (map (\<lambda>x. projr (f x)) xs)" by (rule collect_ok_map)
  then show "\<exists>ys. collect_ok f xs = Inr ys" ..
qed

lemma grouped_all:
  "(\<forall>g \<in> set (grouped entries). P g) \<longleftrightarrow>
     (\<forall>r \<in> set entries. P (ce_id r, filter (\<lambda>e. ce_id e = ce_id r) entries))"
  by (auto simp: grouped_def)

lemma catalog_accepts:
  "(\<exists>ct. catalog_of digest entries = Inr ct) \<longleftrightarrow> catalog_ok digest entries"
proof (cases "identities_ok digest entries")
  case True
  then have distinct: "distinct (map entry_identity entries)" by (simp add: identities_ok_def)
  have rows: "(\<exists>rows. collect_ok (\<lambda>(i, es). implementation_row i es) (grouped entries) = Inr rows) \<longleftrightarrow>
      (\<forall>r \<in> set entries. releases_ok (ce_id r) (filter (\<lambda>e. ce_id e = ce_id r) entries))"
    unfolding collect_ok_total grouped_all by (simp add: implementation_row_Inr)
  have "(\<exists>ct. catalog_of digest entries = Inr ct) \<longleftrightarrow>
      (\<forall>r \<in> set entries. validate_support_matrix entries r = Inr ())
      \<and> (\<exists>rows. collect_ok (\<lambda>(i, es). implementation_row i es) (grouped entries) = Inr rows)"
    using True identity_loop_ok [of digest entries]
    by (auto simp: catalog_of_def implementation_support_of_def and_then_Inr_iff each_ok_iff)
  then show ?thesis
    using True unfolding rows catalog_ok_def validate_support_matrix_ok [OF distinct] by blast
next
  case False
  then show ?thesis
    using identity_loop_ok [of digest entries] by (auto simp: catalog_of_Inr catalog_ok_def)
qed

text \<open>
  C35: a list of entries becomes the catalog exactly when it is sound. No release is listed twice;
  every image is pinned by digest and every schema has the digest it is listed with; a release
  claims no storage, payment method or login without the feature for it; the releases it depends on,
  and the wallets it names, are in the list and serve what it says they do; a mint's payment tuples
  are those its bindings give, each served inside it or by releases it depends on; and of each
  implementation at most one release is preferred, exactly one when any is supported, and those
  supported fit the window of its policy. Nothing else is asked: the entries may be in any order
  (\<open>catalog_any_order\<close>), and an implementation with no supported release, be its releases
  experimental or deprecated, needs no preferred one (\<open>catalog_deprecated_only\<close>).
\<close>

theorem catalog_exact:
  "(\<exists>ct. catalog_of digest entries = Inr ct) \<longleftrightarrow> catalog_ok digest entries"
  by (rule catalog_accepts)

text \<open>
  The two places where the code accepts more than the comment on it promises: the order of the
  entries is not checked, and a release that is only deprecated has no preferred one beside it.
\<close>

lemma releases_ok_order:
  assumes "mset xs = mset ys"
  shows "releases_ok i xs \<longleftrightarrow> releases_ok i ys"
proof -
  have some: "length (filter P xs) = length (filter P ys)"
    "distinct (map f (filter P xs)) \<longleftrightarrow> distinct (map f (filter P ys))"
    "set xs = set ys" for P and f :: "catalog_entry \<Rightarrow> (u32 \<times> u32) option"
  proof -
    have m: "mset (filter P xs) = mset (filter P ys)" using assms by simp
    show "length (filter P xs) = length (filter P ys)" using m by (rule mset_eq_length)
    have "mset (map f (filter P xs)) = mset (map f (filter P ys))" using m by simp
    then show "distinct (map f (filter P xs)) \<longleftrightarrow> distinct (map f (filter P ys))"
      by (rule mset_eq_imp_distinct_iff)
    show "set xs = set ys" using assms by (rule mset_eq_setD)
  qed
  have "filter P xs = [] \<longleftrightarrow> filter P ys = []" for P using some(1) by (metis length_0_conv)
  then show ?thesis
    unfolding releases_ok_def window_ok_def Let_def using some by (simp split: option.split)
qed

lemma catalog_any_order:
  assumes "mset entries' = mset entries" "catalog_of digest entries = Inr ct"
  shows "\<exists>ct'. catalog_of digest entries' = Inr ct'"
proof -
  have ok: "catalog_ok digest entries" using assms(2) catalog_accepts by blast
  have set: "set entries' = set entries" using assms(1) by (rule mset_eq_setD)
  have "mset (map entry_identity entries') = mset (map entry_identity entries)" using assms(1) by simp
  then have "distinct (map entry_identity entries') \<longleftrightarrow> distinct (map entry_identity entries)"
    by (rule mset_eq_imp_distinct_iff)
  moreover have "releases_ok i (filter P entries') \<longleftrightarrow> releases_ok i (filter P entries)" for i P
    using assms(1) by (intro releases_ok_order) simp
  ultimately have "catalog_ok digest entries'"
    using ok by (simp add: catalog_ok_def identities_ok_def dependencies_ok_def bindings_ok_def
        wallets_ok_def installed_def set)
  then show ?thesis unfolding catalog_accepts .
qed

lemma catalog_deprecated_only:
  "map_sum id (map im_preferred \<circ> ct_implementations)
     (catalog_of shop_digest [chain_entry ''29.0'' Deprecated]) = Inr [None]"
  by code_simp

section \<open>What the rows say\<close>

definition supported_releases :: "catalog_entry list \<Rightarrow> string \<Rightarrow> catalog_entry set" where
  "supported_releases entries i =
     {r \<in> set entries. ce_id r = i \<and> is_supported (ce_lifecycle r)}"

text \<open>\<open>older\<close> is how the versions of an implementation compare: by its policy, or as texts.\<close>

definition older :: "string \<Rightarrow> string \<Rightarrow> string \<Rightarrow> bool" where
  "older i v w \<longleftrightarrow>
     (case release_policy_of i of
        None \<Rightarrow> v \<le> w | Some p \<Rightarrow> parse_release p v \<le> parse_release p w)"

definition row_ok :: "catalog_entry list \<Rightarrow> implementation_support \<Rightarrow> bool" where
  "row_ok entries row \<longleftrightarrow>
     im_supported row = ce_version ` supported_releases entries (im_implementation row)
     \<and> (\<forall>v. im_preferred row = Some v \<longleftrightarrow>
          (\<exists>r \<in> set entries. ce_id r = im_implementation row \<and> ce_lifecycle r = Preferred
             \<and> ce_version r = v))
     \<and> (case im_minimum row of
          None \<Rightarrow> im_supported row = {}
        | Some v \<Rightarrow> v \<in> im_supported row
            \<and> (\<forall>w \<in> im_supported row. older (im_implementation row) v w))"

lemma least_by_least:
  "case least_by f xs of None \<Rightarrow> xs = [] | Some x \<Rightarrow> x \<in> set xs \<and> (\<forall>y \<in> set xs. f x \<le> f y)"
  by (induction xs) (auto split: option.splits)

lemma preferred_single:
  assumes "length (filter P xs) \<le> 1"
  shows "(case filter P xs of [] \<Rightarrow> None | x # _ \<Rightarrow> Some (f x)) = Some w
      \<longleftrightarrow> (\<exists>x \<in> set xs. P x \<and> f x = w)"
proof (cases "filter P xs")
  case Nil
  then show ?thesis by (auto simp: filter_empty_conv)
next
  case (Cons x ys)
  then have "ys = []" using assms by simp
  then have "filter P xs = [x]" using Cons by simp
  then have "{y \<in> set xs. P y} = {x}" by (metis empty_set list.simps(15) set_filter)
  then show ?thesis using Cons by auto
qed

lemma implementation_row_ok:
  assumes "implementation_row i (filter (\<lambda>e. ce_id e = i) entries) = Inr row"
  shows "row_ok entries row"
proof -
  let ?mine = "filter (\<lambda>e. ce_id e = i) entries"
  let ?supported = "filter (\<lambda>r. is_supported (ce_lifecycle r)) ?mine"
  have one: "length (filter (\<lambda>r. ce_lifecycle r = Preferred) ?mine) \<le> 1"
    using assms unfolding implementation_row_Inr releases_ok_def Let_def by blast
  have supp: "set ?supported = supported_releases entries i"
    by (auto simp: supported_releases_def)
  define least where "least = (case release_policy_of i of
      None \<Rightarrow> least_by ce_version ?supported
    | Some p \<Rightarrow> least_by (\<lambda>r. parse_release p (ce_version r)) ?supported)"
  have least: "case least of None \<Rightarrow> ?supported = []
      | Some r \<Rightarrow> r \<in> set ?supported
          \<and> (\<forall>s \<in> set ?supported. older i (ce_version r) (ce_version s))"
  proof (cases "release_policy_of i")
    case None
    show ?thesis unfolding least_def older_def None option.case by (rule least_by_least)
  next
    case (Some p)
    show ?thesis unfolding least_def older_def Some option.case by (rule least_by_least)
  qed
  have row: "im_implementation row = i" "im_minimum row = map_option ce_version least"
    "im_preferred row = (case filter (\<lambda>r. ce_lifecycle r = Preferred) ?mine of
                           [] \<Rightarrow> None | r # _ \<Rightarrow> Some (ce_version r))"
    "im_supported row = ce_version ` set ?supported"
    using assms unfolding implementation_row_Inr least_def by simp_all
  have "im_preferred row = Some v \<longleftrightarrow>
      (\<exists>r \<in> set entries. ce_id r = i \<and> ce_lifecycle r = Preferred \<and> ce_version r = v)" for v
    using preferred_single [OF one, where f = ce_version and w = v] unfolding row(3) by auto
  moreover have "case im_minimum row of None \<Rightarrow> im_supported row = {}
      | Some v \<Rightarrow> v \<in> im_supported row \<and> (\<forall>w \<in> im_supported row. older i v w)"
    using least unfolding row(2,4) by (cases least) auto
  ultimately show ?thesis unfolding row_ok_def row(1) using row(4) supp by simp
qed

lemma catalog_rows:
  assumes "catalog_of digest entries = Inr ct"
  shows "map im_implementation (ct_implementations ct) = sort (remdups (map ce_id entries))"
    "\<forall>row \<in> set (ct_implementations ct). row_ok entries row"
proof -
  obtain rows where rows: "list_all2 (\<lambda>g row. implementation_row (fst g) (snd g) = Inr row)
      (grouped entries) rows" "ct_implementations ct = rows"
    using assms by (auto simp: catalog_of_Inr)
  have "map im_implementation rows = map fst (grouped entries)"
    using rows(1) by (induction rule: list_all2_induct) (auto simp: implementation_row_Inr)
  then show "map im_implementation (ct_implementations ct) = sort (remdups (map ce_id entries))"
    by (simp add: rows(2) grouped_def comp_def)
  have "row_ok entries row" if "row \<in> set rows" for row
  proof -
    obtain g where g: "g \<in> set (grouped entries)" "implementation_row (fst g) (snd g) = Inr row"
      using list_all2_right [OF rows(1) \<open>row \<in> set rows\<close>] by blast
    have "snd g = filter (\<lambda>e. ce_id e = fst g) entries" using g(1) by (auto simp: grouped_def)
    then show ?thesis using g(2) implementation_row_ok by simp
  qed
  then show "\<forall>row \<in> set (ct_implementations ct). row_ok entries row" by (simp add: rows(2))
qed

lemma select_preferred:
  assumes "catalog_of digest entries = Inr ct" "c_version c = None"
  shows "select_entry c ct = Inr r \<longleftrightarrow>
    r \<in> set entries \<and> ce_id r = c_implementation c \<and> ce_lifecycle r = Preferred"
proof -
  let ?mine = "filter (\<lambda>e. ce_id e = c_implementation c) entries"
  let ?preferred = "filter (\<lambda>e. ce_lifecycle e = Preferred) ?mine"
  have ok: "catalog_ok digest entries" using assms(1) catalog_accepts by blast
  have "length ?preferred \<le> 1"
  proof (cases "?mine = []")
    case False
    then obtain s where "s \<in> set entries" "ce_id s = c_implementation c"
      by (auto simp: filter_empty_conv)
    then have "releases_ok (c_implementation c) ?mine" using ok by (auto simp: catalog_ok_def)
    then show ?thesis by (simp add: releases_ok_def Let_def)
  qed simp
  then have one: "?preferred = [s] \<longleftrightarrow> s \<in> set ?preferred" for s
    by (cases ?preferred) auto
  have "select_entry c ct = Inr r \<longleftrightarrow> ?preferred = [r]"
  proof (cases "?mine = []")
    case True
    then have "?preferred = []" by (simp only: filter.simps)
    then show ?thesis
      using True catalog_of_entries [OF assms(1)] by (simp add: select_entry_def del: filter_filter)
  next
    case False
    then show ?thesis
      using assms(2) catalog_of_entries [OF assms(1)]
      by (simp add: select_entry_def Let_def del: filter_filter split: list.split)
  qed
  then show ?thesis unfolding one by auto
qed

text \<open>
  the catalog tells for each implementation, once and in order, which releases it supports, the
  oldest of them, and the one that is preferred; and a component that names no version gets the
  preferred release of its implementation, whatever else is installed, and none when there is none.
\<close>

theorem catalog_describes_releases:
  assumes "catalog_of digest entries = Inr ct"
  shows "map im_implementation (ct_implementations ct) = sort (remdups (map ce_id entries))
    \<and> (\<forall>row \<in> set (ct_implementations ct). row_ok entries row)
    \<and> (\<forall>c r. c_version c = None \<longrightarrow>
         (select_entry c ct = Inr r \<longleftrightarrow>
            r \<in> set entries \<and> ce_id r = c_implementation c \<and> ce_lifecycle r = Preferred))"
  using catalog_rows [OF assms] select_preferred [OF assms] by blast

theorem catalog_describes_releases_witness:
  "select_entry shop_chain shop_catalog = Inr (chain_entry ''31.0'' Preferred)
   \<and> map im_implementation (ct_implementations shop_catalog) = [''bitcoin-core'', ''cdk'', ''ldk-server'']"
  using catalog_describes_releases [OF shop_catalog_sound]
  by (simp add: shop_chain_def shop_component_def shop_entries_def chain_entry_def shop_entry_def
      shop_catalog_def)

section \<open>The support window\<close>

text \<open>
  What a window is: releases of different families, each the newest eligible of its family, the
  newest families first and not more than the policy's, and no newer family left out.
\<close>

definition is_window :: "release_policy \<Rightarrow> string list \<Rightarrow> (release_version \<times> string) list \<Rightarrow> bool" where
  "is_window p tags w \<longleftrightarrow>
     length w \<le> rp_families p
     \<and> sorted_wrt (>) (map (family p \<circ> fst) w)
     \<and> (\<forall>r \<in> set w. newest_of p tags (family p (fst r)) r)
     \<and> (\<forall>v tag. eligible_release p tags v tag \<longrightarrow>
          family p v \<in> set (map (family p \<circ> fst) w)
          \<or> (length w = rp_families p \<and> (\<forall>r \<in> set w. family p v < family p (fst r))))"

lemma collected_at:
  "collected p tags m \<Longrightarrow>
     (case bt_get m f of
        None \<Rightarrow> \<forall>u other. eligible_release p tags u other \<longrightarrow> family p u \<noteq> f
      | Some r \<Rightarrow> newest_of p tags f r)"
  unfolding collected_def by blast

lemma collected_families:
  assumes "collected p tags m" "(f, r) \<in> set m"
  shows "newest_of p tags f r" "family p (fst r) = f"
proof -
  have "bt_get m f = Some r" using assms by (simp add: collected_def bt_get_iff)
  then show "newest_of p tags f r" using collected_at [OF assms(1), of f] by simp
  then show "family p (fst r) = f" by (simp add: newest_of_def)
qed

text \<open>
  C36: the proposed window of an implementation is its support window, whatever tags the upstream
  project has and in whatever order they are listed: at most as many releases as its policy has
  families, the newest eligible release of each of the newest families, the newest family first.
\<close>

theorem proposed_window_newest:
  "\<exists>w. proposed_window p tags = map snd w \<and> is_window p tags w"
proof -
  define m where "m = collect_families p tags []"
  have m: "collected p tags m" unfolding m_def by (rule collected_all)
  define w where "w = map snd (take (rp_families p) (rev m))"
  have fam: "map (family p \<circ> fst) w = take (rp_families p) (rev (map fst m))"
  proof -
    have "(family p \<circ> fst) (snd kv) = fst kv" if "kv \<in> set (take (rp_families p) (rev m))" for kv
      using that collected_families(2) [OF m, of "fst kv" "snd kv"] set_take_subset by fastforce
    then show ?thesis by (simp add: w_def take_map rev_map)
  qed
  have sorted: "sorted_wrt (>) (rev (map fst m))"
    using m by (simp add: collected_def bt_wf_def sorted_wrt_rev)
  have "newest_of p tags (family p (fst r)) r" if r: "r \<in> set w" for r
  proof -
    obtain f where "(f, r) \<in> set m" using r set_take_subset by (fastforce simp: w_def)
    then show ?thesis using collected_families [OF m] by metis
  qed
  moreover have "family p v \<in> set (map (family p \<circ> fst) w)
      \<or> (length w = rp_families p \<and> (\<forall>r \<in> set w. family p v < family p (fst r)))"
    if rel: "eligible_release p tags v tag" for v tag
  proof -
    obtain r where "bt_get m (family p v) = Some r"
      using collected_at [OF m, of "family p v"] rel by (cases "bt_get m (family p v)") auto
    then have at: "family p v \<in> set (rev (map fst m))"
      using m by (force simp: collected_def bt_get_iff)
    let ?fs = "rev (map fst m)" and ?n = "rp_families p"
    have split: "sorted_wrt (>) (take ?n ?fs @ drop ?n ?fs)" using sorted by simp
    show ?thesis
    proof (cases "family p v \<in> set (take ?n ?fs)")
      case False
      then have late: "family p v \<in> set (drop ?n ?fs)"
        using at by (metis Un_iff append_take_drop_id set_append)
      then have "?n < length ?fs" by (metis drop_all empty_iff empty_set not_less)
      then have "length w = ?n" by (simp add: w_def)
      moreover have "family p v < g" if "g \<in> set (take ?n ?fs)" for g
        using split late that by (auto simp only: sorted_wrt_append)
      ultimately show ?thesis using fam by (metis comp_apply image_eqI list.set_map)
    qed (simp add: fam)
  qed
  moreover have "proposed_window p tags = map snd w"
    by (simp add: proposed_window_def m_def w_def comp_def case_prod_beta)
  moreover have "length w \<le> rp_families p" by (simp add: w_def)
  moreover have "sorted_wrt (>) (map (family p \<circ> fst) w)"
    unfolding fam using sorted by (rule sorted_wrt_take)
  ultimately show ?thesis unfolding is_window_def by blast
qed

end
