(* ===== verification/Candidate_Properties.thy ===== *)
theory Candidate_Properties
  imports Candidate_Lemmas Catalog_Properties
begin

text \<open>
  Sources have one canonical form, a candidate's entry stays within the contract of the release it
  is built from, and merging candidates never changes what the catalog offers by default.
\<close>

section \<open>Sources\<close>

text \<open>
  C38: a source that is accepted is identified by its canonical form. What normalization returns is
  canonical and every canonical source is its own normalization, so it is idempotent. A commit has
  one form whether it is named by its SHA and a repository or by its URL: the repository is left out
  when it is the canonical one, in any letter case, and is kept in lower case when it is a fork, so
  that a fork's commit is never taken for the canonical one. A pull request has one form for all texts
  of its number and any slashes after it, and a bundle for any letter case of its digests and any
  list of the same prerequisites.
\<close>

theorem source_identity:
  assumes "full_sha s = Some t" "is_github_repository fork"
  shows "((\<exists>i. normalized repository i = Inr j) \<longleftrightarrow> canonical repository j)
    \<and> (canonical repository j \<longleftrightarrow> normalized repository j = Inr j)
    \<and> normalized repository (CommitInput (Some s) None None) = Inr (CommitInput (Some t) None None)
    \<and> normalized repository (CommitInput (Some s) None (Some fork))
        = Inr (CommitInput (Some t) None
            (if eq_ignore_ascii_case fork repository then None else Some (to_ascii_lowercase fork)))
    \<and> normalized repository
          (CommitInput None (Some (''https://github.com/'' @ fork @ ''/commit/'' @ s)) None)
        = Inr (CommitInput (Some t) None
            (if eq_ignore_ascii_case fork repository then None else Some (to_ascii_lowercase fork)))
    \<and> (\<forall>digits n k. parse_unsigned 64 digits = Some n \<and> 0 < n \<longrightarrow>
         normalized repository
           (PullRequestInput (github_prefix repository @ ''pull/'' @ digits @ replicate k CHR ''/''))
         = Inr (PullRequestInput (github_prefix repository @ ''pull/'' @ decimal n)))
    \<and> (\<forall>commit commit' digest digest' ps ps'.
         full_sha commit' = full_sha commit \<and> to_ascii_lowercase digest' = to_ascii_lowercase digest
         \<and> full_sha ` set ps' = full_sha ` set ps \<longrightarrow>
         normalized repository (BundleInput None commit' (Some digest') ps')
         = normalized repository (BundleInput None commit (Some digest) ps))"
proof -
  note commits = commit_spellings [OF assms, of repository]
  have accepted: "(\<exists>i. normalized repository i = Inr j) \<longleftrightarrow> canonical repository j"
    and fixed: "canonical repository j \<longleftrightarrow> normalized repository j = Inr j"
    using normalized_canonical canonical_normalized by blast+
  show ?thesis
    by (intro conjI allI impI; (elim conjE)?)
      (rule accepted fixed commits(1,2) trans [OF commits(3,2)]
        | (rule pull_spellings bundle_spellings; assumption))+
qed

theorem source_identity_witness:
  "normalized ''cashubtc/cdk'' (CommitInput (Some (replicate 40 CHR ''A'')) None (Some ''CashuBTC/cdk''))
     = Inr (CommitInput (Some (replicate 40 CHR ''a'')) None None)
   \<and> normalized ''cashubtc/cdk''
       (CommitInput None (Some (''https://github.com/'' @ ''Ann/cdk'' @ ''/commit/'' @ replicate 40 CHR ''A'')) None)
     = Inr (CommitInput (Some (replicate 40 CHR ''a'')) None (Some ''ann/cdk''))"
proof -
  have facts: "full_sha (replicate 40 CHR ''A'') = Some (replicate 40 CHR ''a'')"
    "is_github_repository ''CashuBTC/cdk''" "eq_ignore_ascii_case ''CashuBTC/cdk'' ''cashubtc/cdk''"
    "is_github_repository ''Ann/cdk''" "\<not> eq_ignore_ascii_case ''Ann/cdk'' ''cashubtc/cdk''"
    by code_simp+
  have lower: "to_ascii_lowercase ''Ann/cdk'' = ''ann/cdk''" by code_simp
  have "normalized ''cashubtc/cdk'' (CommitInput (Some (replicate 40 CHR ''A'')) None (Some ''CashuBTC/cdk''))
      = Inr (CommitInput (Some (replicate 40 CHR ''a'')) None None)"
    by (rule source_identity [OF facts(1,2), of "''cashubtc/cdk''", unfolded if_P [OF facts(3)],
        THEN conjunct2, THEN conjunct2, THEN conjunct2, THEN conjunct1])
  moreover have "normalized ''cashubtc/cdk''
      (CommitInput None (Some (''https://github.com/'' @ ''Ann/cdk'' @ ''/commit/'' @ replicate 40 CHR ''A'')) None)
      = Inr (CommitInput (Some (replicate 40 CHR ''a'')) None (Some ''ann/cdk''))"
    by (rule source_identity [OF facts(1,4), of "''cashubtc/cdk''", unfolded if_not_P [OF facts(5)] lower,
        THEN conjunct2, THEN conjunct2, THEN conjunct2, THEN conjunct2, THEN conjunct1])
  ultimately show ?thesis ..
qed

section \<open>Bundles\<close>

text \<open>The source made from a bundle is canonical and carries the digest of the whole file.\<close>

lemma bundle_identity:
  assumes "from_bundle sha256 bytes commit = Inr i"
  shows "canonical [] i \<and> length bytes \<le> CANDIDATE_BUNDLE_MAX_BYTES
    \<and> (\<exists>head bases. i = BundleInput None head (Some (to_ascii_lowercase (sha256 bytes))) bases
         \<and> full_sha commit = Some head)"
proof -
  obtain head bases where norm: "normalized [] (BundleInput None head (Some (sha256 bytes)) bases) = Inr i"
      and head: "full_sha commit = Some head" and size: "length bytes \<le> CANDIDATE_BUNDLE_MAX_BYTES"
    using assms
    by (auto simp: from_bundle_def and_then_Inr_iff simp del: normalized.simps
        split: if_splits option.splits list.splits prod.splits)
  have "full_sha head = Some head" using head by (rule full_sha_idem)
  then obtain bases' where "i = BundleInput None head (Some (to_ascii_lowercase (sha256 bytes))) bases'"
    using norm by (auto split: option.splits if_splits)
  then show ?thesis using normalized_canonical [OF norm] head size by blast
qed

section \<open>The entry of a candidate\<close>


section \<open>The merge\<close>

text \<open>
  What merging the builds \<open>cs\<close> may do to the versions of an implementation that an entry names:
  nothing is taken away; what is added is the version of a build that serves the implementation and
  is based on a version named here; and every such build is added.
\<close>

definition versions_grow :: "candidate_build list \<Rightarrow> string \<Rightarrow> string set \<Rightarrow> string set \<Rightarrow> bool" where
  "versions_grow cs i A B \<longleftrightarrow>
     A \<subseteq> B
     \<and> (\<forall>v \<in> B - A. \<exists>c \<in> set cs. i \<in> set (catalog_implementations c) \<and> cb_version c = Some v
          \<and> cb_base_version c \<in> B)
     \<and> (\<forall>c \<in> set cs. \<forall>v. i \<in> set (catalog_implementations c) \<and> cb_version c = Some v
          \<and> cb_base_version c \<in> A \<longrightarrow> v \<in> B)"

definition wider_dependency ::
  "candidate_build list \<Rightarrow> dependency_support \<Rightarrow> dependency_support \<Rightarrow> bool" where
  "wider_dependency cs d d' \<longleftrightarrow>
     d' = d\<lparr>ds_versions := ds_versions d'\<rparr>
     \<and> versions_grow cs (ds_implementation d) (ds_versions d) (ds_versions d')"

definition wider_support :: "candidate_build list \<Rightarrow> version_support \<Rightarrow> version_support \<Rightarrow> bool" where
  "wider_support cs w w' \<longleftrightarrow>
     w' = w\<lparr>vs_versions := vs_versions w'\<rparr>
     \<and> versions_grow cs (vs_implementation w) (set (vs_versions w)) (set (vs_versions w'))"

definition wider_binding ::
  "candidate_build list \<Rightarrow> payment_binding_support \<Rightarrow> payment_binding_support \<Rightarrow> bool" where
  "wider_binding cs b b' \<longleftrightarrow>
     b' = b\<lparr>pb_backend := pb_backend b'\<rparr> \<and> wider_support cs (pb_backend b) (pb_backend b')"

text \<open>An entry apart from its dependencies, its payment bindings and its wallets.\<close>

definition core :: "catalog_entry \<Rightarrow> catalog_entry" where
  "core e = e\<lparr>ce_dependencies := [], ce_matrix := (ce_matrix e)\<lparr>sm_bindings := [], sm_wallets := []\<rparr>\<rparr>"

definition extends :: "candidate_build list \<Rightarrow> catalog_entry \<Rightarrow> catalog_entry \<Rightarrow> bool" where
  "extends cs r e \<longleftrightarrow>
     core e = core r
     \<and> list_all2 (wider_dependency cs) (ce_dependencies r) (ce_dependencies e)
     \<and> list_all2 (wider_support cs) (sm_wallets (ce_matrix r)) (sm_wallets (ce_matrix e))
     \<and> rel_set (wider_binding cs) (set (sm_bindings (ce_matrix r))) (set (sm_bindings (ce_matrix e)))"

lemma versions_grow_refl: "versions_grow [] i A A"
  by (simp add: versions_grow_def)

lemma versions_grow_append:
  assumes "versions_grow cs i A B" "versions_grow ds i B C"
  shows "versions_grow (cs @ ds) i A C"
proof -
  have sub: "A \<subseteq> B" "B \<subseteq> C" using assms by (simp_all add: versions_grow_def)
  have new: "\<exists>c \<in> set (cs @ ds). i \<in> set (catalog_implementations c) \<and> cb_version c = Some v
      \<and> cb_base_version c \<in> C" if "v \<in> C" "v \<notin> A" for v
  proof (cases "v \<in> B")
    case True
    then have "v \<in> B - A" using that by simp
    then obtain c where "c \<in> set cs" "i \<in> set (catalog_implementations c)" "cb_version c = Some v"
        "cb_base_version c \<in> B"
      using assms(1) unfolding versions_grow_def by blast
    then show ?thesis using sub(2) by auto
  next
    case False
    then have "v \<in> C - B" using that by simp
    then obtain c where "c \<in> set ds" "i \<in> set (catalog_implementations c)" "cb_version c = Some v"
        "cb_base_version c \<in> C"
      using assms(2) unfolding versions_grow_def by blast
    then show ?thesis by auto
  qed
  moreover have "v \<in> C" if "c \<in> set (cs @ ds)" "i \<in> set (catalog_implementations c)"
    "cb_version c = Some v" "cb_base_version c \<in> A" for c v
    using assms that sub unfolding versions_grow_def by auto
  ultimately show ?thesis using sub unfolding versions_grow_def by blast
qed

lemma versions_grow_insert:
  assumes "cb_version c = Some v"
  shows "versions_grow [c] i A
    (if i \<in> set (catalog_implementations c) \<and> cb_base_version c \<in> A then insert v A else A)"
  using assms by (auto simp: versions_grow_def)

lemma wider_dependency_append:
  assumes "wider_dependency cs a b" "wider_dependency ds b d"
  shows "wider_dependency (cs @ ds) a d"
  using assms versions_grow_append
  by (cases a; cases b; cases d) (auto simp: wider_dependency_def)

lemma wider_support_append:
  assumes "wider_support cs a b" "wider_support ds b d"
  shows "wider_support (cs @ ds) a d"
  using assms versions_grow_append
  by (cases a; cases b; cases d) (auto simp: wider_support_def)

lemma wider_binding_append:
  assumes "wider_binding cs a b" "wider_binding ds b d"
  shows "wider_binding (cs @ ds) a d"
  using assms wider_support_append
  by (cases a; cases b; cases d) (auto simp: wider_binding_def)

lemma list_all2_then:
  assumes "\<And>a b c. P a b \<Longrightarrow> Q b c \<Longrightarrow> R a c" "list_all2 P xs ys" "list_all2 Q ys zs"
  shows "list_all2 R xs zs"
  using assms(2,3)
  by (induction arbitrary: zs rule: list_all2_induct) (auto simp: list_all2_Cons1 intro: assms(1))

lemma rel_set_then:
  assumes "rel_set P A B" "rel_set Q B C" "\<And>a b c. P a b \<Longrightarrow> Q b c \<Longrightarrow> R a c"
  shows "rel_set R A C"
proof (rule rel_setI)
  fix a assume "a \<in> A"
  then obtain b where "b \<in> B" "P a b" using rel_setD1 [OF assms(1)] by blast
  moreover then obtain c where "c \<in> C" "Q b c" using rel_setD1 [OF assms(2)] by blast
  ultimately show "\<exists>c \<in> C. R a c" using assms(3) by blast
next
  fix c assume "c \<in> C"
  then obtain b where "b \<in> B" "Q b c" using rel_setD2 [OF assms(2)] by blast
  moreover then obtain a where "a \<in> A" "P a b" using rel_setD2 [OF assms(1)] by blast
  ultimately show "\<exists>a \<in> A. R a c" using assms(3) by blast
qed

lemma extends_refl: "extends [] r r"
proof -
  have "wider_dependency [] d d" "wider_support [] w w" "wider_binding [] b b" for d w b
    by (simp_all add: wider_dependency_def wider_support_def wider_binding_def versions_grow_refl)
  then show ?thesis by (auto simp: extends_def list.rel_refl rel_set_def)
qed

lemma extends_append:
  assumes "extends cs a b" "extends ds b d"
  shows "extends (cs @ ds) a d"
proof -
  have "list_all2 (wider_dependency (cs @ ds)) (ce_dependencies a) (ce_dependencies d)"
  proof (rule list_all2_then)
    show "list_all2 (wider_dependency cs) (ce_dependencies a) (ce_dependencies b)"
      "list_all2 (wider_dependency ds) (ce_dependencies b) (ce_dependencies d)"
      using assms by (simp_all add: extends_def)
  qed (rule wider_dependency_append)
  moreover have "list_all2 (wider_support (cs @ ds)) (sm_wallets (ce_matrix a)) (sm_wallets (ce_matrix d))"
  proof (rule list_all2_then)
    show "list_all2 (wider_support cs) (sm_wallets (ce_matrix a)) (sm_wallets (ce_matrix b))"
      "list_all2 (wider_support ds) (sm_wallets (ce_matrix b)) (sm_wallets (ce_matrix d))"
      using assms by (simp_all add: extends_def)
  qed (rule wider_support_append)
  moreover have "rel_set (wider_binding (cs @ ds)) (set (sm_bindings (ce_matrix a)))
      (set (sm_bindings (ce_matrix d)))"
  proof (rule rel_set_then)
    show "rel_set (wider_binding cs) (set (sm_bindings (ce_matrix a))) (set (sm_bindings (ce_matrix b)))"
      "rel_set (wider_binding ds) (set (sm_bindings (ce_matrix b))) (set (sm_bindings (ce_matrix d)))"
      using assms by (simp_all add: extends_def)
  qed (rule wider_binding_append)
  moreover have "core d = core a" using assms by (simp add: extends_def)
  ultimately show ?thesis unfolding extends_def by blast
qed

lemma extend_dependency_wider:
  assumes "cb_version c = Some v"
  shows "wider_dependency [c] d (extend_dependency (catalog_implementations c) (cb_base_version c) v d)"
  using versions_grow_insert [OF assms, of "ds_implementation d" "ds_versions d"]
  by (auto simp: wider_dependency_def extend_dependency_def)

lemma extend_version_wider:
  assumes "cb_version c = Some v"
  shows "wider_support [c] w (extend_version (catalog_implementations c) (cb_base_version c) v w)"
proof -
  have "set (vs_versions (extend_version (catalog_implementations c) (cb_base_version c) v w))
      = (if vs_implementation w \<in> set (catalog_implementations c)
           \<and> cb_base_version c \<in> set (vs_versions w)
         then insert v (set (vs_versions w)) else set (vs_versions w))"
    by (auto simp: extend_version_def set_insort_key)
  moreover have "extend_version (catalog_implementations c) (cb_base_version c) v w
      = w\<lparr>vs_versions := vs_versions (extend_version (catalog_implementations c) (cb_base_version c) v w)\<rparr>"
    by (simp add: extend_version_def)
  ultimately show ?thesis
    using versions_grow_insert [OF assms, of "vs_implementation w" "set (vs_versions w)"]
    unfolding wider_support_def by simp
qed

lemma extends_entry:
  assumes "cb_version c = Some v"
  shows "extends [c] r (extend_entry (catalog_implementations c) (cb_base_version c) v r)"
proof -
  let ?x = "extend_entry (catalog_implementations c) (cb_base_version c) v r"
  let ?w = "extend_version (catalog_implementations c) (cb_base_version c) v"
  have bindings: "set (sm_bindings (ce_matrix ?x))
      = (\<lambda>b. b\<lparr>pb_backend := ?w (pb_backend b)\<rparr>) ` set (sm_bindings (ce_matrix r))"
    by (simp add: extend_entry_def Let_def binding_set_def)
  have "wider_binding [c] b (b\<lparr>pb_backend := ?w (pb_backend b)\<rparr>)" for b
    using extend_version_wider [OF assms] by (simp add: wider_binding_def)
  then have "rel_set (wider_binding [c]) (set (sm_bindings (ce_matrix r))) (set (sm_bindings (ce_matrix ?x)))"
    unfolding bindings rel_set_def by blast
  moreover have "core ?x = core r"
    by (simp add: core_def extend_entry_def Let_def)
  moreover have "list_all2 (wider_dependency [c]) (ce_dependencies r) (ce_dependencies ?x)"
    "list_all2 (wider_support [c]) (sm_wallets (ce_matrix r)) (sm_wallets (ce_matrix ?x))"
    by (simp_all add: extend_entry_def Let_def list.rel_map list.rel_refl extend_dependency_wider
        extend_version_wider assms)
  ultimately show ?thesis by (simp add: extends_def)
qed

lemma extend_entries_Inr:
  "extend_entries cs entries = Inr out \<Longrightarrow> list_all2 (extends cs) entries out"
proof (induction cs entries rule: extend_entries.induct)
  case (1 entries)
  then show ?case by (simp add: list.rel_refl extends_refl)
next
  case (2 c cs entries)
  then obtain v where v: "cb_version c = Some v"
      "list_all2 (extends cs) (map (extend_entry (catalog_implementations c) (cb_base_version c) v) entries) out"
    by (auto split: option.splits)
  have "list_all2 (extends [c]) entries
      (map (extend_entry (catalog_implementations c) (cb_base_version c) v) entries)"
    by (simp add: list.rel_map list.rel_refl extends_entry v(1))
  then have "list_all2 (extends ([c] @ cs)) entries out"
    using v(2) by (rule list_all2_then [rotated]) (rule extends_append)
  then show ?case by simp
qed

lemma extends_same:
  assumes "extends cs r e"
  shows "ce_id e = ce_id r" "ce_lifecycle e = ce_lifecycle r" "ce_version e = ce_version r"
    "ce_image e = ce_image r" "ce_source e = ce_source r"
proof -
  have core: "core e = core r" using assms by (simp add: extends_def)
  show "ce_id e = ce_id r" using arg_cong [OF core, of ce_id] by (simp add: core_def)
  show "ce_lifecycle e = ce_lifecycle r" using arg_cong [OF core, of ce_lifecycle] by (simp add: core_def)
  show "ce_version e = ce_version r" using arg_cong [OF core, of ce_version] by (simp add: core_def)
  show "ce_image e = ce_image r" using arg_cong [OF core, of ce_image] by (simp add: core_def)
  show "ce_source e = ce_source r" using arg_cong [OF core, of ce_source] by (simp add: core_def)
qed

lemma effective_catalog_Inr:
  assumes "effective_catalog rx b cs = Inr ct"
  obtains new where "list_all2 (\<lambda>ci e. candidate_entry rx b ci = Inr e)
      (concat (map (\<lambda>c. map (Pair c) (catalog_implementations c)) (successful b cs))) new"
    "list_all2 (extends (successful b cs)) (ct_entries b @ new) (ct_entries ct)"
    "catalog_of (rx_digest rx) (ct_entries ct) = Inr ct"
proof -
  obtain new entries where new: "collect_ok (candidate_entry rx b)
        (concat (map (\<lambda>c. map (Pair c) (catalog_implementations c)) (successful b cs))) = Inr new"
      "extend_entries (successful b cs) (ct_entries b @ new) = Inr entries"
      "catalog_of (rx_digest rx) entries = Inr ct"
    using assms by (auto simp: effective_catalog_def Let_def and_then_Inr_iff)
  have "ct_entries ct = entries" using new(3) by (rule catalog_of_entries)
  then show thesis
    using that new(1,3) extend_entries_Inr [OF new(2)] unfolding collect_ok_iff by simp
qed

lemma candidate_entries:
  assumes "list_all2 (\<lambda>ci e. candidate_entry rx b ci = Inr e)
      (concat (map (\<lambda>c. map (Pair c) (catalog_implementations c)) (successful b cs))) new"
    "e \<in> set new"
  obtains c base where "c \<in> set (successful b cs)" "base \<in> set (ct_entries b)"
    "candidate_catalog_entry rx base c = Inr e"
proof -
  obtain ci where ci: "ci \<in> set (concat (map (\<lambda>c. map (Pair c) (catalog_implementations c)) (successful b cs)))"
      "candidate_entry rx b ci = Inr e"
    using list_all2_right [OF assms] by blast
  have "fst ci \<in> set (successful b cs)" using ci(1) by auto
  moreover obtain base where "base \<in> set (ct_entries b)" "candidate_catalog_entry rx base (fst ci) = Inr e"
    using ci(2) by (auto simp: candidate_entry_def split: option.splits dest: find_SomeD)
  ultimately show thesis by (rule that)
qed

text \<open>The entry of a candidate in the merged catalog, up to the versions the merge adds.\<close>

definition candidate_release :: "recipes \<Rightarrow> catalog \<Rightarrow> candidate_build list \<Rightarrow> catalog_entry \<Rightarrow> bool" where
  "candidate_release rx b cs e \<longleftrightarrow>
     (\<exists>c \<in> set (successful b cs). \<exists>base \<in> set (ct_entries b). \<exists>r.
        candidate_catalog_entry rx base c = Inr r \<and> extends (successful b cs) r e)"

text \<open>
  C40: candidates are never a default. In the catalog of a workspace every built-in release is still
  there. Nothing of it is changed but that, where its dependencies, its payment tuples or its wallets
  name a version a successful build is based on, they name the build's version too: no version is
  taken away, and none is added for any other reason. Every other entry is the experimental entry of
  a successful build, extended in the same way; and a component that names no version gets the
  preferred built-in release, as without candidates.
\<close>

theorem candidates_never_default:
  assumes "effective_catalog rx b cs = Inr ct"
  shows "(\<forall>r \<in> set (ct_entries b). \<exists>e \<in> set (ct_entries ct). extends (successful b cs) r e)
    \<and> (\<forall>e \<in> set (ct_entries ct). (\<exists>r \<in> set (ct_entries b). extends (successful b cs) r e)
         \<or> (candidate_release rx b cs e \<and> ce_lifecycle e = Experimental))
    \<and> (\<forall>c e. c_version c = None \<and> select_entry c ct = Inr e \<longrightarrow>
         (\<exists>r \<in> set (ct_entries b). extends (successful b cs) r e \<and> ce_lifecycle r = Preferred
            \<and> ce_id r = c_implementation c))"
proof -
  obtain new where new: "list_all2 (\<lambda>ci e. candidate_entry rx b ci = Inr e)
        (concat (map (\<lambda>c. map (Pair c) (catalog_implementations c)) (successful b cs))) new"
      and ext: "list_all2 (extends (successful b cs)) (ct_entries b @ new) (ct_entries ct)"
      and ct: "catalog_of (rx_digest rx) (ct_entries ct) = Inr ct"
    using effective_catalog_Inr [OF assms] by blast
  have kept: "\<exists>e \<in> set (ct_entries ct). extends (successful b cs) r e" if "r \<in> set (ct_entries b)" for r
    using list_all2_left [OF ext, of r] that by simp
  have origin: "(\<exists>r \<in> set (ct_entries b). extends (successful b cs) r e)
      \<or> (candidate_release rx b cs e \<and> ce_lifecycle e = Experimental)"
    if e: "e \<in> set (ct_entries ct)" for e
  proof -
    obtain r where r: "r \<in> set (ct_entries b @ new)" "extends (successful b cs) r e"
      using list_all2_right [OF ext e] by blast
    show ?thesis
    proof (cases "r \<in> set (ct_entries b)")
      case False
      then have "r \<in> set new" using r(1) by simp
      then obtain c base where c: "c \<in> set (successful b cs)" "base \<in> set (ct_entries b)"
          "candidate_catalog_entry rx base c = Inr r"
        using candidate_entries [OF new] by blast
      have "ce_lifecycle e = Experimental"
        using extends_same(2) [OF r(2)] candidate_entry_contract(2) [OF c(3)] by simp
      then show ?thesis using c r(2) unfolding candidate_release_def by blast
    qed (use r(2) in blast)
  qed
  have default: "\<exists>r \<in> set (ct_entries b). extends (successful b cs) r e \<and> ce_lifecycle r = Preferred
      \<and> ce_id r = c_implementation c"
    if "c_version c = None" "select_entry c ct = Inr e" for c e
  proof -
    have e: "e \<in> set (ct_entries ct)" "ce_id e = c_implementation c" "ce_lifecycle e = Preferred"
      using iffD1 [OF select_preferred [OF ct that(1)] that(2)] by blast+
    then obtain r where r: "r \<in> set (ct_entries b)" "extends (successful b cs) r e" using origin [OF e(1)] by auto
    then show ?thesis using extends_same(1,2) [OF r(2)] e(2,3) by auto
  qed
  show ?thesis using kept origin default by blast
qed

text \<open>
  the catalog of a workspace does not depend on the order its builds are read in.
\<close>

theorem effective_catalog_order:
  assumes "mset cs = mset cs'" "distinct (map cb_id cs)"
  shows "effective_catalog rx b cs = effective_catalog rx b cs'"
proof -
  have "successful b cs = successful b cs'"
    unfolding successful_def
  proof (rule sort_key_canonical)
    show "mset (filter (based_on b) (filter (\<lambda>c. cb_phase c = BuildSucceeded) cs))
        = mset (filter (based_on b) (filter (\<lambda>c. cb_phase c = BuildSucceeded) cs'))"
      using assms(1) by simp
    have "inj_on cb_id (set cs)" using assms(2) by (simp add: distinct_map)
    then show "inj_on (\<lambda>c. (cb_implementation c, cb_version c, cb_id c))
        (set (filter (based_on b) (filter (\<lambda>c. cb_phase c = BuildSucceeded) cs)))"
      by (auto simp: inj_on_def)
  qed
  then show ?thesis by (simp add: effective_catalog_def)
qed

section \<open>A candidate of the shop's mint\<close>

definition shop_recipes :: recipes where
  "shop_recipes = \<lparr>rx_digest = shop_digest, rx_profile = (\<lambda>_. JNull), rx_provenance = (\<lambda>_. JNull),
     rx_matrix = (\<lambda>_. JNull), rx_dependencies = (\<lambda>_. JNull), rx_entry = (\<lambda>_. JNull),
     rx_input = (\<lambda>_. JNull), rx_build_profile = (\<lambda>_. None), rx_limitation = []\<rparr>"

definition shop_build :: "string \<Rightarrow> string \<Rightarrow> candidate_build" where
  "shop_build i version =
     \<lparr>cb_diagnostics = None, cb_api = CANDIDATE_BUILD_API_VERSION, cb_id = i, cb_workspace = ''lab'',
      cb_principal = ''ann'', cb_implementation = ''ldk-server'', cb_base_version = ''0.7.0'',
      cb_pull_request = ''https://github.com/x/y/pull/1'', cb_resource = i, cb_request_digest = ''r'',
      cb_provenance = None, cb_features = {}, cb_phase = BuildSucceeded, cb_accepted = 1,
      cb_started = None, cb_completed = Some 2, cb_repository = Some ''x/y'', cb_commit = Some ''c'',
      cb_version = Some version, cb_image = Some (''registry/node@sha256:'' @ replicate 64 (CHR ''b'')),
      cb_error_code = None, cb_error_message = None\<rparr>"

definition shop_builds :: "candidate_build list" where
  "shop_builds = [shop_build ''two'' ''0.7.0-two'', shop_build ''one'' ''0.7.0-one'']"

definition shop_merged :: catalog where
  "shop_merged = projr (effective_catalog shop_recipes shop_catalog shop_builds)"

lemma shop_merges: "effective_catalog shop_recipes shop_catalog shop_builds = Inr shop_merged"
proof -
  have "\<not> isl (effective_catalog shop_recipes shop_catalog shop_builds)" by code_simp
  then show ?thesis by (simp add: shop_merged_def)
qed

text \<open>The mint of the shop may now be paid through the candidates, and the default node is the same.\<close>

theorem candidates_never_default_witness:
  "\<exists>r \<in> set (ct_entries shop_catalog). \<exists>e. select_entry shop_node shop_merged = Inr e \<and> extends (successful shop_catalog shop_builds) r e
     \<and> ce_lifecycle r = Preferred \<and> ce_id r = ''ldk-server''"
proof -
  have "\<not> isl (select_entry shop_node shop_merged)" by code_simp
  then obtain e where e: "select_entry shop_node shop_merged = Inr e"
    by (cases "select_entry shop_node shop_merged") auto
  have "c_version shop_node = None" "c_implementation shop_node = ''ldk-server''"
    by (simp_all add: shop_node_def shop_component_def)
  then show ?thesis using candidates_never_default [OF shop_merges] e by metis
qed

theorem effective_catalog_order_witness:
  "effective_catalog shop_recipes shop_catalog (rev shop_builds) = Inr shop_merged"
proof -
  have "distinct (map cb_id shop_builds)" by (simp add: shop_builds_def shop_build_def)
  then show ?thesis
    using effective_catalog_order [of shop_builds "rev shop_builds" shop_recipes shop_catalog] shop_merges
    by simp
qed



end
