(* ===== verification/Publication_Properties.thy ===== *)
theory Publication_Properties
  imports Publication_Examples
begin

text \<open>
  What publication promises: it writes a document out once, whatever the order it was written in,
  pins every component to an installed release, and refuses links their ends do not support.
\<close>

section \<open>The shop is published\<close>

definition shop_published :: "cell_spec \<times> resolved_lock" where
  "shop_published = projr (publish_document shop shop_catalog shop_cell)"

lemma shop_publishes: "publish_document shop shop_catalog shop_cell = Inr shop_published"
proof -
  have "\<not> isl (publish_document shop shop_catalog shop_cell)" by code_simp
  then show ?thesis by (simp add: shop_published_def)
qed

section \<open>Idempotence\<close>

lemma effective_component_keeps:
  assumes "effective_component bi ct c = Inr d" "bt_get (c_config c) k = Some v"
  shows "bt_get (c_config d) k = Some v"
  using assms
  by (auto simp: effective_component_Inr resolve_effective_component_Inr fill_defaults_def
      intro: fold_fill_default_keeps)

lemma effective_cell_component:
  assumes "resolve_effective_cell bi cell ct = Inr e" "c \<in> set (components cell)"
  obtains d where "d \<in> set (components e)" "effective_component bi ct c = Inr d"
proof -
  obtain ds where ds: "list_all2 (\<lambda>c d. effective_component bi ct c = Inr d) (components cell) ds"
      "e = cell\<lparr>components := sort_components ds, links := sort_links (links cell)\<rparr>"
    using assms(1) unfolding resolve_effective_cell_Inr by blast
  obtain d where "d \<in> set ds" "effective_component bi ct c = Inr d"
    using list_all2_left [OF ds(1) assms(2)] by blast
  then show thesis using that ds(2) by (simp add: sort_components_def)
qed

lemma publication_again:
  "publish_document bi ct cell = Inr (e, lock) \<Longrightarrow> resolve_effective_cell bi e ct = Inr e"
  using resolve_effective_cell_idem by (auto simp: publish_document_def and_then_Inr_iff)

lemma publish_again:
  "publish_document bi ct cell = Inr (e, lock) \<Longrightarrow> publish_document bi ct e = Inr (e, lock)"
  using resolve_effective_cell_idem [of bi cell ct e] by (auto simp: publish_document_def and_then_Inr_iff)

text \<open>
  C31: publication writes a document out once. The published document is its own effective document,
  publishing it again gives the same document and the same lock, it has the components and the links
  of the draft, and every setting the author wrote is in it as it was written.
\<close>

theorem publication_idempotent:
  assumes "publish_document bi ct cell = Inr (e, lock)"
  shows "resolve_effective_cell bi e ct = Inr e \<and> publish_document bi ct e = Inr (e, lock)
    \<and> mset (map c_id (components e)) = mset (map c_id (components cell))
    \<and> mset (links e) = mset (links cell)
    \<and> (\<forall>c \<in> set (components cell). \<exists>d \<in> set (components e).
         c_id d = c_id c \<and> c_implementation d = c_implementation c \<and> c_version d = c_version c
         \<and> (\<forall>k v. bt_get (c_config c) k = Some v \<longrightarrow> bt_get (c_config d) k = Some v))"
proof (intro conjI ballI)
  have eff: "resolve_effective_cell bi cell ct = Inr e"
    using assms by (auto simp: publish_document_def and_then_Inr_iff)
  show "resolve_effective_cell bi e ct = Inr e" using eff by (rule resolve_effective_cell_idem)
  show "publish_document bi ct e = Inr (e, lock)"
    using assms by (rule publish_again)
  show "mset (map c_id (components e)) = mset (map c_id (components cell))"
    using eff by (rule effective_ids)
  show "mset (links e) = mset (links cell)"
    using eff by (auto simp: resolve_effective_cell_Inr sort_links_def)
  fix c assume "c \<in> set (components cell)"
  then obtain d where "d \<in> set (components e)" "effective_component bi ct c = Inr d"
    using eff effective_cell_component by blast
  then show "\<exists>d \<in> set (components e).
      c_id d = c_id c \<and> c_implementation d = c_implementation c \<and> c_version d = c_version c
      \<and> (\<forall>k v. bt_get (c_config c) k = Some v \<longrightarrow> bt_get (c_config d) k = Some v)"
    using effective_component_same effective_component_keeps
    by (intro bexI [of _ d]) auto
qed

theorem publication_idempotent_witness:
  "publish_document shop shop_catalog (fst shop_published) = Inr shop_published"
  using publication_idempotent [of shop shop_catalog shop_cell "fst shop_published" "snd shop_published"]
    shop_publishes by simp

section \<open>Order\<close>

lemma same_document_sym: "same_document a b \<Longrightarrow> same_document b a"
  by (simp add: same_document_def)

lemma published_distinct:
  assumes "publish_document bi ct cell = Inr (e, lock)"
  shows "distinct (map c_id (components e))" "distinct (map c_id (components cell))"
proof -
  have eff: "resolve_effective_cell bi cell ct = Inr e"
    and e: "rep_valid (validate_cell (bi_to_vec bi) (bi_print bi) e)"
    using publish_document_Inr [OF assms] by metis+
  show "distinct (map c_id (components e))" using e by (rule valid_distinct_components)
  then show "distinct (map c_id (components cell))"
    using effective_ids [OF eff] mset_eq_imp_distinct_iff by blast
qed

lemma publish_order:
  assumes "same_document a b" "publish_document bi ct a = Inr (e, lock)"
  shows "publish_document bi ct b = Inr (e, lock)"
proof -
  have eff: "resolve_effective_cell bi a ct = Inr e" and lock: "resolve_lock bi e ct = Inr lock"
    using assms(2) by (auto simp: publish_document_def and_then_Inr_iff)
  have "resolve_effective_cell bi b ct = Inr e"
    using effective_cell_order [OF eff assms(1) published_distinct(2) [OF assms(2)]] .
  then show ?thesis using lock by (simp add: publish_document_def and_then_def)
qed

text \<open>
  the order in which a document lists its components and its links is not published. Two
  documents with the same components and links in any order are published as the same document with
  the same lock, or neither of them is published.
\<close>

theorem publication_order_independent:
  assumes "same_document a b"
  shows "publish_document bi ct a = Inr r \<longleftrightarrow> publish_document bi ct b = Inr r"
  using publish_order [OF assms] publish_order [OF same_document_sym [OF assms]]
  by (cases r) blast

theorem publication_order_independent_witness:
  "components shop_cell_reversed \<noteq> components shop_cell
   \<and> publish_document shop shop_catalog shop_cell_reversed = Inr shop_published"
  using publication_order_independent [of shop_cell shop_cell_reversed shop shop_catalog shop_published]
    shop_publishes
  by (simp add: same_document_def shop_cell_reversed_def shop_cell_def shop_node_def
      shop_chain_def shop_component_def)

section \<open>What a lock pins\<close>

lemma map_sort_key: "map f (sort_key f xs) = sort (map f xs)"
  by (rule properties_for_sort [symmetric]) simp_all

text \<open>The entry a lock holds for a component: the release it selected, with all it declares.\<close>

definition pins :: "lock_entry \<Rightarrow> component_spec \<Rightarrow> catalog_entry \<Rightarrow> bool" where
  "pins x c r \<longleftrightarrow>
     le_component x = c_id c \<and> ce_id r = c_implementation c \<and> ce_kind r = c_kind c
     \<and> (case c_version c of Some v \<Rightarrow> ce_version r = v | None \<Rightarrow> ce_lifecycle r = Preferred)
     \<and> le_catalog x = ce_id r \<and> le_version x = ce_version r \<and> le_adapter x = ce_adapter r
     \<and> le_schema_digest x = ce_schema_digest r \<and> le_features x = ce_features r
     \<and> le_dependencies x = ce_dependencies r
     \<and> (le_image x = ce_image r \<or> ce_id r = ''workspace'')"

lemma lock_component_pins:
  assumes "lock_component bi ct e c = Inr x"
  obtains r where "r \<in> set (ct_entries ct)" "pins x c r" "validate_catalog_component bi c ct = Inr r"
proof -
  obtain r b js where r: "validate_catalog_component bi c ct = Inr r"
      and x: "x = new_lock_entry bi c r b js"
    using assms unfolding lock_component_Inr by blast
  have "select_entry c ct = Inr r" and kind: "c_kind c = ce_kind r"
    using r by (simp_all add: validate_catalog_component_Inr)
  then have sel: "r \<in> set (ct_entries ct)" "ce_id r = c_implementation c"
    "case c_version c of Some v \<Rightarrow> ce_version r = v | None \<Rightarrow> ce_lifecycle r = Preferred"
    using select_entry_Inr by blast+
  have "runtime_image c r = ce_image r \<or> ce_id r = ''workspace''"
    by (simp add: runtime_image_def)
  then have "pins x c r" unfolding pins_def x new_lock_entry_simps using sel(2,3) kind by simp
  then show thesis using that sel(1) r by blast
qed

lemma pins_same:
  assumes "pins x d r" "effective_component bi ct c = Inr d"
  shows "pins x c r"
  using assms(1) unfolding pins_def effective_component_same [OF assms(2)] .

lemma effective_cell_origin:
  assumes "resolve_effective_cell bi cell ct = Inr e" "d \<in> set (components e)"
  obtains c where "c \<in> set (components cell)" "effective_component bi ct c = Inr d"
proof -
  obtain ds where ds: "list_all2 (\<lambda>c d. effective_component bi ct c = Inr d) (components cell) ds"
      "e = cell\<lparr>components := sort_components ds, links := sort_links (links cell)\<rparr>"
    using assms(1) unfolding resolve_effective_cell_Inr by blast
  then have "d \<in> set ds" using assms(2) by (simp add: sort_components_def)
  then show thesis using list_all2_right [OF ds(1)] that by blast
qed

lemma published_entry:
  assumes "publish_document bi ct cell = Inr (e, lock)" "x \<in> set (lk_entries lock)"
  obtains c where "c \<in> set (components e)" "lock_component bi ct e c = Inr x"
proof -
  obtain es where "list_all2 (\<lambda>c x. lock_component bi ct e c = Inr x) (components e) es"
      "lk_entries lock = sort_lock_entries es"
    using publish_document_Inr [OF assms(1)] by metis
  then show thesis
    using list_all2_right assms(2) that by (force simp: sort_lock_entries_def)
qed

lemma published_component:
  assumes "publish_document bi ct cell = Inr (e, lock)" "c \<in> set (components e)"
  obtains x where "x \<in> set (lk_entries lock)" "lock_component bi ct e c = Inr x"
proof -
  obtain es where "list_all2 (\<lambda>c x. lock_component bi ct e c = Inr x) (components e) es"
      "lk_entries lock = sort_lock_entries es"
    using publish_document_Inr [OF assms(1)] by metis
  then show thesis
    using list_all2_left assms(2) that by (force simp: sort_lock_entries_def)
qed

lemma lock_names:
  assumes "publish_document bi ct cell = Inr (e, lock)"
  shows "map le_component (lk_entries lock) = sort (map c_id (components cell))"
proof -
  obtain es where eff: "resolve_effective_cell bi cell ct = Inr e"
      and es: "list_all2 (\<lambda>c x. lock_component bi ct e c = Inr x) (components e) es"
      and entries: "lk_entries lock = sort_lock_entries es"
    using publish_document_Inr [OF assms] by metis
  have "map le_component es = map c_id (components e)"
    using es by (induction rule: list_all2_induct) (auto simp: lock_component_Inr)
  then have "map le_component (lk_entries lock) = sort (map c_id (components e))"
    by (simp add: entries sort_lock_entries_def map_sort_key)
  also have "\<dots> = sort (map c_id (components cell))"
    using effective_ids [OF eff] by (metis properties_for_sort mset_sort sorted_sort)
  finally show ?thesis .
qed

text \<open>
  C32: a lock has exactly one entry for each component of the document, in the order of their
  identifiers. The entry pins an installed release of the component's implementation and kind: the
  one the document asks for, or the preferred one when it names none, with the adapter, the schema,
  the features and the dependencies the catalog declares for it, and its image, which only a
  workspace may replace.
\<close>

theorem lock_pins_releases:
  assumes "publish_document bi ct cell = Inr (e, lock)"
  shows "map le_component (lk_entries lock) = sort (map c_id (components cell))
    \<and> distinct (map le_component (lk_entries lock))
    \<and> (\<forall>x \<in> set (lk_entries lock). \<exists>c \<in> set (components cell). \<exists>r \<in> set (ct_entries ct). pins x c r)"
proof (intro conjI ballI)
  show names: "map le_component (lk_entries lock) = sort (map c_id (components cell))"
    using assms by (rule lock_names)
  show "distinct (map le_component (lk_entries lock))"
    unfolding names using published_distinct(2) [OF assms] by simp
  fix x assume "x \<in> set (lk_entries lock)"
  then obtain d where d: "d \<in> set (components e)" "lock_component bi ct e d = Inr x"
    using published_entry [OF assms] by blast
  obtain r where r: "r \<in> set (ct_entries ct)" "pins x d r" using lock_component_pins [OF d(2)] by blast
  have "resolve_effective_cell bi cell ct = Inr e" using publish_document_Inr [OF assms] by metis
  then obtain c where "c \<in> set (components cell)" "effective_component bi ct c = Inr d"
    using effective_cell_origin d(1) by blast
  then show "\<exists>c \<in> set (components cell). \<exists>r \<in> set (ct_entries ct). pins x c r"
    using pins_same [OF r(2)] r(1) by blast
qed

theorem lock_pins_releases_witness:
  "map le_component (lk_entries (snd shop_published)) = [''chain'', ''node'']"
proof -
  have "map le_component (lk_entries (snd shop_published)) = sort (map c_id (components shop_cell))"
    using lock_pins_releases [of shop shop_catalog shop_cell "fst shop_published" "snd shop_published"]
      shop_publishes by simp
  also have "\<dots> = [''chain'', ''node'']" by code_simp
  finally show ?thesis .
qed

section \<open>Links\<close>

lemma require_compatible_dependency_Inr:
  "require_compatible_dependency r l s = Inr () \<longleftrightarrow>
     (is_backend (l_kind l) \<longrightarrow> compatible r (l_kind l) s)
     \<and> (l_kind l = PaymentBackend \<longrightarrow>
          (\<exists>m u. l_binding l = Some (BindPayment m u) \<and> supports_payment r m u s))
     \<and> (l_kind l = DatabaseBackend \<longrightarrow>
          (\<exists>role d. l_binding l = Some (BindDatabase role d) \<and> supports_database_role r role s))
     \<and> (l_kind l = AuthenticationBackend \<longrightarrow>
          (\<exists>p. l_binding l = Some (BindAuthentication p)) \<and> supports_authentication r
            \<and> ce_id s = ''keycloak'')"
  by (auto simp: require_compatible_dependency_def require_payment_def require_database_def
      require_authentication_def and_then_Inr_iff split: option.splits dependency_binding.splits)

lemma published_link:
  assumes "publish_document bi ct cell = Inr (e, lock)" "l \<in> set (links cell)"
  obtains c t where "c \<in> set (components e)" "t \<in> set (components e)"
    "c_id c = l_from l" "c_id t = l_to l" "find (\<lambda>t. c_id t = l_to l) (components e) = Some t"
    "l \<in> set (links e)"
proof -
  have eff: "resolve_effective_cell bi cell ct = Inr e"
    and e: "rep_valid (validate_cell (bi_to_vec bi) (bi_print bi) e)"
    using publish_document_Inr [OF assms(1)] by metis+
  have l: "l \<in> set (links e)"
    using eff assms(2) by (auto simp: resolve_effective_cell_Inr sort_links_def)
  have "graph_ok (bi_to_vec bi) e" using e by (simp add: validate_cell_document document_ok_def)
  then have "link_ok e l" using l by (simp add: graph_ok_def list_all_iff)
  then obtain c b where c: "c \<in> set (components e)" "c_id c = l_from l"
      and b: "b \<in> set (components e)" "c_id b = l_to l"
    unfolding link_ok_def by blast
  have "find (\<lambda>t. c_id t = l_to l) (components e) \<noteq> None"
    using b by (auto simp: find_None_iff)
  then obtain t where t: "find (\<lambda>t. c_id t = l_to l) (components e) = Some t" by blast
  then have "t \<in> set (components e)" "c_id t = l_to l"
    using find_SomeD by fast+
  then show thesis using that c t l by blast
qed

text \<open>What the two releases a backend link joins declare about each other.\<close>

definition link_supported :: "link_spec \<Rightarrow> catalog_entry \<Rightarrow> catalog_entry \<Rightarrow> bool" where
  "link_supported l r s \<longleftrightarrow>
     compatible r (l_kind l) s
     \<and> (l_kind l = PaymentBackend \<longrightarrow>
          (\<exists>m u. l_binding l = Some (BindPayment m u) \<and> supports_payment r m u s))
     \<and> (l_kind l = DatabaseBackend \<longrightarrow>
          (\<exists>role d. l_binding l = Some (BindDatabase role d) \<and> supports_database_role r role s))
     \<and> (l_kind l = AuthenticationBackend \<longrightarrow>
          supports_authentication r \<and> ce_id s = ''keycloak'')"

text \<open>
  C33: a published document has no link its ends do not support. Every backend link of it joins two
  locked releases, the one it leaves from declares that it works with the exact version of the one
  it reaches, and where the link carries a payment method and unit, a database role or a login, it
  declares that too.
\<close>

theorem published_links_supported:
  assumes "publish_document bi ct cell = Inr (e, lock)"
    "l \<in> set (links cell)" "is_backend (l_kind l)"
  shows "\<exists>x \<in> set (lk_entries lock). \<exists>y \<in> set (lk_entries lock).
    \<exists>r \<in> set (ct_entries ct). \<exists>s \<in> set (ct_entries ct).
      le_component x = l_from l \<and> le_component y = l_to l
      \<and> le_catalog x = ce_id r \<and> le_version x = ce_version r
      \<and> le_catalog y = ce_id s \<and> le_version y = ce_version s \<and> link_supported l r s"
proof -
  obtain c t where ends: "c \<in> set (components e)" "t \<in> set (components e)"
      "c_id c = l_from l" "c_id t = l_to l" "find (\<lambda>t. c_id t = l_to l) (components e) = Some t"
      "l \<in> set (links e)"
    using published_link [OF assms(1,2)] by blast
  obtain x where x: "x \<in> set (lk_entries lock)" "lock_component bi ct e c = Inr x"
    using published_component [OF assms(1) ends(1)] by blast
  obtain y where y: "y \<in> set (lk_entries lock)" "lock_component bi ct e t = Inr y"
    using published_component [OF assms(1) ends(2)] by blast
  obtain r where r: "r \<in> set (ct_entries ct)" "pins x c r" "validate_catalog_component bi c ct = Inr r"
    using lock_component_pins [OF x(2)] by blast
  obtain s where s: "s \<in> set (ct_entries ct)" "pins y t s" "validate_catalog_component bi t ct = Inr s"
    using lock_component_pins [OF y(2)] by blast
  have l: "l \<in> set (relevant_links e c)"
    using ends(3,6) assms(3) by (simp add: relevant_links_def is_rollout_relevant_link_def)
  obtain js where "collect_ok (target_contract bi ct e r) (relevant_links e c) = Inr js"
    using x(2) r(3) unfolding lock_component_Inr by auto
  then obtain j where "target_contract bi ct e r l = Inr j"
    unfolding collect_ok_iff using list_all2_left [OF _ l] by blast
  then have "require_compatible_dependency r l s = Inr ()"
    using ends(5) s(3) unfolding target_contract_Inr by auto
  then have ok: "link_supported l r s"
    unfolding require_compatible_dependency_Inr link_supported_def using assms(3) by blast
  have names: "le_component x = l_from l" "le_catalog x = ce_id r" "le_version x = ce_version r"
    "le_component y = l_to l" "le_catalog y = ce_id s" "le_version y = ce_version s"
    using r(2) s(2) ends(3,4) by (simp_all add: pins_def)
  show ?thesis
    by (rule bexI [OF _ x(1)], rule bexI [OF _ y(1)], rule bexI [OF _ r(1)], rule bexI [OF _ s(1)])
      (simp only: names ok)
qed

theorem published_links_supported_witness:
  "\<exists>x \<in> set (lk_entries (snd shop_published)). \<exists>y \<in> set (lk_entries (snd shop_published)).
    \<exists>r \<in> set (ct_entries shop_catalog). \<exists>s \<in> set (ct_entries shop_catalog).
      le_component x = ''node'' \<and> le_component y = ''chain''
      \<and> le_catalog x = ce_id r \<and> le_version x = ce_version r
      \<and> le_catalog y = ce_id s \<and> le_version y = ce_version s \<and> link_supported shop_link r s"
proof -
  have "shop_link \<in> set (links shop_cell)" "is_backend (l_kind shop_link)"
    "l_from shop_link = ''node''" "l_to shop_link = ''chain''"
    by (simp_all add: shop_cell_def shop_link_def is_backend_def)
  then show ?thesis
    using published_links_supported
      [of shop shop_catalog shop_cell "fst shop_published" "snd shop_published" shop_link]
      shop_publishes by simp
qed

section \<open>Images\<close>

lemma pinned_image:
  assumes "is_hex64 d"
  shows "is_sha256_image (repository @ ''@sha256:'' @ d)"
proof -
  have d: "CHR ''@'' \<notin> set d"
    using assms by (auto simp: is_hex64_def list_all_iff is_ascii_hexdigit_def is_ascii_digit_def byte_def)
  have "split_at_last ''@sha256:'' (''sha256:'' @ d) = None"
    using d by (intro split_at_last_absent) simp
  then have "split_at_last ''@sha256:'' (''@sha256:'' @ d) = Some ([], d)"
    by (simp add: string_starts_with_def)
  then show ?thesis
    using assms split_at_last_append [of "''@sha256:''" "''@sha256:'' @ d" "[]" d repository]
    by (simp add: is_sha256_image_def)
qed

lemma runtime_image_pinned:
  assumes "is_runtime_image img"
  shows "is_sha256_image (mirror_image img)"
proof -
  obtain repository d where at: "split_at_first ''@sha256:'' img = Some (repository, d)" "is_hex64 d"
    using assms by (auto simp: is_runtime_image_def Let_def split: option.splits)
  have img: "img = repository @ ''@sha256:'' @ d" "is_hex64 d"
    using split_at_first_Some [OF at(1)] at(2) .
  show ?thesis
    using pinned_image [OF img(2)] pinned_image [OF img(2),
        of "''proofstorm-registry.localhost:5000/upstream/'' @ repository"]
    unfolding mirror_image_def img(1) by simp
qed

lemma registry_loop_keys:
  assumes "registry_loop reg bs = Inr out" "\<forall>i b. bt_get reg i = Some b \<longrightarrow> bc_id b = i" "bt_wf reg"
  shows "\<forall>i b. bt_get out i = Some b \<longrightarrow> bc_id b = i"
  using assms
proof (induction reg bs rule: registry_loop.induct)
  case (2 reg b bs)
  have fresh: "\<not> bt_contains_key reg (bc_id b)"
    and rest: "registry_loop (bt_insert (bc_id b) b reg) bs = Inr out"
    using 2(2) by (simp_all add: and_then_Inr_iff split: if_splits)
  have keys: "bc_id c = i" if "bt_get (bt_insert (bc_id b) b reg) i = Some c" for i c
    using that 2(3) [rule_format, of i c] 2(4) by (cases "i = bc_id b") (simp_all add: bt_get_insert)
  show ?case using 2(1) [OF fresh rest] keys bt_insert_wf [OF 2(4)] by blast
qed simp

lemma registry_keys:
  assumes "registry_of bs = Inr reg" "require reg i = Inr b"
  shows "bc_id b = i"
  using registry_loop_keys [OF assms(1) [unfolded registry_of_def]] assms(2)
  by (auto simp: require_def split: option.splits)

lemma identity_loop_image:
  "identity_loop digest seen entries = Inr u \<Longrightarrow> r \<in> set entries \<Longrightarrow> is_sha256_image (ce_image r)"
  by (induction digest seen entries rule: identity_loop.induct) (auto split: if_splits)

lemma effective_workspace_image:
  assumes "effective_component bi ct c = Inr d" "registry_of bs = Inr (bi_registry bi)"
    "validate_catalog_component bi d ct = Inr r" "is_sha256_image (ce_image r)"
  shows "is_sha256_image (runtime_image d r)"
proof (cases "ce_id r = ''workspace''")
  case True
  have d: "c_implementation d = ''workspace''" using validated_entry(2) [OF assms(3)] True by simp
  obtain b where b: "require (bi_registry bi) ''workspace'' = Inr b"
      "validate_config (bi_float bi) b (c_config d) True = Inr ()"
    using assms(1) d effective_component_same(3) [OF assms(1)]
    by (auto simp: effective_component_Inr resolve_effective_component_Inr)
  have "bc_id b = ''workspace''" using registry_keys [OF assms(2) b(1)] .
  then have "\<not> refused_text is_runtime_image (c_config d) ''runtime_image''"
    using b(2) by (auto simp: validate_config_def and_then_Inr_iff split: if_splits)
  then show ?thesis
    using assms(4) runtime_image_pinned
    by (auto simp: runtime_image_def refused_text_def split: option.splits)
qed (use assms(4) in \<open>simp add: runtime_image_def\<close>)

text \<open>
  C34: a lock pins only images that cannot change. With a registry and a catalog the program accepted,
  every image in the lock of a published document is a reference by SHA-256 digest, also the one a
  workspace puts in the place of its release's.
\<close>

theorem locked_images_immutable:
  assumes "registry_of bs = Inr (bi_registry bi)" "catalog_of digest entries = Inr ct"
    "publish_document bi ct cell = Inr (e, lock)" "x \<in> set (lk_entries lock)"
  shows "is_sha256_image (le_image x)"
proof -
  obtain d where d: "d \<in> set (components e)" "lock_component bi ct e d = Inr x"
    using published_entry [OF assms(3,4)] by blast
  obtain r b js where r: "validate_catalog_component bi d ct = Inr r" "x = new_lock_entry bi d r b js"
    using d(2) unfolding lock_component_Inr by blast
  have "r \<in> set entries"
    using validated_entry(1) [OF r(1)] catalog_of_entries [OF assms(2)] by simp
  then have "is_sha256_image (ce_image r)"
    using assms(2) identity_loop_image by (auto simp: catalog_of_Inr)
  moreover have "resolve_effective_cell bi e ct = Inr e"
    using publication_again [OF assms(3)] .
  then obtain c where "effective_component bi ct c = Inr d"
    using effective_cell_origin d(1) by blast
  ultimately show ?thesis using effective_workspace_image assms(1) r by simp
qed

lemma shop_lock_names: "map le_component (lk_entries (snd shop_published)) = [''chain'', ''node'']"
proof -
  have "map le_component (lk_entries (snd shop_published)) = sort (map c_id (components shop_cell))"
    using lock_names [of shop shop_catalog shop_cell "fst shop_published" "snd shop_published"]
      shop_publishes by simp
  also have "\<dots> = [''chain'', ''node'']" by code_simp
  finally show ?thesis .
qed

theorem locked_images_immutable_witness:
  "is_sha256_image (le_image (hd (lk_entries (snd shop_published))))"
proof -
  have reg: "registry_of shop_contracts = Inr (bi_registry shop)"
    using shop_registry_sound by (simp add: shop_def)
  have pub: "publish_document shop shop_catalog shop_cell = Inr (fst shop_published, snd shop_published)"
    using shop_publishes by simp
  have "lk_entries (snd shop_published) \<noteq> []"
    using shop_lock_names by auto
  then show ?thesis by (rule locked_images_immutable [OF reg shop_catalog_sound pub hd_in_set])
qed

section \<open>Rollout digests\<close>

text \<open>The values digested for the entry of a component.\<close>

definition digested :: "builtin \<Rightarrow> catalog \<Rightarrow> cell_spec \<Rightarrow> component_spec \<Rightarrow> json list" where
  "digested bi ct cell c =
     (case validate_catalog_component bi c ct of
        Inl _ \<Rightarrow> []
      | Inr r \<Rightarrow>
          (case require (bi_registry bi) (ce_id r) of
             Inl _ \<Rightarrow> []
           | Inr b \<Rightarrow>
               (case collect_ok (target_contract bi ct cell r) (relevant_links cell c) of
                  Inl _ \<Rightarrow> []
                | Inr js \<Rightarrow>
                    [config_inputs c r,
                     rollout_inputs r (runtime_image c r) (bi_digest bi (config_inputs c r)) js b])))"

lemma config_inputs_inj:
  "config_inputs c r = config_inputs d s \<Longrightarrow> c_config c = c_config d \<and> c_config_version c = c_config_version d"
  by (simp add: config_inputs_def)

definition link_ends :: "link_spec \<Rightarrow> string \<times> link_kind \<times> string \<times> string" where
  "link_ends l = (l_id l, l_kind l, l_from l, l_to l)"

lemma target_contracts_links:
  assumes "list_all2 (\<lambda>l j. target_contract bi ct a r l = Inr j) ls js"
    "list_all2 (\<lambda>l j. target_contract bi' ct' b s l = Inr j) ks js"
  shows "map link_ends ls = map link_ends ks"
  using assms
proof (induction arbitrary: ks rule: list_all2_induct)
  case (Cons l ls j js)
  obtain k ks' where k: "ks = k # ks'" "target_contract bi' ct' b s k = Inr j"
      "list_all2 (\<lambda>l j. target_contract bi' ct' b s l = Inr j) ks' js"
    using Cons(4) by (auto simp: list_all2_Cons2)
  have "link_json l = link_json k"
    using Cons(1) k(2) unfolding target_contract_Inr by auto
  then have "link_ends l = link_ends k" using link_json_inj [of l k] by (simp add: link_ends_def)
  with Cons(3) [OF k(3)] show ?case unfolding k(1) by simp
qed simp

text \<open>
  a rollout digest covers what a workload runs on. If two locked components, in whatever
  documents and catalogs, have the same rollout digest, and the digest does not collide on the values
  digested for the two, then they run the same release contract and image, their configurations are
  the same setting by setting, and the same links leave from them, to the same targets.
\<close>

theorem rollout_digest_covers:
  assumes "lock_component bi ct a c = Inr x" "lock_component bi ct' b d = Inr y"
    "inj_on (bi_digest bi) (set (digested bi ct a c @ digested bi ct' b d))"
    "le_rollout x = le_rollout y"
  shows "le_catalog x = le_catalog y \<and> le_adapter x = le_adapter y \<and> le_image x = le_image y
    \<and> le_schema_digest x = le_schema_digest y \<and> le_config_digest x = le_config_digest y
    \<and> c_config c = c_config d \<and> c_config_version c = c_config_version d
    \<and> map link_ends (relevant_links a c)
        = map link_ends (relevant_links b d)"
proof -
  obtain r p js where x: "validate_catalog_component bi c ct = Inr r"
      "require (bi_registry bi) (ce_id r) = Inr p"
      "collect_ok (target_contract bi ct a r) (relevant_links a c) = Inr js"
      "x = new_lock_entry bi c r p js"
    using assms(1) unfolding lock_component_Inr by blast
  obtain s q ks where y: "validate_catalog_component bi d ct' = Inr s"
      "require (bi_registry bi) (ce_id s) = Inr q"
      "collect_ok (target_contract bi ct' b s) (relevant_links b d) = Inr ks"
      "y = new_lock_entry bi d s q ks"
    using assms(2) unfolding lock_component_Inr by blast
  let ?cx = "config_inputs c r" and ?cy = "config_inputs d s"
  let ?rx = "rollout_inputs r (runtime_image c r) (bi_digest bi ?cx) js p"
  let ?ry = "rollout_inputs s (runtime_image d s) (bi_digest bi ?cy) ks q"
  have dx: "digested bi ct a c = [?cx, ?rx]" and dy: "digested bi ct' b d = [?cy, ?ry]"
    using x(1-3) y(1-3) by (simp_all add: digested_def)
  have inj: "inj_on (bi_digest bi) {?cx, ?rx, ?cy, ?ry}"
    using assms(3) unfolding dx dy by (simp add: insert_commute)
  have "bi_digest bi ?rx = bi_digest bi ?ry"
    using assms(4) unfolding x(4) y(4) new_lock_entry_simps .
  then have roll: "?rx = ?ry" using inj_onD [OF inj, of ?rx ?ry] by blast
  then have same: "ce_id r = ce_id s" "ce_adapter r = ce_adapter s"
    "runtime_image c r = runtime_image d s" "ce_schema_digest r = ce_schema_digest s"
    "bi_digest bi ?cx = bi_digest bi ?cy" "js = ks"
    unfolding rollout_inputs_def by simp_all
  then have "?cx = ?cy" using inj_onD [OF inj, of ?cx ?cy] by blast
  then have config: "c_config c = c_config d \<and> c_config_version c = c_config_version d"
    by (rule config_inputs_inj)
  have "map link_ends (relevant_links a c)
      = map link_ends (relevant_links b d)"
    using target_contracts_links x(3) y(3) unfolding same(6) collect_ok_iff by blast
  then show ?thesis using same config unfolding x(4) y(4) new_lock_entry_simps by blast
qed

text \<open>A digest that tells the values of the two versions apart, and a renamed shop.\<close>

fun version_digest :: "json \<Rightarrow> string" where
  "version_digest (JArray (JString v # _)) = v"
| "version_digest _ = []"

definition tagged_shop :: builtin where
  "tagged_shop = shop\<lparr>bi_digest := version_digest\<rparr>"

definition other_cell :: cell_spec where
  "other_cell = shop_cell_reversed\<lparr>cell_name := ''other''\<rparr>"

definition node_lock :: "cell_spec \<Rightarrow> lock_entry" where
  "node_lock cell = projr (lock_component tagged_shop shop_catalog cell shop_node)"

lemma node_locks:
  "lock_component tagged_shop shop_catalog shop_cell shop_node = Inr (node_lock shop_cell)"
  "lock_component tagged_shop shop_catalog other_cell shop_node = Inr (node_lock other_cell)"
proof -
  have "\<not> isl (lock_component tagged_shop shop_catalog shop_cell shop_node)"
    "\<not> isl (lock_component tagged_shop shop_catalog other_cell shop_node)"
    by code_simp+
  then show "lock_component tagged_shop shop_catalog shop_cell shop_node = Inr (node_lock shop_cell)"
    "lock_component tagged_shop shop_catalog other_cell shop_node = Inr (node_lock other_cell)"
    by (simp_all add: node_lock_def)
qed

lemma node_digested:
  "inj_on (bi_digest tagged_shop)
     (set (digested tagged_shop shop_catalog shop_cell shop_node
           @ digested tagged_shop shop_catalog other_cell shop_node))"
  unfolding inj_on_def by code_simp

theorem rollout_digest_covers_witness:
  "le_image (node_lock shop_cell) = le_image (node_lock other_cell)
   \<and> map link_ends (relevant_links shop_cell shop_node)
      = map link_ends (relevant_links other_cell shop_node)"
proof -
  have "le_rollout (node_lock shop_cell) = le_rollout (node_lock other_cell)" by code_simp
  then show ?thesis using rollout_digest_covers [OF node_locks node_digested] by blast
qed

end
