(* ===== verification/Store_Publication.thy ===== *)
theory Store_Publication
  imports Store_Examples Publication_Properties
begin

text \<open>
  The store's \<open>publish\<close> over the publication of a document: what a published revision is, whatever
  draft it was published from.
\<close>

definition catalog_step ::
  "builtin \<Rightarrow> catalog \<Rightarrow> cell_spec \<Rightarrow> (cell_spec \<times> resolved_lock) option" where
  "catalog_step bi ct cell =
     (case publish_document bi ct cell of Inl _ \<Rightarrow> None | Inr r \<Rightarrow> Some r)"

definition publish_draft ::
  "codec \<Rightarrow> builtin \<Rightarrow> catalog \<Rightarrow> string \<Rightarrow> string \<Rightarrow> string \<Rightarrow> u64 \<Rightarrow> string \<Rightarrow>
   published_revision sop" where
  "publish_draft c bi ct = publish c (bi_to_vec bi) (bi_print bi) (catalog_step bi ct)"

lemma catalog_step_Some [simp]:
  "catalog_step bi ct cell = Some r \<longleftrightarrow> publish_document bi ct cell = Inr r"
  by (simp add: catalog_step_def split: sum.split)

text \<open>The first publication of a draft, not the repetition of a request.\<close>

definition first_publication ::
  "codec \<Rightarrow> string \<Rightarrow> string \<Rightarrow> string \<Rightarrow> u64 \<Rightarrow> string \<Rightarrow> store \<Rightarrow> bool" where
  "first_publication c w actor i version key s \<longleftrightarrow>
     idempotent_response c revision_body w actor key ''cell.publish'' (publish_request i version) s
       = Inr None"

lemma publish_draft_Inr:
  assumes "publish_draft c bi ct w actor i version key s = (Inr out, s')"
    "first_publication c w actor i version key s"
  obtains d e lock where "read_draft_unchecked w i s = Inr d" "dr_version d = version"
    "rep_valid (validate_cell (bi_to_vec bi) (bi_print bi) (dr_cell d))"
    "publish_document bi ct (dr_cell d) = Inr (e, lock)"
    "out = \<lparr>rv_workspace = w, rv_digest = publication_digest c w e lock, rv_cell = e, rv_lock = lock\<rparr>"
  using assms
  by (auto simp: publish_draft_def publish_def first_publication_def sop_Inr Let_def
      split: if_splits option.splits)

text \<open>
  a published revision is the effective document of its draft. It holds the document and the
  lock publication gives for the draft as the caller saw it, under the digest of exactly these; and
  publishing what it holds would give the same document and the same lock.
\<close>

theorem published_revision_effective:
  assumes "publish_draft c bi ct w actor i version key s = (Inr out, s')"
    "first_publication c w actor i version key s"
  shows "\<exists>d. read_draft_unchecked w i s = Inr d \<and> dr_version d = version
    \<and> publish_document bi ct (dr_cell d) = Inr (rv_cell out, rv_lock out)
    \<and> publish_document bi ct (rv_cell out) = Inr (rv_cell out, rv_lock out)
    \<and> rv_workspace out = w \<and> rv_digest out = publication_digest c w (rv_cell out) (rv_lock out)"
proof -
  obtain d e lock where d: "read_draft_unchecked w i s = Inr d" "dr_version d = version"
      "publish_document bi ct (dr_cell d) = Inr (e, lock)"
      "out = \<lparr>rv_workspace = w, rv_digest = publication_digest c w e lock, rv_cell = e, rv_lock = lock\<rparr>"
    using publish_draft_Inr [OF assms] by metis
  then show ?thesis using publish_again [OF d(3)] by simp
qed

text \<open>
  C37: a revision is the content of its draft, given the catalog it is published against. Two drafts of
  one workspace with the same API version, name and policy and the same components and links in
  whatever order are published against the same catalog as the same revision under the same digest,
  by whatever actor and at whatever time. (The catalog is rebuilt with the candidate builds of the
  workspace at each publication; a catalog that offers other releases may lock other ones.)
\<close>

theorem publication_content_addressed:
  assumes "publish_draft c bi ct w actor i version key s = (Inr out, s')"
    "first_publication c w actor i version key s" "read_draft_unchecked w i s = Inr d"
    "publish_draft c bi ct w actor' j version' key' t = (Inr out', t')"
    "first_publication c w actor' j version' key' t" "read_draft_unchecked w j t = Inr d'"
    "same_document (dr_cell d) (dr_cell d')"
  shows "out' = out"
proof -
  obtain e lock where one: "publish_document bi ct (dr_cell d) = Inr (e, lock)"
      "out = \<lparr>rv_workspace = w, rv_digest = publication_digest c w e lock, rv_cell = e, rv_lock = lock\<rparr>"
    using publish_draft_Inr [OF assms(1,2)] assms(3) by (metis Inr_inject)
  obtain e' lock' where two: "publish_document bi ct (dr_cell d') = Inr (e', lock')"
      "out' = \<lparr>rv_workspace = w, rv_digest = publication_digest c w e' lock', rv_cell = e',
               rv_lock = lock'\<rparr>"
    using publish_draft_Inr [OF assms(4,5)] assms(6) by (metis Inr_inject)
  show ?thesis using publish_order [OF assms(7) one(1)] two one(2) by simp
qed

section \<open>The shop's drafts\<close>

definition shop_store :: store where
  "shop_store =
     after (insert_draft ''lab'' ''second'' shop_cell_reversed
       (after (insert_draft ''lab'' ''first'' shop_cell
         (after (replace_grants ''lab'' ''ann'' [CellPublish] lab_actor)))))"

definition shop_first :: "(store_error + published_revision) \<times> store" where
  "shop_first = publish_draft lab shop shop_catalog ''lab'' ''ann'' ''first'' 1 ''key-1'' shop_store"

definition shop_second :: "(store_error + published_revision) \<times> store" where
  "shop_second =
     publish_draft lab shop shop_catalog ''lab'' ''ann'' ''second'' 1 ''key-2'' (snd shop_first)"

definition shop_revision :: published_revision where
  "shop_revision = projr (fst shop_first)"

lemma shop_publications:
  "shop_first = (Inr shop_revision, snd shop_first)" "\<not> isl (fst shop_second)"
proof -
  have "\<not> isl (fst shop_first)" by code_simp
  then show "shop_first = (Inr shop_revision, snd shop_first)"
    by (metis prod.collapse shop_revision_def sum.collapse(2))
  show "\<not> isl (fst shop_second)" by code_simp
qed

lemma shop_first_publications:
  "first_publication lab ''lab'' ''ann'' ''first'' 1 ''key-1'' shop_store"
  "first_publication lab ''lab'' ''ann'' ''second'' 1 ''key-2'' (snd shop_first)"
  by code_simp+

lemma shop_drafts:
  "read_draft_unchecked ''lab'' ''first'' shop_store =
     Inr \<lparr>dr_id = ''first'', dr_workspace = ''lab'', dr_version = 1, dr_cell = shop_cell\<rparr>"
  "read_draft_unchecked ''lab'' ''second'' (snd shop_first) =
     Inr \<lparr>dr_id = ''second'', dr_workspace = ''lab'', dr_version = 1, dr_cell = shop_cell_reversed\<rparr>"
  by code_simp+

text \<open>The first draft of the shop is published as what publication gives for its document.\<close>

theorem published_revision_effective_witness:
  "publish_document shop shop_catalog shop_cell = Inr (rv_cell shop_revision, rv_lock shop_revision)"
  using published_revision_effective
    [OF shop_publications(1) [unfolded shop_first_def] shop_first_publications(1)] shop_drafts(1)
  by simp

text \<open>The second draft, the same document in another order, is published as the same revision.\<close>

theorem publication_content_addressed_witness:
  "fst shop_second = Inr shop_revision"
proof -
  have second: "shop_second = (Inr (projr (fst shop_second)), snd shop_second)"
    using shop_publications(2) by (metis prod.collapse sum.collapse(2))
  have "same_document shop_cell shop_cell_reversed"
    by (simp add: same_document_def shop_cell_reversed_def shop_cell_def)
  then have "projr (fst shop_second) = shop_revision"
    using publication_content_addressed [OF shop_publications(1) [unfolded shop_first_def]
        shop_first_publications(1) shop_drafts(1) second [unfolded shop_second_def]
        shop_first_publications(2) shop_drafts(2)]
    by (simp add: shop_second_def)
  then show ?thesis using shop_publications(2) by (metis sum.collapse(2))
qed

end
