(* ===== verification/Spec2Isabelle.thy ===== *)
theory Spec2Isabelle
  imports Probe_Properties Transfer_Properties Transfer_Migration Cell_Properties
    Store_Properties Store_Plans Store_Sessions
    Candidate_Properties Publication_Properties Store_Publication
begin

text \<open>
  A verification library for Proofstorm, a laboratory that runs cells of bitcoin, lightning and
  ecash components on Kubernetes. A user describes a cell as a document; the document is validated,
  published as a revision and materialized as an instance; operations run against the instance in
  runs and sessions; a prober watches its endpoints; and private payloads move between its
  workspaces through a vault. The library models the parts of the Rust workspace that decide these
  things, one group of theories per part. Paths below are under \<open>src/crates\<close>.

  \<^bold>\<open>Shared theories.\<close> \<open>Rust_Prelude\<close> holds the machine integers (words, with checked and
  saturating arithmetic written out), the \<open>Result\<close> bind \<open>and_then\<close>, byte order of strings and
  \<open>BTreeMap\<close> as a sorted association list with its laws. \<open>Ordered_Containers\<close> states queues,
  finite maps and priority queues as locales and interprets them on the containers the code uses.
  \<open>Json_Text\<close> is a JSON value, and \<open>Rust_Text\<close> the string methods of the standard library the
  parsers use, on lists of bytes.

  \<^bold>\<open>Probes\<close> (\<open>proofstorm-prober\<close>). \<open>Probe_Protocol\<close> is \<open>lib.rs\<close>: messages, limits and the check a
  batch passes. \<open>Probe_Scheduler\<close> is \<open>scheduler.rs\<close>: \<open>scheduler\<close> is the struct with its cells,
  jobs in flight and ready queue, and \<open>register\<close>, \<open>dispatch\<close>, \<open>complete\<close>, \<open>observations\<close> and
  \<open>remove\<close> are its methods. A missing key of an indexed map is the value \<open>Panicked\<close>, so that no
  panic is a theorem. The loop of \<open>dispatch\<close> has the length of the ready queue as its bound, as in
  the code. \<open>Probe_Worker\<close> is \<open>worker.rs\<close>, where the network is a parameter. \<open>Probe_Invariants\<close>
  proves the invariant of a scheduler and that every operation keeps it; \<open>Probe_Properties\<close> proves
  custody of targets, bounds, freshness, isolation, fairness and the round trip with a worker, with
  the two refusals a worker may answer instead.

  \<^bold>\<open>Transfers\<close> (\<open>proofstorm-transfer\<close>). \<open>Transfer_Bytes\<close> models blobs and the bounded copy,
  \<open>Transfer_Vault\<close> the vault: its limits, rows, file names and authorization, and
  \<open>Transfer_Operations\<close> every operation of \<open>lib.rs\<close>. SHA-256 is a parameter; the clock and random
  bytes are arguments. An operation that saves is split where the code starts a transaction, so a
  row another process wrote in between is seen as such. \<open>Transfer_Steps\<close> and \<open>Transfer_History\<close>
  give what each operation does to one row, \<open>Transfer_Refinement\<close> an abstract machine of custody
  that every operation refines, and \<open>Transfer_Properties\<close> integrity, single use, authorization,
  budget and liveness. \<open>Transfer_Migration\<close> is \<open>migration.rs\<close>.

  \<^bold>\<open>Cell documents\<close> (\<open>proofstorm-core\<close>). \<open>Cell_Model\<close> is \<open>model.rs\<close>, \<open>Cell_Processors\<close> is
  \<open>processor_profile.rs\<close>, \<open>Cell_Issues\<close> the codes and paths of issues, \<open>Cell_Validation\<close> is
  \<open>validation.rs\<close> with \<open>cdk_validation.rs\<close> and \<open>processor_validation.rs\<close>, \<open>Cell_Stacks\<close> the Bark and
  Spark graphs, \<open>Cell_Native\<close> is \<open>native_settings.rs\<close>. \<open>Cell_Specification\<close> is a declarative reading
  of a valid document and \<open>Cell_Topology\<close> its graph lemmas; \<open>Cell_Properties\<close> shows that the checks
  accept exactly the documents of the specification, and what a valid document guarantees, down to
  the databases \<open>proofstorm-driver/src/spark.rs\<close> derives for Spark operators. The
  prose of an issue is not modelled; its code, path and severity are.

  \<^bold>\<open>Releases\<close> (\<open>proofstorm-core\<close>). \<open>Catalog_Model\<close> has the records of the catalog, of candidate
  builds and of locks (\<open>catalog.rs\<close>, \<open>candidate.rs\<close>, \<open>publication.rs\<close>). \<open>Catalog_Rules\<close> is the
  validation of \<open>catalog.rs\<close>, which turns a list of entries into a catalog (\<open>catalog_of\<close>), and the
  choice of a release for a component; \<open>Catalog_Release\<close> is \<open>release_policy.rs\<close>; and
  \<open>Catalog_Contracts\<close> is the registry of \<open>backend.rs\<close>, with the validation and the defaults of a
  configuration. \<open>Catalog_Properties\<close> gives a declarative specification of a catalog and shows that
  exactly such lists are accepted, in any order and without a preferred release where none is
  supported, what its rows say, and that the proposed window is the newest.

  \<^bold>\<open>Publication\<close> (\<open>proofstorm-core/src/publication.rs\<close>). \<open>Publication\<close> models the effective
  document, with its defaults written out and in canonical order, the compatibility of the releases
  at both ends of a link, and the lock with its digests. \<open>Publication_Properties\<close> shows that a
  published document is its own publication, that a lock pins the release of every component by an
  immutable image, and that links join releases that support each other. \<open>Store_Publication\<close> puts it
  into \<open>publish\<close> of the store, where drafts of the same content published against the same catalog are
  the same revision. \<open>Publication_Examples\<close> is a small catalog for the witnesses.

  \<^bold>\<open>Candidates\<close> (\<open>candidate.rs\<close>). \<open>Candidate_Builds\<close> models the sources a build may be requested
  from, the reading of a git bundle's header, the evidence of a build, and the merge of the entries
  of successful builds into the catalog (\<open>effective_catalog\<close>). \<open>Candidate_Lemmas\<close> has their canonical
  forms and \<open>Candidate_Properties\<close> shows that a source has one form for all its spellings, that a
  candidate stays within the contract of its base (a Nutshell mint gains two payment processors), and
  that merging adds a candidate's version only beside the version it is based on and never makes it a
  default.

  \<^bold>\<open>The store\<close> (\<open>proofstorm-store\<close>, with the records of \<open>proofstorm-core\<close> it saves). \<open>Store_Data\<close> is
  the database: one record whose fields are the tables, each a map by its primary key.
  \<open>Store_Ledger\<close> has how an operation is composed of statements and transactions (\<open>sop\<close>, \<open>stx\<close>),
  principals and grants, and idempotency receipts; \<open>Store_Drafts\<close> drafts and publication;
  \<open>Store_Cells\<close> is \<open>cells.rs\<close>, materialization and the binding of \<open>lifecycle.rs\<close>; \<open>Store_Runs\<close> is
  \<open>runs.rs\<close> and \<open>sessions.rs\<close>; \<open>Store_Updates\<close> is \<open>updates.rs\<close> with the planner of
  \<open>proofstorm-core/src/update.rs\<close>; \<open>Store_Operations\<close> the journal of operations and
  \<open>delegation.rs\<close>. A transaction either fails and changes nothing, or commits; between two
  transactions of one operation others may run. \<open>Store_Steps\<close> lists the atomic writes as a relation
  on stores, \<open>Store_Changes\<close> has one elimination rule for what a step does to each table,
  \<open>Store_Invariants\<close> the invariant of every reachable store, \<open>Store_Paths\<close> that every operation is
  a path of steps, and \<open>Store_Histories\<close> what no path can undo: locales for a property kept by each
  step give one for every path and are interpreted on the store. \<open>Store_Requests\<close> follows
  \<open>create_operation\<close> through its stages: what it enters before its admission, all a new operation
  writes, and how it is refused without access. \<open>Store_Properties\<close>, \<open>Store_Plans\<close> and \<open>Store_Sessions\<close>
  hold the guarantees; \<open>Store_Examples\<close> is a small laboratory whose stores the witnesses use.

  \<^bold>\<open>How the parts meet.\<close> \<open>publish\<close> of the store runs \<open>validate_cell\<close> of the documents and resolves
  them against the catalog, which successful candidates extend; updates plan over published
  documents; operations are admitted against the update state of their cell.

  \<^bold>\<open>Bounds and fuel.\<close> The only recursion with fuel in the store is \<open>track_target\<close>, the search for a
  session identifier that is not taken; \<open>track_session\<close> gives it one more than the number of
  sessions, and it is proved to find one. Walks of plan links are bounded by the number of
  components. Every other loop of the code runs over a collection and is structural. Integers have
  the width of the code: words where it computes with them, and an \<open>int\<close> with an explicit range
  check for a signed column of the database.

  \<^bold>\<open>Parameters.\<close> SHA-256 and the JSON texts (\<open>codec\<close>, \<open>recipes\<close>, the digests of publication), random
  bytes, the clock, the entries of the catalog and the contracts of the registry, the network a
  worker probes, and the parsing of the native command a private receive carries. No hypothesis is
  made on them except where a theorem states one.

  \<^bold>\<open>Not modelled.\<close> The purge of a deleted cell (\<open>purge_cell\<close> of \<open>lifecycle.rs\<close>), so what the store
  keeps forever is kept until a purge; the lifecycle file lock; the candidate build table with the receipts of
  \<open>candidate.build\<close>, previews, directories, onboarding and captured evidence of the store; upgrades of old database files. The
  entries of the catalog, the contracts of the backends and the recipes of candidate builds are
  tables of images, fields and scripts, and so are their JSON schemas. Patches of a document, network
  groups and quotes are editing helpers over the documents modelled here. The controller daemon, the
  Kubernetes adapter, the MCP server, drivers, executor, applications and interfaces are I/O over
  these parts.
\<close>

end
